(* ===== verification/Prelude.thy ===== *)
theory Prelude
  imports Main "HOL-Library.Word"
begin

text \<open>
  Types, buffers and lemma collections shared by every component.

  A C buffer is the list of its bytes.  \<open>write_at p bs buf\<close> is a store of the bytes
  \<open>bs\<close> at offset \<open>p\<close> (an assignment \<open>buf[p] = b\<close>, a \<open>memcpy\<close> or a
  \<open>memset\<close>), \<open>bytes_at p n buf\<close> reads \<open>n\<close> bytes at \<open>p\<close>.  A store past the end of the
  buffer is undefined in C; here it makes the list longer, so that a theorem
  \<open>length buf' = length buf\<close> states that no such store happens.
\<close>

unbundle bit_operations_syntax

type_synonym u8 = "8 word"
type_synonym u16 = "16 word"
type_synonym u32 = "32 word"
type_synonym bytes = "u8 list"

named_theorems flag_simps \<open>reading a flag after writing one\<close>
named_theorems frame_simps \<open>fields that an operation leaves alone\<close>
named_theorems bound_intros \<open>lengths and bounds of what an operation returns\<close>

subsection \<open>Buffers\<close>

definition write_at :: "nat \<Rightarrow> 'a list \<Rightarrow> 'a list \<Rightarrow> 'a list" where
  "write_at p bs buf = take p buf @ bs @ drop (p + length bs) buf"

definition bytes_at :: "nat \<Rightarrow> nat \<Rightarrow> 'a list \<Rightarrow> 'a list" where
  "bytes_at p n buf = take n (drop p buf)"

lemma length_write_at [simp]:
  "p + length bs \<le> length buf \<Longrightarrow> length (write_at p bs buf) = length buf"
  by (simp add: write_at_def)

lemma length_bytes_at [simp]: "p + n \<le> length buf \<Longrightarrow> length (bytes_at p n buf) = n"
  by (simp add: bytes_at_def)

lemma write_at_Nil [simp]: "write_at p [] buf = buf"
  by (simp add: write_at_def)

lemma bytes_at_write_at [simp]:
  "p \<le> length buf \<Longrightarrow> bytes_at p (length bs) (write_at p bs buf) = bs"
  by (simp add: bytes_at_def write_at_def)

lemma take_write_at_before [simp]:
  "n \<le> p \<Longrightarrow> p \<le> length buf \<Longrightarrow> take n (write_at p bs buf) = take n buf"
  by (simp add: write_at_def min_def)

lemma take_write_at_end:
  "p \<le> length buf \<Longrightarrow> n = p + length bs \<Longrightarrow> take n (write_at p bs buf) = take p buf @ bs"
  by (simp add: write_at_def)

lemma drop_write_at_after [simp]:
  "p + length bs \<le> n \<Longrightarrow> p + length bs \<le> length buf \<Longrightarrow>
   drop n (write_at p bs buf) = drop n buf"
  by (auto simp: write_at_def)

lemma write_at_write_at:
  "p + length as \<le> length buf \<Longrightarrow> q = p + length as \<Longrightarrow>
   write_at q bs (write_at p as buf) = write_at p (as @ bs) buf"
  by (auto simp: write_at_def ac_simps)

lemma nth_write_at:
  "p + length bs \<le> length buf \<Longrightarrow> i < length buf \<Longrightarrow>
   write_at p bs buf ! i = (if p \<le> i \<and> i < p + length bs then bs ! (i - p) else buf ! i)"
  by (auto simp: write_at_def nth_append)

lemma bytes_at_bytes_at:
  "a + n \<le> m \<Longrightarrow> bytes_at a n (bytes_at p m buf) = bytes_at (p + a) n buf"
  by (simp add: bytes_at_def drop_take min_def add.commute)

lemma bytes_at_take: "p + n \<le> m \<Longrightarrow> bytes_at p n (take m buf) = bytes_at p n buf"
  by (simp add: bytes_at_def drop_take min_def)

lemma bytes_at_append_exact [simp]:
  "bytes_at (length as) (length bs) (as @ bs @ cs) = bs"
  by (simp add: bytes_at_def)

lemma nth_bytes_at: "p + n \<le> length buf \<Longrightarrow> i < n \<Longrightarrow> bytes_at p n buf ! i = buf ! (p + i)"
  by (simp add: bytes_at_def)

lemma bytes_at_cong:
  "length a = length b \<Longrightarrow> p + n \<le> length a \<Longrightarrow> (\<And>i. p \<le> i \<Longrightarrow> i < p + n \<Longrightarrow> a ! i = b ! i)
   \<Longrightarrow> bytes_at p n a = bytes_at p n b"
  by (rule nth_equalityI) (auto simp: nth_bytes_at)

subsection \<open>Little facts on words\<close>

lemma unat_u8_less [simp]: "unat (b :: u8) < 256"
  using unsigned_less [of b] by simp

lemma unat_u16_less [simp]: "unat (b :: u16) < 65536"
  using unsigned_less [of b] by simp

lemma unat_u32_less [simp]: "unat (b :: u32) < 4294967296"
  using unsigned_less [of b] by simp

end
