(* ===== verification/Wire.thy ===== *)
theory Wire
  imports Prelude
begin

text \<open>
  The byte codecs of src/src/osdp_common.h: the \<open>BYTE_n\<close> macros and the little- and
  big-endian readers and writers.  A reader returns the value and the advanced position
  (the C function advances \<open>*pos\<close>), a writer the buffer and the advanced length.  The
  locale \<open>codec\<close> states what every client relies on (a read after a write gives the
  value back, nothing but the written bytes changes); the six codecs are its instances.
\<close>

definition BYTE_0 :: "u32 \<Rightarrow> u8" where
  "BYTE_0 x = ucast (x AND 0xFF)"

definition BYTE_1 :: "u32 \<Rightarrow> u8" where
  "BYTE_1 x = ucast (drop_bit 8 x AND 0xFF)"

definition BYTE_2 :: "u32 \<Rightarrow> u8" where
  "BYTE_2 x = ucast (drop_bit 16 x AND 0xFF)"

definition BYTE_3 :: "u32 \<Rightarrow> u8" where
  "BYTE_3 x = ucast (drop_bit 24 x AND 0xFF)"

definition BITS_TO_BYTES :: "u16 \<Rightarrow> nat" where
  "BITS_TO_BYTES n = (unat n + 7) div 8"

subsection \<open>Little-endian readers\<close>

definition bread_u16_le :: "bytes \<Rightarrow> nat \<Rightarrow> u16 \<times> nat" where
  "bread_u16_le buf pos =
     (let v = (ucast (buf ! pos) :: u32);
          v = v OR push_bit 8 (ucast (buf ! (pos + 1)))
      in (ucast v, pos + 2))"

definition bread_u24_le :: "bytes \<Rightarrow> nat \<Rightarrow> u32 \<times> nat" where
  "bread_u24_le buf pos =
     (let v = (ucast (buf ! pos) :: u32);
          v = v OR push_bit 8 (ucast (buf ! (pos + 1)));
          v = v OR push_bit 16 (ucast (buf ! (pos + 2)))
      in (v, pos + 3))"

definition bread_u32_le :: "bytes \<Rightarrow> nat \<Rightarrow> u32 \<times> nat" where
  "bread_u32_le buf pos =
     (let v = (ucast (buf ! pos) :: u32);
          v = v OR push_bit 8 (ucast (buf ! (pos + 1)));
          v = v OR push_bit 16 (ucast (buf ! (pos + 2)));
          v = v OR push_bit 24 (ucast (buf ! (pos + 3)))
      in (v, pos + 4))"

subsection \<open>Little-endian writers\<close>

definition bwrite_u8 :: "u8 \<Rightarrow> bytes \<Rightarrow> nat \<Rightarrow> bytes \<times> nat" where
  "bwrite_u8 val buf len = (write_at len [val] buf, len + 1)"

definition bwrite_u16_le :: "u16 \<Rightarrow> bytes \<Rightarrow> nat \<Rightarrow> bytes \<times> nat" where
  "bwrite_u16_le val buf len =
     (write_at len [BYTE_0 (ucast val), BYTE_1 (ucast val)] buf, len + 2)"

definition bwrite_u24_le :: "u32 \<Rightarrow> bytes \<Rightarrow> nat \<Rightarrow> bytes \<times> nat" where
  "bwrite_u24_le val buf len =
     (write_at len [BYTE_0 val, BYTE_1 val, BYTE_2 val] buf, len + 3)"

definition bwrite_u32_le :: "u32 \<Rightarrow> bytes \<Rightarrow> nat \<Rightarrow> bytes \<times> nat" where
  "bwrite_u32_le val buf len =
     (write_at len [BYTE_0 val, BYTE_1 val, BYTE_2 val, BYTE_3 val] buf, len + 4)"

subsection \<open>Big-endian readers and writers\<close>

definition bread_u16_be :: "bytes \<Rightarrow> nat \<Rightarrow> u16 \<times> nat" where
  "bread_u16_be buf pos =
     (let v = (push_bit 8 (ucast (buf ! pos)) :: u32);
          v = v OR ucast (buf ! (pos + 1))
      in (ucast v, pos + 2))"

definition bread_u24_be :: "bytes \<Rightarrow> nat \<Rightarrow> u32 \<times> nat" where
  "bread_u24_be buf pos =
     (let v = (push_bit 16 (ucast (buf ! pos)) :: u32);
          v = v OR push_bit 8 (ucast (buf ! (pos + 1)));
          v = v OR ucast (buf ! (pos + 2))
      in (v, pos + 3))"

definition bread_u32_be :: "bytes \<Rightarrow> nat \<Rightarrow> u32 \<times> nat" where
  "bread_u32_be buf pos =
     (let v = (push_bit 24 (ucast (buf ! pos)) :: u32);
          v = v OR push_bit 16 (ucast (buf ! (pos + 1)));
          v = v OR push_bit 8 (ucast (buf ! (pos + 2)));
          v = v OR ucast (buf ! (pos + 3))
      in (v, pos + 4))"

definition bwrite_u16_be :: "u16 \<Rightarrow> bytes \<Rightarrow> nat \<Rightarrow> bytes \<times> nat" where
  "bwrite_u16_be val buf len =
     (write_at len [BYTE_1 (ucast val), BYTE_0 (ucast val)] buf, len + 2)"

definition bwrite_u24_be :: "u32 \<Rightarrow> bytes \<Rightarrow> nat \<Rightarrow> bytes \<times> nat" where
  "bwrite_u24_be val buf len =
     (write_at len [BYTE_2 val, BYTE_1 val, BYTE_0 val] buf, len + 3)"

definition bwrite_u32_be :: "u32 \<Rightarrow> bytes \<Rightarrow> nat \<Rightarrow> bytes \<times> nat" where
  "bwrite_u32_be val buf len =
     (write_at len [BYTE_3 val, BYTE_2 val, BYTE_1 val, BYTE_0 val] buf, len + 4)"

subsection \<open>The interface\<close>

text \<open>
  \<open>enc\<close> is the wire image of a value; \<open>ok\<close> the values it can carry (a 24-bit field
  holds values below \<open>2 ^ 24\<close> only).
\<close>

locale codec =
  fixes enc :: "'v \<Rightarrow> bytes"
    and wr :: "'v \<Rightarrow> bytes \<Rightarrow> nat \<Rightarrow> bytes \<times> nat"
    and rd :: "bytes \<Rightarrow> nat \<Rightarrow> 'v \<times> nat"
    and size :: nat
    and ok :: "'v \<Rightarrow> bool"
  assumes enc_length: "length (enc v) = size"
    and wr_enc: "wr v buf p = (write_at p (enc v) buf, p + size)"
    and rd_enc: "ok v \<Longrightarrow> p + size \<le> length buf \<Longrightarrow> bytes_at p size buf = enc v \<Longrightarrow>
                 rd buf p = (v, p + size)"
begin

lemma wr_bounds:
  "p + size \<le> length buf \<Longrightarrow> wr v buf p = (buf', p') \<Longrightarrow>
   length buf' = length buf \<and> p' \<le> length buf'"
  by (auto simp: wr_enc enc_length)

lemma rd_wr:
  "ok v \<Longrightarrow> p + size \<le> length buf \<Longrightarrow> rd (fst (wr v buf p)) p = (v, p + size)"
  using bytes_at_write_at [of p buf "enc v"]
  by (intro rd_enc) (simp_all add: wr_enc enc_length)

lemma rd_prefix:
  "ok v \<Longrightarrow> rd (as @ enc v @ cs) (length as) = (v, length as + size)"
  using bytes_at_append_exact [of as "enc v" cs] by (intro rd_enc) (simp_all add: enc_length)

lemma wr_keeps_prefix: "p \<le> length buf \<Longrightarrow> take p (fst (wr v buf p)) = take p buf"
  by (simp add: wr_enc)

end

definition u16_le :: "u16 \<Rightarrow> bytes" where
  "u16_le v = [BYTE_0 (ucast v), BYTE_1 (ucast v)]"
definition u24_le :: "u32 \<Rightarrow> bytes" where
  "u24_le v = [BYTE_0 v, BYTE_1 v, BYTE_2 v]"
definition u32_le :: "u32 \<Rightarrow> bytes" where
  "u32_le v = [BYTE_0 v, BYTE_1 v, BYTE_2 v, BYTE_3 v]"
definition u16_be :: "u16 \<Rightarrow> bytes" where
  "u16_be v = [BYTE_1 (ucast v), BYTE_0 (ucast v)]"
definition u24_be :: "u32 \<Rightarrow> bytes" where
  "u24_be v = [BYTE_2 v, BYTE_1 v, BYTE_0 v]"
definition u32_be :: "u32 \<Rightarrow> bytes" where
  "u32_be v = [BYTE_3 v, BYTE_2 v, BYTE_1 v, BYTE_0 v]"


subsection \<open>The codecs are instances\<close>

lemma mask_255: "(0xFF :: u32) = mask 8"
  by (simp add: mask_eq_exp_minus_1)

lemma bit_BYTE:
  "bit (BYTE_0 x) n \<longleftrightarrow> n < 8 \<and> bit x n"
  "bit (BYTE_1 x) n \<longleftrightarrow> n < 8 \<and> bit x (n + 8)"
  "bit (BYTE_2 x) n \<longleftrightarrow> n < 8 \<and> bit x (n + 16)"
  "bit (BYTE_3 x) n \<longleftrightarrow> n < 8 \<and> bit x (n + 24)"
  by (auto simp: BYTE_0_def BYTE_1_def BYTE_2_def BYTE_3_def mask_255 bit_simps add.commute)

lemma u16_join:
  "(ucast ((ucast (BYTE_0 (ucast v)) :: u32) OR push_bit 8 (ucast (BYTE_1 (ucast v)))) :: u16) = v"
  by (rule bit_word_eqI) (auto simp: bit_simps bit_BYTE)

lemma u16_join_be:
  "(ucast (push_bit 8 (ucast (BYTE_1 (ucast v)) :: u32) OR ucast (BYTE_0 (ucast v))) :: u16) = v"
  by (rule bit_word_eqI) (auto simp: bit_simps bit_BYTE)

lemma u24_high: "unat (v :: u32) < 2 ^ 24 \<Longrightarrow> 24 \<le> n \<Longrightarrow> \<not> bit v n"
proof -
  assume v: "unat v < 2 ^ 24" and n: "24 \<le> n"
  have "v = take_bit 24 v"
    using v by (intro word_unat_eq_iff [THEN iffD2]) (simp add: unsigned_take_bit_eq take_bit_nat_eq_self)
  with n show "\<not> bit v n" by (metis bit_take_bit_iff not_less)
qed

lemma u24_join:
  assumes "unat v < 2 ^ 24"
  shows "((ucast (BYTE_0 v) :: u32) OR push_bit 8 (ucast (BYTE_1 v)))
           OR push_bit 16 (ucast (BYTE_2 v)) = v"
    and "(push_bit 16 (ucast (BYTE_2 v)) OR push_bit 8 (ucast (BYTE_1 v)))
           OR (ucast (BYTE_0 v) :: u32) = v"
  by (rule bit_word_eqI, rename_tac n, (case_tac "n < 8"; case_tac "n < 16"; case_tac "n < 24"),
      use u24_high [OF assms] in \<open>auto simp: bit_simps bit_BYTE not_less\<close>)+

lemma u32_join:
  "(((ucast (BYTE_0 v) :: u32) OR push_bit 8 (ucast (BYTE_1 v))) OR push_bit 16 (ucast (BYTE_2 v)))
     OR push_bit 24 (ucast (BYTE_3 v)) = v"
  "((push_bit 24 (ucast (BYTE_3 v)) OR push_bit 16 (ucast (BYTE_2 v))) OR push_bit 8 (ucast (BYTE_1 v)))
     OR (ucast (BYTE_0 v) :: u32) = v"
  by (rule bit_word_eqI, rename_tac n, (case_tac "n < 8"; case_tac "n < 16"; case_tac "n < 24"),
      auto simp: bit_simps bit_BYTE not_less)+

text \<open>A field read off the buffer byte by byte.\<close>

lemma bytes_at_nth:
  "bytes_at p n buf = bs \<Longrightarrow> p + n \<le> length buf \<Longrightarrow> i < n \<Longrightarrow> buf ! (p + i) = bs ! i"
  by (auto simp: bytes_at_def)

lemma bytes_at_2D:
  assumes "p + 2 \<le> length buf" "bytes_at p 2 buf = [a, b]"
  shows "buf ! p = a" "buf ! (p + 1) = b" "buf ! Suc p = b"
  using bytes_at_nth [OF assms(2,1), of 0] bytes_at_nth [OF assms(2,1), of 1] by simp_all

lemma bytes_at_3D:
  assumes "p + 3 \<le> length buf" "bytes_at p 3 buf = [a, b, c]"
  shows "buf ! p = a" "buf ! (p + 1) = b" "buf ! (p + 2) = c" "buf ! Suc p = b" "buf ! Suc (Suc p) = c"
  using bytes_at_nth [OF assms(2,1), of 0] bytes_at_nth [OF assms(2,1), of 1]
    bytes_at_nth [OF assms(2,1), of 2] by simp_all

lemma bytes_at_4D:
  assumes "p + 4 \<le> length buf" "bytes_at p 4 buf = [a, b, c, d]"
  shows "buf ! p = a" "buf ! (p + 1) = b" "buf ! (p + 2) = c" "buf ! (p + 3) = d"
    "buf ! Suc p = b" "buf ! Suc (Suc p) = c" "buf ! Suc (Suc (Suc p)) = d"
  using bytes_at_nth [OF assms(2,1), of 0] bytes_at_nth [OF assms(2,1), of 1]
    bytes_at_nth [OF assms(2,1), of 2] bytes_at_nth [OF assms(2,1), of 3]
  by (simp_all add: eval_nat_numeral)

interpretation le16: codec u16_le bwrite_u16_le bread_u16_le 2 "\<lambda>_. True"
  by unfold_locales
    (auto simp: u16_le_def bwrite_u16_le_def bread_u16_le_def bytes_at_2D u16_join Let_def)

interpretation le24: codec u24_le bwrite_u24_le bread_u24_le 3 "\<lambda>v. unat v < 2 ^ 24"
  by unfold_locales
    (auto simp: u24_le_def bwrite_u24_le_def bread_u24_le_def bytes_at_3D u24_join Let_def)

interpretation le32: codec u32_le bwrite_u32_le bread_u32_le 4 "\<lambda>_. True"
  by unfold_locales
    (auto simp: u32_le_def bwrite_u32_le_def bread_u32_le_def bytes_at_4D u32_join Let_def)

interpretation be16: codec u16_be bwrite_u16_be bread_u16_be 2 "\<lambda>_. True"
  by unfold_locales
    (auto simp: u16_be_def bwrite_u16_be_def bread_u16_be_def bytes_at_2D u16_join_be Let_def)

interpretation be24: codec u24_be bwrite_u24_be bread_u24_be 3 "\<lambda>v. unat v < 2 ^ 24"
  by unfold_locales
    (auto simp: u24_be_def bwrite_u24_be_def bread_u24_be_def bytes_at_3D u24_join Let_def)

interpretation be32: codec u32_be bwrite_u32_be bread_u32_be 4 "\<lambda>_. True"
  by unfold_locales
    (auto simp: u32_be_def bwrite_u32_be_def bread_u32_be_def bytes_at_4D u32_join Let_def)

end
