(* ===== verification/Multipart.thy ===== *)
theory Multipart
  imports Wire
begin

text \<open>
  The multi-part transfer engine of src/src/osdp_multipart.c: the header codec, the sender
  (\<open>osdp_mp_tx_*\<close>), the receiver (\<open>osdp_mp_rx_*\<close>) and the life cycle shared by file
  transfer, smart card and biometric messages.

  The data plane (\<open>struct osdp_mp_ops\<close>) is either a buffer owned by the engine's user
  (\<open>osdp_mp_bind_buffer\<close>) or a pair of hooks (\<open>osdp_mp_bind_ops\<close>); hooks act on a
  state \<open>'w\<close>, the application's, which the engine passes through.  An event callback is
  the list of progress records it received: every engine function that emits does so as its
  last action, and returns what it emitted.
\<close>

datatype osdp_mp_width = OSDP_MP_W16 | OSDP_MP_W32

datatype osdp_mp_state = OSDP_MP_IDLE | OSDP_MP_INPROG | OSDP_MP_WAIT | OSDP_MP_DONE

datatype osdp_mp_rc =
  OSDP_MP_RC_MORE | OSDP_MP_RC_DONE | OSDP_MP_RC_EARLY_TERM | OSDP_MP_RC_ERR | OSDP_MP_RC_RETRY

datatype osdp_mp_action = OSDP_MP_ACT_DATA | OSDP_MP_ACT_WAIT | OSDP_MP_ACT_DONE | OSDP_MP_ACT_ABORT

datatype osdp_mp_phase = OSDP_MP_PHASE_START | OSDP_MP_PHASE_PROGRESS | OSDP_MP_PHASE_DONE

text \<open>Return values of a write hook.\<close>

definition OSDP_MP_RX_OK :: int where "OSDP_MP_RX_OK = 0"
definition OSDP_MP_RX_RETRY :: int where "OSDP_MP_RX_RETRY = -1"
definition OSDP_MP_RX_ABORT :: int where "OSDP_MP_RX_ABORT = -2"

definition OSDP_MP_SC_RESERVE :: int where "OSDP_MP_SC_RESERVE = 16"

text \<open>
  \<open>ops_read size offset\<close> returns the hook's return value and the bytes it stored;
  \<open>ops_write src size offset\<close> its status.  \<open>MP_OPS_NULL\<close> is the cleared structure that
  \<open>osdp_mp_reset\<close> leaves; every user binds a data plane before it starts a transfer.
\<close>

datatype 'w osdp_mp_ops =
    MP_OPS_NULL
  | MP_OPS_BUFFER
  | MP_OPS_HOOKS (ops_read: "u32 \<Rightarrow> u32 \<Rightarrow> 'w \<Rightarrow> int \<times> bytes \<times> 'w")
                 (ops_write: "bytes \<Rightarrow> u32 \<Rightarrow> u32 \<Rightarrow> 'w \<Rightarrow> int \<times> 'w")

record osdp_mp_progress =
  mpp_phase :: osdp_mp_phase
  mpp_msg_type :: int
  mpp_object_id :: int
  mpp_total :: u32
  mpp_offset :: u32
  mpp_outcome :: int

record 'w osdp_multipart =
  mp_state :: osdp_mp_state
  mp_width :: osdp_mp_width
  mp_total :: u32
  mp_offset :: u32
  mp_last_len :: int
  mp_last_off :: u32
  mp_ops :: "'w osdp_mp_ops"
  mp_buf :: "bytes option"
  mp_buf_len :: u32
  mp_event_cb :: bool
  mp_msg_type :: int
  mp_object_id :: int
  mp_done_outcome :: int
  mp_start_emitted :: bool
  mp_cancel_req :: bool
  mp_wait_time_ms :: u32
  mp_tstamp :: int

definition OSDP_MP_HDR_SIZE :: "osdp_mp_width \<Rightarrow> nat" where
  "OSDP_MP_HDR_SIZE w = (case w of OSDP_MP_W16 \<Rightarrow> 2 * 2 + 2 | OSDP_MP_W32 \<Rightarrow> 2 * 4 + 2)"

subsection \<open>Header codec\<close>

definition mp_emit :: "'w osdp_multipart \<Rightarrow> osdp_mp_phase \<Rightarrow> osdp_mp_progress list" where
  "mp_emit mp phase =
     (if \<not> mp_event_cb mp then []
      else [\<lparr>mpp_phase = phase, mpp_msg_type = mp_msg_type mp, mpp_object_id = mp_object_id mp,
             mpp_total = mp_total mp, mpp_offset = mp_offset mp,
             mpp_outcome = mp_done_outcome mp\<rparr>])"

definition mp_write_wide :: "osdp_mp_width \<Rightarrow> u32 \<Rightarrow> bytes \<Rightarrow> nat \<Rightarrow> bytes \<times> nat" where
  "mp_write_wide w val buf len =
     (if w = OSDP_MP_W32 then bwrite_u32_le val buf len
      else bwrite_u16_le (ucast val) buf len)"

definition mp_read_wide :: "osdp_mp_width \<Rightarrow> bytes \<Rightarrow> nat \<Rightarrow> u32 \<times> nat" where
  "mp_read_wide w buf pos =
     (if w = OSDP_MP_W32 then bread_u32_le buf pos
      else (let (v, pos') = bread_u16_le buf pos in (ucast v, pos')))"

definition osdp_mp_hdr_write ::
  "osdp_mp_width \<Rightarrow> u32 \<Rightarrow> u32 \<Rightarrow> u16 \<Rightarrow> bytes \<Rightarrow> bytes \<times> nat" where
  "osdp_mp_hdr_write w tot offset data_len buf =
     (let (buf, len) = mp_write_wide w tot buf 0;
          (buf, len) = mp_write_wide w offset buf len
      in bwrite_u16_le data_len buf len)"

text \<open>\<open>None\<close> is the error return -1; otherwise total, offset, data length and position.\<close>

definition osdp_mp_hdr_read ::
  "osdp_mp_width \<Rightarrow> bytes \<Rightarrow> int \<Rightarrow> (u32 \<times> u32 \<times> u16 \<times> nat) option" where
  "osdp_mp_hdr_read w buf len =
     (if len < int (OSDP_MP_HDR_SIZE w) then None
      else let (tot, pos) = mp_read_wide w buf 0;
               (offset, pos) = mp_read_wide w buf pos;
               (data_len, pos) = bread_u16_le buf pos
           in Some (tot, offset, data_len, pos))"

subsection \<open>The internal memory data plane\<close>

definition mp_buf_read :: "'w osdp_multipart \<Rightarrow> u32 \<Rightarrow> u32 \<Rightarrow> int \<times> bytes" where
  "mp_buf_read mp sz offset =
     (if offset \<ge> mp_buf_len mp then (0, [])
      else let sz = (if sz > mp_buf_len mp - offset then mp_buf_len mp - offset else sz)
           in (uint sz, bytes_at (unat offset) (unat sz) (the (mp_buf mp))))"

definition mp_buf_write ::
  "'w osdp_multipart \<Rightarrow> bytes \<Rightarrow> u32 \<Rightarrow> u32 \<Rightarrow> int \<times> 'w osdp_multipart" where
  "mp_buf_write mp src sz offset =
     (if offset \<ge> mp_buf_len mp \<or> sz > mp_buf_len mp - offset then (OSDP_MP_RX_ABORT, mp)
      else (OSDP_MP_RX_OK,
            mp\<lparr>mp_buf := Some (write_at (unat offset) (take (unat sz) src) (the (mp_buf mp)))\<rparr>))"

text \<open>Calls through \<open>mp->ops\<close>.\<close>

definition mp_do_read :: "'w osdp_multipart \<Rightarrow> u32 \<Rightarrow> u32 \<Rightarrow> 'w \<Rightarrow> int \<times> bytes \<times> 'w" where
  "mp_do_read mp sz offset w =
     (case mp_ops mp of
        MP_OPS_NULL \<Rightarrow> (-1, [], w)
      | MP_OPS_BUFFER \<Rightarrow> (let (n, bs) = mp_buf_read mp sz offset in (n, bs, w))
      | MP_OPS_HOOKS rd _ \<Rightarrow> rd sz offset w)"

definition mp_do_write ::
  "'w osdp_multipart \<Rightarrow> bytes \<Rightarrow> u32 \<Rightarrow> u32 \<Rightarrow> 'w \<Rightarrow> int \<times> 'w osdp_multipart \<times> 'w" where
  "mp_do_write mp src sz offset w =
     (case mp_ops mp of
        MP_OPS_NULL \<Rightarrow> (OSDP_MP_RX_ABORT, mp, w)
      | MP_OPS_BUFFER \<Rightarrow> (let (st, mp') = mp_buf_write mp src sz offset in (st, mp', w))
      | MP_OPS_HOOKS _ wr \<Rightarrow> (let (st, w') = wr src sz offset w in (st, mp, w')))"

subsection \<open>Life cycle and binding\<close>

definition osdp_mp_reset :: "'w osdp_multipart" where
  "osdp_mp_reset = \<lparr>mp_state = OSDP_MP_IDLE, mp_width = OSDP_MP_W16, mp_total = 0, mp_offset = 0,
     mp_last_len = 0, mp_last_off = 0, mp_ops = MP_OPS_NULL, mp_buf = None, mp_buf_len = 0,
     mp_event_cb = False, mp_msg_type = 0, mp_object_id = 0, mp_done_outcome = 0,
     mp_start_emitted = False, mp_cancel_req = False, mp_wait_time_ms = 0, mp_tstamp = 0\<rparr>"

definition osdp_mp_request_cancel :: "'w osdp_multipart \<Rightarrow> 'w osdp_multipart" where
  "osdp_mp_request_cancel mp = mp\<lparr>mp_cancel_req := True\<rparr>"

definition osdp_mp_cancel_requested :: "'w osdp_multipart \<Rightarrow> bool" where
  "osdp_mp_cancel_requested mp = mp_cancel_req mp"

definition osdp_mp_bind_ops :: "'w osdp_multipart \<Rightarrow> 'w osdp_mp_ops \<Rightarrow> 'w osdp_multipart" where
  "osdp_mp_bind_ops mp ops = mp\<lparr>mp_ops := ops, mp_buf := None, mp_buf_len := 0\<rparr>"

definition osdp_mp_bind_buffer :: "'w osdp_multipart \<Rightarrow> bytes \<Rightarrow> u32 \<Rightarrow> 'w osdp_multipart" where
  "osdp_mp_bind_buffer mp buf len =
     mp\<lparr>mp_buf := Some buf, mp_buf_len := len, mp_ops := MP_OPS_BUFFER\<rparr>"

definition osdp_mp_is_active :: "'w osdp_multipart \<Rightarrow> bool" where
  "osdp_mp_is_active mp \<longleftrightarrow> mp_state mp = OSDP_MP_INPROG \<or> mp_state mp = OSDP_MP_WAIT"

definition osdp_mp_set_event_cb :: "'w osdp_multipart \<Rightarrow> bool \<Rightarrow> 'w osdp_multipart" where
  "osdp_mp_set_event_cb mp fn = mp\<lparr>mp_event_cb := fn\<rparr>"

definition osdp_mp_set_identity :: "'w osdp_multipart \<Rightarrow> int \<Rightarrow> int \<Rightarrow> 'w osdp_multipart" where
  "osdp_mp_set_identity mp msg_type object_id =
     mp\<lparr>mp_msg_type := msg_type, mp_object_id := object_id\<rparr>"

text \<open>\<open>now\<close> is the value of \<open>osdp_millis_now()\<close>.\<close>

definition osdp_mp_set_wait :: "int \<Rightarrow> 'w osdp_multipart \<Rightarrow> u32 \<Rightarrow> 'w osdp_multipart" where
  "osdp_mp_set_wait now mp ms = mp\<lparr>mp_wait_time_ms := ms, mp_tstamp := now\<rparr>"

definition osdp_mp_park :: "'w osdp_multipart \<Rightarrow> 'w osdp_multipart" where
  "osdp_mp_park mp = mp\<lparr>mp_state := OSDP_MP_WAIT\<rparr>"

definition osdp_mp_emit_start ::
  "'w osdp_multipart \<Rightarrow> 'w osdp_multipart \<times> osdp_mp_progress list" where
  "osdp_mp_emit_start mp =
     (if \<not> mp_start_emitted mp
      then let mp = mp\<lparr>mp_start_emitted := True\<rparr> in (mp, mp_emit mp OSDP_MP_PHASE_START)
      else (mp, []))"

definition osdp_mp_finish ::
  "'w osdp_multipart \<Rightarrow> int \<Rightarrow> 'w osdp_multipart \<times> osdp_mp_progress list" where
  "osdp_mp_finish mp outcome =
     (if mp_state mp = OSDP_MP_DONE \<or> mp_state mp = OSDP_MP_IDLE then (mp, [])
      else let mp = mp\<lparr>mp_done_outcome := outcome, mp_state := OSDP_MP_DONE\<rparr>
           in (mp, mp_emit mp OSDP_MP_PHASE_DONE))"

subsection \<open>Sender\<close>

text \<open>\<open>None\<close> is the error return -1.\<close>

definition osdp_mp_tx_init ::
  "'w osdp_multipart \<Rightarrow> u32 \<Rightarrow> osdp_mp_width \<Rightarrow> 'w osdp_multipart option" where
  "osdp_mp_tx_init mp tot w =
     (if tot = 0 then None
      else Some (mp\<lparr>mp_width := w, mp_total := tot, mp_offset := 0, mp_last_len := 0,
                    mp_start_emitted := False, mp_state := OSDP_MP_INPROG\<rparr>))"

text \<open>
  The return value, the packet buffer, the engine and the hook state.  \<open>buf\<close> is the
  packet space, \<open>max_len\<close> the number of its bytes the engine may fill.
\<close>

definition osdp_mp_tx_build_ex ::
  "'w osdp_multipart \<Rightarrow> bytes \<Rightarrow> int \<Rightarrow> bytes \<Rightarrow> 'w
   \<Rightarrow> int \<times> bytes \<times> 'w osdp_multipart \<times> 'w" where
  "osdp_mp_tx_build_ex mp buf max_len pfx w =
     (let hdr = OSDP_MP_HDR_SIZE (mp_width mp);
          skip = (if mp_offset mp = 0 then length pfx else 0);
          avail = max_len - int hdr - int skip;
          remaining = mp_total mp - mp_offset mp
      in if avail < 0 \<or> (avail = 0 \<and> remaining > 0) then (-1, buf, mp, w)
         else
           let avail = (if (word_of_int avail :: u32) > remaining then uint remaining else avail);
               (n, data, w) = mp_do_read mp (word_of_int avail) (mp_offset mp) w;
               buf = write_at (hdr + skip) data buf
           in if n < 0 then (-1, buf, mp, w)
              else if n = 0 then
                let mp = mp\<lparr>mp_last_len := 0, mp_state := OSDP_MP_WAIT\<rparr>;
                    (buf, _) = osdp_mp_hdr_write (mp_width mp) (mp_total mp) (mp_offset mp) 0 buf
                in (int hdr, buf, mp, w)
              else
                let buf = write_at hdr (take skip pfx) buf;
                    mp = mp\<lparr>mp_last_len := n, mp_state := OSDP_MP_INPROG\<rparr>;
                    (buf, _) = osdp_mp_hdr_write (mp_width mp) (mp_total mp) (mp_offset mp)
                                 (word_of_int n) buf
                in (int hdr + int skip + n, buf, mp, w))"

definition osdp_mp_tx_build ::
  "'w osdp_multipart \<Rightarrow> bytes \<Rightarrow> int \<Rightarrow> 'w \<Rightarrow> int \<times> bytes \<times> 'w osdp_multipart \<times> 'w" where
  "osdp_mp_tx_build mp buf max_len w = osdp_mp_tx_build_ex mp buf max_len [] w"

definition osdp_mp_tx_build_idle ::
  "'w osdp_multipart \<Rightarrow> bytes \<Rightarrow> nat \<times> bytes \<times> 'w osdp_multipart" where
  "osdp_mp_tx_build_idle mp buf =
     (let mp = mp\<lparr>mp_last_len := 0\<rparr>;
          (buf, len) = osdp_mp_hdr_write (mp_width mp) (mp_total mp) (mp_offset mp) 0 buf
      in (len, buf, mp))"

definition osdp_mp_tx_commit ::
  "'w osdp_multipart \<Rightarrow> 'w osdp_multipart \<times> osdp_mp_progress list" where
  "osdp_mp_tx_commit mp =
     (let advanced = mp_last_len mp > 0;
          mp = mp\<lparr>mp_offset := mp_offset mp + word_of_int (mp_last_len mp), mp_last_len := 0\<rparr>
      in (mp, if advanced \<and> mp_offset mp < mp_total mp then mp_emit mp OSDP_MP_PHASE_PROGRESS
              else []))"

definition osdp_mp_tx_next :: "int \<Rightarrow> 'w osdp_multipart \<Rightarrow> osdp_mp_action" where
  "osdp_mp_tx_next now mp =
     (if \<not> osdp_mp_is_active mp then OSDP_MP_ACT_DONE
      else if mp_wait_time_ms mp \<noteq> 0 \<and> now - mp_tstamp mp < uint (mp_wait_time_ms mp)
      then OSDP_MP_ACT_WAIT
      else OSDP_MP_ACT_DATA)"

subsection \<open>Receiver\<close>

definition osdp_mp_rx_init ::
  "'w osdp_multipart \<Rightarrow> osdp_mp_width \<Rightarrow> u32 \<Rightarrow> 'w osdp_multipart" where
  "osdp_mp_rx_init mp w tot =
     mp\<lparr>mp_width := w, mp_total := tot, mp_offset := 0, mp_last_len := 0, mp_last_off := 0,
        mp_start_emitted := False, mp_state := OSDP_MP_INPROG\<rparr>"

text \<open>
  The verdict, the prefix buffer (\<open>pfx\<close>, of \<open>pfx_len\<close> bytes), the engine and the hook
  state.  \<open>len\<close> is the number of received bytes in \<open>buf\<close>.
\<close>

definition osdp_mp_rx_consume_ex ::
  "'w osdp_multipart \<Rightarrow> bytes \<Rightarrow> int \<Rightarrow> bytes \<Rightarrow> 'w
   \<Rightarrow> osdp_mp_rc \<times> bytes \<times> 'w osdp_multipart \<times> 'w" where
  "osdp_mp_rx_consume_ex mp buf len pfx w =
     (let hdr = OSDP_MP_HDR_SIZE (mp_width mp)
      in case osdp_mp_hdr_read (mp_width mp) buf len of
           None \<Rightarrow> (OSDP_MP_RC_ERR, pfx, mp, w)
         | Some (tot, off, dlen, _) \<Rightarrow>
     (let skip = (if off = 0 then length pfx else 0)
      in if len - int hdr - int skip < uint dlen then (OSDP_MP_RC_ERR, pfx, mp, w)
         else
     let pfx = (if skip > 0 then bytes_at hdr skip buf else pfx);
         fresh = (mp_offset mp = 0 \<and> mp_last_len mp = 0 \<and> mp_total mp = 0);
         cur_total = (if fresh then tot else mp_total mp)
      in if \<not> fresh \<and> tot \<noteq> mp_total mp then (OSDP_MP_RC_ERR, pfx, mp, w)
         else if mp_buf mp \<noteq> None \<and> cur_total > mp_buf_len mp then (OSDP_MP_RC_ERR, pfx, mp, w)
         else if off \<ge> cur_total \<and> dlen = 0
         then (OSDP_MP_RC_EARLY_TERM, pfx, mp\<lparr>mp_total := cur_total\<rparr>, w)
         else if off > mp_offset mp then (OSDP_MP_RC_ERR, pfx, mp, w)
         else if ucast dlen > cur_total - off then (OSDP_MP_RC_ERR, pfx, mp, w)
         else
     let (st, mp, w) =
           (if dlen > 0
            then mp_do_write mp (bytes_at (hdr + skip) (unat dlen) buf) (ucast dlen) off w
            else (OSDP_MP_RX_OK, mp, w))
      in if st = OSDP_MP_RX_RETRY then (OSDP_MP_RC_RETRY, pfx, mp, w)
         else if st \<noteq> OSDP_MP_RX_OK then (OSDP_MP_RC_ERR, pfx, mp, w)
         else
     let mp = mp\<lparr>mp_total := cur_total, mp_last_off := off, mp_last_len := uint dlen\<rparr>
      in (if ucast dlen \<ge> mp_total mp - off then OSDP_MP_RC_DONE else OSDP_MP_RC_MORE,
          pfx, mp, w)))"

definition osdp_mp_rx_consume ::
  "'w osdp_multipart \<Rightarrow> bytes \<Rightarrow> int \<Rightarrow> 'w \<Rightarrow> osdp_mp_rc \<times> 'w osdp_multipart \<times> 'w" where
  "osdp_mp_rx_consume mp buf len w =
     (let (rc, _, mp, w) = osdp_mp_rx_consume_ex mp buf len [] w in (rc, mp, w))"

definition osdp_mp_rx_commit ::
  "'w osdp_multipart \<Rightarrow> 'w osdp_multipart \<times> osdp_mp_progress list" where
  "osdp_mp_rx_commit mp =
     (let end_off = mp_last_off mp + word_of_int (mp_last_len mp);
          advanced = mp_last_len mp > 0 \<and> end_off > mp_offset mp;
          mp = (if end_off > mp_offset mp then mp\<lparr>mp_offset := end_off\<rparr> else mp)\<lparr>mp_last_len := 0\<rparr>
      in (mp, if advanced \<and> mp_offset mp < mp_total mp then mp_emit mp OSDP_MP_PHASE_PROGRESS
              else []))"


subsection \<open>Header lemmas\<close>

lemma HDR_SIZE_pos [simp]: "0 < OSDP_MP_HDR_SIZE w"
  by (cases w) (simp_all add: OSDP_MP_HDR_SIZE_def)

text \<open>The wire image of a header, and the values a field of width \<open>w\<close> can carry.\<close>

definition mp_wide :: "osdp_mp_width \<Rightarrow> u32 \<Rightarrow> bytes" where
  "mp_wide w v = (if w = OSDP_MP_W32 then u32_le v else u16_le (ucast v))"

definition mp_hdr :: "osdp_mp_width \<Rightarrow> u32 \<Rightarrow> u32 \<Rightarrow> u16 \<Rightarrow> bytes" where
  "mp_hdr w tot off dlen = mp_wide w tot @ mp_wide w off @ u16_le dlen"

definition mp_fits :: "osdp_mp_width \<Rightarrow> u32 \<Rightarrow> bool" where
  "mp_fits w v \<longleftrightarrow> w = OSDP_MP_W32 \<or> unat v < 65536"

lemma length_mp_wide: "length (mp_wide w v) = (if w = OSDP_MP_W32 then 4 else 2)"
  by (simp add: mp_wide_def le32.enc_length le16.enc_length)

lemma length_mp_hdr [simp]: "length (mp_hdr w tot off dlen) = OSDP_MP_HDR_SIZE w"
  by (cases w) (simp_all add: mp_hdr_def length_mp_wide le16.enc_length OSDP_MP_HDR_SIZE_def)

lemma mp_write_wide_at:
  "mp_write_wide w v buf p = (write_at p (mp_wide w v) buf, p + length (mp_wide w v))"
  by (cases w) (simp_all add: mp_write_wide_def mp_wide_def le32.wr_enc le16.wr_enc
      le32.enc_length le16.enc_length)

lemma u16_u32_id: "unat (v :: u32) < 65536 \<Longrightarrow> ucast (ucast v :: u16) = v"
  by (rule word_unat_eq_iff [THEN iffD2]) (simp add: unsigned_ucast_eq unsigned_take_bit_eq take_bit_nat_eq_self)

lemma mp_read_wide_enc:
  assumes "mp_fits w v" "length as = p"
  shows "mp_read_wide w (as @ mp_wide w v @ cs) p = (v, p + length (mp_wide w v))"
proof (cases w)
  case OSDP_MP_W16
  then show ?thesis
    using assms le16.rd_prefix [where v = "ucast v" and as = as and cs = cs]
    by (simp add: mp_read_wide_def mp_wide_def mp_fits_def le16.enc_length u16_u32_id)
next
  case OSDP_MP_W32
  then show ?thesis
    using assms le32.rd_prefix [where v = v and as = as and cs = cs]
    by (simp add: mp_read_wide_def mp_wide_def le32.enc_length)
qed

lemma mp_hdr_write_at:
  "OSDP_MP_HDR_SIZE w \<le> length buf \<Longrightarrow>
   osdp_mp_hdr_write w tot off dlen buf = (write_at 0 (mp_hdr w tot off dlen) buf, OSDP_MP_HDR_SIZE w)"
  by (cases w) (simp_all add: osdp_mp_hdr_write_def mp_write_wide_at le16.wr_enc write_at_write_at
      length_mp_wide mp_hdr_def OSDP_MP_HDR_SIZE_def)

lemma mp_hdr_read_enc:
  assumes "mp_fits w tot" "mp_fits w off" "int (OSDP_MP_HDR_SIZE w) \<le> len"
  shows "osdp_mp_hdr_read w (mp_hdr w tot off dlen @ rest) len =
         Some (tot, off, dlen, OSDP_MP_HDR_SIZE w)"
proof -
  let ?l = "length (mp_wide w tot)"
  have 1: "mp_read_wide w (mp_hdr w tot off dlen @ rest) 0 = (tot, ?l)"
    using mp_read_wide_enc [OF assms(1), of "[]" 0] by (simp add: mp_hdr_def)
  have 2: "mp_read_wide w (mp_hdr w tot off dlen @ rest) ?l = (off, ?l + length (mp_wide w off))"
    using mp_read_wide_enc [OF assms(2), of "mp_wide w tot" ?l] by (simp add: mp_hdr_def)
  have 3: "bread_u16_le (mp_hdr w tot off dlen @ rest) (?l + length (mp_wide w off)) =
           (dlen, OSDP_MP_HDR_SIZE w)"
    using le16.rd_prefix [where v = dlen and as = "mp_wide w tot @ mp_wide w off" and cs = rest]
    by (cases w) (simp_all add: mp_hdr_def length_mp_wide OSDP_MP_HDR_SIZE_def)
  show ?thesis
    using assms(3) by (simp add: osdp_mp_hdr_read_def 1 2 3)
qed

text \<open>
  C17. The multi-part header survives the wire: writing it stays inside a buffer that has
  room for it, touches nothing behind it, and reading it back gives the same total, offset
  and data length, for every value that the field width carries.
\<close>

theorem mp_header_roundtrip:
  assumes "OSDP_MP_HDR_SIZE w \<le> length buf" "mp_fits w tot" "mp_fits w off"
    and "osdp_mp_hdr_write w tot off dlen buf = (buf', n)"
  shows "n = OSDP_MP_HDR_SIZE w \<and> length buf' = length buf \<and> drop n buf' = drop n buf \<and>
         osdp_mp_hdr_read w buf' (int n) = Some (tot, off, dlen, n)"
  using assms mp_hdr_read_enc [of w tot off "int n" dlen "drop n buf"]
  by (auto simp: mp_hdr_write_at) (simp add: write_at_def)

theorem mp_header_roundtrip_witness:
  "osdp_mp_hdr_read OSDP_MP_W16 (fst (osdp_mp_hdr_write OSDP_MP_W16 700 300 16 (replicate 8 0))) 6
     = Some (700, 300, 16, 6)"
proof -
  obtain buf' n where w: "osdp_mp_hdr_write OSDP_MP_W16 700 300 16 (replicate 8 0) = (buf', n)"
    by (metis surj_pair)
  have "n = OSDP_MP_HDR_SIZE OSDP_MP_W16 \<and> length buf' = length (replicate 8 (0 :: u8)) \<and>
        drop n buf' = drop n (replicate 8 0) \<and>
        osdp_mp_hdr_read OSDP_MP_W16 buf' (int n) = Some (700, 300, 16, n)"
    by (rule mp_header_roundtrip [OF _ _ _ w]) (simp_all add: OSDP_MP_HDR_SIZE_def mp_fits_def)
  then have n: "n = OSDP_MP_HDR_SIZE OSDP_MP_W16"
    and rd: "osdp_mp_hdr_read OSDP_MP_W16 buf' (int n) = Some (700, 300, 16, n)"
    by blast+
  show ?thesis using rd unfolding n w by (simp add: OSDP_MP_HDR_SIZE_def)
qed

subsection \<open>The receiver never leaves its buffer\<close>

text \<open>
  What holds between two frames: the committed offset lies within the declared total, and so
  does a chunk that is stored but not yet committed.
\<close>

definition mp_rx_ok :: "'w osdp_multipart \<Rightarrow> bool" where
  "mp_rx_ok mp \<longleftrightarrow> mp_offset mp \<le> mp_total mp \<and> mp_last_off mp \<le> mp_offset mp \<and>
     (mp_last_len mp = 0 \<or>
      0 < mp_last_len mp \<and>
      uint (mp_last_off mp) + mp_last_len mp \<le> uint (mp_total mp))"

definition mp_buf_ok :: "'w osdp_multipart \<Rightarrow> bool" where
  "mp_buf_ok mp \<longleftrightarrow> mp_ops mp = MP_OPS_BUFFER \<and>
     (\<exists>b. mp_buf mp = Some b \<and> unat (mp_buf_len mp) \<le> length b)"

lemma uint_u16_less: "uint (d :: u16) < 2 ^ 32"
  using uint_lt2p [of d] by simp

lemma ucast_u16_le_diff:
  fixes t off :: u32 and d :: u16
  assumes "off \<le> t" "\<not> t - off < ucast d"
  shows "uint off + uint d \<le> uint t"
proof -
  have "uint (ucast d :: u32) \<le> uint (t - off)"
    using assms(2) by (simp add: word_le_def not_less)
  moreover have "uint (t - off) = uint t - uint off"
    using assms(1) by (simp add: uint_sub_lem [THEN iffD1] word_le_def)
  moreover have "uint (ucast d :: u32) = uint d"
    using uint_u16_less [of d] by (simp add: unsigned_ucast_eq take_bit_int_eq_self)
  ultimately show ?thesis by simp
qed

lemma mp_do_write_frame:
  assumes "mp_do_write mp src sz off w = (st, mp', w')"
  shows "mp' = mp\<lparr>mp_buf := mp_buf mp'\<rparr>"
    and "mp_buf_ok mp \<Longrightarrow> length (the (mp_buf mp')) = length (the (mp_buf mp))"
    and "mp_buf_ok mp \<Longrightarrow> mp_buf_ok mp'"
proof -
  show frame: "mp' = mp\<lparr>mp_buf := mp_buf mp'\<rparr>"
    using assms by (auto simp: mp_do_write_def mp_buf_write_def Let_def case_prod_beta
      split: osdp_mp_ops.splits if_splits)
  assume ok: "mp_buf_ok mp"
  have fit: "\<not> mp_buf_len mp \<le> off \<Longrightarrow> \<not> mp_buf_len mp - off < sz \<Longrightarrow>
             unat off + unat sz \<le> unat (mp_buf_len mp)"
    by (simp add: word_le_nat_alt word_less_nat_alt unat_sub not_le not_less)
  show "length (the (mp_buf mp')) = length (the (mp_buf mp))"
    using assms ok fit
    by (auto simp: mp_buf_ok_def mp_do_write_def mp_buf_write_def min_def split: if_splits)
  then show "mp_buf_ok mp'"
    using assms ok frame
    by (auto simp: mp_buf_ok_def mp_do_write_def mp_buf_write_def split: if_splits)
qed


lemma rx_checks:
  "(case (if a then (e, p0, m0, w0) else if \<not> f \<and> t then (e, p1, m0, w0)
          else if b \<and> c then (e, p1, m0, w0) else if g \<and> z then (x, p1, m1, w0)
          else if o1 then (e, p1, m0, w0) else if o2 then (e, p1, m0, w0)
          else if r then (y, p1, m2, w1) else if k then (e, p1, m2, w1) else (d, p1, m3, w1))
    of (rc, _, mp, w) \<Rightarrow> (rc, mp, w)) =
   (if a \<or> \<not> f \<and> t \<or> b \<and> c then (e, m0, w0) else if g \<and> z then (x, m1, w0)
    else if o1 \<or> o2 then (e, m0, w0) else if r then (y, m2, w1)
    else if k then (e, m2, w1) else (d, m3, w1))"
  by simp

lemma rx_consume_unfold:
  "osdp_mp_rx_consume mp buf len w =
    (let hdr = OSDP_MP_HDR_SIZE (mp_width mp)
     in case osdp_mp_hdr_read (mp_width mp) buf len of
          None \<Rightarrow> (OSDP_MP_RC_ERR, mp, w)
        | Some (tot, off, dlen, _) \<Rightarrow>
    (let fresh = (mp_offset mp = 0 \<and> mp_last_len mp = 0 \<and> mp_total mp = 0);
         cur = (if fresh then tot else mp_total mp);
         (st, mp1, w1) =
           (if dlen > 0 then mp_do_write mp (bytes_at hdr (unat dlen) buf) (ucast dlen) off w
            else (OSDP_MP_RX_OK, mp, w))
     in if len - int hdr < uint dlen \<or> \<not> fresh \<and> tot \<noteq> mp_total mp \<or>
           mp_buf mp \<noteq> None \<and> cur > mp_buf_len mp then (OSDP_MP_RC_ERR, mp, w)
        else if off \<ge> cur \<and> dlen = 0 then (OSDP_MP_RC_EARLY_TERM, mp\<lparr>mp_total := cur\<rparr>, w)
        else if off > mp_offset mp \<or> ucast dlen > cur - off then (OSDP_MP_RC_ERR, mp, w)
        else if st = OSDP_MP_RX_RETRY then (OSDP_MP_RC_RETRY, mp1, w1)
        else if st \<noteq> OSDP_MP_RX_OK then (OSDP_MP_RC_ERR, mp1, w1)
        else (if ucast dlen \<ge> cur - off then OSDP_MP_RC_DONE else OSDP_MP_RC_MORE,
              mp1\<lparr>mp_total := cur, mp_last_off := off, mp_last_len := uint dlen\<rparr>, w1)))"
proof (cases "osdp_mp_hdr_read (mp_width mp) buf len")
  case None
  then show ?thesis by (simp add: osdp_mp_rx_consume_def osdp_mp_rx_consume_ex_def)
next
  case (Some h)
  obtain tot off dlen n where h: "h = (tot, off, dlen, n)" by (cases h)
  obtain st mp1 w1 where st: "(if dlen > 0
      then mp_do_write mp (bytes_at (OSDP_MP_HDR_SIZE (mp_width mp)) (unat dlen) buf) (ucast dlen) off w
      else (OSDP_MP_RX_OK, mp, w)) = (st, mp1, w1)" by (metis prod_cases3)
  show ?thesis
    unfolding osdp_mp_rx_consume_def osdp_mp_rx_consume_ex_def Let_def Some h option.case prod.case
    by (simp only: list.size if_cancel add_0_right of_nat_0 diff_0_right st prod.case rx_checks)
      (simp split del: if_split cong: if_cong)
qed

lemma rx_ok_buf [simp]: "mp_rx_ok (mp\<lparr>mp_buf := b\<rparr>) = mp_rx_ok mp"
  by (simp add: mp_rx_ok_def)

lemma mp_do_write_fields:
  assumes "mp_do_write mp src sz off w = (st, mp', w')"
  shows "mp_offset mp' = mp_offset mp" "mp_width mp' = mp_width mp" "mp_state mp' = mp_state mp"
    "mp_ops mp' = mp_ops mp" "mp_buf_len mp' = mp_buf_len mp" "mp_event_cb mp' = mp_event_cb mp"
    "mp_start_emitted mp' = mp_start_emitted mp"
  by (subst mp_do_write_frame(1) [OF assms], simp)+

lemma rx_consume_cases [case_names reject early accept, consumes 1]:
  assumes "osdp_mp_rx_consume mp buf len w = (rc, mp', w')"
  obtains
    (reject) "rc = OSDP_MP_RC_ERR \<or> rc = OSDP_MP_RC_RETRY" "mp' = mp\<lparr>mp_buf := mp_buf mp'\<rparr>"
      "mp_buf_ok mp \<Longrightarrow> mp' = mp"
  | (early) tot off n where "rc = OSDP_MP_RC_EARLY_TERM" "w' = w" "mp' = mp\<lparr>mp_total := tot\<rparr>"
      "osdp_mp_hdr_read (mp_width mp) buf len = Some (tot, off, 0, n)" "tot \<le> off"
      "mp_offset mp = 0 \<and> mp_last_len mp = 0 \<and> mp_total mp = 0 \<or> tot = mp_total mp"
  | (accept) tot off dlen n mp1 where
      "osdp_mp_hdr_read (mp_width mp) buf len = Some (tot, off, dlen, n)"
      "rc = (if ucast dlen \<ge> tot - off then OSDP_MP_RC_DONE else OSDP_MP_RC_MORE)"
      "mp_offset mp = 0 \<and> mp_last_len mp = 0 \<and> mp_total mp = 0 \<or> tot = mp_total mp"
      "mp_buf mp \<noteq> None \<longrightarrow> tot \<le> mp_buf_len mp" "off < tot \<or> 0 < dlen"
      "off \<le> mp_offset mp" "\<not> tot - off < ucast dlen"
      "if dlen > 0
       then mp_do_write mp (bytes_at (OSDP_MP_HDR_SIZE (mp_width mp)) (unat dlen) buf) (ucast dlen) off w
              = (OSDP_MP_RX_OK, mp1, w')
       else mp1 = mp \<and> w' = w"
      "mp' = mp1\<lparr>mp_total := tot, mp_last_off := off, mp_last_len := uint dlen\<rparr>"
proof (cases "osdp_mp_hdr_read (mp_width mp) buf len")
  case None
  then show ?thesis
    using assms by (intro reject) (auto simp: rx_consume_unfold)
next
  case (Some h)
  obtain tot off dlen n where h: "h = (tot, off, dlen, n)" by (cases h)
  let ?hdr = "OSDP_MP_HDR_SIZE (mp_width mp)"
  define fresh where "fresh = (mp_offset mp = 0 \<and> mp_last_len mp = 0 \<and> mp_total mp = 0)"
  define cur where "cur = (if fresh then tot else mp_total mp)"
  obtain st mp1 w1 where st: "(if dlen > 0
      then mp_do_write mp (bytes_at ?hdr (unat dlen) buf) (ucast dlen) off w
      else (OSDP_MP_RX_OK, mp, w)) = (st, mp1, w1)" by (metis prod_cases3)
  note unf = assms [unfolded rx_consume_unfold Let_def Some h option.case prod.case
      fresh_def [symmetric] cur_def [symmetric] st]
  have frame: "mp1 = mp\<lparr>mp_buf := mp_buf mp1\<rparr>"
    "mp_buf_ok mp \<Longrightarrow> st \<noteq> OSDP_MP_RX_OK \<Longrightarrow> mp1 = mp"
    using st mp_do_write_frame(1) [of mp _ _ off w st mp1 w1]
    by (auto simp: mp_do_write_def mp_buf_write_def mp_buf_ok_def split: if_splits)
  show ?thesis
  proof (cases "len - int ?hdr < uint dlen \<or> \<not> fresh \<and> tot \<noteq> mp_total mp \<or>
           mp_buf mp \<noteq> None \<and> cur > mp_buf_len mp")
    case True
    then show ?thesis using unf by (intro reject) auto
  next
    case ok: False
    then have cur: "cur = tot" by (auto simp: cur_def)
    consider "off \<ge> cur \<and> dlen = 0" | "\<not> (off \<ge> cur \<and> dlen = 0)" "off > mp_offset mp \<or> ucast dlen > cur - off"
      | "\<not> (off \<ge> cur \<and> dlen = 0)" "\<not> (off > mp_offset mp \<or> ucast dlen > cur - off)" "st \<noteq> OSDP_MP_RX_OK"
      | "\<not> (off \<ge> cur \<and> dlen = 0)" "\<not> (off > mp_offset mp \<or> ucast dlen > cur - off)" "st = OSDP_MP_RX_OK"
      by blast
    then show ?thesis
    proof cases
      case 1
      then show ?thesis
        using unf ok Some h cur by (intro early [of tot off n]) (auto simp: fresh_def)
    next
      case 2
      then show ?thesis using unf ok by (intro reject) auto
    next
      case 3
      then have "rc = OSDP_MP_RC_ERR \<or> rc = OSDP_MP_RC_RETRY" "mp' = mp1"
        using unf ok by (auto split: if_splits)
      with frame 3 show ?thesis by (intro reject) auto
    next
      case 4
      have "OSDP_MP_RX_OK \<noteq> OSDP_MP_RX_RETRY" by (simp add: OSDP_MP_RX_OK_def OSDP_MP_RX_RETRY_def)
      with 4 show ?thesis
        using unf ok Some h cur st
        by (intro accept [of tot off dlen n mp1])
          (auto simp: fresh_def not_le not_less word_gt_0 split: if_splits)
    qed
  qed
qed

lemma u16_pos_iff: "0 < uint (d :: u16) \<longleftrightarrow> d \<noteq> 0"
  using word_gt_0 [of d] by (simp add: word_less_def)

lemma rx_consume_ok:
  assumes "osdp_mp_rx_consume mp buf len w = (rc, mp', w')" "mp_rx_ok mp"
  shows "mp_rx_ok mp'"
  using assms(1)
proof (cases rule: rx_consume_cases)
  case reject
  have "mp_rx_ok (mp\<lparr>mp_buf := mp_buf mp'\<rparr>)" using assms(2) by simp
  then show ?thesis using reject(2) by simp
next
  case (early tot off n)
  then show ?thesis using assms(2) by (auto simp: mp_rx_ok_def)
next
  case (accept tot off dlen n mp1)
  have "mp_offset mp \<le> tot"
    using accept assms(2) by (auto simp: mp_rx_ok_def)
  then have "off \<le> tot" using accept by simp
  then have "uint off + uint dlen \<le> uint tot"
    using accept by (intro ucast_u16_le_diff)
  moreover have "mp_offset mp1 = mp_offset mp"
    using accept(8) mp_do_write_fields(1) by (auto split: if_splits)
  ultimately show ?thesis
    using accept \<open>mp_offset mp \<le> tot\<close> by (auto simp: mp_rx_ok_def u16_pos_iff word_less_def split: if_splits)
qed

lemma rx_consume_buf:
  assumes "osdp_mp_rx_consume mp buf len w = (rc, mp', w')" "mp_buf_ok mp"
  shows "mp_buf_ok mp' \<and> length (the (mp_buf mp')) = length (the (mp_buf mp))"
  using assms(1)
proof (cases rule: rx_consume_cases)
  case (accept tot off dlen n mp1)
  have "mp_buf_ok mp1 \<and> length (the (mp_buf mp1)) = length (the (mp_buf mp))"
    using accept(8) assms(2) mp_do_write_frame(2,3) by (fastforce split: if_splits)
  then show ?thesis using accept by (simp add: mp_buf_ok_def)
qed (use assms(2) in \<open>auto simp: mp_buf_ok_def\<close>)

lemma rx_commit_ok:
  assumes "mp_rx_ok mp"
  shows "mp_rx_ok (fst (osdp_mp_rx_commit mp))"
proof -
  have "uint (mp_last_off mp + word_of_int (mp_last_len mp)) =
        uint (mp_last_off mp) + mp_last_len mp" if "0 < mp_last_len mp"
  proof -
    have "0 \<le> uint (mp_last_off mp)" "uint (mp_last_off mp) + mp_last_len mp < 2 ^ 32" 
      using assms that uint_lt2p [of "mp_total mp"] by (auto simp: mp_rx_ok_def)
    moreover from this that have "mp_last_len mp mod 2 ^ 32 = mp_last_len mp"
      using \<open>0 \<le> uint (mp_last_off mp)\<close> by (intro mod_pos_pos_trivial) linarith+
    ultimately show ?thesis
      using that by (simp add: uint_word_ariths uint_word_of_int mod_pos_pos_trivial)
  qed
  then show ?thesis
    using assms by (auto simp: mp_rx_ok_def osdp_mp_rx_commit_def Let_def word_le_def)
qed

lemma rx_commit_fields [simp]:
  "mp_buf (fst (osdp_mp_rx_commit mp)) = mp_buf mp"
  "mp_total (fst (osdp_mp_rx_commit mp)) = mp_total mp"
  "mp_width (fst (osdp_mp_rx_commit mp)) = mp_width mp"
  "mp_last_len (fst (osdp_mp_rx_commit mp)) = 0"
  "mp_buf_ok (fst (osdp_mp_rx_commit mp)) = mp_buf_ok mp"
  by (simp_all add: osdp_mp_rx_commit_def Let_def mp_buf_ok_def)

text \<open>A receiver at work: frames are consumed, and committed when they were accepted.\<close>

definition mp_rx_frame :: "'w osdp_multipart \<Rightarrow> bytes \<Rightarrow> 'w \<Rightarrow> osdp_mp_rc \<times> 'w osdp_multipart \<times> 'w" where
  "mp_rx_frame mp frame w =
     (let (rc, mp, w) = osdp_mp_rx_consume mp frame (int (length frame)) w
      in (rc, if rc = OSDP_MP_RC_MORE \<or> rc = OSDP_MP_RC_DONE then fst (osdp_mp_rx_commit mp) else mp, w))"

fun mp_rx_frames :: "'w osdp_multipart \<Rightarrow> bytes list \<Rightarrow> 'w \<Rightarrow> 'w osdp_multipart" where
  "mp_rx_frames mp [] w = mp"
| "mp_rx_frames mp (f # fs) w = (let (_, mp, w) = mp_rx_frame mp f w in mp_rx_frames mp fs w)"

lemma write_at_nth_beyond:
  assumes "p + n \<le> length buf" "length bs \<le> n" "p + n \<le> i"
  shows "write_at p bs buf ! i = buf ! i"
proof (cases "i < length buf")
  case True
  with assms show ?thesis by (simp add: nth_write_at)
next
  case False
  have tl: "xs ! i = drop (p + n) xs ! (i - (p + n))" if "p + n \<le> length xs" for xs :: "'a list"
    using that assms(3) by simp
  have "length (write_at p bs buf) = length buf" "drop (p + n) (write_at p bs buf) = drop (p + n) buf"
    using assms by simp_all
  then show ?thesis using tl [of buf] tl [of "write_at p bs buf"] assms(1) by metis
qed

lemma mp_buf_write_beyond:
  assumes "mp_buf_write mp src sz off = (st, mp')" "unat (mp_buf_len mp) \<le> length (the (mp_buf mp))"
    and "unat off + unat sz \<le> i"
  shows "the (mp_buf mp') ! i = the (mp_buf mp) ! i"
proof -
  have "\<not> mp_buf_len mp \<le> off \<Longrightarrow> \<not> mp_buf_len mp - off < sz \<Longrightarrow>
        unat off + unat sz \<le> unat (mp_buf_len mp)"
    by (simp add: word_le_nat_alt word_less_nat_alt unat_sub not_le not_less)
  with assms show ?thesis
    by (auto simp: mp_buf_write_def write_at_nth_beyond [where n = "unat sz"] split: if_splits)
qed

lemma ucast_u16_u32: "uint (ucast (d :: u16) :: u32) = uint d" "unat (ucast d :: u32) = unat d"
proof -
  show "uint (ucast d :: u32) = uint d"
    using uint_u16_less [of d] by (simp add: unsigned_ucast_eq take_bit_int_eq_self)
  then show "unat (ucast d :: u32) = unat d"
    by (simp only: unat_eq_nat_uint)
qed

lemma rx_consume_beyond:
  assumes "osdp_mp_rx_consume mp buf len w = (rc, mp', w')" "mp_buf_ok mp" "mp_rx_ok mp"
    and i: "unat (mp_total mp') \<le> i"
  shows "the (mp_buf mp') ! i = the (mp_buf mp) ! i \<and> (mp_total mp = 0 \<or> mp_total mp' = mp_total mp)"
  using assms(1)
proof (cases rule: rx_consume_cases)
  case reject
  then show ?thesis using assms(2) by simp
next
  case (early tot off n)
  then show ?thesis by auto
next
  case (accept tot off dlen n mp1)
  have "uint off + uint dlen \<le> uint tot"
    using accept assms(3) by (intro ucast_u16_le_diff) (auto simp: mp_rx_ok_def)
  moreover have "unat tot \<le> i" using i accept(9) by simp
  ultimately have "unat off + unat (ucast dlen :: u32) \<le> i"
    unfolding ucast_u16_u32 uint_nat by linarith
  then have "the (mp_buf mp1) ! i = the (mp_buf mp) ! i"
    using accept(8) assms(2) mp_buf_write_beyond [of mp _ _ off _ mp1 i]
    by (auto simp: mp_do_write_def mp_buf_ok_def split: if_splits prod.splits)
  then show ?thesis using accept by auto
qed

lemma rx_frame_step:
  assumes "mp_rx_frame mp f w = (rc, mp', w')" "mp_buf_ok mp" "mp_rx_ok mp"
  shows "mp_buf_ok mp' \<and> mp_rx_ok mp' \<and> length (the (mp_buf mp')) = length (the (mp_buf mp)) \<and>
    (mp_total mp = 0 \<or> mp_total mp' = mp_total mp) \<and>
    (\<forall>i \<ge> unat (mp_total mp'). the (mp_buf mp') ! i = the (mp_buf mp) ! i)"
proof -
  obtain mp1 where mp1: "osdp_mp_rx_consume mp f (int (length f)) w = (rc, mp1, w')"
    "mp' = mp1 \<or> mp' = fst (osdp_mp_rx_commit mp1)"
    using assms(1) by (auto simp: mp_rx_frame_def split: prod.splits if_splits)
  have "mp_total mp' = mp_total mp1" "mp_buf mp' = mp_buf mp1" "mp_buf_ok mp' = mp_buf_ok mp1"
    "mp_rx_ok mp1 \<Longrightarrow> mp_rx_ok mp'"
    using mp1(2) rx_commit_ok by auto
  then show ?thesis
    using rx_consume_buf [OF mp1(1) assms(2)] rx_consume_ok [OF mp1(1) assms(3)]
      rx_consume_beyond [OF mp1(1) assms(2,3)] by auto
qed

text \<open>
  C18. Whatever frames a peer sends, a receiver bound to a buffer never stores outside it:
  the buffer keeps its length, the bytes behind the declared total keep their values, and the
  committed offset stays within the declared total.
\<close>

theorem mp_rx_never_overruns:
  assumes "mp_buf_ok mp" "mp_rx_ok mp"
  shows "let mp' = mp_rx_frames mp frames w in
    mp_rx_ok mp' \<and> length (the (mp_buf mp')) = length (the (mp_buf mp)) \<and>
    (\<forall>i \<ge> unat (mp_total mp'). the (mp_buf mp') ! i = the (mp_buf mp) ! i)"
proof -
  have "mp_rx_ok mp' \<and> length (the (mp_buf mp')) = length (the (mp_buf mp)) \<and>
    (mp_total mp = 0 \<or> mp_total mp' = mp_total mp) \<and>
    (\<forall>i \<ge> unat (mp_total mp'). the (mp_buf mp') ! i = the (mp_buf mp) ! i)"
    if "mp' = mp_rx_frames mp frames w" for mp'
    using assms that
  proof (induction frames arbitrary: mp w)
    case Nil
    then show ?case by simp
  next
    case (Cons f fs)
    obtain rc mp1 w1 where step: "mp_rx_frame mp f w = (rc, mp1, w1)" by (metis prod_cases3)
    note one = rx_frame_step [OF step Cons.prems(1,2)]
    have rest: "mp' = mp_rx_frames mp1 fs w1" using Cons.prems(3) step by simp
    note Cons.IH [OF _ _ rest]
    with one show ?case by (metis le_zero_eq unat_0 word_unat_eq_iff le0)
  qed
  then show ?thesis by (auto simp: Let_def)
qed


theorem mp_rx_never_overruns_witness:
  "let mp' = mp_rx_frames
        (osdp_mp_rx_init (osdp_mp_bind_buffer osdp_mp_reset [1, 2, 3, 4] 4) OSDP_MP_W16 0)
        [[2, 0, 0, 0, 2, 0, 9, 8], [2, 0, 0, 0, 9, 0, 7]] ()
   in mp_rx_ok mp' \<and> length (the (mp_buf mp')) = 4 \<and>
      (\<forall>i \<ge> unat (mp_total mp'). the (mp_buf mp') ! i = [1, 2, 3, 4] ! i)"
  using mp_rx_never_overruns [of
      "osdp_mp_rx_init (osdp_mp_bind_buffer osdp_mp_reset [1, 2, 3, 4] 4) OSDP_MP_W16 0"
      "[[2, 0, 0, 0, 2, 0, 9, 8], [2, 0, 0, 0, 9, 0, 7]]" "()"]
  by (simp add: osdp_mp_rx_init_def osdp_mp_bind_buffer_def osdp_mp_reset_def mp_buf_ok_def
      mp_rx_ok_def Let_def del: mp_rx_frames.simps)

end
