(* ===== verification/Multipart_Transfer.thy ===== *)
theory Multipart_Transfer
  imports Multipart
begin

text \<open>
  Proofs about whole transfers of the multi-part engine of src/src/osdp_multipart.c: a sender
  and a receiver that exchange frames move the payload, completely and in a bounded number
  of frames, and a transfer reports its start and its end at most once.
\<close>

definition mp_tx_at :: "osdp_mp_width \<Rightarrow> bytes \<Rightarrow> nat \<Rightarrow> 'w osdp_multipart \<Rightarrow> bool" where
  "mp_tx_at W d k mp \<longleftrightarrow> mp_width mp = W \<and> mp_ops mp = MP_OPS_BUFFER \<and>
     (\<exists>b. mp_buf mp = Some b \<and> take (length d) b = d) \<and>
     unat (mp_buf_len mp) = length d \<and> unat (mp_total mp) = length d \<and> unat (mp_offset mp) = k \<and>
     k \<le> length d"

text \<open>What the sender puts into the packet: the header and the next bytes of the payload.\<close>

lemma tx_build_at:
  assumes tx: "mp_tx_at W d k mp" and k: "k < length d"
    and max: "max_len = OSDP_MP_HDR_SIZE W + c" "0 < c" "c < 65536" "max_len \<le> length pkt"
    and n: "n = min c (length d - k)"
  shows "\<exists>pkt'. osdp_mp_tx_build mp pkt (int max_len) w =
           (int (OSDP_MP_HDR_SIZE W + n), pkt',
            mp\<lparr>mp_last_len := int n, mp_state := OSDP_MP_INPROG\<rparr>, w) \<and>
         length pkt' = length pkt \<and>
         take (OSDP_MP_HDR_SIZE W + n) pkt' =
           mp_hdr W (mp_total mp) (mp_offset mp) (of_nat n) @ bytes_at k n d"
proof -
  let ?h = "OSDP_MP_HDR_SIZE W"
  have len: "length d < 2 ^ 32"
    using tx unat_u32_less [of "mp_total mp"] by (simp add: mp_tx_at_def)
  have rem: "unat (mp_total mp - mp_offset mp) = length d - k"
    using tx by (simp add: mp_tx_at_def unat_sub word_le_nat_alt)
  then have rem': "uint (mp_total mp - mp_offset mp) = int (length d - k)"
    by (simp add: uint_nat)
  have c: "uint (word_of_int (int c) :: u32) = int c"
  proof -
    have "unat (word_of_nat c :: u32) = c" using max(3) by (simp add: unat_of_nat)
    then show ?thesis by (simp only: of_int_of_nat_eq uint_nat)
  qed
  have avail: "(if (word_of_int (int c) :: u32) > mp_total mp - mp_offset mp
      then uint (mp_total mp - mp_offset mp) else int c) = int n"
    using rem' c n by (auto simp: word_less_def)
  have n32: "unat (word_of_int (int n) :: u32) = n"
    using n max(3) by (simp add: unat_of_nat)
  have blen: "unat (mp_buf_len mp - mp_offset mp) = length d - k"
    using tx by (simp add: mp_tx_at_def unat_sub word_le_nat_alt)
  have rd: "mp_do_read mp (word_of_int (int n)) (mp_offset mp) w = (int n, bytes_at k n d, w)"
  proof -
    have "uint (word_of_int (int n) :: u32) = int n" using n32 by (simp only: uint_nat)
    moreover have "\<not> mp_buf_len mp - mp_offset mp < word_of_int (int n)" "\<not> mp_buf_len mp \<le> mp_offset mp"
      using tx k n n32 blen by (simp_all add: mp_tx_at_def word_le_nat_alt word_less_nat_alt)
    moreover obtain b where b: "mp_buf mp = Some b" "take (length d) b = d" using tx by (auto simp: mp_tx_at_def)
    have "bytes_at k n d = take n (take (length d - k) (drop k b))"
      using arg_cong [OF b(2), of "drop k"] by (simp add: bytes_at_def drop_take)
    then have "bytes_at k n b = bytes_at k n d" using n by (simp add: bytes_at_def)
    ultimately show ?thesis
      using tx n32 b(1) by (simp add: mp_tx_at_def mp_do_read_def mp_buf_read_def)
  qed
  have pos: "0 < n" using n k max(2) by simp
  let ?p1 = "write_at ?h (bytes_at k n d) pkt"
  have l1: "length (bytes_at k n d) = n"
    using n k by simp
  have p1: "length ?p1 = length pkt" 
    using l1 max n by simp
  have hdr: "osdp_mp_hdr_write W t off dl ?p1 = (write_at 0 (mp_hdr W t off dl) ?p1, ?h)" for t off dl
    using p1 max by (intro mp_hdr_write_at) simp
  let ?p2 = "write_at 0 (mp_hdr W (mp_total mp) (mp_offset mp) (word_of_int (int n))) ?p1"
  have "osdp_mp_tx_build mp pkt (int max_len) w =
           (int (?h + n), ?p2, mp\<lparr>mp_last_len := int n, mp_state := OSDP_MP_INPROG\<rparr>, w)"
  proof -
    have W: "mp_width mp = W" using tx by (simp add: mp_tx_at_def)
    have mx: "int max_len - int ?h - int 0 = int c" using max(1) by simp
    have ne: "\<not> (int c < 0 \<or> int c = 0 \<and> mp_total mp - mp_offset mp > 0)" using max(2) by simp
    show ?thesis
      unfolding osdp_mp_tx_build_def osdp_mp_tx_build_ex_def Let_def list.size if_cancel W mx
        if_not_P [OF ne] avail rd prod.case
      using pos by (simp add: hdr W)
  qed
  moreover have "take (?h + n) ?p2 = mp_hdr W (mp_total mp) (mp_offset mp) (of_nat n) @ bytes_at k n d"
    using max n l1 by (simp add: write_at_def)
  ultimately show ?thesis using p1 max by auto
qed

lemma tx_commit_at:
  assumes "mp_tx_at W d k mp" "0 < n" "k + n \<le> length d"
  shows "mp_tx_at W d (k + n) (fst (osdp_mp_tx_commit (mp\<lparr>mp_last_len := int n, mp_state := s\<rparr>)))"
proof -
  have "length d < 2 ^ 32"
    using assms(1) unat_u32_less [of "mp_total mp"] by (simp add: mp_tx_at_def)
  then have "unat (mp_offset mp + word_of_int (int n)) = k + n"
    using assms by (simp add: mp_tx_at_def unat_word_ariths unat_of_nat)
  with assms show ?thesis
    by (simp add: mp_tx_at_def osdp_mp_tx_commit_def Let_def)
qed

definition mp_rx_at :: "osdp_mp_width \<Rightarrow> bytes \<Rightarrow> nat \<Rightarrow> 'w osdp_multipart \<Rightarrow> bool" where
  "mp_rx_at W d k mp \<longleftrightarrow> mp_width mp = W \<and> mp_buf_ok mp \<and> length d \<le> unat (mp_buf_len mp) \<and>
     mp_rx_ok mp \<and> mp_last_len mp = 0 \<and> unat (mp_offset mp) = k \<and>
     (k = 0 \<and> mp_total mp = 0 \<or> unat (mp_total mp) = length d) \<and>
     take k (the (mp_buf mp)) = take k d"

lemma rx_consume_acceptI:
  assumes hdr: "osdp_mp_hdr_read (mp_width mp) buf len = Some (tot, off, dlen, n)"
    and fresh: "mp_offset mp = 0 \<and> mp_last_len mp = 0 \<and> mp_total mp = 0 \<or> tot = mp_total mp"
    and len: "\<not> len - int (OSDP_MP_HDR_SIZE (mp_width mp)) < uint dlen" "dlen \<noteq> 0"
    and bound: "mp_buf mp \<noteq> None \<longrightarrow> \<not> tot > mp_buf_len mp" "\<not> off > mp_offset mp" "\<not> ucast dlen > tot - off"
    and wr: "mp_do_write mp (bytes_at (OSDP_MP_HDR_SIZE (mp_width mp)) (unat dlen) buf) (ucast dlen) off w
             = (OSDP_MP_RX_OK, mp1, w1)"
  shows "osdp_mp_rx_consume mp buf len w =
         (if ucast dlen \<ge> tot - off then OSDP_MP_RC_DONE else OSDP_MP_RC_MORE,
          mp1\<lparr>mp_total := tot, mp_last_off := off, mp_last_len := uint dlen\<rparr>, w1)"
proof -
  define f where "f = (mp_offset mp = 0 \<and> mp_last_len mp = 0 \<and> mp_total mp = 0)"
  have cur: "(if f then tot else mp_total mp) = tot" "(\<not> f \<and> tot \<noteq> mp_total mp) = False"
    using fresh by (auto simp: f_def)
  have ok: "OSDP_MP_RX_OK \<noteq> OSDP_MP_RX_RETRY"
    by (simp add: OSDP_MP_RX_OK_def OSDP_MP_RX_RETRY_def)
  have dl: "0 < dlen" using len(2) by (simp add: word_gt_0)
  show ?thesis
    unfolding rx_consume_unfold Let_def f_def [symmetric] hdr option.case prod.case cur if_P [OF dl] wr
    using len bound ok by auto
qed

text \<open>What the receiver makes of such a frame.\<close>

lemma rx_frame_at:
  assumes rx: "mp_rx_at W d k mp" and W: "mp_fits W tot"
    and tot: "unat tot = length d" and off: "unat off = k"
    and n: "0 < n" "n < 65536" "k + n \<le> length d"
    and frame: "frame = mp_hdr W tot off (of_nat n) @ bytes_at k n d"
  shows "\<exists>mp'. mp_rx_frame mp frame w =
          (if k + n = length d then OSDP_MP_RC_DONE else OSDP_MP_RC_MORE, mp', w) \<and>
          mp_rx_at W d (k + n) mp'"
proof -
  let ?h = "OSDP_MP_HDR_SIZE W" and ?dl = "of_nat n :: u16"
  obtain b where b: "mp_buf mp = Some b" "mp_ops mp = MP_OPS_BUFFER"
      "unat (mp_buf_len mp) \<le> length b" "length d \<le> unat (mp_buf_len mp)"
    using rx by (auto simp: mp_rx_at_def mp_buf_ok_def)
  have kn: "length (bytes_at k n d) = n" using n by simp
  have fits: "mp_fits W off"
    using W off tot n by (auto simp: mp_fits_def)
  have dl: "unat ?dl = n" using n by (simp add: unat_of_nat)
  then have dl32: "unat (ucast ?dl :: u32) = n" by (simp add: ucast_u16_u32)
  have hdr: "osdp_mp_hdr_read W frame (int (length frame)) = Some (tot, off, ?dl, ?h)"
    unfolding frame by (rule mp_hdr_read_enc [OF W fits]) simp
  have len: "length frame = ?h + n" using frame kn by simp
  have src: "bytes_at ?h n frame = bytes_at k n d"
    using kn by (simp add: frame bytes_at_def)
  have diff: "unat (tot - off) = length d - k"
    using tot off n by (simp add: unat_sub word_le_nat_alt)
  have bdiff: "unat (mp_buf_len mp - off) = unat (mp_buf_len mp) - k"
    using b off n by (simp add: unat_sub word_le_nat_alt)
  define b' where "b' = write_at k (bytes_at k n d) b"
  have wr: "mp_do_write mp (bytes_at ?h n frame) (ucast ?dl) off w =
      (OSDP_MP_RX_OK, mp\<lparr>mp_buf := Some b'\<rparr>, w)"
  proof -
    have "\<not> unat (mp_buf_len mp) - k < n" "\<not> unat (mp_buf_len mp) \<le> k" using b n by linarith+
    then show ?thesis
    using b off dl32 bdiff kn
    by (simp add: mp_do_write_def mp_buf_write_def word_le_nat_alt word_less_nat_alt src b'_def)
  qed
  have cur: "mp_offset mp = 0 \<and> mp_last_len mp = 0 \<and> mp_total mp = 0 \<or> tot = mp_total mp"
    using rx tot off by (auto simp: mp_rx_at_def word_unat_eq_iff)
  have offk: "mp_offset mp = off"
    using rx off by (simp add: mp_rx_at_def word_unat_eq_iff)
  have cons: "osdp_mp_rx_consume mp frame (int (length frame)) w =
      (if k + n = length d then OSDP_MP_RC_DONE else OSDP_MP_RC_MORE,
       mp\<lparr>mp_buf := Some b', mp_total := tot, mp_last_off := off, mp_last_len := int n\<rparr>, w)"
  proof -
    have w: "mp_width mp = W" using rx by (simp add: mp_rx_at_def)
    have "\<not> int (length frame) - int ?h < uint ?dl" "?dl \<noteq> 0" "mp_buf mp \<noteq> None \<longrightarrow> \<not> tot > mp_buf_len mp"
      "\<not> off > mp_offset mp" "\<not> ucast ?dl > tot - off"
      using len dl n diff dl32 tot b
      by (simp_all add: uint_nat word_less_nat_alt word_unat_eq_iff offk)
    note acc = rx_consume_acceptI [of mp frame "int (length frame)" tot off ?dl ?h w, unfolded w dl,
        OF hdr cur this wr]
    have "ucast ?dl \<ge> tot - off \<longleftrightarrow> k + n = length d"
      using n diff dl32 by (simp add: word_le_nat_alt) linarith
    moreover have "uint ?dl = int n" using dl by (simp only: uint_nat)
    ultimately show ?thesis using acc by simp
  qed
  let ?m = "mp\<lparr>mp_buf := Some b', mp_total := tot, mp_last_off := off, mp_last_len := int n\<rparr>"
  have ok: "mp_rx_ok ?m"
    using rx_consume_ok [OF cons] rx by (simp add: mp_rx_at_def)
  have bok: "mp_buf_ok ?m"
    using rx_consume_buf [OF cons] rx by (simp add: mp_rx_at_def)
  have off': "unat (mp_offset (fst (osdp_mp_rx_commit ?m))) = k + n"
  proof -
    have "unat (off + word_of_int (int n)) = k + n"
      using off tot n unat_u32_less [of tot] by (simp add: unat_word_ariths unat_of_nat)
    then show ?thesis
      using offk off n by (simp add: osdp_mp_rx_commit_def Let_def word_less_nat_alt)
  qed
  have pre: "take (k + n) b' = take (k + n) d"
    using rx b n kn by (simp add: b'_def take_write_at_end mp_rx_at_def) (simp add: bytes_at_def take_add)
  have "mp_rx_at W d (k + n) (fst (osdp_mp_rx_commit ?m))"
    using rx_commit_ok [OF ok] bok off' pre rx tot
    by (simp add: mp_rx_at_def) (simp add: osdp_mp_rx_commit_def Let_def)
  then show ?thesis
    using cons by (auto simp: mp_rx_frame_def)
qed


subsection \<open>A transfer arrives complete\<close>

text \<open>
  Sender and receiver taking turns: the sender builds a frame of at most \<open>max_len\<close> bytes,
  the receiver consumes it, both commit.  \<open>None\<close> is a refused frame or exhausted fuel.
\<close>

fun mp_transfer ::
  "nat \<Rightarrow> bytes \<Rightarrow> nat \<Rightarrow> 'w osdp_multipart \<Rightarrow> 'w osdp_multipart \<Rightarrow> 'w
   \<Rightarrow> ('w osdp_multipart \<times> 'w osdp_multipart) option" where
  "mp_transfer 0 pkt max_len tx rx w = None"
| "mp_transfer (Suc fuel) pkt max_len tx rx w =
     (let (n, pkt, tx, w) = osdp_mp_tx_build tx pkt (int max_len) w
      in if n < 0 then None
         else
           let (rc, rx, w) = mp_rx_frame rx (take (nat n) pkt) w;
               tx = fst (osdp_mp_tx_commit tx)
           in if rc = OSDP_MP_RC_DONE then Some (tx, rx)
              else if rc = OSDP_MP_RC_MORE then mp_transfer fuel pkt max_len tx rx w
              else None)"

lemma mp_transfer_at:
  assumes "mp_tx_at W d k tx" "mp_rx_at W d k rx" "k < length d" "W = OSDP_MP_W16 \<longrightarrow> length d < 65536"
    and "max_len = OSDP_MP_HDR_SIZE W + c" "0 < c" "c < 65536" "max_len \<le> length pkt"
    and "length d - k \<le> fuel * c"
  shows "\<exists>tx' rx'. mp_transfer fuel pkt max_len tx rx w = Some (tx', rx') \<and>
           mp_tx_at W d (length d) tx' \<and> mp_rx_at W d (length d) rx'"
  using assms(1,2,3,8,9)
proof (induction fuel arbitrary: k tx rx pkt)
  case 0
  then show ?case by simp
next
  case (Suc fuel)
  define n where "n = min c (length d - k)"
  have n: "0 < n" "n < 65536" "k + n \<le> length d"
    using Suc.prems(3) assms(6,7) by (auto simp: n_def)
  obtain pkt' where b: "osdp_mp_tx_build tx pkt (int max_len) w =
      (int (OSDP_MP_HDR_SIZE W + n), pkt', tx\<lparr>mp_last_len := int n, mp_state := OSDP_MP_INPROG\<rparr>, w)"
    "length pkt' = length pkt"
    "take (OSDP_MP_HDR_SIZE W + n) pkt' = mp_hdr W (mp_total tx) (mp_offset tx) (of_nat n) @ bytes_at k n d"
    using tx_build_at [OF Suc.prems(1,3) assms(5-7) Suc.prems(4) n_def] by blast
  have fits: "mp_fits W (mp_total tx)" "unat (mp_total tx) = length d" "unat (mp_offset tx) = k"
    using Suc.prems(1) assms(4) by (cases W; auto simp: mp_fits_def mp_tx_at_def)+
  obtain rx' where r: "mp_rx_frame rx (take (OSDP_MP_HDR_SIZE W + n) pkt') w =
      (if k + n = length d then OSDP_MP_RC_DONE else OSDP_MP_RC_MORE, rx', w)"
    "mp_rx_at W d (k + n) rx'"
    using rx_frame_at [OF Suc.prems(2) fits n b(3)] by blast
  let ?tx' = "fst (osdp_mp_tx_commit (tx\<lparr>mp_last_len := int n, mp_state := OSDP_MP_INPROG\<rparr>))"
  have t: "mp_tx_at W d (k + n) ?tx'"
    using tx_commit_at [OF Suc.prems(1) n(1,3)] .
  have step: "mp_transfer (Suc fuel) pkt max_len tx rx w =
      (if k + n = length d then Some (?tx', rx') else mp_transfer fuel pkt' max_len ?tx' rx' w)"
    using r(1) by (simp add: b(1) nat_int del: of_nat_add)
  show ?case
  proof (cases "k + n = length d")
    case True
    then show ?thesis using step t r(2) by simp
  next
    case False
    then have "n = c" "k + n < length d" using n by (auto simp: n_def)
    moreover from this have "length d - (k + n) \<le> fuel * c" using Suc.prems(5) by simp
    ultimately show ?thesis
      using Suc.IH [OF t r(2)] False step b(2) Suc.prems(4) by auto
  qed
qed

text \<open>
  C19. A payload handed to the sender arrives: with enough frames for its length (a frame
  carries \<open>max_len\<close> minus the header bytes), the receiver reports completion, its buffer
  starts with exactly the payload, and both sides have committed all of it.
\<close>

theorem mp_transfer_complete:
  assumes "d \<noteq> []" "length d < 2 ^ 32" "W = OSDP_MP_W16 \<longrightarrow> length d < 65536"
    and "length d \<le> length b" "length b < 2 ^ 32"
    and "max_len = OSDP_MP_HDR_SIZE W + c" "0 < c" "c < 65536" "max_len \<le> length pkt"
    and "length d \<le> fuel * c"
    and "osdp_mp_tx_init (osdp_mp_bind_buffer mp0 d (of_nat (length d))) (of_nat (length d)) W = Some tx"
    and "osdp_mp_rx_init (osdp_mp_bind_buffer mp1 b (of_nat (length b))) W 0 = rx"
  shows "\<exists>tx' rx'. mp_transfer fuel pkt max_len tx rx w = Some (tx', rx') \<and>
           take (length d) (the (mp_buf rx')) = d \<and>
           mp_offset tx' = mp_total tx' \<and> mp_offset rx' = mp_total rx' \<and>
           unat (mp_total rx') = length d"
proof -
  have t0: "mp_tx_at W d 0 tx"
    using assms(2,11) by (auto simp: osdp_mp_tx_init_def osdp_mp_bind_buffer_def mp_tx_at_def
        unat_of_nat split: if_splits)
  have r0: "mp_rx_at W d 0 rx"
    using assms(4,5) by (auto simp: assms(12) [symmetric] osdp_mp_rx_init_def osdp_mp_bind_buffer_def
        mp_rx_at_def mp_buf_ok_def mp_rx_ok_def unat_of_nat)
  obtain tx' rx' where "mp_transfer fuel pkt max_len tx rx w = Some (tx', rx')"
    "mp_tx_at W d (length d) tx'" "mp_rx_at W d (length d) rx'"
    using mp_transfer_at [OF t0 r0 _ assms(3,6-9), of fuel w] assms(1,10) by auto
  then show ?thesis
    using assms(1) by (auto simp: mp_tx_at_def mp_rx_at_def word_unat_eq_iff)
qed

theorem mp_transfer_complete_witness:
  "\<exists>tx' rx'. mp_transfer 3 (replicate 12 0) 8
      (the (osdp_mp_tx_init (osdp_mp_bind_buffer osdp_mp_reset [1, 2, 3, 4, 5] 5) 5 OSDP_MP_W16))
      (osdp_mp_rx_init (osdp_mp_bind_buffer osdp_mp_reset (replicate 6 0) 6) OSDP_MP_W16 0) ()
        = Some (tx', rx') \<and>
     take 5 (the (mp_buf rx')) = [1, 2, 3, 4, 5]"
proof -
  let ?d = "[1, 2, 3, 4, 5] :: bytes"
  have l: "length ?d = 5" by simp
  have "\<exists>tx' rx'. mp_transfer 3 (replicate 12 0) 8
      (the (osdp_mp_tx_init (osdp_mp_bind_buffer osdp_mp_reset ?d 5) 5 OSDP_MP_W16))
      (osdp_mp_rx_init (osdp_mp_bind_buffer osdp_mp_reset (replicate 6 0) 6) OSDP_MP_W16 0) ()
        = Some (tx', rx') \<and>
     take (length ?d) (the (mp_buf rx')) = ?d \<and> mp_offset tx' = mp_total tx' \<and>
     mp_offset rx' = mp_total rx' \<and> unat (mp_total rx') = length ?d"
    by (rule mp_transfer_complete [where c = 2 and W = OSDP_MP_W16 and b = "replicate 6 0"
          and ?mp0.0 = osdp_mp_reset and ?mp1.0 = osdp_mp_reset])
      (simp_all add: OSDP_MP_HDR_SIZE_def osdp_mp_tx_init_def)
  then show ?thesis unfolding l by blast
qed

subsection \<open>Start and end are reported once\<close>

text \<open>
  What a consumer may do with a started transfer.  Building a frame and parking happen on a
  live transfer only: the consumers check \<open>osdp_mp_is_active\<close> first
  (\<open>osdp_file_cmd_tx_build\<close> asserts it).
\<close>

inductive mp_step :: "'w osdp_multipart \<Rightarrow> osdp_mp_progress list \<Rightarrow> 'w osdp_multipart \<Rightarrow> bool" where
  emit_start: "osdp_mp_emit_start mp = (mp', es) \<Longrightarrow> mp_step mp es mp'"
| finish: "osdp_mp_finish mp outcome = (mp', es) \<Longrightarrow> mp_step mp es mp'"
| tx_build: "osdp_mp_is_active mp \<Longrightarrow> osdp_mp_tx_build_ex mp buf max_len pfx w = (n, buf', mp', w') \<Longrightarrow>
    mp_step mp [] mp'"
| tx_build_idle: "osdp_mp_tx_build_idle mp buf = (n, buf', mp') \<Longrightarrow> mp_step mp [] mp'"
| tx_commit: "osdp_mp_tx_commit mp = (mp', es) \<Longrightarrow> mp_step mp es mp'"
| rx_consume: "osdp_mp_rx_consume mp buf len w = (rc, mp', w') \<Longrightarrow> mp_step mp [] mp'"
| rx_commit: "osdp_mp_rx_commit mp = (mp', es) \<Longrightarrow> mp_step mp es mp'"
| park: "osdp_mp_is_active mp \<Longrightarrow> mp_step mp [] (osdp_mp_park mp)"
| cancel: "mp_step mp [] (osdp_mp_request_cancel mp)"
| set_wait: "mp_step mp [] (osdp_mp_set_wait now mp ms)"

inductive mp_run :: "'w osdp_multipart \<Rightarrow> osdp_mp_progress list \<Rightarrow> 'w osdp_multipart \<Rightarrow> bool" where
  run_nil: "mp_run mp [] mp"
| run_step: "mp_run mp es mp' \<Longrightarrow> mp_step mp' es' mp'' \<Longrightarrow> mp_run mp (es @ es') mp''"

definition mp_reports :: "osdp_mp_phase \<Rightarrow> osdp_mp_progress list \<Rightarrow> nat" where
  "mp_reports ph es = length (filter (\<lambda>p. mpp_phase p = ph) es)"

lemma mp_reports_simps [simp]:
  "mp_reports ph [] = 0"
  "mp_reports ph (es @ fs) = mp_reports ph es + mp_reports ph fs"
  by (simp_all add: mp_reports_def)

lemma mp_reports_emit [simp]:
  "mp_reports ph (mp_emit mp ph') = (if mp_event_cb mp \<and> ph' = ph then 1 else 0)"
  by (simp add: mp_reports_def mp_emit_def)

lemma rx_consume_frame:
  assumes "osdp_mp_rx_consume mp buf len w = (rc, mp', w')"
  shows "mp_state mp' = mp_state mp \<and> mp_start_emitted mp' = mp_start_emitted mp"
  using assms
proof (cases rule: rx_consume_cases)
  case reject
  show ?thesis by (subst (1 2) reject(2)) simp
next
  case (accept tot off dlen n mp1)
  then have "mp_state mp1 = mp_state mp \<and> mp_start_emitted mp1 = mp_start_emitted mp"
    by (cases "0 < dlen") (auto dest: mp_do_write_fields(3,7))
  with accept(9) show ?thesis by simp
qed simp

lemma tx_build_frame:
  assumes "osdp_mp_tx_build_ex mp buf max_len pfx w = (n, buf', mp', w')"
  shows "(mp_state mp' = mp_state mp \<or> osdp_mp_is_active mp') \<and> mp_start_emitted mp' = mp_start_emitted mp"
  using assms by (auto simp: osdp_mp_tx_build_ex_def osdp_mp_is_active_def Let_def
      split: prod.splits if_splits)

lemma tx_commit_frame:
  "osdp_mp_tx_commit mp = (mp', es) \<Longrightarrow> (ph \<noteq> OSDP_MP_PHASE_PROGRESS \<longrightarrow> mp_reports ph es = 0) \<and>
   mp_state mp' = mp_state mp \<and> mp_start_emitted mp' = mp_start_emitted mp"
  unfolding osdp_mp_tx_commit_def Let_def prod.inject by (elim conjE, hypsubst) simp

lemma rx_commit_frame:
  "osdp_mp_rx_commit mp = (mp', es) \<Longrightarrow> (ph \<noteq> OSDP_MP_PHASE_PROGRESS \<longrightarrow> mp_reports ph es = 0) \<and>
   mp_state mp' = mp_state mp \<and> mp_start_emitted mp' = mp_start_emitted mp"
  unfolding osdp_mp_rx_commit_def Let_def prod.inject by (elim conjE, hypsubst) simp

text \<open>One step: the two reports are each bound to a one-way switch of the engine.\<close>

lemma mp_step_reports:
  "mp_step mp es mp' \<Longrightarrow>
   mp_reports OSDP_MP_PHASE_START es + of_bool (mp_start_emitted mp) \<le> of_bool (mp_start_emitted mp') \<and>
   mp_reports OSDP_MP_PHASE_DONE es + of_bool (mp_state mp = OSDP_MP_DONE)
     \<le> of_bool (mp_state mp' = OSDP_MP_DONE)"
proof (induction rule: mp_step.induct)
  case (tx_build mp buf max_len pfx w n buf' mp' w')
  then show ?case using tx_build_frame [OF tx_build(2)] by (auto simp: osdp_mp_is_active_def)
next
  case (rx_consume mp buf len w rc mp' w')
  then show ?case using rx_consume_frame [OF rx_consume] by simp
next
  case (tx_commit mp mp' es)
  then show ?case using tx_commit_frame by fastforce
next
  case (rx_commit mp mp' es)
  then show ?case using rx_commit_frame by fastforce
next
  case (emit_start mp mp' es)
  then show ?case by (auto simp: osdp_mp_emit_start_def Let_def split: if_splits)
next
  case (finish mp outcome mp' es)
  then show ?case by (auto simp: osdp_mp_finish_def Let_def split: if_splits)
next
  case (tx_build_idle mp buf n buf' mp')
  then show ?case by (auto simp: osdp_mp_tx_build_idle_def split: prod.splits)
qed (auto simp: osdp_mp_park_def osdp_mp_request_cancel_def osdp_mp_set_wait_def osdp_mp_is_active_def)

text \<open>
  C20. Between two initialisations, over any sequence of engine calls in which frames are built
  and the transfer is parked only while it is active, as the file, smart-card and biometric engines
  do, a transfer that has not reported yet reports its start at most once and its end at most once,
  whatever the order of the calls and however often the consumer finishes it.  Without the
  restriction it may not: a finished transfer that is parked is active again, and finishing it
  reports its end a second time.
\<close>

theorem mp_reports_once:
  assumes "mp_run mp es mp'" "\<not> mp_start_emitted mp" "mp_state mp \<noteq> OSDP_MP_DONE"
  shows "mp_reports OSDP_MP_PHASE_START es \<le> 1 \<and> mp_reports OSDP_MP_PHASE_DONE es \<le> 1"
proof -
  have "mp_reports OSDP_MP_PHASE_START es \<le> of_bool (mp_start_emitted mp') \<and>
        mp_reports OSDP_MP_PHASE_DONE es \<le> of_bool (mp_state mp' = OSDP_MP_DONE)"
    using assms
  proof (induction rule: mp_run.induct)
    case (run_step mp es mp' es' mp'')
    then show ?case using mp_step_reports [OF run_step(2)] by auto
  qed simp
  then show ?thesis by (auto simp: of_bool_def split: if_splits)
qed

theorem mp_reports_once_witness:
  "let mp = osdp_mp_rx_init (osdp_mp_set_event_cb osdp_mp_reset True) OSDP_MP_W16 4;
       es = snd (osdp_mp_emit_start mp) @ snd (osdp_mp_finish (fst (osdp_mp_emit_start mp)) 0)
   in mp_reports OSDP_MP_PHASE_START es \<le> 1 \<and> mp_reports OSDP_MP_PHASE_DONE es \<le> 1 \<and> length es = 2"
proof -
  let ?mp = "osdp_mp_rx_init (osdp_mp_set_event_cb osdp_mp_reset True) OSDP_MP_W16 4 :: unit osdp_multipart"
  let ?m1 = "fst (osdp_mp_emit_start ?mp)"
  have "mp_run ?mp ([] @ snd (osdp_mp_emit_start ?mp)) ?m1"
    by (rule run_step [OF run_nil emit_start]) simp
  then have "mp_run ?mp (snd (osdp_mp_emit_start ?mp) @ snd (osdp_mp_finish ?m1 0)) (fst (osdp_mp_finish ?m1 0))"
    unfolding append_Nil by (rule run_step [OF _ finish]) simp
  from mp_reports_once [OF this] show ?thesis
    by (simp add: osdp_mp_rx_init_def osdp_mp_set_event_cb_def osdp_mp_reset_def osdp_mp_emit_start_def
        osdp_mp_finish_def mp_emit_def mp_reports_def Let_def)
qed

end
