(* ===== verification/Ring_Buffer.thy ===== *)
theory Ring_Buffer
  imports Prelude
begin

text \<open>
  The receive ring buffer of src/src/osdp_common.c (\<open>osdp_rb_push\<close>, \<open>osdp_rb_pop\<close> and
  their bulk forms): an array of \<open>OSDP_RX_RB_SIZE\<close> bytes with a head and a tail index,
  one slot always left free.  The locale \<open>byte_fifo\<close> is the contract the packet framer
  relies on, a bounded first-in first-out queue; the ring buffer is its instance.
\<close>

definition OSDP_RX_RB_SIZE :: nat where
  "OSDP_RX_RB_SIZE = 512"

record osdp_rb =
  head :: nat
  tail :: nat
  buffer :: bytes

text \<open>A return of 0 is \<open>Some\<close>, the error return -1 (full, empty) is \<open>None\<close>.\<close>

definition osdp_rb_push :: "osdp_rb \<Rightarrow> u8 \<Rightarrow> osdp_rb option" where
  "osdp_rb_push p data =
     (let n = head p + 1;
          n = (if n \<ge> OSDP_RX_RB_SIZE then 0 else n)
      in if n = tail p then None
         else Some (p\<lparr>buffer := (buffer p)[head p := data], head := n\<rparr>))"

text \<open>The number of bytes taken in, and the buffer.\<close>

fun osdp_rb_push_buf :: "osdp_rb \<Rightarrow> bytes \<Rightarrow> nat \<times> osdp_rb" where
  "osdp_rb_push_buf p [] = (0, p)"
| "osdp_rb_push_buf p (b # bs) =
     (case osdp_rb_push p b of
        None \<Rightarrow> (0, p)
      | Some p' \<Rightarrow> (let (i, p'') = osdp_rb_push_buf p' bs in (Suc i, p'')))"

definition osdp_rb_pop :: "osdp_rb \<Rightarrow> (u8 \<times> osdp_rb) option" where
  "osdp_rb_pop p =
     (if head p = tail p then None
      else let n = tail p + 1;
               n = (if n \<ge> OSDP_RX_RB_SIZE then 0 else n)
           in Some (buffer p ! tail p, p\<lparr>tail := n\<rparr>))"

text \<open>The bytes stored through \<open>buf\<close> (their number is the return value), and the buffer.\<close>

fun osdp_rb_pop_buf :: "osdp_rb \<Rightarrow> nat \<Rightarrow> bytes \<times> osdp_rb" where
  "osdp_rb_pop_buf p 0 = ([], p)"
| "osdp_rb_pop_buf p (Suc max_len) =
     (case osdp_rb_pop p of
        None \<Rightarrow> ([], p)
      | Some (b, p') \<Rightarrow> (let (bs, p'') = osdp_rb_pop_buf p' max_len in (b # bs, p'')))"

definition osdp_rb_reset :: "osdp_rb \<Rightarrow> osdp_rb" where
  "osdp_rb_reset p = p\<lparr>head := 0, tail := 0\<rparr>"

subsection \<open>The contract\<close>

locale byte_fifo =
  fixes push :: "'q \<Rightarrow> 'a \<Rightarrow> 'q option"
    and pop :: "'q \<Rightarrow> ('a \<times> 'q) option"
    and push_buf :: "'q \<Rightarrow> 'a list \<Rightarrow> nat \<times> 'q"
    and pop_buf :: "'q \<Rightarrow> nat \<Rightarrow> 'a list \<times> 'q"
    and items :: "'q \<Rightarrow> 'a list"
    and ok :: "'q \<Rightarrow> bool"
    and cap :: nat
  assumes items_cap: "ok q \<Longrightarrow> length (items q) \<le> cap"
    and push_room: "ok q \<Longrightarrow> length (items q) < cap \<Longrightarrow>
                    \<exists>q'. push q x = Some q' \<and> ok q' \<and> items q' = items q @ [x]"
    and push_full: "ok q \<Longrightarrow> length (items q) = cap \<Longrightarrow> push q x = None"
    and pop_empty: "ok q \<Longrightarrow> items q = [] \<Longrightarrow> pop q = None"
    and pop_item: "ok q \<Longrightarrow> items q = x # xs \<Longrightarrow>
                   \<exists>q'. pop q = Some (x, q') \<and> ok q' \<and> items q' = xs"
    and push_buf_Nil: "push_buf q [] = (0, q)"
    and push_buf_Cons: "push_buf q (x # xs) =
          (case push q x of None \<Rightarrow> (0, q)
           | Some q' \<Rightarrow> (Suc (fst (push_buf q' xs)), snd (push_buf q' xs)))"
    and pop_buf_0: "pop_buf q 0 = ([], q)"
    and pop_buf_Suc: "pop_buf q (Suc n) =
          (case pop q of None \<Rightarrow> ([], q)
           | Some (x, q') \<Rightarrow> (x # fst (pop_buf q' n), snd (pop_buf q' n)))"
begin

lemma pop_cases:
  assumes "ok q"
  obtains "items q = []" "pop q = None"
  | x q' where "pop q = Some (x, q')" "ok q'" "items q = x # items q'"
proof (cases "items q")
  case Nil
  then show ?thesis using that(1) pop_empty [OF assms] by simp
next
  case (Cons x xs)
  then show ?thesis using that(2) pop_item [OF assms Cons] by blast
qed

lemma push_buf_fits:
  "ok q \<Longrightarrow> length (items q) + length xs \<le> cap \<Longrightarrow>
   \<exists>q'. push_buf q xs = (length xs, q') \<and> ok q' \<and> items q' = items q @ xs"
proof (induction xs arbitrary: q)
  case Nil
  then show ?case by (simp add: push_buf_Nil)
next
  case (Cons x xs)
  then obtain q' where q': "push q x = Some q'" "ok q'" "items q' = items q @ [x]"
    using push_room [of q x] by auto
  with Cons.prems Cons.IH [of q'] show ?case by (auto simp: push_buf_Cons)
qed

lemma push_buf_prefix:
  "ok q \<Longrightarrow> push_buf q xs = (n, q') \<Longrightarrow>
   n = min (length xs) (cap - length (items q)) \<and> ok q' \<and> items q' = items q @ take n xs"
proof (induction xs arbitrary: q n)
  case Nil
  then show ?case by (simp add: push_buf_Nil)
next
  case (Cons x xs)
  show ?case
  proof (cases "length (items q) < cap")
    case True
    with Cons.prems(1) obtain q1 where q1: "push q x = Some q1" "ok q1" "items q1 = items q @ [x]"
      using push_room by blast
    with Cons.prems(2) obtain m where m: "push_buf q1 xs = (m, q')" "n = Suc m"
      by (cases "push_buf q1 xs") (auto simp: push_buf_Cons)
    from Cons.IH [OF q1(2) m(1)] q1 m True show ?thesis by auto
  next
    case False
    with Cons.prems items_cap [of q] show ?thesis by (auto simp: push_buf_Cons push_full)
  qed
qed

lemma pop_buf_take:
  "ok q \<Longrightarrow>
   \<exists>q'. pop_buf q n = (take n (items q), q') \<and> ok q' \<and> items q' = drop n (items q)"
proof (induction n arbitrary: q)
  case 0
  then show ?case by (simp add: pop_buf_0)
next
  case (Suc n)
  from Suc.prems show ?case
  proof (cases rule: pop_cases)
    case 1
    then show ?thesis using Suc.prems by (simp add: pop_buf_Suc)
  next
    case (2 x q')
    with Suc.IH [OF 2(2)] show ?thesis by (auto simp: pop_buf_Suc)
  qed
qed

lemma push_pop_all:
  assumes "ok q" "items q = []" "length xs \<le> cap"
  shows "fst (pop_buf (snd (push_buf q xs)) (length xs)) = xs"
proof -
  obtain q' where "push_buf q xs = (length xs, q')" "ok q'" "items q' = xs"
    using push_buf_fits [of q xs] assms by auto
  with pop_buf_take [of q' "length xs"] show ?thesis by auto
qed

end

subsection \<open>The ring buffer is an instance\<close>

definition rb_ok :: "osdp_rb \<Rightarrow> bool" where
  "rb_ok p \<longleftrightarrow> head p < OSDP_RX_RB_SIZE \<and> tail p < OSDP_RX_RB_SIZE \<and>
               length (buffer p) = OSDP_RX_RB_SIZE"

definition rb_count :: "osdp_rb \<Rightarrow> nat" where
  "rb_count p = (if tail p \<le> head p then head p - tail p
                 else OSDP_RX_RB_SIZE - tail p + head p)"

definition rb_index :: "nat \<Rightarrow> nat" where
  "rb_index i = (if i \<ge> OSDP_RX_RB_SIZE then i - OSDP_RX_RB_SIZE else i)"

definition rb_items :: "osdp_rb \<Rightarrow> bytes" where
  "rb_items p = map (\<lambda>i. buffer p ! rb_index (tail p + i)) [0..<rb_count p]"

definition rb_next :: "nat \<Rightarrow> nat" where
  "rb_next i = (if i + 1 \<ge> OSDP_RX_RB_SIZE then 0 else i + 1)"

lemmas rb_arith = rb_count_def rb_index_def rb_next_def OSDP_RX_RB_SIZE_def rb_ok_def

lemma push_rb_next:
  "osdp_rb_push p x =
     (if rb_next (head p) = tail p then None
      else Some (p\<lparr>buffer := (buffer p)[head p := x], head := rb_next (head p)\<rparr>))"
  by (simp add: osdp_rb_push_def rb_next_def Let_def)

lemma pop_rb_next:
  "osdp_rb_pop p =
     (if head p = tail p then None
      else Some (buffer p ! tail p, p\<lparr>tail := rb_next (tail p)\<rparr>))"
  by (simp add: osdp_rb_pop_def rb_next_def Let_def)

lemma rb_full_iff:
  "rb_ok p \<Longrightarrow> rb_next (head p) = tail p \<longleftrightarrow> rb_count p = OSDP_RX_RB_SIZE - 1"
  by (auto simp: rb_arith split: if_splits)

lemma rb_empty_iff: "rb_ok p \<Longrightarrow> head p = tail p \<longleftrightarrow> rb_count p = 0"
  by (auto simp: rb_arith)

lemma rb_count_less: "rb_ok p \<Longrightarrow> rb_count p < OSDP_RX_RB_SIZE"
  by (auto simp: rb_arith)

lemma rb_index_count: "rb_ok p \<Longrightarrow> rb_index (tail p + rb_count p) = head p"
  by (auto simp: rb_arith)

lemma rb_index_other:
  "rb_ok p \<Longrightarrow> i < rb_count p \<Longrightarrow>
   rb_index (tail p + i) \<noteq> head p \<and> rb_index (tail p + i) < OSDP_RX_RB_SIZE"
  by (auto simp: rb_arith split: if_splits)

lemma rb_index_next:
  "rb_ok p \<Longrightarrow> Suc i < rb_count p \<Longrightarrow>
   rb_index (rb_next (tail p) + i) = rb_index (tail p + Suc i)"
  by (auto simp: rb_arith split: if_splits)

lemma rb_push_room:
  assumes "rb_ok p" "length (rb_items p) < OSDP_RX_RB_SIZE - 1"
  shows "\<exists>p'. osdp_rb_push p x = Some p' \<and> rb_ok p' \<and> rb_items p' = rb_items p @ [x]"
proof -
  let ?p' = "p\<lparr>buffer := (buffer p)[head p := x], head := rb_next (head p)\<rparr>"
  have room: "rb_count p < OSDP_RX_RB_SIZE - 1"
    using assms(2) by (simp add: rb_items_def)
  then have some: "osdp_rb_push p x = Some ?p'"
    using rb_full_iff [OF assms(1)] by (simp add: push_rb_next)
  have ok: "rb_ok ?p'"
    using assms(1) by (auto simp: rb_arith)
  have count: "rb_count ?p' = Suc (rb_count p)"
    using assms(1) room by (auto simp: rb_arith split: if_splits)
  have last: "(buffer p)[head p := x] ! rb_index (tail p + rb_count p) = x"
    using assms(1) by (simp add: rb_index_count) (simp add: rb_ok_def)
  have "map (\<lambda>i. (buffer p)[head p := x] ! rb_index (tail p + i)) [0..<rb_count p] = rb_items p"
    unfolding rb_items_def by (rule map_cong) (use rb_index_other [OF assms(1)] in \<open>auto simp: neq_commute\<close>)
  then have "rb_items ?p' = rb_items p @ [x]"
    using last by (simp add: rb_items_def count)
  with some ok show ?thesis by blast
qed

lemma rb_pop_item:
  assumes "rb_ok p" "rb_items p = x # xs"
  shows "\<exists>p'. osdp_rb_pop p = Some (x, p') \<and> rb_ok p' \<and> rb_items p' = xs"
proof -
  let ?p' = "p\<lparr>tail := rb_next (tail p)\<rparr>"
  have pos: "0 < rb_count p"
    using assms(2) by (cases "rb_count p") (auto simp: rb_items_def)
  then have ne: "head p \<noteq> tail p"
    using rb_empty_iff [OF assms(1)] by simp
  have count: "rb_count ?p' = rb_count p - 1"
    using assms(1) pos by (auto simp: rb_arith split: if_splits)
  have ok: "rb_ok ?p'"
    using assms(1) by (auto simp: rb_arith)
  obtain n where n: "rb_count p = Suc n"
    using pos by (cases "rb_count p") auto
  have split: "rb_items p =
      buffer p ! rb_index (tail p) # map (\<lambda>i. buffer p ! rb_index (tail p + Suc i)) [0..<n]"
    by (simp add: rb_items_def n map_upt_Suc del: upt_Suc)
  have "rb_index (tail p) = tail p"
    using assms(1) by (simp add: rb_arith)
  with split assms(2) have x: "buffer p ! tail p = x"
    and xs: "map (\<lambda>i. buffer p ! rb_index (tail p + Suc i)) [0..<n] = xs" by auto
  have "rb_items ?p' = xs"
    unfolding xs [symmetric] rb_items_def count n
    by (rule map_cong) (use rb_index_next [OF assms(1)] n in auto)
  with x ne ok show ?thesis by (simp add: pop_rb_next)
qed

interpretation rb: byte_fifo osdp_rb_push osdp_rb_pop osdp_rb_push_buf osdp_rb_pop_buf
    rb_items rb_ok "OSDP_RX_RB_SIZE - 1"
proof unfold_locales
  fix q :: osdp_rb and x :: u8 and xs :: bytes and n :: nat
  show "rb_ok q \<Longrightarrow> length (rb_items q) \<le> OSDP_RX_RB_SIZE - 1"
    using rb_count_less [of q] by (simp add: rb_items_def)
  show "rb_ok q \<Longrightarrow> length (rb_items q) < OSDP_RX_RB_SIZE - 1 \<Longrightarrow>
        \<exists>q'. osdp_rb_push q x = Some q' \<and> rb_ok q' \<and> rb_items q' = rb_items q @ [x]"
    by (rule rb_push_room)
  show "rb_ok q \<Longrightarrow> length (rb_items q) = OSDP_RX_RB_SIZE - 1 \<Longrightarrow> osdp_rb_push q x = None"
    by (simp add: push_rb_next rb_full_iff rb_items_def)
  show "rb_ok q \<Longrightarrow> rb_items q = [] \<Longrightarrow> osdp_rb_pop q = None"
    by (simp add: pop_rb_next rb_empty_iff rb_items_def)
  show "rb_ok q \<Longrightarrow> rb_items q = x # xs \<Longrightarrow>
        \<exists>q'. osdp_rb_pop q = Some (x, q') \<and> rb_ok q' \<and> rb_items q' = xs"
    by (rule rb_pop_item)
qed (simp_all add: case_prod_beta split: option.split)

text \<open>
  C16. The ring buffer is a bounded queue: pushing a block of bytes stores the longest prefix
  that fits behind what is queued and reports its length, and popping returns the queued
  bytes in the order they were received, leaving the rest.
\<close>

theorem ring_buffer_fifo:
  assumes "rb_ok p"
  shows "(let (n, p') = osdp_rb_push_buf p bs
          in n = min (length bs) (511 - length (rb_items p)) \<and> rb_ok p' \<and>
             rb_items p' = rb_items p @ take n bs) \<and>
         (let (out, p'') = osdp_rb_pop_buf p k
          in out = take k (rb_items p) \<and> rb_ok p'' \<and> rb_items p'' = drop k (rb_items p))"
  using rb.push_buf_prefix [OF assms, of bs] rb.pop_buf_take [OF assms, of k]
  by (auto simp: OSDP_RX_RB_SIZE_def split: prod.splits)

theorem ring_buffer_fifo_witness:
  "let (n, p') = osdp_rb_push_buf \<lparr>head = 510, tail = 510, buffer = replicate 512 0\<rparr> [7, 8, 9]
   in n = 3 \<and> rb_ok p' \<and> rb_items p' = [7, 8, 9]"
proof -
  let ?p = "\<lparr>head = 510, tail = 510, buffer = replicate 512 0\<rparr>"
  have "rb_ok ?p" by (simp add: rb_ok_def OSDP_RX_RB_SIZE_def)
  moreover have "rb_items ?p = []" by (simp add: rb_items_def rb_count_def)
  ultimately show ?thesis
    using ring_buffer_fifo [of ?p "[7, 8, 9]" 0] by (simp add: case_prod_beta)
qed

end
