(* ===== verification/Device.thy ===== *)
theory Device
  imports Ring_Buffer
begin

text \<open>
  The device context \<open>struct osdp_pd\<close> of src/src/osdp_common.h with its flag word, request
  word, link counters (src/src/osdp_metrics.c), and the part of \<open>struct osdp\<close> it points to:
  the packet buffers and the channel.  Field names carry the prefix \<open>pd_\<close> (\<open>ctx_\<close> for
  \<open>struct osdp\<close>, \<open>ch_\<close> for the channel).

  The application's channel callbacks and clock are not code of the library: what the coming
  \<open>recv\<close> and \<open>send\<close> calls return, what \<open>rand_u32\<close> yields and what \<open>osdp_millis_now\<close> reads
  are inputs held in the channel record, and every \<open>send\<close> call is logged in \<open>ch_sent\<close>.  The
  packet buffer pointer is a tag, so that the buffer a CP shares between its two directions
  is one buffer here too.  Packet and data tracing are compiled out, the default.
\<close>

subsection \<open>Identifiers\<close>

abbreviation (input) BIT :: "nat \<Rightarrow> u32" where "BIT n \<equiv> 2 ^ n"

abbreviation (input) PD_FLAG_SC_CAPABLE :: nat where "PD_FLAG_SC_CAPABLE \<equiv> 0"
abbreviation (input) PD_FLAG_TAMPER :: nat where "PD_FLAG_TAMPER \<equiv> 1"
abbreviation (input) PD_FLAG_POWER :: nat where "PD_FLAG_POWER \<equiv> 2"
abbreviation (input) PD_FLAG_R_TAMPER :: nat where "PD_FLAG_R_TAMPER \<equiv> 3"
abbreviation (input) PD_FLAG_SKIP_SEQ_CHECK :: nat where "PD_FLAG_SKIP_SEQ_CHECK \<equiv> 5"
abbreviation (input) PD_FLAG_SC_USE_SCBKD :: nat where "PD_FLAG_SC_USE_SCBKD \<equiv> 6"
abbreviation (input) PD_FLAG_SC_ACTIVE :: nat where "PD_FLAG_SC_ACTIVE \<equiv> 7"
abbreviation (input) PD_FLAG_PD_MODE :: nat where "PD_FLAG_PD_MODE \<equiv> 8"
abbreviation (input) PD_FLAG_PKT_SKIP_MARK :: nat where "PD_FLAG_PKT_SKIP_MARK \<equiv> 10"
abbreviation (input) PD_FLAG_PKT_HAS_MARK :: nat where "PD_FLAG_PKT_HAS_MARK \<equiv> 11"
abbreviation (input) PD_FLAG_SC_DISABLED :: nat where "PD_FLAG_SC_DISABLED \<equiv> 12"
abbreviation (input) PD_FLAG_PKT_BROADCAST :: nat where "PD_FLAG_PKT_BROADCAST \<equiv> 13"
abbreviation (input) PD_FLAG_CP_USE_CRC :: nat where "PD_FLAG_CP_USE_CRC \<equiv> 14"
abbreviation (input) PD_FLAG_ONLINE :: nat where "PD_FLAG_ONLINE \<equiv> 15"
abbreviation (input) PD_FLAG_TRS_CAPABLE :: nat where "PD_FLAG_TRS_CAPABLE \<equiv> 16"
abbreviation (input) PD_FLAG_TRS_ACTIVE :: nat where "PD_FLAG_TRS_ACTIVE \<equiv> 17"
abbreviation (input) PD_FLAG_SC_ESTABLISHED :: nat where "PD_FLAG_SC_ESTABLISHED \<equiv> 18"
abbreviation (input) PD_FLAG_ENFORCE_SECURE :: nat where "PD_FLAG_ENFORCE_SECURE \<equiv> 24"
abbreviation (input) PD_FLAG_INSTALL_MODE :: nat where "PD_FLAG_INSTALL_MODE \<equiv> 25"
abbreviation (input) PD_FLAG_IGNORE_USR :: nat where "PD_FLAG_IGNORE_USR \<equiv> 26"
abbreviation (input) PD_FLAG_ENABLE_NOTIF :: nat where "PD_FLAG_ENABLE_NOTIF \<equiv> 27"
abbreviation (input) PD_FLAG_CAPTURE_PKT :: nat where "PD_FLAG_CAPTURE_PKT \<equiv> 28"
abbreviation (input) PD_FLAG_ALLOW_EMPTY_EDB :: nat where "PD_FLAG_ALLOW_EMPTY_EDB \<equiv> 29"
abbreviation (input) PD_FLAG_BIOREADR_MP :: nat where "PD_FLAG_BIOREADR_MP \<equiv> 30"

abbreviation (input) CMD_INVALID :: int where "CMD_INVALID \<equiv> 0x00"
abbreviation (input) CMD_POLL :: int where "CMD_POLL \<equiv> 0x60"
abbreviation (input) CMD_ID :: int where "CMD_ID \<equiv> 0x61"
abbreviation (input) CMD_CAP :: int where "CMD_CAP \<equiv> 0x62"
abbreviation (input) CMD_LSTAT :: int where "CMD_LSTAT \<equiv> 0x64"
abbreviation (input) CMD_ISTAT :: int where "CMD_ISTAT \<equiv> 0x65"
abbreviation (input) CMD_OSTAT :: int where "CMD_OSTAT \<equiv> 0x66"
abbreviation (input) CMD_RSTAT :: int where "CMD_RSTAT \<equiv> 0x67"
abbreviation (input) CMD_OUT :: int where "CMD_OUT \<equiv> 0x68"
abbreviation (input) CMD_LED :: int where "CMD_LED \<equiv> 0x69"
abbreviation (input) CMD_BUZ :: int where "CMD_BUZ \<equiv> 0x6A"
abbreviation (input) CMD_TEXT :: int where "CMD_TEXT \<equiv> 0x6B"
abbreviation (input) CMD_TDSET :: int where "CMD_TDSET \<equiv> 0x6D"
abbreviation (input) CMD_COMSET :: int where "CMD_COMSET \<equiv> 0x6E"
abbreviation (input) CMD_BIOREAD :: int where "CMD_BIOREAD \<equiv> 0x73"
abbreviation (input) CMD_BIOMATCH :: int where "CMD_BIOMATCH \<equiv> 0x74"
abbreviation (input) CMD_KEYSET :: int where "CMD_KEYSET \<equiv> 0x75"
abbreviation (input) CMD_CHLNG :: int where "CMD_CHLNG \<equiv> 0x76"
abbreviation (input) CMD_SCRYPT :: int where "CMD_SCRYPT \<equiv> 0x77"
abbreviation (input) CMD_ACURXSIZE :: int where "CMD_ACURXSIZE \<equiv> 0x7B"
abbreviation (input) CMD_FILETRANSFER :: int where "CMD_FILETRANSFER \<equiv> 0x7C"
abbreviation (input) CMD_MFG :: int where "CMD_MFG \<equiv> 0x80"
abbreviation (input) CMD_XWR :: int where "CMD_XWR \<equiv> 0xA1"
abbreviation (input) CMD_ABORT :: int where "CMD_ABORT \<equiv> 0xA2"
abbreviation (input) CMD_PIVDATA :: int where "CMD_PIVDATA \<equiv> 0xA3"
abbreviation (input) CMD_GENAUTH :: int where "CMD_GENAUTH \<equiv> 0xA4"
abbreviation (input) CMD_CRAUTH :: int where "CMD_CRAUTH \<equiv> 0xA5"
abbreviation (input) CMD_KEEPACTIVE :: int where "CMD_KEEPACTIVE \<equiv> 0xA7"

abbreviation (input) REPLY_INVALID :: int where "REPLY_INVALID \<equiv> 0x00"
abbreviation (input) REPLY_ACK :: int where "REPLY_ACK \<equiv> 0x40"
abbreviation (input) REPLY_NAK :: int where "REPLY_NAK \<equiv> 0x41"
abbreviation (input) REPLY_PDID :: int where "REPLY_PDID \<equiv> 0x45"
abbreviation (input) REPLY_PDCAP :: int where "REPLY_PDCAP \<equiv> 0x46"
abbreviation (input) REPLY_LSTATR :: int where "REPLY_LSTATR \<equiv> 0x48"
abbreviation (input) REPLY_ISTATR :: int where "REPLY_ISTATR \<equiv> 0x49"
abbreviation (input) REPLY_OSTATR :: int where "REPLY_OSTATR \<equiv> 0x4A"
abbreviation (input) REPLY_RSTATR :: int where "REPLY_RSTATR \<equiv> 0x4B"
abbreviation (input) REPLY_RAW :: int where "REPLY_RAW \<equiv> 0x50"
abbreviation (input) REPLY_KEYPAD :: int where "REPLY_KEYPAD \<equiv> 0x53"
abbreviation (input) REPLY_COM :: int where "REPLY_COM \<equiv> 0x54"
abbreviation (input) REPLY_BIOREADR :: int where "REPLY_BIOREADR \<equiv> 0x57"
abbreviation (input) REPLY_BIOMATCHR :: int where "REPLY_BIOMATCHR \<equiv> 0x58"
abbreviation (input) REPLY_CCRYPT :: int where "REPLY_CCRYPT \<equiv> 0x76"
abbreviation (input) REPLY_RMAC_I :: int where "REPLY_RMAC_I \<equiv> 0x78"
abbreviation (input) REPLY_BUSY :: int where "REPLY_BUSY \<equiv> 0x79"
abbreviation (input) REPLY_FTSTAT :: int where "REPLY_FTSTAT \<equiv> 0x7A"
abbreviation (input) REPLY_PIVDATAR :: int where "REPLY_PIVDATAR \<equiv> 0x80"
abbreviation (input) REPLY_GENAUTHR :: int where "REPLY_GENAUTHR \<equiv> 0x81"
abbreviation (input) REPLY_CRAUTHR :: int where "REPLY_CRAUTHR \<equiv> 0x82"
abbreviation (input) REPLY_MFGSTATR :: int where "REPLY_MFGSTATR \<equiv> 0x83"
abbreviation (input) REPLY_MFGERRR :: int where "REPLY_MFGERRR \<equiv> 0x84"
abbreviation (input) REPLY_MFGREP :: int where "REPLY_MFGREP \<equiv> 0x90"
abbreviation (input) REPLY_XRD :: int where "REPLY_XRD \<equiv> 0xB1"

abbreviation (input) OSDP_PD_NAK_NONE :: u8 where "OSDP_PD_NAK_NONE \<equiv> 0"
abbreviation (input) OSDP_PD_NAK_MSG_CHK :: u8 where "OSDP_PD_NAK_MSG_CHK \<equiv> 1"
abbreviation (input) OSDP_PD_NAK_CMD_LEN :: u8 where "OSDP_PD_NAK_CMD_LEN \<equiv> 2"
abbreviation (input) OSDP_PD_NAK_CMD_UNKNOWN :: u8 where "OSDP_PD_NAK_CMD_UNKNOWN \<equiv> 3"
abbreviation (input) OSDP_PD_NAK_SEQ_NUM :: u8 where "OSDP_PD_NAK_SEQ_NUM \<equiv> 4"
abbreviation (input) OSDP_PD_NAK_SC_UNSUP :: u8 where "OSDP_PD_NAK_SC_UNSUP \<equiv> 5"
abbreviation (input) OSDP_PD_NAK_SC_COND :: u8 where "OSDP_PD_NAK_SC_COND \<equiv> 6"
abbreviation (input) OSDP_PD_NAK_BIO_TYPE :: u8 where "OSDP_PD_NAK_BIO_TYPE \<equiv> 7"
abbreviation (input) OSDP_PD_NAK_BIO_FMT :: u8 where "OSDP_PD_NAK_BIO_FMT \<equiv> 8"
abbreviation (input) OSDP_PD_NAK_RECORD :: u8 where "OSDP_PD_NAK_RECORD \<equiv> 9"

abbreviation (input) OSDP_PACKET_BUF_SIZE :: nat where "OSDP_PACKET_BUF_SIZE \<equiv> 256"
abbreviation (input) OSDP_MINIMUM_PACKET_SIZE :: nat where "OSDP_MINIMUM_PACKET_SIZE \<equiv> 128"

text \<open>
  The returns of the packet layer that are not a length.  They stay integers, as in the code,
  where a length and an error code share one return value.
\<close>

abbreviation (input) OSDP_ERR_PKT_NONE :: int where "OSDP_ERR_PKT_NONE \<equiv> 0"
abbreviation (input) OSDP_ERR_PKT_FMT :: int where "OSDP_ERR_PKT_FMT \<equiv> - 1"
abbreviation (input) OSDP_ERR_PKT_WAIT :: int where "OSDP_ERR_PKT_WAIT \<equiv> - 2"
abbreviation (input) OSDP_ERR_PKT_SKIP :: int where "OSDP_ERR_PKT_SKIP \<equiv> - 3"
abbreviation (input) OSDP_ERR_PKT_CHECK :: int where "OSDP_ERR_PKT_CHECK \<equiv> - 4"
abbreviation (input) OSDP_ERR_PKT_BUSY :: int where "OSDP_ERR_PKT_BUSY \<equiv> - 5"
abbreviation (input) OSDP_ERR_PKT_NACK :: int where "OSDP_ERR_PKT_NACK \<equiv> - 6"
abbreviation (input) OSDP_ERR_PKT_BUILD :: int where "OSDP_ERR_PKT_BUILD \<equiv> - 7"
abbreviation (input) OSDP_ERR_PKT_NO_DATA :: int where "OSDP_ERR_PKT_NO_DATA \<equiv> - 8"
abbreviation (input) OSDP_ERR_PKT_WAIT_TX :: int where "OSDP_ERR_PKT_WAIT_TX \<equiv> - 9"

datatype osdp_cp_phy_state_e =
    OSDP_CP_PHY_STATE_IDLE | OSDP_CP_PHY_STATE_SEND_CMD | OSDP_CP_PHY_STATE_SEND_CMD_WAIT
  | OSDP_CP_PHY_STATE_REPLY_WAIT | OSDP_CP_PHY_STATE_WAIT | OSDP_CP_PHY_STATE_RETRY_CMD
  | OSDP_CP_PHY_STATE_DONE | OSDP_CP_PHY_STATE_ERR

datatype osdp_cp_state_e =
    OSDP_CP_STATE_INIT | OSDP_CP_STATE_CAPDET | OSDP_CP_STATE_SC_CHLNG
  | OSDP_CP_STATE_SC_SCRYPT | OSDP_CP_STATE_SET_SCBK | OSDP_CP_STATE_ONLINE
  | OSDP_CP_STATE_OFFLINE | OSDP_CP_STATE_DISABLED

datatype osdp_metric_event =
    OSDP_METRIC_PACKET_SENT | OSDP_METRIC_PACKET_RECEIVED | OSDP_METRIC_PACKET_CHECK_ERROR
  | OSDP_METRIC_NAK | OSDP_METRIC_SC_HANDSHAKE | OSDP_METRIC_SC_FAILURE
  | OSDP_METRIC_COMMAND | OSDP_METRIC_EVENT

subsection \<open>Records\<close>

record osdp_metrics =
  packets_sent :: u32
  packets_received :: u32
  packet_check_errors :: u32
  nak_count :: u32
  sc_handshake_count :: u32
  sc_failure_count :: u32
  command_count :: u32
  event_count :: u32

record osdp_secure_channel =
  scbk :: bytes
  s_enc :: bytes
  s_mac1 :: bytes
  s_mac2 :: bytes
  r_mac :: bytes
  c_mac :: bytes
  cp_random :: bytes
  pd_random :: bytes
  pd_client_uid :: bytes
  cp_cryptogram :: bytes
  pd_cryptogram :: bytes

record osdp_pd_id =
  id_version :: int
  id_model :: int
  id_vendor_code :: u32
  id_serial_number :: u32
  id_firmware_version :: u32

record osdp_pd_cap =
  function_code :: u8
  compliance_level :: u8
  num_items :: u8

record osdp_channel =
  ch_now :: int
  ch_recv :: "bytes list"
  ch_send :: "int list"
  ch_rand :: bytes
  ch_sent :: "bytes list"
  ch_flushes :: nat

text \<open>
  \<open>ctx_rx_shared\<close>: the landing buffer \<open>rx_buf\<close> is \<open>tx_buf\<close> itself, the CP configuration;
  a PD has storage of its own.
\<close>

record osdp =
  ctx_tx_buf :: bytes
  ctx_rx_store :: bytes
  ctx_rx_shared :: bool
  ctx_channel :: osdp_channel

datatype packet_buf_ref = TX_BUF | RX_BUF

text \<open>
  \<open>pd_pending\<close> is the anonymous union of 16 bytes: \<open>nak_code\<close> is its first byte,
  \<open>keyset_pending\<close> all of it.
\<close>

record osdp_pd =
  pd_ctx :: osdp
  pd_idx :: nat
  pd_flags :: u32
  pd_baud_rate :: u32
  pd_address :: int
  pd_seq_number :: int
  pd_id :: osdp_pd_id
  pd_cap :: "osdp_pd_cap list"
  pd_state :: osdp_cp_state_e
  pd_phy_state :: osdp_cp_phy_state_e
  pd_phy_retry_count :: int
  pd_phy_tx_seq :: int
  pd_wait_ms :: u32
  pd_tstamp :: int
  pd_sc_tstamp :: int
  pd_phy_tstamp :: int
  pd_resp_timeout_ms :: u32
  pd_request :: u32
  pd_peer_rx_size :: u16
  pd_rx_rb :: osdp_rb
  pd_packet_buf :: packet_buf_ref
  pd_packet_len :: nat
  pd_packet_buf_len :: nat
  pd_packet_scan_skip :: u32
  pd_reply_prebuilt :: bool
  pd_last_tx_len :: u16
  pd_last_cmd_id :: u8
  pd_cmd_id :: int
  pd_reply_id :: int
  pd_pending :: bytes
  pd_sc :: osdp_secure_channel
  pd_metrics :: osdp_metrics

abbreviation set_flags :: "(u32 \<Rightarrow> u32) \<Rightarrow> 'z osdp_pd_scheme \<Rightarrow> 'z osdp_pd_scheme" where
  "set_flags f pd \<equiv> pd\<lparr>pd_flags := f (pd_flags pd)\<rparr>"

subsection \<open>Flags and requests\<close>

text \<open>A flag is given by its position; the mask in the code is \<open>BIT\<close> of it.\<close>

definition ISSET_FLAG :: "'z osdp_pd_scheme \<Rightarrow> nat \<Rightarrow> bool" where
  "ISSET_FLAG pd f \<longleftrightarrow> pd_flags pd AND BIT f = BIT f"

definition SET_FLAG :: "nat \<Rightarrow> 'z osdp_pd_scheme \<Rightarrow> 'z osdp_pd_scheme" where
  "SET_FLAG f pd = set_flags (\<lambda>v. v OR BIT f) pd"

definition CLEAR_FLAG :: "nat \<Rightarrow> 'z osdp_pd_scheme \<Rightarrow> 'z osdp_pd_scheme" where
  "CLEAR_FLAG f pd = set_flags (\<lambda>v. v AND NOT (BIT f)) pd"

definition SET_FLAG_V :: "nat \<Rightarrow> bool \<Rightarrow> 'z osdp_pd_scheme \<Rightarrow> 'z osdp_pd_scheme" where
  "SET_FLAG_V f v pd = (if v then SET_FLAG f pd else CLEAR_FLAG f pd)"

lemma bit_BIT [simp]: "f < 32 \<Longrightarrow> bit (BIT f) n \<longleftrightarrow> n = f"
  by (auto simp: bit_simps)

lemma mask_bit:
  assumes "f < 32"
  shows "v AND BIT f = BIT f \<longleftrightarrow> bit v f"
proof
  assume "v AND BIT f = BIT f"
  then have "bit (v AND BIT f) f = bit (BIT f) f" by (rule arg_cong)
  then show "bit v f" using assms by (simp add: bit_and_iff)
next
  assume "bit v f"
  then show "v AND BIT f = BIT f"
    using assms by (intro bit_word_eqI) (auto simp: bit_and_iff)
qed

lemma ISSET_FLAG_bit: "f < 32 \<Longrightarrow> ISSET_FLAG pd f \<longleftrightarrow> bit (pd_flags pd) f"
  by (simp add: ISSET_FLAG_def mask_bit)

lemma ISSET_SET_FLAG [simp]:
  "f < 32 \<Longrightarrow> g < 32 \<Longrightarrow> ISSET_FLAG (SET_FLAG g pd) f \<longleftrightarrow> f = g \<or> ISSET_FLAG pd f"
  by (auto simp: ISSET_FLAG_bit SET_FLAG_def bit_simps)

lemma ISSET_CLEAR_FLAG [simp]:
  "f < 32 \<Longrightarrow> g < 32 \<Longrightarrow> ISSET_FLAG (CLEAR_FLAG g pd) f \<longleftrightarrow> f \<noteq> g \<and> ISSET_FLAG pd f"
  by (auto simp: ISSET_FLAG_bit CLEAR_FLAG_def bit_simps)

definition is_pd_mode :: "'z osdp_pd_scheme \<Rightarrow> bool" where
  "is_pd_mode pd = ISSET_FLAG pd PD_FLAG_PD_MODE"

definition is_cp_mode :: "'z osdp_pd_scheme \<Rightarrow> bool" where
  "is_cp_mode pd = (\<not> ISSET_FLAG pd PD_FLAG_PD_MODE)"

definition sc_use_scbkd :: "'z osdp_pd_scheme \<Rightarrow> bool" where
  "sc_use_scbkd pd = ISSET_FLAG pd PD_FLAG_SC_USE_SCBKD"

definition sc_was_established :: "'z osdp_pd_scheme \<Rightarrow> bool" where
  "sc_was_established pd = ISSET_FLAG pd PD_FLAG_SC_ESTABLISHED"

definition sc_is_capable :: "'z osdp_pd_scheme \<Rightarrow> bool" where
  "sc_is_capable pd = (ISSET_FLAG pd PD_FLAG_SC_CAPABLE \<and> \<not> ISSET_FLAG pd PD_FLAG_SC_DISABLED)"

definition sc_is_active :: "'z osdp_pd_scheme \<Rightarrow> bool" where
  "sc_is_active pd = ISSET_FLAG pd PD_FLAG_SC_ACTIVE"

definition is_pd_online :: "'z osdp_pd_scheme \<Rightarrow> bool" where
  "is_pd_online pd = ISSET_FLAG pd PD_FLAG_ONLINE"

definition pd_set_online :: "'z osdp_pd_scheme \<Rightarrow> 'z osdp_pd_scheme" where
  "pd_set_online pd = SET_FLAG PD_FLAG_ONLINE pd"

definition pd_set_offline :: "'z osdp_pd_scheme \<Rightarrow> 'z osdp_pd_scheme" where
  "pd_set_offline pd = CLEAR_FLAG PD_FLAG_ONLINE pd"

definition sc_allow_empty_encrypted_data_block :: "'z osdp_pd_scheme \<Rightarrow> bool" where
  "sc_allow_empty_encrypted_data_block pd = ISSET_FLAG pd PD_FLAG_ALLOW_EMPTY_EDB"

definition is_bioreadr_multipart :: "'z osdp_pd_scheme \<Rightarrow> bool" where
  "is_bioreadr_multipart pd = ISSET_FLAG pd PD_FLAG_BIOREADR_MP"

definition is_enforce_secure :: "'z osdp_pd_scheme \<Rightarrow> bool" where
  "is_enforce_secure pd = ISSET_FLAG pd PD_FLAG_ENFORCE_SECURE"

definition is_notifications_enabled :: "'z osdp_pd_scheme \<Rightarrow> bool" where
  "is_notifications_enabled pd = ISSET_FLAG pd PD_FLAG_ENABLE_NOTIF"

definition is_ignore_unsolicited_messages :: "'z osdp_pd_scheme \<Rightarrow> bool" where
  "is_ignore_unsolicited_messages pd = ISSET_FLAG pd PD_FLAG_IGNORE_USR"

definition is_install_mode :: "'z osdp_pd_scheme \<Rightarrow> bool" where
  "is_install_mode pd = ISSET_FLAG pd PD_FLAG_INSTALL_MODE"

definition packet_has_mark :: "'z osdp_pd_scheme \<Rightarrow> bool" where
  "packet_has_mark pd = ISSET_FLAG pd PD_FLAG_PKT_HAS_MARK"

lemmas flag_defs = is_pd_mode_def is_cp_mode_def sc_use_scbkd_def sc_was_established_def
  sc_is_capable_def sc_is_active_def is_pd_online_def pd_set_online_def pd_set_offline_def
  sc_allow_empty_encrypted_data_block_def is_bioreadr_multipart_def is_enforce_secure_def
  is_notifications_enabled_def is_ignore_unsolicited_messages_def is_install_mode_def
  packet_has_mark_def

abbreviation (input) CP_REQ_RESTART_SC :: nat where "CP_REQ_RESTART_SC \<equiv> 0"
abbreviation (input) CP_REQ_LINK_RESET :: nat where "CP_REQ_LINK_RESET \<equiv> 1"
abbreviation (input) CP_REQ_OFFLINE :: nat where "CP_REQ_OFFLINE \<equiv> 2"
abbreviation (input) CP_REQ_DISABLE :: nat where "CP_REQ_DISABLE \<equiv> 3"
abbreviation (input) CP_REQ_ENABLE :: nat where "CP_REQ_ENABLE \<equiv> 4"

definition make_request :: "nat \<Rightarrow> 'z osdp_pd_scheme \<Rightarrow> 'z osdp_pd_scheme" where
  "make_request req pd = pd\<lparr>pd_request := pd_request pd OR BIT req\<rparr>"

definition check_request :: "nat \<Rightarrow> 'z osdp_pd_scheme \<Rightarrow> bool \<times> 'z osdp_pd_scheme" where
  "check_request req pd =
     (if pd_request pd AND BIT req \<noteq> 0
      then (True, pd\<lparr>pd_request := pd_request pd AND NOT (BIT req)\<rparr>)
      else (False, pd))"

definition test_request :: "'z osdp_pd_scheme \<Rightarrow> nat \<Rightarrow> bool" where
  "test_request pd req \<longleftrightarrow> pd_request pd AND BIT req \<noteq> 0"

lemma request_bit:
  assumes "r < 32"
  shows "v AND BIT r \<noteq> 0 \<longleftrightarrow> bit v r"
proof
  assume "v AND BIT r \<noteq> 0"
  then obtain n where "bit (v AND BIT r) n" by (metis bit_0_eq bit_word_eqI bot_apply bot_bool_def)
  then show "bit v r" using assms by (auto simp: bit_and_iff)
next
  assume "bit v r"
  then have "bit (v AND BIT r) r" using assms by (simp add: bit_and_iff)
  then show "v AND BIT r \<noteq> 0" by auto
qed

lemma test_request_bit: "r < 32 \<Longrightarrow> test_request pd r \<longleftrightarrow> bit (pd_request pd) r"
  by (simp add: test_request_def request_bit)

lemma test_make_request [simp]:
  "r < 32 \<Longrightarrow> s < 32 \<Longrightarrow> test_request (make_request s pd) r \<longleftrightarrow> r = s \<or> test_request pd r"
  by (auto simp: test_request_bit make_request_def bit_simps)

subsection \<open>Link counters\<close>

definition sat_inc :: "u32 \<Rightarrow> u32" where
  "sat_inc c = (if c \<noteq> 0xFFFFFFFF then c + 1 else c)"

fun metrics_count :: "osdp_metric_event \<Rightarrow> osdp_metrics \<Rightarrow> osdp_metrics" where
  "metrics_count OSDP_METRIC_PACKET_SENT m = m\<lparr>packets_sent := sat_inc (packets_sent m)\<rparr>"
| "metrics_count OSDP_METRIC_PACKET_RECEIVED m = m\<lparr>packets_received := sat_inc (packets_received m)\<rparr>"
| "metrics_count OSDP_METRIC_PACKET_CHECK_ERROR m =
     m\<lparr>packet_check_errors := sat_inc (packet_check_errors m)\<rparr>"
| "metrics_count OSDP_METRIC_NAK m = m\<lparr>nak_count := sat_inc (nak_count m)\<rparr>"
| "metrics_count OSDP_METRIC_SC_HANDSHAKE m = m\<lparr>sc_handshake_count := sat_inc (sc_handshake_count m)\<rparr>"
| "metrics_count OSDP_METRIC_SC_FAILURE m = m\<lparr>sc_failure_count := sat_inc (sc_failure_count m)\<rparr>"
| "metrics_count OSDP_METRIC_COMMAND m = m\<lparr>command_count := sat_inc (command_count m)\<rparr>"
| "metrics_count OSDP_METRIC_EVENT m = m\<lparr>event_count := sat_inc (event_count m)\<rparr>"

definition osdp_metrics_report ::
  "osdp_metric_event \<Rightarrow> 'z osdp_pd_scheme \<Rightarrow> 'z osdp_pd_scheme" where
  "osdp_metrics_report ev pd = pd\<lparr>pd_metrics := metrics_count ev (pd_metrics pd)\<rparr>"

definition metrics_zero :: osdp_metrics where
  "metrics_zero = \<lparr>packets_sent = 0, packets_received = 0, packet_check_errors = 0, nak_count = 0,
     sc_handshake_count = 0, sc_failure_count = 0, command_count = 0, event_count = 0\<rparr>"

text \<open>The array of PDs of a context and a PD number; \<open>None\<close> is the return of -1.\<close>

definition osdp_get_metrics ::
  "'z osdp_pd_scheme list \<Rightarrow> int \<Rightarrow> (osdp_metrics \<times> 'z osdp_pd_scheme list) option" where
  "osdp_get_metrics pds i =
     (if i < 0 \<or> i \<ge> int (length pds) then None
      else let pd = pds ! nat i
           in Some (pd_metrics pd, pds[nat i := pd\<lparr>pd_metrics := metrics_zero\<rparr>]))"

subsection \<open>The context\<close>

definition ctx_rx_buf :: "osdp \<Rightarrow> bytes" where
  "ctx_rx_buf ctx = (if ctx_rx_shared ctx then ctx_tx_buf ctx else ctx_rx_store ctx)"

definition set_rx_buf :: "bytes \<Rightarrow> osdp \<Rightarrow> osdp" where
  "set_rx_buf b ctx =
     (if ctx_rx_shared ctx then ctx\<lparr>ctx_tx_buf := b\<rparr> else ctx\<lparr>ctx_rx_store := b\<rparr>)"

text \<open>The bytes that \<open>pd->packet_buf\<close> points to, and a store there.\<close>

definition packet_bytes :: "'z osdp_pd_scheme \<Rightarrow> bytes" where
  "packet_bytes pd =
     (case pd_packet_buf pd of TX_BUF \<Rightarrow> ctx_tx_buf (pd_ctx pd) | RX_BUF \<Rightarrow> ctx_rx_buf (pd_ctx pd))"

definition put_packet_bytes :: "bytes \<Rightarrow> 'z osdp_pd_scheme \<Rightarrow> 'z osdp_pd_scheme" where
  "put_packet_bytes b pd =
     pd\<lparr>pd_ctx := (case pd_packet_buf pd of
        TX_BUF \<Rightarrow> (pd_ctx pd)\<lparr>ctx_tx_buf := b\<rparr> | RX_BUF \<Rightarrow> set_rx_buf b (pd_ctx pd))\<rparr>"

lemma packet_bytes_put [simp]: "packet_bytes (put_packet_bytes b pd) = b"
  by (simp add: packet_bytes_def put_packet_bytes_def set_rx_buf_def ctx_rx_buf_def
      split: packet_buf_ref.split)

definition get_tx_buf_size :: "'z osdp_pd_scheme \<Rightarrow> int" where
  "get_tx_buf_size pd =
     (if pd_peer_rx_size pd \<noteq> 0
      then if int OSDP_PACKET_BUF_SIZE > uint (pd_peer_rx_size pd) then uint (pd_peer_rx_size pd)
           else int OSDP_PACKET_BUF_SIZE
      else int OSDP_PACKET_BUF_SIZE)"

definition nak_code :: "'z osdp_pd_scheme \<Rightarrow> u8" where
  "nak_code pd = hd (pd_pending pd)"

definition set_nak_code :: "u8 \<Rightarrow> 'z osdp_pd_scheme \<Rightarrow> 'z osdp_pd_scheme" where
  "set_nak_code c pd = pd\<lparr>pd_pending := (pd_pending pd)[0 := c]\<rparr>"

abbreviation pd_channel :: "'z osdp_pd_scheme \<Rightarrow> osdp_channel" where
  "pd_channel pd \<equiv> ctx_channel (pd_ctx pd)"

definition set_channel :: "osdp_channel \<Rightarrow> 'z osdp_pd_scheme \<Rightarrow> 'z osdp_pd_scheme" where
  "set_channel ch pd = pd\<lparr>pd_ctx := (pd_ctx pd)\<lparr>ctx_channel := ch\<rparr>\<rparr>"

definition osdp_millis_now :: "'z osdp_pd_scheme \<Rightarrow> int" where
  "osdp_millis_now pd = ch_now (pd_channel pd)"

definition osdp_millis_since :: "'z osdp_pd_scheme \<Rightarrow> int \<Rightarrow> int" where
  "osdp_millis_since pd since = osdp_millis_now pd - since"

text \<open>\<open>osdp_fill_random\<close> takes the next bytes of the entropy source.\<close>

definition osdp_fill_random :: "nat \<Rightarrow> 'z osdp_pd_scheme \<Rightarrow> bytes \<times> 'z osdp_pd_scheme" where
  "osdp_fill_random n pd =
     (let r = ch_rand (pd_channel pd)
      in (take n (r @ replicate n 0), set_channel ((pd_channel pd)\<lparr>ch_rand := drop n r\<rparr>) pd))"

subsection \<open>Frames\<close>

text \<open>What the one-field operations leave alone.\<close>

lemma SET_FLAG_frame [simp]:
  "pd_ctx (SET_FLAG f pd) = pd_ctx pd"
  "pd_idx (SET_FLAG f pd) = pd_idx pd"
  "pd_baud_rate (SET_FLAG f pd) = pd_baud_rate pd"
  "pd_address (SET_FLAG f pd) = pd_address pd"
  "pd_seq_number (SET_FLAG f pd) = pd_seq_number pd"
  "pd_id (SET_FLAG f pd) = pd_id pd"
  "pd_cap (SET_FLAG f pd) = pd_cap pd"
  "pd_state (SET_FLAG f pd) = pd_state pd"
  "pd_phy_state (SET_FLAG f pd) = pd_phy_state pd"
  "pd_phy_retry_count (SET_FLAG f pd) = pd_phy_retry_count pd"
  "pd_phy_tx_seq (SET_FLAG f pd) = pd_phy_tx_seq pd"
  "pd_wait_ms (SET_FLAG f pd) = pd_wait_ms pd"
  "pd_tstamp (SET_FLAG f pd) = pd_tstamp pd"
  "pd_sc_tstamp (SET_FLAG f pd) = pd_sc_tstamp pd"
  "pd_phy_tstamp (SET_FLAG f pd) = pd_phy_tstamp pd"
  "pd_resp_timeout_ms (SET_FLAG f pd) = pd_resp_timeout_ms pd"
  "pd_request (SET_FLAG f pd) = pd_request pd"
  "pd_peer_rx_size (SET_FLAG f pd) = pd_peer_rx_size pd"
  "pd_rx_rb (SET_FLAG f pd) = pd_rx_rb pd"
  "pd_packet_buf (SET_FLAG f pd) = pd_packet_buf pd"
  "pd_packet_len (SET_FLAG f pd) = pd_packet_len pd"
  "pd_packet_buf_len (SET_FLAG f pd) = pd_packet_buf_len pd"
  "pd_packet_scan_skip (SET_FLAG f pd) = pd_packet_scan_skip pd"
  "pd_reply_prebuilt (SET_FLAG f pd) = pd_reply_prebuilt pd"
  "pd_last_tx_len (SET_FLAG f pd) = pd_last_tx_len pd"
  "pd_last_cmd_id (SET_FLAG f pd) = pd_last_cmd_id pd"
  "pd_cmd_id (SET_FLAG f pd) = pd_cmd_id pd"
  "pd_reply_id (SET_FLAG f pd) = pd_reply_id pd"
  "pd_pending (SET_FLAG f pd) = pd_pending pd"
  "pd_sc (SET_FLAG f pd) = pd_sc pd"
  "pd_metrics (SET_FLAG f pd) = pd_metrics pd"
  by (simp_all add: SET_FLAG_def)

lemma CLEAR_FLAG_frame [simp]:
  "pd_ctx (CLEAR_FLAG f pd) = pd_ctx pd"
  "pd_idx (CLEAR_FLAG f pd) = pd_idx pd"
  "pd_baud_rate (CLEAR_FLAG f pd) = pd_baud_rate pd"
  "pd_address (CLEAR_FLAG f pd) = pd_address pd"
  "pd_seq_number (CLEAR_FLAG f pd) = pd_seq_number pd"
  "pd_id (CLEAR_FLAG f pd) = pd_id pd"
  "pd_cap (CLEAR_FLAG f pd) = pd_cap pd"
  "pd_state (CLEAR_FLAG f pd) = pd_state pd"
  "pd_phy_state (CLEAR_FLAG f pd) = pd_phy_state pd"
  "pd_phy_retry_count (CLEAR_FLAG f pd) = pd_phy_retry_count pd"
  "pd_phy_tx_seq (CLEAR_FLAG f pd) = pd_phy_tx_seq pd"
  "pd_wait_ms (CLEAR_FLAG f pd) = pd_wait_ms pd"
  "pd_tstamp (CLEAR_FLAG f pd) = pd_tstamp pd"
  "pd_sc_tstamp (CLEAR_FLAG f pd) = pd_sc_tstamp pd"
  "pd_phy_tstamp (CLEAR_FLAG f pd) = pd_phy_tstamp pd"
  "pd_resp_timeout_ms (CLEAR_FLAG f pd) = pd_resp_timeout_ms pd"
  "pd_request (CLEAR_FLAG f pd) = pd_request pd"
  "pd_peer_rx_size (CLEAR_FLAG f pd) = pd_peer_rx_size pd"
  "pd_rx_rb (CLEAR_FLAG f pd) = pd_rx_rb pd"
  "pd_packet_buf (CLEAR_FLAG f pd) = pd_packet_buf pd"
  "pd_packet_len (CLEAR_FLAG f pd) = pd_packet_len pd"
  "pd_packet_buf_len (CLEAR_FLAG f pd) = pd_packet_buf_len pd"
  "pd_packet_scan_skip (CLEAR_FLAG f pd) = pd_packet_scan_skip pd"
  "pd_reply_prebuilt (CLEAR_FLAG f pd) = pd_reply_prebuilt pd"
  "pd_last_tx_len (CLEAR_FLAG f pd) = pd_last_tx_len pd"
  "pd_last_cmd_id (CLEAR_FLAG f pd) = pd_last_cmd_id pd"
  "pd_cmd_id (CLEAR_FLAG f pd) = pd_cmd_id pd"
  "pd_reply_id (CLEAR_FLAG f pd) = pd_reply_id pd"
  "pd_pending (CLEAR_FLAG f pd) = pd_pending pd"
  "pd_sc (CLEAR_FLAG f pd) = pd_sc pd"
  "pd_metrics (CLEAR_FLAG f pd) = pd_metrics pd"
  by (simp_all add: CLEAR_FLAG_def)

lemma osdp_metrics_report_frame [simp]:
  "pd_ctx (osdp_metrics_report ev pd) = pd_ctx pd"
  "pd_idx (osdp_metrics_report ev pd) = pd_idx pd"
  "pd_flags (osdp_metrics_report ev pd) = pd_flags pd"
  "pd_baud_rate (osdp_metrics_report ev pd) = pd_baud_rate pd"
  "pd_address (osdp_metrics_report ev pd) = pd_address pd"
  "pd_seq_number (osdp_metrics_report ev pd) = pd_seq_number pd"
  "pd_id (osdp_metrics_report ev pd) = pd_id pd"
  "pd_cap (osdp_metrics_report ev pd) = pd_cap pd"
  "pd_state (osdp_metrics_report ev pd) = pd_state pd"
  "pd_phy_state (osdp_metrics_report ev pd) = pd_phy_state pd"
  "pd_phy_retry_count (osdp_metrics_report ev pd) = pd_phy_retry_count pd"
  "pd_phy_tx_seq (osdp_metrics_report ev pd) = pd_phy_tx_seq pd"
  "pd_wait_ms (osdp_metrics_report ev pd) = pd_wait_ms pd"
  "pd_tstamp (osdp_metrics_report ev pd) = pd_tstamp pd"
  "pd_sc_tstamp (osdp_metrics_report ev pd) = pd_sc_tstamp pd"
  "pd_phy_tstamp (osdp_metrics_report ev pd) = pd_phy_tstamp pd"
  "pd_resp_timeout_ms (osdp_metrics_report ev pd) = pd_resp_timeout_ms pd"
  "pd_request (osdp_metrics_report ev pd) = pd_request pd"
  "pd_peer_rx_size (osdp_metrics_report ev pd) = pd_peer_rx_size pd"
  "pd_rx_rb (osdp_metrics_report ev pd) = pd_rx_rb pd"
  "pd_packet_buf (osdp_metrics_report ev pd) = pd_packet_buf pd"
  "pd_packet_len (osdp_metrics_report ev pd) = pd_packet_len pd"
  "pd_packet_buf_len (osdp_metrics_report ev pd) = pd_packet_buf_len pd"
  "pd_packet_scan_skip (osdp_metrics_report ev pd) = pd_packet_scan_skip pd"
  "pd_reply_prebuilt (osdp_metrics_report ev pd) = pd_reply_prebuilt pd"
  "pd_last_tx_len (osdp_metrics_report ev pd) = pd_last_tx_len pd"
  "pd_last_cmd_id (osdp_metrics_report ev pd) = pd_last_cmd_id pd"
  "pd_cmd_id (osdp_metrics_report ev pd) = pd_cmd_id pd"
  "pd_reply_id (osdp_metrics_report ev pd) = pd_reply_id pd"
  "pd_pending (osdp_metrics_report ev pd) = pd_pending pd"
  "pd_sc (osdp_metrics_report ev pd) = pd_sc pd"
  by (simp_all add: osdp_metrics_report_def)

lemma set_nak_code_frame [simp]:
  "pd_ctx (set_nak_code c pd) = pd_ctx pd"
  "pd_idx (set_nak_code c pd) = pd_idx pd"
  "pd_flags (set_nak_code c pd) = pd_flags pd"
  "pd_baud_rate (set_nak_code c pd) = pd_baud_rate pd"
  "pd_address (set_nak_code c pd) = pd_address pd"
  "pd_seq_number (set_nak_code c pd) = pd_seq_number pd"
  "pd_id (set_nak_code c pd) = pd_id pd"
  "pd_cap (set_nak_code c pd) = pd_cap pd"
  "pd_state (set_nak_code c pd) = pd_state pd"
  "pd_phy_state (set_nak_code c pd) = pd_phy_state pd"
  "pd_phy_retry_count (set_nak_code c pd) = pd_phy_retry_count pd"
  "pd_phy_tx_seq (set_nak_code c pd) = pd_phy_tx_seq pd"
  "pd_wait_ms (set_nak_code c pd) = pd_wait_ms pd"
  "pd_tstamp (set_nak_code c pd) = pd_tstamp pd"
  "pd_sc_tstamp (set_nak_code c pd) = pd_sc_tstamp pd"
  "pd_phy_tstamp (set_nak_code c pd) = pd_phy_tstamp pd"
  "pd_resp_timeout_ms (set_nak_code c pd) = pd_resp_timeout_ms pd"
  "pd_request (set_nak_code c pd) = pd_request pd"
  "pd_peer_rx_size (set_nak_code c pd) = pd_peer_rx_size pd"
  "pd_rx_rb (set_nak_code c pd) = pd_rx_rb pd"
  "pd_packet_buf (set_nak_code c pd) = pd_packet_buf pd"
  "pd_packet_len (set_nak_code c pd) = pd_packet_len pd"
  "pd_packet_buf_len (set_nak_code c pd) = pd_packet_buf_len pd"
  "pd_packet_scan_skip (set_nak_code c pd) = pd_packet_scan_skip pd"
  "pd_reply_prebuilt (set_nak_code c pd) = pd_reply_prebuilt pd"
  "pd_last_tx_len (set_nak_code c pd) = pd_last_tx_len pd"
  "pd_last_cmd_id (set_nak_code c pd) = pd_last_cmd_id pd"
  "pd_cmd_id (set_nak_code c pd) = pd_cmd_id pd"
  "pd_reply_id (set_nak_code c pd) = pd_reply_id pd"
  "pd_sc (set_nak_code c pd) = pd_sc pd"
  "pd_metrics (set_nak_code c pd) = pd_metrics pd"
  by (simp_all add: set_nak_code_def)

lemma set_channel_frame [simp]:
  "pd_idx (set_channel ch pd) = pd_idx pd"
  "pd_flags (set_channel ch pd) = pd_flags pd"
  "pd_baud_rate (set_channel ch pd) = pd_baud_rate pd"
  "pd_address (set_channel ch pd) = pd_address pd"
  "pd_seq_number (set_channel ch pd) = pd_seq_number pd"
  "pd_id (set_channel ch pd) = pd_id pd"
  "pd_cap (set_channel ch pd) = pd_cap pd"
  "pd_state (set_channel ch pd) = pd_state pd"
  "pd_phy_state (set_channel ch pd) = pd_phy_state pd"
  "pd_phy_retry_count (set_channel ch pd) = pd_phy_retry_count pd"
  "pd_phy_tx_seq (set_channel ch pd) = pd_phy_tx_seq pd"
  "pd_wait_ms (set_channel ch pd) = pd_wait_ms pd"
  "pd_tstamp (set_channel ch pd) = pd_tstamp pd"
  "pd_sc_tstamp (set_channel ch pd) = pd_sc_tstamp pd"
  "pd_phy_tstamp (set_channel ch pd) = pd_phy_tstamp pd"
  "pd_resp_timeout_ms (set_channel ch pd) = pd_resp_timeout_ms pd"
  "pd_request (set_channel ch pd) = pd_request pd"
  "pd_peer_rx_size (set_channel ch pd) = pd_peer_rx_size pd"
  "pd_rx_rb (set_channel ch pd) = pd_rx_rb pd"
  "pd_packet_buf (set_channel ch pd) = pd_packet_buf pd"
  "pd_packet_len (set_channel ch pd) = pd_packet_len pd"
  "pd_packet_buf_len (set_channel ch pd) = pd_packet_buf_len pd"
  "pd_packet_scan_skip (set_channel ch pd) = pd_packet_scan_skip pd"
  "pd_reply_prebuilt (set_channel ch pd) = pd_reply_prebuilt pd"
  "pd_last_tx_len (set_channel ch pd) = pd_last_tx_len pd"
  "pd_last_cmd_id (set_channel ch pd) = pd_last_cmd_id pd"
  "pd_cmd_id (set_channel ch pd) = pd_cmd_id pd"
  "pd_reply_id (set_channel ch pd) = pd_reply_id pd"
  "pd_pending (set_channel ch pd) = pd_pending pd"
  "pd_sc (set_channel ch pd) = pd_sc pd"
  "pd_metrics (set_channel ch pd) = pd_metrics pd"
  by (simp_all add: set_channel_def)

lemma ISSET_FLAG_cong: "pd_flags pd = pd_flags pd' \<Longrightarrow> ISSET_FLAG pd f = ISSET_FLAG pd' f"
  by (simp add: ISSET_FLAG_def)

lemma ISSET_FLAG_frame [simp]:
  "ISSET_FLAG (osdp_metrics_report ev pd) f = ISSET_FLAG pd f"
  "ISSET_FLAG (set_nak_code c pd) f = ISSET_FLAG pd f"
  "ISSET_FLAG (set_channel ch pd) f = ISSET_FLAG pd f"
  "ISSET_FLAG (pd\<lparr>pd_ctx := x0\<rparr>) f = ISSET_FLAG pd f"
  "ISSET_FLAG (pd\<lparr>pd_idx := x1\<rparr>) f = ISSET_FLAG pd f"
  "ISSET_FLAG (pd\<lparr>pd_baud_rate := x3\<rparr>) f = ISSET_FLAG pd f"
  "ISSET_FLAG (pd\<lparr>pd_address := x4\<rparr>) f = ISSET_FLAG pd f"
  "ISSET_FLAG (pd\<lparr>pd_seq_number := x5\<rparr>) f = ISSET_FLAG pd f"
  "ISSET_FLAG (pd\<lparr>pd_id := x6\<rparr>) f = ISSET_FLAG pd f"
  "ISSET_FLAG (pd\<lparr>pd_cap := x7\<rparr>) f = ISSET_FLAG pd f"
  "ISSET_FLAG (pd\<lparr>pd_state := x8\<rparr>) f = ISSET_FLAG pd f"
  "ISSET_FLAG (pd\<lparr>pd_phy_state := x9\<rparr>) f = ISSET_FLAG pd f"
  "ISSET_FLAG (pd\<lparr>pd_phy_retry_count := x10\<rparr>) f = ISSET_FLAG pd f"
  "ISSET_FLAG (pd\<lparr>pd_phy_tx_seq := x11\<rparr>) f = ISSET_FLAG pd f"
  "ISSET_FLAG (pd\<lparr>pd_wait_ms := x12\<rparr>) f = ISSET_FLAG pd f"
  "ISSET_FLAG (pd\<lparr>pd_tstamp := x13\<rparr>) f = ISSET_FLAG pd f"
  "ISSET_FLAG (pd\<lparr>pd_sc_tstamp := x14\<rparr>) f = ISSET_FLAG pd f"
  "ISSET_FLAG (pd\<lparr>pd_phy_tstamp := x15\<rparr>) f = ISSET_FLAG pd f"
  "ISSET_FLAG (pd\<lparr>pd_resp_timeout_ms := x16\<rparr>) f = ISSET_FLAG pd f"
  "ISSET_FLAG (pd\<lparr>pd_request := x17\<rparr>) f = ISSET_FLAG pd f"
  "ISSET_FLAG (pd\<lparr>pd_peer_rx_size := x18\<rparr>) f = ISSET_FLAG pd f"
  "ISSET_FLAG (pd\<lparr>pd_rx_rb := x19\<rparr>) f = ISSET_FLAG pd f"
  "ISSET_FLAG (pd\<lparr>pd_packet_buf := x20\<rparr>) f = ISSET_FLAG pd f"
  "ISSET_FLAG (pd\<lparr>pd_packet_len := x21\<rparr>) f = ISSET_FLAG pd f"
  "ISSET_FLAG (pd\<lparr>pd_packet_buf_len := x22\<rparr>) f = ISSET_FLAG pd f"
  "ISSET_FLAG (pd\<lparr>pd_packet_scan_skip := x23\<rparr>) f = ISSET_FLAG pd f"
  "ISSET_FLAG (pd\<lparr>pd_reply_prebuilt := x24\<rparr>) f = ISSET_FLAG pd f"
  "ISSET_FLAG (pd\<lparr>pd_last_tx_len := x25\<rparr>) f = ISSET_FLAG pd f"
  "ISSET_FLAG (pd\<lparr>pd_last_cmd_id := x26\<rparr>) f = ISSET_FLAG pd f"
  "ISSET_FLAG (pd\<lparr>pd_cmd_id := x27\<rparr>) f = ISSET_FLAG pd f"
  "ISSET_FLAG (pd\<lparr>pd_reply_id := x28\<rparr>) f = ISSET_FLAG pd f"
  "ISSET_FLAG (pd\<lparr>pd_pending := x29\<rparr>) f = ISSET_FLAG pd f"
  "ISSET_FLAG (pd\<lparr>pd_sc := x30\<rparr>) f = ISSET_FLAG pd f"
  "ISSET_FLAG (pd\<lparr>pd_metrics := x31\<rparr>) f = ISSET_FLAG pd f"
  by (simp_all add: ISSET_FLAG_def)

lemma nak_code_set [simp]: "pd_pending pd \<noteq> [] \<Longrightarrow> nak_code (set_nak_code c pd) = c"
  by (cases "pd_pending pd") (simp_all add: nak_code_def set_nak_code_def)

subsection \<open>Saturation\<close>

lemma u32_le: "unat (c :: u32) \<le> 4294967295"
  using unat_u32_less [of c] by linarith

lemma unat_sat_inc: "unat (sat_inc c) = min (unat c + 1) (2 ^ 32 - 1)"
proof (cases "c = 0xFFFFFFFF")
  case False
  then have "unat c \<noteq> unat (0xFFFFFFFF :: u32)" by (simp only: word_unat_eq_iff not_False_eq_True)
  with u32_le [of c] have "unat c + 1 < 2 ^ 32" by simp
  then show ?thesis using False by (simp add: sat_inc_def unat_word_ariths)
qed (simp add: sat_inc_def)

lemma sat_inc_power: "unat ((sat_inc ^^ n) c) = min (unat c + n) (2 ^ 32 - 1)"
proof (induction n)
  case 0
  then show ?case using u32_le [of c] by simp
next
  case (Suc n)
  then show ?case by (simp add: unat_sat_inc)
qed

fun metrics_get :: "osdp_metric_event \<Rightarrow> osdp_metrics \<Rightarrow> u32" where
  "metrics_get OSDP_METRIC_PACKET_SENT m = packets_sent m"
| "metrics_get OSDP_METRIC_PACKET_RECEIVED m = packets_received m"
| "metrics_get OSDP_METRIC_PACKET_CHECK_ERROR m = packet_check_errors m"
| "metrics_get OSDP_METRIC_NAK m = nak_count m"
| "metrics_get OSDP_METRIC_SC_HANDSHAKE m = sc_handshake_count m"
| "metrics_get OSDP_METRIC_SC_FAILURE m = sc_failure_count m"
| "metrics_get OSDP_METRIC_COMMAND m = command_count m"
| "metrics_get OSDP_METRIC_EVENT m = event_count m"

lemma metrics_get_count:
  "metrics_get e (metrics_count ev m) = (if e = ev then sat_inc (metrics_get e m) else metrics_get e m)"
  by (cases e; cases ev) simp_all

lemma pd_metrics_report: "pd_metrics (osdp_metrics_report ev pd) = metrics_count ev (pd_metrics pd)"
  by (simp add: osdp_metrics_report_def)

lemma metrics_get_report:
  "metrics_get e (pd_metrics ((osdp_metrics_report ev ^^ n) pd)) =
   (if e = ev then (sat_inc ^^ n) (metrics_get e (pd_metrics pd)) else metrics_get e (pd_metrics pd))"
  by (induction n) (auto simp: pd_metrics_report metrics_get_count)

text \<open>
  C40. The link counters saturate: reporting an event \<open>n\<close> times adds \<open>n\<close> to its counter
  or leaves it at the largest 32-bit value, never wrapping, and no other counter changes.
\<close>

theorem metrics_saturate:
  "unat (metrics_get e (pd_metrics ((osdp_metrics_report ev ^^ n) pd))) =
   (if e = ev then min (unat (metrics_get e (pd_metrics pd)) + n) (2 ^ 32 - 1)
    else unat (metrics_get e (pd_metrics pd)))"
  by (simp add: metrics_get_report sat_inc_power)

subsection \<open>A context as allocated\<close>

text \<open>Storage comes zeroed; a CP lands received bytes in its transmit buffer.\<close>

definition sc_zero :: osdp_secure_channel where
  "sc_zero = \<lparr>scbk = replicate 16 0, s_enc = replicate 16 0, s_mac1 = replicate 16 0,
     s_mac2 = replicate 16 0, r_mac = replicate 16 0, c_mac = replicate 16 0,
     cp_random = replicate 8 0, pd_random = replicate 8 0, pd_client_uid = replicate 8 0,
     cp_cryptogram = replicate 16 0, pd_cryptogram = replicate 16 0\<rparr>"

definition rb_zero :: osdp_rb where
  "rb_zero = \<lparr>head = 0, tail = 0, buffer = replicate OSDP_RX_RB_SIZE 0\<rparr>"

definition pd_zero :: "bool \<Rightarrow> osdp_pd" where
  "pd_zero rx_shared =
     \<lparr>pd_ctx = \<lparr>ctx_tx_buf = replicate OSDP_PACKET_BUF_SIZE 0, ctx_rx_store = replicate OSDP_PACKET_BUF_SIZE 0,
        ctx_rx_shared = rx_shared,
        ctx_channel = \<lparr>ch_now = 0, ch_recv = [], ch_send = [], ch_rand = [], ch_sent = [], ch_flushes = 0\<rparr>\<rparr>,
      pd_idx = 0, pd_flags = 0, pd_baud_rate = 0, pd_address = 0, pd_seq_number = 0,
      pd_id = \<lparr>id_version = 0, id_model = 0, id_vendor_code = 0, id_serial_number = 0, id_firmware_version = 0\<rparr>,
      pd_cap = replicate 17 \<lparr>function_code = 0, compliance_level = 0, num_items = 0\<rparr>,
      pd_state = OSDP_CP_STATE_INIT, pd_phy_state = OSDP_CP_PHY_STATE_IDLE, pd_phy_retry_count = 0,
      pd_phy_tx_seq = 0, pd_wait_ms = 0, pd_tstamp = 0, pd_sc_tstamp = 0, pd_phy_tstamp = 0,
      pd_resp_timeout_ms = 0, pd_request = 0, pd_peer_rx_size = 0, pd_rx_rb = rb_zero,
      pd_packet_buf = RX_BUF, pd_packet_len = 0, pd_packet_buf_len = 0, pd_packet_scan_skip = 0,
      pd_reply_prebuilt = False, pd_last_tx_len = 0, pd_last_cmd_id = 0, pd_cmd_id = 0,
      pd_reply_id = 0, pd_pending = replicate 16 0, pd_sc = sc_zero, pd_metrics = metrics_zero\<rparr>"

end
