(* ===== verification/Aes.thy ===== *)
theory Aes
  imports Prelude
begin

text \<open>
  The AES-128 backend: src/src/crypto/tinyaes_src.c (tables, key schedule, the cipher and its
  inverse, CBC chaining) and the adapter src/src/crypto/tinyaes.c (\<open>osdp_encrypt\<close>,
  \<open>osdp_decrypt\<close>).  The state matrix \<open>state_t\<close> is the block of 16 bytes it is cast
  from: \<open>state[i][j]\<close> is byte \<open>4 * i + j\<close>.  The \<open>assert\<close>s of the adapter are
  compiled out, as \<open>NDEBUG\<close> does; every caller passes one block there.  The locale
  \<open>block_cipher\<close> is what the secure channel asks of a backend.
\<close>

definition Nb :: nat where "Nb = 4"
definition Nk :: nat where "Nk = 4"
definition Nr :: nat where "Nr = 10"

definition AES_BLOCKLEN :: nat where "AES_BLOCKLEN = 16"

definition AES_keyExpSize :: nat where "AES_keyExpSize = 176"

definition sbox :: bytes where
  "sbox =
    [0x63, 0x7c, 0x77, 0x7b, 0xf2, 0x6b, 0x6f, 0xc5, 0x30, 0x01, 0x67, 0x2b, 0xfe, 0xd7, 0xab, 0x76,
     0xca, 0x82, 0xc9, 0x7d, 0xfa, 0x59, 0x47, 0xf0, 0xad, 0xd4, 0xa2, 0xaf, 0x9c, 0xa4, 0x72, 0xc0,
     0xb7, 0xfd, 0x93, 0x26, 0x36, 0x3f, 0xf7, 0xcc, 0x34, 0xa5, 0xe5, 0xf1, 0x71, 0xd8, 0x31, 0x15,
     0x04, 0xc7, 0x23, 0xc3, 0x18, 0x96, 0x05, 0x9a, 0x07, 0x12, 0x80, 0xe2, 0xeb, 0x27, 0xb2, 0x75,
     0x09, 0x83, 0x2c, 0x1a, 0x1b, 0x6e, 0x5a, 0xa0, 0x52, 0x3b, 0xd6, 0xb3, 0x29, 0xe3, 0x2f, 0x84,
     0x53, 0xd1, 0x00, 0xed, 0x20, 0xfc, 0xb1, 0x5b, 0x6a, 0xcb, 0xbe, 0x39, 0x4a, 0x4c, 0x58, 0xcf,
     0xd0, 0xef, 0xaa, 0xfb, 0x43, 0x4d, 0x33, 0x85, 0x45, 0xf9, 0x02, 0x7f, 0x50, 0x3c, 0x9f, 0xa8,
     0x51, 0xa3, 0x40, 0x8f, 0x92, 0x9d, 0x38, 0xf5, 0xbc, 0xb6, 0xda, 0x21, 0x10, 0xff, 0xf3, 0xd2,
     0xcd, 0x0c, 0x13, 0xec, 0x5f, 0x97, 0x44, 0x17, 0xc4, 0xa7, 0x7e, 0x3d, 0x64, 0x5d, 0x19, 0x73,
     0x60, 0x81, 0x4f, 0xdc, 0x22, 0x2a, 0x90, 0x88, 0x46, 0xee, 0xb8, 0x14, 0xde, 0x5e, 0x0b, 0xdb,
     0xe0, 0x32, 0x3a, 0x0a, 0x49, 0x06, 0x24, 0x5c, 0xc2, 0xd3, 0xac, 0x62, 0x91, 0x95, 0xe4, 0x79,
     0xe7, 0xc8, 0x37, 0x6d, 0x8d, 0xd5, 0x4e, 0xa9, 0x6c, 0x56, 0xf4, 0xea, 0x65, 0x7a, 0xae, 0x08,
     0xba, 0x78, 0x25, 0x2e, 0x1c, 0xa6, 0xb4, 0xc6, 0xe8, 0xdd, 0x74, 0x1f, 0x4b, 0xbd, 0x8b, 0x8a,
     0x70, 0x3e, 0xb5, 0x66, 0x48, 0x03, 0xf6, 0x0e, 0x61, 0x35, 0x57, 0xb9, 0x86, 0xc1, 0x1d, 0x9e,
     0xe1, 0xf8, 0x98, 0x11, 0x69, 0xd9, 0x8e, 0x94, 0x9b, 0x1e, 0x87, 0xe9, 0xce, 0x55, 0x28, 0xdf,
     0x8c, 0xa1, 0x89, 0x0d, 0xbf, 0xe6, 0x42, 0x68, 0x41, 0x99, 0x2d, 0x0f, 0xb0, 0x54, 0xbb, 0x16]"

definition rsbox :: bytes where
  "rsbox =
    [0x52, 0x09, 0x6a, 0xd5, 0x30, 0x36, 0xa5, 0x38, 0xbf, 0x40, 0xa3, 0x9e, 0x81, 0xf3, 0xd7, 0xfb,
     0x7c, 0xe3, 0x39, 0x82, 0x9b, 0x2f, 0xff, 0x87, 0x34, 0x8e, 0x43, 0x44, 0xc4, 0xde, 0xe9, 0xcb,
     0x54, 0x7b, 0x94, 0x32, 0xa6, 0xc2, 0x23, 0x3d, 0xee, 0x4c, 0x95, 0x0b, 0x42, 0xfa, 0xc3, 0x4e,
     0x08, 0x2e, 0xa1, 0x66, 0x28, 0xd9, 0x24, 0xb2, 0x76, 0x5b, 0xa2, 0x49, 0x6d, 0x8b, 0xd1, 0x25,
     0x72, 0xf8, 0xf6, 0x64, 0x86, 0x68, 0x98, 0x16, 0xd4, 0xa4, 0x5c, 0xcc, 0x5d, 0x65, 0xb6, 0x92,
     0x6c, 0x70, 0x48, 0x50, 0xfd, 0xed, 0xb9, 0xda, 0x5e, 0x15, 0x46, 0x57, 0xa7, 0x8d, 0x9d, 0x84,
     0x90, 0xd8, 0xab, 0x00, 0x8c, 0xbc, 0xd3, 0x0a, 0xf7, 0xe4, 0x58, 0x05, 0xb8, 0xb3, 0x45, 0x06,
     0xd0, 0x2c, 0x1e, 0x8f, 0xca, 0x3f, 0x0f, 0x02, 0xc1, 0xaf, 0xbd, 0x03, 0x01, 0x13, 0x8a, 0x6b,
     0x3a, 0x91, 0x11, 0x41, 0x4f, 0x67, 0xdc, 0xea, 0x97, 0xf2, 0xcf, 0xce, 0xf0, 0xb4, 0xe6, 0x73,
     0x96, 0xac, 0x74, 0x22, 0xe7, 0xad, 0x35, 0x85, 0xe2, 0xf9, 0x37, 0xe8, 0x1c, 0x75, 0xdf, 0x6e,
     0x47, 0xf1, 0x1a, 0x71, 0x1d, 0x29, 0xc5, 0x89, 0x6f, 0xb7, 0x62, 0x0e, 0xaa, 0x18, 0xbe, 0x1b,
     0xfc, 0x56, 0x3e, 0x4b, 0xc6, 0xd2, 0x79, 0x20, 0x9a, 0xdb, 0xc0, 0xfe, 0x78, 0xcd, 0x5a, 0xf4,
     0x1f, 0xdd, 0xa8, 0x33, 0x88, 0x07, 0xc7, 0x31, 0xb1, 0x12, 0x10, 0x59, 0x27, 0x80, 0xec, 0x5f,
     0x60, 0x51, 0x7f, 0xa9, 0x19, 0xb5, 0x4a, 0x0d, 0x2d, 0xe5, 0x7a, 0x9f, 0x93, 0xc9, 0x9c, 0xef,
     0xa0, 0xe0, 0x3b, 0x4d, 0xae, 0x2a, 0xf5, 0xb0, 0xc8, 0xeb, 0xbb, 0x3c, 0x83, 0x53, 0x99, 0x61,
     0x17, 0x2b, 0x04, 0x7e, 0xba, 0x77, 0xd6, 0x26, 0xe1, 0x69, 0x14, 0x63, 0x55, 0x21, 0x0c, 0x7d]"

definition Rcon :: bytes where
  "Rcon = [0x8d, 0x01, 0x02, 0x04, 0x08, 0x10, 0x20, 0x40, 0x80, 0x1b, 0x36]"

definition getSBoxValue :: "u8 \<Rightarrow> u8" where
  "getSBoxValue num = sbox ! unat num"

definition getSBoxInvert :: "u8 \<Rightarrow> u8" where
  "getSBoxInvert num = rsbox ! unat num"

subsection \<open>Key schedule\<close>

text \<open>\<open>KeyExpansion_word i\<close> is one pass of the loop over the words after the key.\<close>

definition KeyExpansion_word :: "nat \<Rightarrow> bytes \<Rightarrow> bytes" where
  "KeyExpansion_word i rk =
     (let k = (i - 1) * 4;
          t0 = rk ! k; t1 = rk ! (k + 1); t2 = rk ! (k + 2); t3 = rk ! (k + 3);
          (t0, t1, t2, t3) =
            (if i mod Nk = 0
             then (getSBoxValue t1 XOR Rcon ! (i div Nk), getSBoxValue t2, getSBoxValue t3,
                   getSBoxValue t0)
             else (t0, t1, t2, t3));
          j = i * 4;
          k = (i - Nk) * 4
      in rk[j := rk ! k XOR t0, j + 1 := rk ! (k + 1) XOR t1, j + 2 := rk ! (k + 2) XOR t2,
            j + 3 := rk ! (k + 3) XOR t3])"

definition KeyExpansion :: "bytes \<Rightarrow> bytes" where
  "KeyExpansion key =
     fold KeyExpansion_word [Nk..<Nb * (Nr + 1)]
       (write_at 0 (take (4 * Nk) key) (replicate AES_keyExpSize 0))"

subsection \<open>Rounds\<close>

definition st_get :: "bytes \<Rightarrow> nat \<Rightarrow> nat \<Rightarrow> u8" where
  "st_get st i j = st ! (4 * i + j)"

definition st_put :: "nat \<Rightarrow> nat \<Rightarrow> u8 \<Rightarrow> bytes \<Rightarrow> bytes" where
  "st_put i j v st = st[4 * i + j := v]"

definition AddRoundKey :: "nat \<Rightarrow> bytes \<Rightarrow> bytes \<Rightarrow> bytes" where
  "AddRoundKey round RoundKey st =
     fold (\<lambda>i. fold (\<lambda>j st. st_put i j (st_get st i j XOR RoundKey ! (round * Nb * 4 + i * Nb + j)) st)
                 [0, 1, 2, 3]) [0, 1, 2, 3] st"

definition SubBytes :: "bytes \<Rightarrow> bytes" where
  "SubBytes st =
     fold (\<lambda>i. fold (\<lambda>j st. st_put j i (getSBoxValue (st_get st j i)) st) [0, 1, 2, 3])
       [0, 1, 2, 3] st"

definition InvSubBytes :: "bytes \<Rightarrow> bytes" where
  "InvSubBytes st =
     fold (\<lambda>i. fold (\<lambda>j st. st_put j i (getSBoxInvert (st_get st j i)) st) [0, 1, 2, 3])
       [0, 1, 2, 3] st"

definition ShiftRows :: "bytes \<Rightarrow> bytes" where
  "ShiftRows st =
     (let temp = st_get st 0 1;
          st = st_put 0 1 (st_get st 1 1) st;
          st = st_put 1 1 (st_get st 2 1) st;
          st = st_put 2 1 (st_get st 3 1) st;
          st = st_put 3 1 temp st;
          temp = st_get st 0 2;
          st = st_put 0 2 (st_get st 2 2) st;
          st = st_put 2 2 temp st;
          temp = st_get st 1 2;
          st = st_put 1 2 (st_get st 3 2) st;
          st = st_put 3 2 temp st;
          temp = st_get st 0 3;
          st = st_put 0 3 (st_get st 3 3) st;
          st = st_put 3 3 (st_get st 2 3) st;
          st = st_put 2 3 (st_get st 1 3) st
      in st_put 1 3 temp st)"

definition InvShiftRows :: "bytes \<Rightarrow> bytes" where
  "InvShiftRows st =
     (let temp = st_get st 3 1;
          st = st_put 3 1 (st_get st 2 1) st;
          st = st_put 2 1 (st_get st 1 1) st;
          st = st_put 1 1 (st_get st 0 1) st;
          st = st_put 0 1 temp st;
          temp = st_get st 0 2;
          st = st_put 0 2 (st_get st 2 2) st;
          st = st_put 2 2 temp st;
          temp = st_get st 1 2;
          st = st_put 1 2 (st_get st 3 2) st;
          st = st_put 3 2 temp st;
          temp = st_get st 0 3;
          st = st_put 0 3 (st_get st 1 3) st;
          st = st_put 1 3 (st_get st 2 3) st;
          st = st_put 2 3 (st_get st 3 3) st
      in st_put 3 3 temp st)"

definition xtime :: "u8 \<Rightarrow> u8" where
  "xtime x = push_bit 1 x XOR (drop_bit 7 x AND 1) * 0x1b"

definition Multiply :: "u8 \<Rightarrow> u8 \<Rightarrow> u8" where
  "Multiply x y =
     ((y AND 1) * x) XOR
     ((drop_bit 1 y AND 1) * xtime x) XOR
     ((drop_bit 2 y AND 1) * xtime (xtime x)) XOR
     ((drop_bit 3 y AND 1) * xtime (xtime (xtime x))) XOR
     ((drop_bit 4 y AND 1) * xtime (xtime (xtime (xtime x))))"

definition MixColumns_column :: "nat \<Rightarrow> bytes \<Rightarrow> bytes" where
  "MixColumns_column i st =
     (let t = st_get st i 0;
          Tmp = st_get st i 0 XOR st_get st i 1 XOR st_get st i 2 XOR st_get st i 3;
          Tm = xtime (st_get st i 0 XOR st_get st i 1);
          st = st_put i 0 (st_get st i 0 XOR Tm XOR Tmp) st;
          Tm = xtime (st_get st i 1 XOR st_get st i 2);
          st = st_put i 1 (st_get st i 1 XOR Tm XOR Tmp) st;
          Tm = xtime (st_get st i 2 XOR st_get st i 3);
          st = st_put i 2 (st_get st i 2 XOR Tm XOR Tmp) st;
          Tm = xtime (st_get st i 3 XOR t)
      in st_put i 3 (st_get st i 3 XOR Tm XOR Tmp) st)"

definition MixColumns :: "bytes \<Rightarrow> bytes" where
  "MixColumns st = fold MixColumns_column [0, 1, 2, 3] st"

definition InvMixColumns_column :: "nat \<Rightarrow> bytes \<Rightarrow> bytes" where
  "InvMixColumns_column i st =
     (let a = st_get st i 0; b = st_get st i 1; c = st_get st i 2; d = st_get st i 3;
          st = st_put i 0 (Multiply a 0x0e XOR Multiply b 0x0b XOR Multiply c 0x0d XOR Multiply d 0x09) st;
          st = st_put i 1 (Multiply a 0x09 XOR Multiply b 0x0e XOR Multiply c 0x0b XOR Multiply d 0x0d) st;
          st = st_put i 2 (Multiply a 0x0d XOR Multiply b 0x09 XOR Multiply c 0x0e XOR Multiply d 0x0b) st
      in st_put i 3 (Multiply a 0x0b XOR Multiply b 0x0d XOR Multiply c 0x09 XOR Multiply d 0x0e) st)"

definition InvMixColumns :: "bytes \<Rightarrow> bytes" where
  "InvMixColumns st = fold InvMixColumns_column [0, 1, 2, 3] st"

subsection \<open>The cipher\<close>

text \<open>The rounds that mix columns, 1 to \<open>Nr - 1\<close>, then the last one without.\<close>

definition Cipher :: "bytes \<Rightarrow> bytes \<Rightarrow> bytes" where
  "Cipher RoundKey st =
     (let st = AddRoundKey 0 RoundKey st;
          st = fold (\<lambda>round st. AddRoundKey round RoundKey (MixColumns (ShiftRows (SubBytes st))))
                 [1..<Nr] st
      in AddRoundKey Nr RoundKey (ShiftRows (SubBytes st)))"

definition InvCipher :: "bytes \<Rightarrow> bytes \<Rightarrow> bytes" where
  "InvCipher RoundKey st =
     (let st = AddRoundKey Nr RoundKey st;
          st = fold (\<lambda>round st. InvMixColumns (AddRoundKey round RoundKey
                                   (InvSubBytes (InvShiftRows st))))
                 (rev [1..<Nr]) st
      in AddRoundKey 0 RoundKey (InvSubBytes (InvShiftRows st)))"

definition XorWithIv :: "bytes \<Rightarrow> bytes \<Rightarrow> bytes" where
  "XorWithIv buf Iv = map2 (XOR) (take AES_BLOCKLEN buf) (take AES_BLOCKLEN Iv)"

text \<open>
  The loops take the bytes left to process and return the buffer from there on, and the
  chaining value that the context keeps for the next call.  A length that is not a multiple
  of the block length is rounded up, as in the code.
\<close>

fun AES_CBC_encrypt_buffer :: "bytes \<Rightarrow> bytes \<Rightarrow> bytes \<Rightarrow> nat \<Rightarrow> bytes \<times> bytes" where
  "AES_CBC_encrypt_buffer RoundKey Iv buf len =
     (if len = 0 then (buf, Iv)
      else let blk = Cipher RoundKey (XorWithIv buf Iv);
               (rest, Iv') = AES_CBC_encrypt_buffer RoundKey blk (drop AES_BLOCKLEN buf) (len - 16)
           in (blk @ rest, Iv'))"

fun AES_CBC_decrypt_buffer :: "bytes \<Rightarrow> bytes \<Rightarrow> bytes \<Rightarrow> nat \<Rightarrow> bytes \<times> bytes" where
  "AES_CBC_decrypt_buffer RoundKey Iv buf len =
     (if len = 0 then (buf, Iv)
      else let storeNextIv = take AES_BLOCKLEN buf;
               blk = XorWithIv (InvCipher RoundKey storeNextIv) Iv;
               (rest, Iv') = AES_CBC_decrypt_buffer RoundKey storeNextIv (drop AES_BLOCKLEN buf) (len - 16)
           in (blk @ rest, Iv'))"

declare AES_CBC_encrypt_buffer.simps [simp del] AES_CBC_decrypt_buffer.simps [simp del]

text \<open>\<open>iv = None\<close> is the \<open>NULL\<close> of the callers that want one block in ECB mode.\<close>

definition AES_ECB_encrypt :: "bytes \<Rightarrow> bytes \<Rightarrow> bytes" where
  "AES_ECB_encrypt RoundKey buf = Cipher RoundKey (take AES_BLOCKLEN buf) @ drop AES_BLOCKLEN buf"

definition AES_ECB_decrypt :: "bytes \<Rightarrow> bytes \<Rightarrow> bytes" where
  "AES_ECB_decrypt RoundKey buf = InvCipher RoundKey (take AES_BLOCKLEN buf) @ drop AES_BLOCKLEN buf"

definition osdp_encrypt :: "bytes \<Rightarrow> bytes option \<Rightarrow> bytes \<Rightarrow> nat \<Rightarrow> bytes" where
  "osdp_encrypt key iv data len =
     (case iv of
        Some iv \<Rightarrow> fst (AES_CBC_encrypt_buffer (KeyExpansion key) (take AES_BLOCKLEN iv) data len)
      | None \<Rightarrow> AES_ECB_encrypt (KeyExpansion key) data)"

definition osdp_decrypt :: "bytes \<Rightarrow> bytes option \<Rightarrow> bytes \<Rightarrow> nat \<Rightarrow> bytes" where
  "osdp_decrypt key iv data len =
     (case iv of
        Some iv \<Rightarrow> fst (AES_CBC_decrypt_buffer (KeyExpansion key) (take AES_BLOCKLEN iv) data len)
      | None \<Rightarrow> AES_ECB_decrypt (KeyExpansion key) data)"

subsection \<open>The inverse cipher\<close>

lemma rsbox_sbox: "map (\<lambda>b. rsbox ! unat b) sbox = map word_of_nat [0..<256]"
  by (simp add: sbox_def rsbox_def upt_rec)

lemma getSBoxInvert_getSBoxValue [simp]: "getSBoxInvert (getSBoxValue x) = x"
proof -
  have "length sbox = 256" by (simp add: sbox_def)
  then have "rsbox ! unat (sbox ! unat x) = word_of_nat (unat x)"
    using arg_cong [OF rsbox_sbox, of "\<lambda>l. l ! unat x"] unat_u8_less [of x] by simp
  then show ?thesis by (simp add: getSBoxInvert_def getSBoxValue_def)
qed

lemma xtime_xor: "xtime (a XOR b) = xtime a XOR xtime b"
proof -
  have k: "(c XOR d) * 27 = c * 27 XOR d * 27" if "c \<in> {0, 1}" "d \<in> {0, 1 :: u8}" for c d
    using that by auto
  have "c AND 1 \<in> {0, 1}" for c :: u8
    by (cases "even c") (simp_all add: and_one_eq even_iff_mod_2_eq_zero odd_iff_mod_2_eq_one)
  then have "(drop_bit 7 (a XOR b) AND 1) * 27 =
             (drop_bit 7 a AND 1) * 27 XOR (drop_bit 7 b AND 1) * 27"
    by (simp only: drop_bit_xor bit.conj_xor_distrib2 k)
  then show ?thesis by (simp only: xtime_def push_bit_xor xor.assoc xor.left_commute)
qed

lemma Multiply_consts:
  "Multiply x 0x0e = xtime x XOR xtime (xtime x) XOR xtime (xtime (xtime x))"
  "Multiply x 0x0b = x XOR xtime x XOR xtime (xtime (xtime x))"
  "Multiply x 0x0d = x XOR xtime (xtime x) XOR xtime (xtime (xtime x))"
  "Multiply x 0x09 = x XOR xtime (xtime (xtime x))"
  by (simp_all add: Multiply_def)

lemma xor_cancel [simp]: "(a :: u8) XOR (a XOR b) = b" "(a XOR b) XOR b = a"
  by (simp flip: xor.assoc) (simp add: xor.assoc)

lemma state_cases:
  assumes "length st = 16"
  obtains a b c d e f g h i j k l m n p q where "st = [a, b, c, d, e, f, g, h, i, j, k, l, m, n, p, q]"
  using assms by (auto simp: length_Suc_conv numeral_eq_Suc)

lemma loop4: "fold f [0, 1, 2, 3 :: nat] s = f 3 (f 2 (f 1 (f 0 s)))" by simp

lemmas round_defs = loop4 st_get_def st_put_def Let_def

lemma ShiftRows_inv: "length st = 16 \<Longrightarrow> InvShiftRows (ShiftRows st) = st"
  by (elim state_cases) (simp add: ShiftRows_def InvShiftRows_def round_defs)

lemma SubBytes_inv: "length st = 16 \<Longrightarrow> InvSubBytes (SubBytes st) = st"
  by (elim state_cases) (simp add: SubBytes_def InvSubBytes_def round_defs)

lemma AddRoundKey_inv: "length st = 16 \<Longrightarrow> AddRoundKey r k (AddRoundKey r k st) = st"
  by (elim state_cases) (simp add: AddRoundKey_def round_defs)

lemma MixColumns_inv: "length st = 16 \<Longrightarrow> InvMixColumns (MixColumns st) = st"
  by (elim state_cases)
     (simp add: MixColumns_def MixColumns_column_def round_defs,
      simp add: InvMixColumns_def InvMixColumns_column_def round_defs,
      simp add: Multiply_consts xtime_xor ac_simps)

lemma length_rounds [simp]:
  "length st = 16 \<Longrightarrow> length (AddRoundKey r k st) = 16"
  "length st = 16 \<Longrightarrow> length (SubBytes st) = 16"
  "length st = 16 \<Longrightarrow> length (InvSubBytes st) = 16"
  "length st = 16 \<Longrightarrow> length (ShiftRows st) = 16"
  "length st = 16 \<Longrightarrow> length (InvShiftRows st) = 16"
  "length st = 16 \<Longrightarrow> length (MixColumns st) = 16"
  "length st = 16 \<Longrightarrow> length (InvMixColumns st) = 16"
  by (elim state_cases, simp add: AddRoundKey_def SubBytes_def InvSubBytes_def ShiftRows_def
        InvShiftRows_def MixColumns_def MixColumns_column_def InvMixColumns_def
        InvMixColumns_column_def round_defs)+

lemma fold_round_length:
  "(\<And>r st. length st = 16 \<Longrightarrow> length (f r st) = 16) \<Longrightarrow> length st = 16 \<Longrightarrow> length (fold f rs st) = 16"
  by (induction rs arbitrary: st) simp_all

lemma length_Cipher [simp]:
  "length st = 16 \<Longrightarrow> length (Cipher k st) = 16"
  "length st = 16 \<Longrightarrow> length (InvCipher k st) = 16"
  by (simp_all add: Cipher_def InvCipher_def fold_round_length)

text \<open>
  The rounds of the inverse group differently: each undoes the shift and the substitution
  of one round and the key and column step of the round before.
\<close>

lemma fold_shift_round:
  assumes "length st = 16"
  shows "fold (\<lambda>r st. InvMixColumns (AddRoundKey r k (InvSubBytes (InvShiftRows st)))) (rev rs)
     (ShiftRows (SubBytes (fold (\<lambda>r st. AddRoundKey r k (MixColumns (ShiftRows (SubBytes st)))) rs st)))
   = ShiftRows (SubBytes st)"
proof (induction rs rule: rev_induct)
  case (snoc r rs)
  then show ?case
    using assms by (simp add: fold_round_length ShiftRows_inv SubBytes_inv AddRoundKey_inv MixColumns_inv)
qed simp

lemma InvCipher_Cipher_block:
  assumes "length st = 16"
  shows "InvCipher RoundKey (Cipher RoundKey st) = st"
  using assms
  by (simp add: InvCipher_def Cipher_def fold_round_length AddRoundKey_inv fold_shift_round
      ShiftRows_inv SubBytes_inv)

subsection \<open>Chaining\<close>

lemma length_XorWithIv [simp]: "16 \<le> length b \<Longrightarrow> 16 \<le> length v \<Longrightarrow> length (XorWithIv b v) = 16"
  by (simp add: XorWithIv_def AES_BLOCKLEN_def)

lemma XorWithIv_twice:
  assumes "16 \<le> length b" "16 \<le> length v"
  shows "XorWithIv (XorWithIv b v) v = take 16 b"
  by (rule nth_equalityI) (use assms in \<open>auto simp: XorWithIv_def AES_BLOCKLEN_def\<close>)

lemma cbc_encrypt_step:
  "AES_CBC_encrypt_buffer k Iv buf (16 + n) =
     (let blk = Cipher k (XorWithIv buf Iv);
          (rest, Iv') = AES_CBC_encrypt_buffer k blk (drop 16 buf) n
      in (blk @ rest, Iv'))"
  by (simp add: AES_CBC_encrypt_buffer.simps [of k Iv buf "16 + n"] AES_BLOCKLEN_def)

lemma cbc_decrypt_step:
  "AES_CBC_decrypt_buffer k Iv buf (16 + n) =
     (let (rest, Iv') = AES_CBC_decrypt_buffer k (take 16 buf) (drop 16 buf) n
      in (XorWithIv (InvCipher k (take 16 buf)) Iv @ rest, Iv'))"
  by (simp add: AES_CBC_decrypt_buffer.simps [of k Iv buf "16 + n"] AES_BLOCKLEN_def Let_def)

lemma cbc_encrypt_frame:
  "length Iv = 16 \<Longrightarrow> 16 * n \<le> length buf \<Longrightarrow>
   AES_CBC_encrypt_buffer k Iv buf (16 * n) = (out, Iv') \<Longrightarrow>
   length out = length buf \<and> drop (16 * n) out = drop (16 * n) buf"
proof (induction n arbitrary: Iv buf out)
  case 0
  then show ?case by (simp add: AES_CBC_encrypt_buffer.simps)
next
  case (Suc n)
  from Suc.prems obtain rest where
    rest: "AES_CBC_encrypt_buffer k (Cipher k (XorWithIv buf Iv)) (drop 16 buf) (16 * n) = (rest, Iv')"
    and out: "out = Cipher k (XorWithIv buf Iv) @ rest"
    by (auto simp: cbc_encrypt_step Let_def split: prod.splits)
  from Suc.IH [OF _ _ rest] Suc.prems show ?case
    by (auto simp: out add.commute)
qed

lemma cbc_decrypt_frame:
  "length Iv = 16 \<Longrightarrow> 16 * n \<le> length buf \<Longrightarrow>
   AES_CBC_decrypt_buffer k Iv buf (16 * n) = (out, Iv') \<Longrightarrow>
   length out = length buf \<and> drop (16 * n) out = drop (16 * n) buf"
proof (induction n arbitrary: Iv buf out)
  case 0
  then show ?case by (simp add: AES_CBC_decrypt_buffer.simps)
next
  case (Suc n)
  from Suc.prems obtain rest where
    rest: "AES_CBC_decrypt_buffer k (take 16 buf) (drop 16 buf) (16 * n) = (rest, Iv')"
    and out: "out = XorWithIv (InvCipher k (take 16 buf)) Iv @ rest"
    by (auto simp: cbc_decrypt_step Let_def split: prod.splits)
  from Suc.IH [OF _ _ rest] Suc.prems show ?case
    by (auto simp: out add.commute)
qed

lemma cbc_decrypt_encrypt:
  "length Iv = 16 \<Longrightarrow> 16 * n \<le> length buf \<Longrightarrow>
   fst (AES_CBC_decrypt_buffer k Iv (fst (AES_CBC_encrypt_buffer k Iv buf (16 * n))) (16 * n)) = buf"
proof (induction n arbitrary: Iv buf)
  case 0
  then show ?case by (simp add: AES_CBC_encrypt_buffer.simps AES_CBC_decrypt_buffer.simps)
next
  case (Suc n)
  let ?c = "Cipher k (XorWithIv buf Iv)"
  have c: "length ?c = 16" using Suc.prems by simp
  obtain rest Iv' where
    rest: "AES_CBC_encrypt_buffer k ?c (drop 16 buf) (16 * n) = (rest, Iv')"
    by (metis surj_pair)
  have enc: "fst (AES_CBC_encrypt_buffer k Iv buf (16 + 16 * n)) = ?c @ rest"
    by (simp add: cbc_encrypt_step Let_def rest)
  have "XorWithIv (InvCipher k ?c) Iv = take 16 buf"
    using Suc.prems by (simp add: InvCipher_Cipher_block XorWithIv_twice)
  moreover have "fst (AES_CBC_decrypt_buffer k ?c rest (16 * n)) = drop 16 buf"
    using Suc.IH [OF c, of "drop 16 buf"] Suc.prems rest by simp
  ultimately show ?case
    using c by (simp add: enc cbc_decrypt_step case_prod_beta)
qed

subsection \<open>The backend interface\<close>

text \<open>
  What the secure channel relies on: a call with whole blocks rewrites exactly the bytes it
  was given, and decryption under the same key and chaining value undoes encryption.  Without
  a chaining value the calls take one block.
\<close>

definition crypt_args :: "bytes option \<Rightarrow> bytes \<Rightarrow> nat \<Rightarrow> bool" where
  "crypt_args iv data len \<longleftrightarrow> len mod 16 = 0 \<and> len \<le> length data \<and>
     (case iv of None \<Rightarrow> len = 16 | Some v \<Rightarrow> length v = 16)"

locale block_cipher =
  fixes enc dec :: "bytes \<Rightarrow> bytes option \<Rightarrow> bytes \<Rightarrow> nat \<Rightarrow> bytes"
  assumes enc_length: "crypt_args iv data len \<Longrightarrow> length (enc key iv data len) = length data"
    and enc_beyond: "crypt_args iv data len \<Longrightarrow> drop len (enc key iv data len) = drop len data"
    and dec_length: "crypt_args iv data len \<Longrightarrow> length (dec key iv data len) = length data"
    and dec_beyond: "crypt_args iv data len \<Longrightarrow> drop len (dec key iv data len) = drop len data"
    and dec_enc: "crypt_args iv data len \<Longrightarrow> dec key iv (enc key iv data len) len = data"
begin

lemma crypt_args_enc [simp]:
  "crypt_args iv data len \<Longrightarrow> crypt_args iv (enc key iv data len) len"
  using enc_length [of iv data len key] by (simp add: crypt_args_def)

lemma dec_enc_block: "length b = 16 \<Longrightarrow> dec key None (enc key None b 16) 16 = b"
  by (rule dec_enc) (simp add: crypt_args_def)

lemma enc_block_length: "length b = 16 \<Longrightarrow> length (enc key None b 16) = 16"
  using enc_length [of None b 16 key] by (simp add: crypt_args_def)

lemma dec_enc_prefix:
  assumes "crypt_args iv data len"
  shows "take len (dec key iv (enc key iv data len) len) = take len data"
  using dec_enc [OF assms] by simp

end

lemma osdp_encrypt_frame:
  assumes "crypt_args iv data len"
  shows "length (osdp_encrypt key iv data len) = length data \<and>
         drop len (osdp_encrypt key iv data len) = drop len data"
proof -
  obtain n where n: "len = 16 * n" using assms by (auto simp: crypt_args_def)
  show ?thesis
  proof (cases iv)
    case None
    then show ?thesis
      using assms by (simp add: osdp_encrypt_def crypt_args_def AES_ECB_encrypt_def AES_BLOCKLEN_def)
  next
    case (Some v)
    then show ?thesis
      using assms cbc_encrypt_frame [of v n data "KeyExpansion key", OF _ _ surjective_pairing]
      by (simp add: n osdp_encrypt_def crypt_args_def AES_BLOCKLEN_def)
  qed
qed

lemma osdp_decrypt_frame:
  assumes "crypt_args iv data len"
  shows "length (osdp_decrypt key iv data len) = length data \<and>
         drop len (osdp_decrypt key iv data len) = drop len data"
proof -
  obtain n where n: "len = 16 * n" using assms by (auto simp: crypt_args_def)
  show ?thesis
  proof (cases iv)
    case None
    then show ?thesis
      using assms by (simp add: osdp_decrypt_def crypt_args_def AES_ECB_decrypt_def AES_BLOCKLEN_def)
  next
    case (Some v)
    then show ?thesis
      using assms cbc_decrypt_frame [of v n data "KeyExpansion key", OF _ _ surjective_pairing]
      by (simp add: n osdp_decrypt_def crypt_args_def AES_BLOCKLEN_def)
  qed
qed

lemma osdp_decrypt_encrypt:
  assumes "crypt_args iv data len"
  shows "osdp_decrypt key iv (osdp_encrypt key iv data len) len = data"
proof -
  obtain n where n: "len = 16 * n" using assms by (auto simp: crypt_args_def)
  show ?thesis
  proof (cases iv)
    case None
    then show ?thesis
      using assms by (simp add: osdp_decrypt_def osdp_encrypt_def crypt_args_def AES_ECB_decrypt_def
          AES_ECB_encrypt_def AES_BLOCKLEN_def InvCipher_Cipher_block)
  next
    case (Some v)
    then show ?thesis
      using assms cbc_decrypt_encrypt [of v n data "KeyExpansion key"]
      by (simp add: n osdp_decrypt_def osdp_encrypt_def crypt_args_def AES_BLOCKLEN_def)
  qed
qed

interpretation aes: block_cipher osdp_encrypt osdp_decrypt
  by unfold_locales (simp_all only: osdp_encrypt_frame osdp_decrypt_frame osdp_decrypt_encrypt)

text \<open>
  C31. Decryption undoes encryption: for every key, for one block without a chaining value and
  for any whole number of blocks with one, \<open>osdp_decrypt\<close> restores the buffer that
  \<open>osdp_encrypt\<close> was given, and neither touches a byte behind the length it was given.
\<close>

theorem osdp_crypt_roundtrip:
  assumes "len mod 16 = 0" "len \<le> length data"
    and "case iv of None \<Rightarrow> len = 16 | Some v \<Rightarrow> length v = 16"
  shows "osdp_decrypt key iv (osdp_encrypt key iv data len) len = data \<and>
         length (osdp_encrypt key iv data len) = length data \<and>
         drop len (osdp_encrypt key iv data len) = drop len data"
  using aes.dec_enc [of iv data len key] aes.enc_length [of iv data len key]
    aes.enc_beyond [of iv data len key] assms
  by (simp add: crypt_args_def)

theorem osdp_crypt_roundtrip_witness:
  "osdp_decrypt (replicate 16 1) (Some (replicate 16 2))
     (osdp_encrypt (replicate 16 1) (Some (replicate 16 2)) (replicate 40 3) 32) 32 = replicate 40 3"
  using osdp_crypt_roundtrip [of 32 "replicate 40 3" "Some (replicate 16 2)" "replicate 16 1"] by simp

end
