(* ===== verification/Secure_Channel.thy ===== *)
theory Secure_Channel
  imports Device Wire Aes
begin

text \<open>
  The secure channel of src/src/osdp_sc.c: key derivation, the cryptograms of the handshake,
  the constant-time comparison, data encryption with its end-of-message marker, the rolling
  message authentication code, and the session flag.  A function that the code runs on the
  bytes behind a pointer takes the whole buffer and the offset of the pointer.
\<close>

definition OSDP_SC_EOM_MARKER :: u8 where "OSDP_SC_EOM_MARKER = 0x80"

definition osdp_scbk_default :: bytes where
  "osdp_scbk_default =
     [0x30, 0x31, 0x32, 0x33, 0x34, 0x35, 0x36, 0x37,
      0x38, 0x39, 0x3A, 0x3B, 0x3C, 0x3D, 0x3E, 0x3F]"

definition AES_PAD_LEN :: "nat \<Rightarrow> nat" where
  "AES_PAD_LEN x = (x + 16 - 1) - (x + 16 - 1) mod 16"

subsection \<open>Keys\<close>

definition osdp_compute_scbk :: "'z osdp_pd_scheme \<Rightarrow> bytes \<Rightarrow> bytes" where
  "osdp_compute_scbk pd master_key =
     (let uid = take 8 (pd_client_uid (pd_sc pd))
      in osdp_encrypt master_key None (uid @ map (\<lambda>b. NOT b) uid) 16)"

definition session_seed :: "u8 \<Rightarrow> bytes \<Rightarrow> bytes" where
  "session_seed tag random = [0x01, tag] @ take 6 random @ replicate 8 0"

definition osdp_compute_session_keys :: "'z osdp_pd_scheme \<Rightarrow> 'z osdp_pd_scheme" where
  "osdp_compute_session_keys pd =
     (let key = (if ISSET_FLAG pd PD_FLAG_SC_USE_SCBKD then osdp_scbk_default else scbk (pd_sc pd));
          rnd = cp_random (pd_sc pd)
      in pd\<lparr>pd_sc := (pd_sc pd)
             \<lparr>s_enc := osdp_encrypt key None (session_seed 0x82 rnd) 16,
              s_mac1 := osdp_encrypt key None (session_seed 0x01 rnd) 16,
              s_mac2 := osdp_encrypt key None (session_seed 0x02 rnd) 16\<rparr>\<rparr>)"

subsection \<open>Cryptograms\<close>

definition osdp_compute_cp_cryptogram :: "'z osdp_pd_scheme \<Rightarrow> 'z osdp_pd_scheme" where
  "osdp_compute_cp_cryptogram pd =
     (let sc = pd_sc pd
      in pd\<lparr>pd_sc := sc\<lparr>cp_cryptogram :=
              osdp_encrypt (s_enc sc) None (take 8 (pd_random sc) @ take 8 (cp_random sc)) 16\<rparr>\<rparr>)"

definition osdp_compute_pd_cryptogram :: "'z osdp_pd_scheme \<Rightarrow> 'z osdp_pd_scheme" where
  "osdp_compute_pd_cryptogram pd =
     (let sc = pd_sc pd
      in pd\<lparr>pd_sc := sc\<lparr>pd_cryptogram :=
              osdp_encrypt (s_enc sc) None (take 8 (cp_random sc) @ take 8 (pd_random sc)) 16\<rparr>\<rparr>)"

definition osdp_ct_compare :: "bytes \<Rightarrow> bytes \<Rightarrow> nat \<Rightarrow> u32" where
  "osdp_ct_compare s1 s2 len =
     fold (\<lambda>i ret. ret OR ucast (s1 ! i XOR s2 ! i)) [0..<len] 0"

definition osdp_verify_cp_cryptogram :: "'z osdp_pd_scheme \<Rightarrow> int" where
  "osdp_verify_cp_cryptogram pd =
     (let sc = pd_sc pd;
          cp_crypto = osdp_encrypt (s_enc sc) None (take 8 (pd_random sc) @ take 8 (cp_random sc)) 16
      in if osdp_ct_compare (cp_cryptogram sc) cp_crypto 16 = 0 then 0 else -1)"

definition osdp_verify_pd_cryptogram :: "'z osdp_pd_scheme \<Rightarrow> int" where
  "osdp_verify_pd_cryptogram pd =
     (let sc = pd_sc pd;
          pd_crypto = osdp_encrypt (s_enc sc) None (take 8 (cp_random sc) @ take 8 (pd_random sc)) 16
      in if osdp_ct_compare (pd_cryptogram sc) pd_crypto 16 = 0 then 0 else -1)"

definition osdp_compute_rmac_i :: "'z osdp_pd_scheme \<Rightarrow> 'z osdp_pd_scheme" where
  "osdp_compute_rmac_i pd =
     (let sc = pd_sc pd;
          m = osdp_encrypt (s_mac1 sc) None (cp_cryptogram sc) 16
      in pd\<lparr>pd_sc := sc\<lparr>r_mac := osdp_encrypt (s_mac2 sc) None m 16\<rparr>\<rparr>)"

subsection \<open>Data encryption\<close>

definition sc_data_iv :: "'z osdp_pd_scheme \<Rightarrow> bool \<Rightarrow> bytes" where
  "sc_data_iv pd is_cmd = map (\<lambda>b. NOT b) (if is_cmd then r_mac (pd_sc pd) else c_mac (pd_sc pd))"

text \<open>
  The padding scan walks down from index \<open>p\<close> of the buffer, over zero bytes, to the start
  \<open>off\<close> of the data.
\<close>

fun eom_scan :: "bytes \<Rightarrow> nat \<Rightarrow> nat \<Rightarrow> nat" where
  "eom_scan buf off 0 = 0"
| "eom_scan buf off (Suc p) =
     (if Suc p \<noteq> off \<and> buf ! Suc p = 0 then eom_scan buf off p else Suc p)"

text \<open>
  The data is the \<open>length\<close> bytes at \<open>off\<close>.  A length of 0 that is not tolerated makes the
  code read from index \<open>off - 1\<close> down, into the bytes before the data.  A negative length that is
  a multiple of 16 passes the test: \<open>AES_CBC_decrypt_buffer\<close> takes it as a \<open>size_t\<close> of almost 2^64 and
  runs over the end of the memory, \<open>None\<close> here.
\<close>

definition osdp_decrypt_data ::
  "'z osdp_pd_scheme \<Rightarrow> bool \<Rightarrow> bytes \<Rightarrow> nat \<Rightarrow> int \<Rightarrow> (int \<times> bytes) option" where
  "osdp_decrypt_data pd is_cmd buf off len =
     (if len mod 16 \<noteq> 0 then Some (-1, buf)
      else if sc_allow_empty_encrypted_data_block pd \<and> len = 0 then Some (0, buf)
      else if len < 0 then None
      else let iv = sc_data_iv pd is_cmd;
               buf = take off buf @ osdp_decrypt (s_enc (pd_sc pd)) (Some iv) (drop off buf) (nat len);
               p = eom_scan buf off (nat (int off + len - 1))
           in Some (if buf ! p \<noteq> OSDP_SC_EOM_MARKER then (-1, buf)
                    else (int p - int off, buf[p := 0])))"

definition osdp_encrypt_data ::
  "'z osdp_pd_scheme \<Rightarrow> bool \<Rightarrow> bytes \<Rightarrow> nat \<Rightarrow> nat \<Rightarrow> nat \<times> bytes" where
  "osdp_encrypt_data pd is_cmd buf off len =
     (let buf = write_at (off + len) [OSDP_SC_EOM_MARKER] buf;
          pad_len = AES_PAD_LEN (len + 1);
          buf = write_at (off + len + 1) (replicate (pad_len - len - 1) 0) buf;
          iv = sc_data_iv pd is_cmd
      in (pad_len,
          take off buf @ osdp_encrypt (s_enc (pd_sc pd)) (Some iv) (drop off buf) pad_len))"

subsection \<open>Message authentication\<close>

definition xor_block :: "bytes \<Rightarrow> bytes \<Rightarrow> bytes" where
  "xor_block b iv = map2 (XOR) b iv"

text \<open>The loop over the blocks before the last: what is left of the data, and the chaining value.\<close>

fun mac_blocks :: "bytes \<Rightarrow> nat \<Rightarrow> bytes \<Rightarrow> bytes \<Rightarrow> bytes \<times> bytes" where
  "mac_blocks key 0 p iv = (p, iv)"
| "mac_blocks key (Suc i) p iv =
     mac_blocks key i (drop 16 p) (osdp_encrypt key None (xor_block (take 16 p) iv) 16)"

definition osdp_compute_mac ::
  "bool \<Rightarrow> bytes \<Rightarrow> nat \<Rightarrow> 'z osdp_pd_scheme \<Rightarrow> 'z osdp_pd_scheme" where
  "osdp_compute_mac is_cmd data len pd =
     (let sc = pd_sc pd;
          iv = (if is_cmd then r_mac sc else c_mac sc);
          full_blocks = len div 16;
          rem = len mod 16;
          n = (if rem = 0 then full_blocks else full_blocks + 1);
          n = (if n = 0 then 1 else n);
          (p, iv) = mac_blocks (s_mac1 sc) (n - 1) data iv;
          block = (if rem = 0 \<and> full_blocks > 0 then take 16 p
                   else (take rem p @ [0x80]) @ replicate (15 - rem) 0);
          block = osdp_encrypt (s_mac2 sc) None (xor_block block iv) 16
      in pd\<lparr>pd_sc := (if is_cmd then sc\<lparr>c_mac := block\<rparr> else sc\<lparr>r_mac := block\<rparr>)\<rparr>)"

subsection \<open>Sessions\<close>

definition sc_client_uid :: "osdp_pd_id \<Rightarrow> bytes" where
  "sc_client_uid pid =
     [BYTE_0 (id_vendor_code pid), BYTE_1 (id_vendor_code pid), BYTE_0 (word_of_int (id_model pid) :: u32),
      BYTE_1 (word_of_int (id_version pid) :: u32), BYTE_0 (id_serial_number pid),
      BYTE_1 (id_serial_number pid), BYTE_2 (id_serial_number pid), BYTE_3 (id_serial_number pid)]"

definition osdp_sc_setup :: "'z osdp_pd_scheme \<Rightarrow> 'z osdp_pd_scheme" where
  "osdp_sc_setup pd =
     (let pd = pd\<lparr>pd_last_tx_len := 0, pd_sc := sc_zero\<lparr>scbk := scbk (pd_sc pd)\<rparr>\<rparr>
      in if is_pd_mode pd
         then pd\<lparr>pd_sc := (pd_sc pd)\<lparr>pd_client_uid := sc_client_uid (pd_id pd)\<rparr>\<rparr>
         else let (r, pd) = osdp_fill_random 8 pd
              in pd\<lparr>pd_sc := (pd_sc pd)\<lparr>cp_random := r\<rparr>\<rparr>)"

definition sc_activate :: "'z osdp_pd_scheme \<Rightarrow> 'z osdp_pd_scheme" where
  "sc_activate pd = osdp_metrics_report OSDP_METRIC_SC_HANDSHAKE (SET_FLAG PD_FLAG_SC_ACTIVE pd)"

text \<open>\<open>osdp_sc_teardown\<close> only ends the crypto backend, which holds no state.\<close>

definition sc_deactivate :: "'z osdp_pd_scheme \<Rightarrow> 'z osdp_pd_scheme" where
  "sc_deactivate pd =
     (let pd = (if sc_is_active pd then osdp_metrics_report OSDP_METRIC_SC_FAILURE pd else pd)
      in (CLEAR_FLAG PD_FLAG_SC_ACTIVE pd)\<lparr>pd_last_tx_len := 0\<rparr>)"

subsection \<open>Comparison in constant time\<close>

lemma fold_or_eq_0:
  "fold (\<lambda>i ret. ret OR f i) is acc = (0 :: u32) \<longleftrightarrow> acc = 0 \<and> (\<forall>i \<in> set is. f i = 0)"
  by (induction "is" arbitrary: acc) (auto simp: or_eq_0_iff)

lemma ucast_u8_eq_0: "ucast (x :: u8) = (0 :: u32) \<longleftrightarrow> x = 0"
proof -
  have "uint x < 2 ^ 8" using uint_bounded [of x] by simp
  then have "uint (ucast x :: u32) = uint x"
    by (simp add: unsigned_ucast_eq take_bit_int_eq_self)
  then show ?thesis by (metis unsigned_0 word_uint_eq_iff)
qed

lemma xor_eq_0: "a XOR b = 0 \<longleftrightarrow> a = (b :: u8)"
proof
  assume "a XOR b = 0"
  then have "a XOR (a XOR b) = a" by simp
  then show "a = b" by (simp only: xor_cancel)
qed simp

lemma osdp_ct_compare_eq_0:
  assumes "length s1 = n" "length s2 = n"
  shows "osdp_ct_compare s1 s2 n = 0 \<longleftrightarrow> s1 = s2"
proof -
  have "osdp_ct_compare s1 s2 n = 0 \<longleftrightarrow> (\<forall>i < n. s1 ! i = s2 ! i)"
    by (simp add: osdp_ct_compare_def fold_or_eq_0 ucast_u8_eq_0 xor_eq_0 Ball_def)
  then show ?thesis using assms by (simp add: list_eq_iff_nth_eq)
qed

subsection \<open>Data encryption\<close>

lemma AES_PAD_LEN_props:
  "AES_PAD_LEN (n + 1) mod 16 = 0" "n < AES_PAD_LEN (n + 1)" "AES_PAD_LEN (n + 1) \<le> n + 16"
  by (simp_all add: AES_PAD_LEN_def) presburger+

lemma eom_scan_zeros:
  "buf ! q \<noteq> 0 \<Longrightarrow> off \<le> q \<Longrightarrow> (\<forall>i. q < i \<and> i \<le> q + k \<longrightarrow> buf ! i = 0) \<Longrightarrow>
   eom_scan buf off (q + k) = q"
proof (induction k)
  case 0
  then show ?case by (cases q) auto
qed simp

lemma length_sc_data_iv [simp]:
  "length (r_mac (pd_sc pd)) = 16 \<Longrightarrow> length (c_mac (pd_sc pd)) = 16 \<Longrightarrow> length (sc_data_iv pd c) = 16"
  by (simp add: sc_data_iv_def)

definition eom_pad :: "bytes \<Rightarrow> nat \<Rightarrow> nat \<Rightarrow> bytes" where
  "eom_pad buf off len =
     write_at (off + len) (0x80 # replicate (AES_PAD_LEN (len + 1) - len - 1) 0) buf"

lemma encrypt_data_eom_pad:
  assumes "off + AES_PAD_LEN (len + 1) \<le> length buf"
  shows "osdp_encrypt_data pd c buf off len =
    (AES_PAD_LEN (len + 1),
     take off buf @ osdp_encrypt (s_enc (pd_sc pd)) (Some (sc_data_iv pd c)) (drop off (eom_pad buf off len))
       (AES_PAD_LEN (len + 1)))"
  using assms AES_PAD_LEN_props(2) [of len]
  by (simp add: osdp_encrypt_data_def Let_def write_at_write_at OSDP_SC_EOM_MARKER_def eom_pad_def)


lemma eom_pad_props:
  assumes "off + AES_PAD_LEN (len + 1) \<le> length buf"
  shows "length (eom_pad buf off len) = length buf"
    and "take (off + len) (eom_pad buf off len) = take (off + len) buf"
    and "eom_pad buf off len ! (off + len) = 0x80"
    and "off + len < i \<Longrightarrow> i < off + AES_PAD_LEN (len + 1) \<Longrightarrow> eom_pad buf off len ! i = 0"
    and "drop (off + AES_PAD_LEN (len + 1)) (eom_pad buf off len) = drop (off + AES_PAD_LEN (len + 1)) buf"
  using assms AES_PAD_LEN_props(2) [of len]
  by (auto simp: eom_pad_def nth_write_at nth_Cons')

lemma decrypt_eom_pad:
  assumes fit: "off + AES_PAD_LEN (len + 1) \<le> length buf"
    and iv: "length iv = 16" "sc_data_iv pd c = iv" "s_enc (pd_sc pd) = key"
    and out: "out = take off buf @ osdp_encrypt key (Some iv) (drop off (eom_pad buf off len))
                (AES_PAD_LEN (len + 1))"
  shows "osdp_decrypt_data pd c out off (int (AES_PAD_LEN (len + 1))) =
         Some (int len, (eom_pad buf off len)[off + len := 0])"
proof -
  let ?pl = "AES_PAD_LEN (len + 1)" and ?E = "eom_pad buf off len"
  note pad = AES_PAD_LEN_props [of len] and E = eom_pad_props [OF fit]
  have "crypt_args (Some iv) (drop off ?E) ?pl"
    using fit pad(1) iv(1) E(1) by (simp add: crypt_args_def)
  from aes.dec_enc [OF this, of key] have "osdp_decrypt key (Some iv) (drop off out) ?pl = drop off ?E"
    using fit by (simp add: out)
  moreover have "take off out = take off ?E"
    using fit arg_cong [OF E(2), of "take off"] by (simp add: out min_def)
  ultimately have dec: "take off out @ osdp_decrypt key (Some iv) (drop off out) ?pl = ?E"
    by (metis append_take_drop_id)
  obtain k where k: "?pl = len + 1 + k" using pad(2) by (metis Suc_eq_plus1 add_Suc less_imp_Suc_add add_Suc_right)
  have "eom_scan ?E off (off + len + k) = off + len"
    by (rule eom_scan_zeros) (use E(3,4) k in auto)
  moreover have "nat (int off + int ?pl - 1) = off + len + k" using k by simp
  moreover have "int ?pl mod 16 = 0" using pad(1) by presburger
  moreover have "int ?pl \<noteq> 0" using pad(2) by simp
  ultimately show ?thesis
    by (simp add: osdp_decrypt_data_def Let_def iv dec E(3) OSDP_SC_EOM_MARKER_def del: One_nat_def)
qed

text \<open>
  C29. Encrypted data survives the channel: the sender pads to whole blocks, one to sixteen
  bytes, and a receiver with the same session key and MACs gets back the same data and
  length, without a byte outside the block area changing on either side.
\<close>

theorem sc_data_roundtrip:
  assumes "off + AES_PAD_LEN (len + 1) \<le> length buf"
    and "length (r_mac (pd_sc tx)) = 16" "length (c_mac (pd_sc tx)) = 16"
    and "s_enc (pd_sc rx) = s_enc (pd_sc tx)"
    and "r_mac (pd_sc rx) = r_mac (pd_sc tx)" "c_mac (pd_sc rx) = c_mac (pd_sc tx)"
    and "osdp_encrypt_data tx is_cmd buf off len = (n, out)"
  shows "n mod 16 = 0 \<and> len < n \<and> n \<le> len + 16 \<and> length out = length buf \<and>
         (\<exists>buf'. osdp_decrypt_data rx is_cmd out off (int n) = Some (int len, buf') \<and>
            bytes_at off len buf' = bytes_at off len buf \<and>
            take off buf' = take off buf \<and> drop (off + n) buf' = drop (off + n) buf)"
proof -
  let ?E = "eom_pad buf off len"
  note E = eom_pad_props [OF assms(1)]
  have n: "n = AES_PAD_LEN (len + 1)"
    and out: "out = take off buf @ osdp_encrypt (s_enc (pd_sc tx)) (Some (sc_data_iv tx is_cmd))
                (drop off ?E) (AES_PAD_LEN (len + 1))"
    using assms(7) encrypt_data_eom_pad [OF assms(1), of tx is_cmd] by auto
  have iv: "sc_data_iv rx is_cmd = sc_data_iv tx is_cmd"
    using assms(5,6) by (simp add: sc_data_iv_def)
  define buf' where "buf' = ?E[off + len := 0]"
  have d: "osdp_decrypt_data rx is_cmd out off (int n) = Some (int len, buf')" "buf' = ?E[off + len := 0]"
    using decrypt_eom_pad [OF assms(1) _ iv assms(4) out] assms(2,3) n by (simp_all add: buf'_def)
  have "crypt_args (Some (sc_data_iv tx is_cmd)) (drop off ?E) (AES_PAD_LEN (len + 1))"
    using assms(1-3) AES_PAD_LEN_props(1) [of len] E(1) by (simp add: crypt_args_def)
  then have "length out = length buf"
    using assms(1) E(1) by (simp add: out aes.enc_length)
  moreover have "bytes_at off len buf' = bytes_at off len buf"
    using arg_cong [OF E(2), of "drop off"] by (simp add: d(2) bytes_at_def drop_update_swap drop_take)
  moreover have "take off buf' = take off buf"
    using arg_cong [OF E(2), of "take off"] by (simp add: d(2) min_def)
  ultimately show ?thesis
    using AES_PAD_LEN_props [of len] E(5) d by (simp add: n)
qed


theorem sc_data_roundtrip_witness:
  "let (n, out) = osdp_encrypt_data (pd_zero True) True (replicate 40 7) 6 5
   in map_option fst (osdp_decrypt_data (pd_zero True) True out 6 (int n)) = Some 5 \<and> length out = 40"
proof -
  let ?buf = "replicate 40 7 :: bytes"
  obtain n out where e: "osdp_encrypt_data (pd_zero True) True ?buf 6 5 = (n, out)"
    by (metis surj_pair)
  have "n mod 16 = 0 \<and> 5 < n \<and> n \<le> 5 + 16 \<and> length out = length ?buf \<and>
        (\<exists>buf'. osdp_decrypt_data (pd_zero True) True out 6 (int n) = Some (int 5, buf') \<and>
           bytes_at 6 5 buf' = bytes_at 6 5 ?buf \<and>
           take 6 buf' = take 6 ?buf \<and> drop (6 + n) buf' = drop (6 + n) ?buf)"
    by (rule sc_data_roundtrip [OF _ _ _ _ _ _ e])
       (simp_all add: AES_PAD_LEN_def pd_zero_def sc_zero_def)
  then show ?thesis by (auto simp: e)
qed

subsection \<open>The authentication code\<close>

definition mac_pad :: "bytes \<Rightarrow> bytes" where
  "mac_pad msg =
     (if msg = [] \<or> length msg mod 16 \<noteq> 0 then msg @ [0x80] @ replicate (15 - length msg mod 16) 0
      else msg)"

definition mac_reference :: "bytes \<Rightarrow> bytes \<Rightarrow> bytes \<Rightarrow> bytes \<Rightarrow> bytes" where
  "mac_reference smac1 smac2 iv msg =
     (let p = mac_pad msg;
          m = length p - 16;
          iv2 = (if m = 0 then iv else drop (m - 16) (osdp_encrypt smac1 (Some iv) (take m p) m))
      in osdp_encrypt smac2 None (xor_block (drop m p) iv2) 16)"

lemma cbc_last_block:
  "length iv = 16 \<Longrightarrow> length buf = 16 * n \<Longrightarrow>
   snd (AES_CBC_encrypt_buffer k iv buf (16 * n)) =
     (if n = 0 then iv else drop (16 * n - 16) (fst (AES_CBC_encrypt_buffer k iv buf (16 * n)))) \<and>
   length (snd (AES_CBC_encrypt_buffer k iv buf (16 * n))) = 16"
proof (induction n arbitrary: iv buf)
  case 0
  then show ?case by (simp add: AES_CBC_encrypt_buffer.simps)
next
  case (Suc n)
  let ?b = "Cipher k (XorWithIv buf iv)"
  have b: "length ?b = 16" using Suc.prems by simp
  obtain rest iv' where r: "AES_CBC_encrypt_buffer k ?b (drop 16 buf) (16 * n) = (rest, iv')"
    by (metis surj_pair)
  have "length (drop 16 buf) = 16 * n" using Suc.prems(2) by simp
  from Suc.IH [OF b this, unfolded r]
  have IH: "iv' = (if n = 0 then ?b else drop (16 * n - 16) rest)" "length iv' = 16"
    unfolding fst_conv snd_conv by blast+
  have "length rest = 16 * n"
    using cbc_encrypt_frame [OF b _ r] Suc.prems by simp
  moreover have "AES_CBC_encrypt_buffer k iv buf (16 * Suc n) = (?b @ rest, iv')"
    by (simp add: cbc_encrypt_step Let_def r)
  ultimately show ?case
    unfolding \<open>AES_CBC_encrypt_buffer k iv buf (16 * Suc n) = _\<close> using b IH(2)
    by (cases n) (simp_all add: IH(1))
qed

lemma mac_blocks_cbc:
  "length iv = 16 \<Longrightarrow> 16 * n \<le> length p \<Longrightarrow>
   mac_blocks key n p iv =
     (drop (16 * n) p, snd (AES_CBC_encrypt_buffer (KeyExpansion key) iv (take (16 * n) p) (16 * n)))"
proof (induction n arbitrary: p iv)
  case 0
  then show ?case by (simp add: AES_CBC_encrypt_buffer.simps)
next
  case (Suc n)
  have x: "XorWithIv p iv = xor_block (take 16 p) iv"
    using Suc.prems(1) by (simp add: XorWithIv_def xor_block_def AES_BLOCKLEN_def)
  have "XorWithIv (take (16 + 16 * n) p) iv = XorWithIv p iv"
    by (simp add: XorWithIv_def AES_BLOCKLEN_def min_def)
  moreover have e: "osdp_encrypt key None (xor_block (take 16 p) iv) 16 =
                 Cipher (KeyExpansion key) (XorWithIv p iv)"
    using Suc.prems by (simp add: osdp_encrypt_def AES_ECB_encrypt_def AES_BLOCKLEN_def x xor_block_def)
  moreover have "length (Cipher (KeyExpansion key) (XorWithIv p iv)) = 16"
    using Suc.prems by simp
  ultimately show ?case
    using Suc.IH [of "Cipher (KeyExpansion key) (XorWithIv p iv)" "drop 16 p"] Suc.prems
    by (simp add: cbc_encrypt_step case_prod_beta Let_def drop_take add.commute)
qed

lemma compute_mac_eq:
  assumes "len \<le> length data"
    and "length (r_mac (pd_sc pd)) = 16" "length (c_mac (pd_sc pd)) = 16"
  shows "osdp_compute_mac is_cmd data len pd =
     (let sc = pd_sc pd;
          iv = (if is_cmd then r_mac sc else c_mac sc);
          mac = mac_reference (s_mac1 sc) (s_mac2 sc) iv (take len data)
      in pd\<lparr>pd_sc := (if is_cmd then sc\<lparr>c_mac := mac\<rparr> else sc\<lparr>r_mac := mac\<rparr>)\<rparr>)"
proof -
  define sc where "sc = pd_sc pd"
  define iv where "iv = (if is_cmd then r_mac sc else c_mac sc)"
  define n where "n = (if len mod 16 = 0 \<and> len > 0 then len div 16 - 1 else len div 16)"
  have iv: "length iv = 16" using assms(2,3) by (simp add: iv_def sc_def)
  have n16: "16 * n \<le> len" "len - 16 * n = (if len mod 16 = 0 \<and> len > 0 then 16 else len mod 16)"
    unfolding n_def by (auto simp: minus_mod_eq_mult_div [symmetric] right_diff_distrib' )
  have padlen: "length (mac_pad (take len data)) = 16 * n + 16"
    using assms(1) n16 by (auto simp: mac_pad_def split: if_splits)
  have last: "drop (16 * n) (mac_pad (take len data)) =
      (if len mod 16 = 0 \<and> len div 16 > 0 then take 16 (drop (16 * n) data)
       else (take (len mod 16) (drop (16 * n) data) @ [0x80]) @ replicate (15 - len mod 16) 0)"
    using assms(1) n16 by (auto simp: mac_pad_def drop_take div_greater_zero_iff split: if_splits)
  have "take (16 * n) (mac_pad (take len data)) = take (16 * n) data"
    using assms(1) n16(1) by (auto simp: mac_pad_def min_def)
  moreover have "mac_blocks (s_mac1 sc) n data iv =
     (drop (16 * n) data, if n = 0 then iv
        else drop (16 * n - 16) (osdp_encrypt (s_mac1 sc) (Some iv) (take (16 * n) data) (16 * n)))"
    using mac_blocks_cbc [OF iv, of n data "s_mac1 sc"] cbc_last_block [OF iv, of "take (16 * n) data" n]
      assms(1) n16(1) iv by (simp add: osdp_encrypt_def AES_BLOCKLEN_def)
  moreover have "(let m = (if len mod 16 = 0 then len div 16 else len div 16 + 1);
                      m = (if m = 0 then 1 else m) in m - 1) = n"
    by (simp add: n_def Let_def div_greater_zero_iff)
  ultimately show ?thesis
    by (cases is_cmd) (simp_all add: osdp_compute_mac_def mac_reference_def Let_def
        sc_def [symmetric] iv_def padlen last)
qed


text \<open>
  C30. The message authentication code is the one the protocol defines: the message, padded
  with 0x80 and zeros when it is empty or not block aligned, goes through AES-CBC under the
  first MAC key up to its last block, chained from the MAC of the other direction, and the
  last block through AES-CBC under the second; nothing but the MAC of this direction changes.
\<close>

theorem osdp_compute_mac_reference:
  assumes "len \<le> length data"
    and "length (r_mac (pd_sc pd)) = 16" "length (c_mac (pd_sc pd)) = 16"
  shows "osdp_compute_mac is_cmd data len pd =
     (let sc = pd_sc pd;
          iv = (if is_cmd then r_mac sc else c_mac sc);
          mac = mac_reference (s_mac1 sc) (s_mac2 sc) iv (take len data)
      in pd\<lparr>pd_sc := (if is_cmd then sc\<lparr>c_mac := mac\<rparr> else sc\<lparr>r_mac := mac\<rparr>)\<rparr>)"
  by (rule compute_mac_eq [OF assms])

theorem osdp_compute_mac_reference_witness:
  "c_mac (pd_sc (osdp_compute_mac True (replicate 20 1) 20 (pd_zero True))) =
   mac_reference (replicate 16 0) (replicate 16 0) (replicate 16 0) (replicate 20 1)"
  using osdp_compute_mac_reference [of 20 "replicate 20 1" "pd_zero True" True]
  by (simp add: pd_zero_def sc_zero_def Let_def)

subsection \<open>The handshake\<close>

definition sc_lengths_ok :: "osdp_secure_channel \<Rightarrow> bool" where
  "sc_lengths_ok sc \<longleftrightarrow> length (scbk sc) = 16 \<and> length (s_enc sc) = 16 \<and> length (s_mac1 sc) = 16 \<and>
     length (s_mac2 sc) = 16 \<and> length (r_mac sc) = 16 \<and> length (c_mac sc) = 16 \<and>
     length (cp_random sc) = 8 \<and> length (pd_random sc) = 8 \<and> length (pd_client_uid sc) = 8 \<and>
     length (cp_cryptogram sc) = 16 \<and> length (pd_cryptogram sc) = 16"

lemma length_session_seed [simp]: "length (cp_random sc) = 8 \<Longrightarrow> length (session_seed t (cp_random sc)) = 16"
  by (simp add: session_seed_def)

lemma sc_lengths_preserved [intro]:
  assumes "sc_lengths_ok (pd_sc pd)"
  shows "sc_lengths_ok (pd_sc (osdp_compute_session_keys pd))"
    and "sc_lengths_ok (pd_sc (osdp_compute_cp_cryptogram pd))"
    and "sc_lengths_ok (pd_sc (osdp_compute_pd_cryptogram pd))"
    and "sc_lengths_ok (pd_sc (osdp_compute_rmac_i pd))"
    and "sc_lengths_ok (pd_sc (sc_activate pd))"
    and "sc_lengths_ok (pd_sc (sc_deactivate pd))"
    and "sc_lengths_ok (pd_sc (osdp_sc_setup pd))"
  using assms
  by (simp_all add: sc_lengths_ok_def osdp_compute_session_keys_def osdp_compute_cp_cryptogram_def
      osdp_compute_pd_cryptogram_def osdp_compute_rmac_i_def sc_activate_def sc_deactivate_def
      osdp_sc_setup_def osdp_fill_random_def sc_zero_def sc_client_uid_def Let_def
      aes.enc_block_length min_def)

lemma verify_cp_iff:
  assumes "sc_lengths_ok (pd_sc pd)"
  shows "osdp_verify_cp_cryptogram pd = 0 \<longleftrightarrow>
         cp_cryptogram (pd_sc pd) = cp_cryptogram (pd_sc (osdp_compute_cp_cryptogram pd))"
  using assms
  by (simp add: osdp_verify_cp_cryptogram_def osdp_compute_cp_cryptogram_def Let_def
      osdp_ct_compare_eq_0 aes.enc_block_length sc_lengths_ok_def)

lemma verify_pd_iff:
  assumes "sc_lengths_ok (pd_sc pd)"
  shows "osdp_verify_pd_cryptogram pd = 0 \<longleftrightarrow>
         pd_cryptogram (pd_sc pd) = pd_cryptogram (pd_sc (osdp_compute_pd_cryptogram pd))"
  using assms
  by (simp add: osdp_verify_pd_cryptogram_def osdp_compute_pd_cryptogram_def Let_def
      osdp_ct_compare_eq_0 aes.enc_block_length sc_lengths_ok_def)

text \<open>
  C28. A cryptogram is accepted only when it deciphers, under the session key, to the two
  random numbers of this handshake, in the order that tells the two directions apart.
\<close>

theorem cryptogram_authentic:
  assumes "sc_lengths_ok (pd_sc pd)"
  shows "(osdp_verify_cp_cryptogram pd = 0 \<longrightarrow>
            osdp_decrypt (s_enc (pd_sc pd)) None (cp_cryptogram (pd_sc pd)) 16 =
              pd_random (pd_sc pd) @ cp_random (pd_sc pd)) \<and>
         (osdp_verify_pd_cryptogram pd = 0 \<longrightarrow>
            osdp_decrypt (s_enc (pd_sc pd)) None (pd_cryptogram (pd_sc pd)) 16 =
              cp_random (pd_sc pd) @ pd_random (pd_sc pd))"
  using assms
  by (auto simp: verify_cp_iff verify_pd_iff osdp_compute_cp_cryptogram_def
      osdp_compute_pd_cryptogram_def Let_def aes.dec_enc_block sc_lengths_ok_def)

theorem cryptogram_authentic_witness:
  "osdp_decrypt (replicate 16 0) None
     (cp_cryptogram (pd_sc (osdp_compute_cp_cryptogram (pd_zero True)))) 16 = replicate 16 0"
proof -
  let ?pd = "osdp_compute_cp_cryptogram (pd_zero True)"
  have z: "sc_lengths_ok (pd_sc (pd_zero True))"
    by (simp add: sc_lengths_ok_def pd_zero_def sc_zero_def)
  have "osdp_compute_cp_cryptogram ?pd = ?pd"
    by (simp add: osdp_compute_cp_cryptogram_def Let_def)
  then have "osdp_verify_cp_cryptogram ?pd = 0"
    using verify_cp_iff [OF sc_lengths_preserved(2) [OF z]] by simp
  then show ?thesis
    using cryptogram_authentic [OF sc_lengths_preserved(2) [OF z]]
    by (simp add: osdp_compute_cp_cryptogram_def pd_zero_def sc_zero_def Let_def replicate_add [symmetric])
qed

text \<open>What the two devices hold after the challenge: the same key and the same random numbers.\<close>

definition handshake_agree :: "'a osdp_pd_scheme \<Rightarrow> 'b osdp_pd_scheme \<Rightarrow> bool" where
  "handshake_agree cp pd \<longleftrightarrow>
     sc_lengths_ok (pd_sc cp) \<and> sc_lengths_ok (pd_sc pd) \<and>
     sc_use_scbkd cp = sc_use_scbkd pd \<and> (sc_use_scbkd cp \<or> scbk (pd_sc cp) = scbk (pd_sc pd)) \<and>
     cp_random (pd_sc cp) = cp_random (pd_sc pd) \<and> pd_random (pd_sc cp) = pd_random (pd_sc pd)"

lemma session_keys_agree:
  "handshake_agree cp pd \<Longrightarrow>
   s_enc (pd_sc (osdp_compute_session_keys cp)) = s_enc (pd_sc (osdp_compute_session_keys pd)) \<and>
   s_mac1 (pd_sc (osdp_compute_session_keys cp)) = s_mac1 (pd_sc (osdp_compute_session_keys pd)) \<and>
   s_mac2 (pd_sc (osdp_compute_session_keys cp)) = s_mac2 (pd_sc (osdp_compute_session_keys pd))"
  by (auto simp: handshake_agree_def osdp_compute_session_keys_def sc_use_scbkd_def Let_def)

lemma session_keys_frame [simp]:
  "cp_random (pd_sc (osdp_compute_session_keys pd)) = cp_random (pd_sc pd)"
  "pd_random (pd_sc (osdp_compute_session_keys pd)) = pd_random (pd_sc pd)"
  "cp_cryptogram (pd_sc (osdp_compute_session_keys pd)) = cp_cryptogram (pd_sc pd)"
  "pd_cryptogram (pd_sc (osdp_compute_session_keys pd)) = pd_cryptogram (pd_sc pd)"
  by (simp_all add: osdp_compute_session_keys_def Let_def)

text \<open>
  C27. Two devices with the same base key that exchanged their random numbers complete the
  handshake: each accepts the other's cryptogram, and they hold the same session keys and the
  same initial reply MAC.
\<close>

theorem handshake_completes:
  assumes "handshake_agree cp pd"
    and "cp1 = osdp_compute_session_keys cp" "pd1 = osdp_compute_pd_cryptogram (osdp_compute_session_keys pd)"
    and "cp2 = osdp_compute_cp_cryptogram
           (cp1\<lparr>pd_sc := (pd_sc cp1)\<lparr>pd_cryptogram := pd_cryptogram (pd_sc pd1)\<rparr>\<rparr>)"
    and "pd2 = pd1\<lparr>pd_sc := (pd_sc pd1)\<lparr>cp_cryptogram := cp_cryptogram (pd_sc cp2)\<rparr>\<rparr>"
  shows "osdp_verify_pd_cryptogram cp2 = 0 \<and> osdp_verify_cp_cryptogram pd2 = 0 \<and>
         s_enc (pd_sc cp2) = s_enc (pd_sc pd2) \<and> s_mac1 (pd_sc cp2) = s_mac1 (pd_sc pd2) \<and>
         s_mac2 (pd_sc cp2) = s_mac2 (pd_sc pd2) \<and>
         r_mac (pd_sc (osdp_compute_rmac_i cp2)) = r_mac (pd_sc (osdp_compute_rmac_i pd2))"
proof -
  note keys = session_keys_agree [OF assms(1)]
  have rnd: "cp_random (pd_sc cp) = cp_random (pd_sc pd)" "pd_random (pd_sc cp) = pd_random (pd_sc pd)"
    and ok: "sc_lengths_ok (pd_sc cp)" "sc_lengths_ok (pd_sc pd)"
    using assms(1) by (simp_all add: handshake_agree_def)
  note okk = sc_lengths_preserved(1) [OF ok(1)] sc_lengths_preserved(1) [OF ok(2)]
  have ok2: "sc_lengths_ok (pd_sc cp2)" "sc_lengths_ok (pd_sc pd2)"
    using okk by (simp_all add: assms(2-5) osdp_compute_cp_cryptogram_def
        osdp_compute_pd_cryptogram_def Let_def sc_lengths_ok_def aes.enc_block_length)
  have "pd_cryptogram (pd_sc cp2) = pd_cryptogram (pd_sc (osdp_compute_pd_cryptogram cp2))"
    and "cp_cryptogram (pd_sc pd2) = cp_cryptogram (pd_sc (osdp_compute_cp_cryptogram pd2))"
    and "s_enc (pd_sc cp2) = s_enc (pd_sc pd2)" "s_mac1 (pd_sc cp2) = s_mac1 (pd_sc pd2)"
    and "s_mac2 (pd_sc cp2) = s_mac2 (pd_sc pd2)"
    and "cp_cryptogram (pd_sc cp2) = cp_cryptogram (pd_sc pd2)"
    using keys rnd by (simp_all add: assms(2-5) osdp_compute_cp_cryptogram_def
        osdp_compute_pd_cryptogram_def Let_def)
  then show ?thesis
    by (simp add: verify_pd_iff [OF ok2(1)] verify_cp_iff [OF ok2(2)] osdp_compute_rmac_i_def Let_def)
qed

theorem handshake_completes_witness:
  "osdp_verify_pd_cryptogram (osdp_compute_cp_cryptogram
     ((osdp_compute_session_keys (pd_zero True))\<lparr>pd_sc := (pd_sc (osdp_compute_session_keys (pd_zero True)))
        \<lparr>pd_cryptogram := pd_cryptogram (pd_sc (osdp_compute_pd_cryptogram
           (osdp_compute_session_keys (pd_zero False))))\<rparr>\<rparr>)) = 0"
proof -
  have "handshake_agree (pd_zero True) (pd_zero False)"
    by (simp add: handshake_agree_def sc_lengths_ok_def pd_zero_def sc_zero_def sc_use_scbkd_def
        ISSET_FLAG_def)
  from handshake_completes [OF this refl refl refl refl] show ?thesis by blast
qed

end
