(* ===== verification/Phy.thy ===== *)
theory Phy
  imports Secure_Channel
begin

text \<open>
  The packet layer of src/src/osdp_phy.c, in the configuration that receives through the ring
  buffer (no \<open>OPT_OSDP_RX_ZERO_COPY\<close>) with packet tracing compiled out: packet headers and
  sequence numbers, finalizing and sending a packet, the framer that finds packets in the
  received stream, the checks of a complete packet, and decoding one.

  \<open>None\<close> as the result of decoding is the decryption of a negative length, which runs over the end of
  the memory.  A function on a packet takes the bytes its pointer points to and returns the new bytes.
  \<open>crc16_itu_t\<close>, of the submodule \<open>utils\<close>, is a parameter.
\<close>

type_synonym crc16 = "u16 \<Rightarrow> bytes \<Rightarrow> u16"

abbreviation (input) OSDP_PKT_MARK :: u8 where "OSDP_PKT_MARK \<equiv> 0xFF"
abbreviation (input) OSDP_PKT_SOM :: u8 where "OSDP_PKT_SOM \<equiv> 0x53"
abbreviation (input) PKT_CONTROL_SQN :: u8 where "PKT_CONTROL_SQN \<equiv> 0x03"
abbreviation (input) PKT_CONTROL_CRC :: u8 where "PKT_CONTROL_CRC \<equiv> 0x04"
abbreviation (input) PKT_CONTROL_SCB :: u8 where "PKT_CONTROL_SCB \<equiv> 0x08"

abbreviation (input) SCS_11 :: u8 where "SCS_11 \<equiv> 0x11"
abbreviation (input) SCS_12 :: u8 where "SCS_12 \<equiv> 0x12"
abbreviation (input) SCS_13 :: u8 where "SCS_13 \<equiv> 0x13"
abbreviation (input) SCS_14 :: u8 where "SCS_14 \<equiv> 0x14"
abbreviation (input) SCS_15 :: u8 where "SCS_15 \<equiv> 0x15"
abbreviation (input) SCS_16 :: u8 where "SCS_16 \<equiv> 0x16"
abbreviation (input) SCS_17 :: u8 where "SCS_17 \<equiv> 0x17"
abbreviation (input) SCS_18 :: u8 where "SCS_18 \<equiv> 0x18"

text \<open>The header \<open>struct osdp_packet_header\<close> at the start of \<open>b\<close>.\<close>

definition PKT_HDR :: nat where "PKT_HDR = 5"

definition pkt_som :: "bytes \<Rightarrow> u8" where "pkt_som b = b ! 0"
definition pkt_pd_address :: "bytes \<Rightarrow> u8" where "pkt_pd_address b = b ! 1"
definition pkt_length :: "bytes \<Rightarrow> nat" where "pkt_length b = unat (b ! 3) * 256 + unat (b ! 2)"
definition pkt_control :: "bytes \<Rightarrow> u8" where "pkt_control b = b ! 4"
definition pkt_data :: "bytes \<Rightarrow> nat \<Rightarrow> u8" where "pkt_data b i = b ! (5 + i)"

definition set_pkt_length :: "nat \<Rightarrow> bytes \<Rightarrow> bytes" where
  "set_pkt_length n b = b[2 := BYTE_0 (of_nat n), 3 := BYTE_1 (of_nat n)]"

definition has_ctl :: "u8 \<Rightarrow> bytes \<Rightarrow> bool" where
  "has_ctl f b \<longleftrightarrow> pkt_control b AND f \<noteq> 0"

abbreviation mark_len :: "'z osdp_pd_scheme \<Rightarrow> nat" where
  "mark_len pd \<equiv> of_bool (packet_has_mark pd)"

subsection \<open>Channel\<close>

text \<open>
  The channel takes the whole buffer or none of it: the return is what the next \<open>send\<close> of
  the script gives, and a channel out of script accepts everything.
\<close>

definition osdp_channel_send ::
  "'z osdp_pd_scheme \<Rightarrow> bytes \<Rightarrow> nat \<Rightarrow> int \<times> 'z osdp_pd_scheme" where
  "osdp_channel_send pd buf len =
     (let ch = pd_channel pd;
          ch = ch\<lparr>ch_flushes := ch_flushes ch + 1\<rparr>;
          ret = (case ch_send ch of [] \<Rightarrow> int len | r # _ \<Rightarrow> r);
          ch = ch\<lparr>ch_send := drop 1 (ch_send ch), ch_sent := ch_sent ch @ [take len buf]\<rparr>
      in (ret, set_channel ch pd))"

text \<open>
  The receive loop: an empty chunk is a \<open>recv\<close> that returned 0 or less, a full one of 64
  bytes asks for another.  The result is \<open>None\<close> when the ring buffer overflows.
\<close>

fun channel_receive_loop ::
  "bytes list \<Rightarrow> osdp_rb \<Rightarrow> nat \<Rightarrow> nat option \<times> osdp_rb \<times> bytes list" where
  "channel_receive_loop [] rb total_recv = (Some total_recv, rb, [])"
| "channel_receive_loop (buf # cs) rb total_recv =
     (if buf = [] then (Some total_recv, rb, cs)
      else let (n, rb) = osdp_rb_push_buf rb buf
           in if n \<noteq> length buf then (None, rb, cs)
              else if length buf = 64 then channel_receive_loop cs rb (total_recv + n)
              else (Some (total_recv + n), rb, cs))"

definition osdp_channel_receive :: "'z osdp_pd_scheme \<Rightarrow> int \<times> 'z osdp_pd_scheme" where
  "osdp_channel_receive pd =
     (let (r, rb, cs) = channel_receive_loop (ch_recv (pd_channel pd)) (pd_rx_rb pd) 0;
          pd = set_channel ((pd_channel pd)\<lparr>ch_recv := cs\<rparr>) (pd\<lparr>pd_rx_rb := rb\<rparr>)
      in (case r of None \<Rightarrow> -1 | Some n \<Rightarrow> int n, pd))"

subsection \<open>Check bytes and sequence numbers\<close>

definition osdp_compute_crc16 :: "crc16 \<Rightarrow> bytes \<Rightarrow> nat \<Rightarrow> u16" where
  "osdp_compute_crc16 crc16_itu_t buf len = crc16_itu_t 0x1D0F (take len buf)"

text \<open>The loop carries the checksum so far and the sum; only the last checksum is returned.\<close>

fun checksum_loop :: "bytes \<Rightarrow> int \<Rightarrow> u8 \<Rightarrow> u8" where
  "checksum_loop [] whole_checksum checksum = checksum"
| "checksum_loop (b # bs) whole_checksum checksum =
     (let whole_checksum = whole_checksum + uint b
      in checksum_loop bs whole_checksum (word_of_int (NOT (0xFF AND whole_checksum) + 1)))"

definition osdp_compute_checksum :: "bytes \<Rightarrow> nat \<Rightarrow> u8" where
  "osdp_compute_checksum msg len = checksum_loop (take len msg) 0 0"

definition phy_get_next_seq_number :: "'z osdp_pd_scheme \<Rightarrow> int" where
  "phy_get_next_seq_number pd =
     (let next_seq = pd_seq_number pd + 1 in if next_seq > 3 then 1 else next_seq)"

definition phy_rollback_seq_number :: "'z osdp_pd_scheme \<Rightarrow> 'z osdp_pd_scheme" where
  "phy_rollback_seq_number pd =
     (let s = pd_seq_number pd - 1 in pd\<lparr>pd_seq_number := (if s < 1 then 3 else s)\<rparr>)"

definition phy_reset_seq_number :: "'z osdp_pd_scheme \<Rightarrow> 'z osdp_pd_scheme" where
  "phy_reset_seq_number pd = pd\<lparr>pd_seq_number := -1\<rparr>"

definition osdp_phy_progress_sequence :: "'z osdp_pd_scheme \<Rightarrow> 'z osdp_pd_scheme" where
  "osdp_phy_progress_sequence pd = pd\<lparr>pd_seq_number := phy_get_next_seq_number pd\<rparr>"

subsection \<open>Building a packet\<close>

definition osdp_phy_packet_get_data_offset :: "'z osdp_pd_scheme \<Rightarrow> bytes \<Rightarrow> nat" where
  "osdp_phy_packet_get_data_offset pd buf =
     (let b = drop (mark_len pd) buf;
          sb_len = (if has_ctl PKT_CONTROL_SCB b then unat (pkt_data b 0) else 0)
      in mark_len pd + PKT_HDR + sb_len)"

text \<open>The offset of the security block in the buffer, if there is one.\<close>

definition osdp_phy_packet_get_smb :: "'z osdp_pd_scheme \<Rightarrow> bytes \<Rightarrow> nat option" where
  "osdp_phy_packet_get_smb pd buf =
     (if has_ctl PKT_CONTROL_SCB (drop (mark_len pd) buf) then Some (mark_len pd + PKT_HDR)
      else None)"

definition osdp_phy_in_sc_handshake :: "bool \<Rightarrow> int \<Rightarrow> bool" where
  "osdp_phy_in_sc_handshake is_reply i =
     (if is_reply then i = REPLY_CCRYPT \<or> i = REPLY_RMAC_I else i = CMD_CHLNG \<or> i = CMD_SCRYPT)"

definition osdp_phy_packet_init ::
  "'z osdp_pd_scheme \<Rightarrow> bytes \<Rightarrow> int \<Rightarrow> int \<times> bytes \<times> 'z osdp_pd_scheme" where
  "osdp_phy_packet_init pd buf max_len =
     (if max_len < int OSDP_MINIMUM_PACKET_SIZE then (OSDP_ERR_PKT_FMT, buf, pd)
      else
      let with_mark = (is_pd_mode pd \<and> packet_has_mark pd \<or>
                       is_cp_mode pd \<and> \<not> ISSET_FLAG pd PD_FLAG_PKT_SKIP_MARK);
          m = of_bool with_mark;
          buf = (if with_mark then buf[0 := OSDP_PKT_MARK] else buf);
          pd = (if with_mark then SET_FLAG PD_FLAG_PKT_HAS_MARK pd else pd);
          buf = buf[m := OSDP_PKT_SOM];
          addr = (word_of_int (pd_address pd) AND 0x7F :: u8);
          addr = (if ISSET_FLAG pd PD_FLAG_PKT_BROADCAST then 0x7F else addr);
          pd = (if ISSET_FLAG pd PD_FLAG_PKT_BROADCAST then CLEAR_FLAG PD_FLAG_PKT_BROADCAST pd else pd);
          addr = (if is_pd_mode pd then addr OR 0x80 else addr);
          msg_id = (if is_pd_mode pd then pd_reply_id pd else pd_cmd_id pd);
          buf = buf[m + 1 := addr];
          busy = (is_pd_mode pd \<and> msg_id = REPLY_BUSY);
          control = (if busy then 0 else word_of_int (phy_get_next_seq_number pd));
          pd = pd\<lparr>pd_phy_tx_seq := uint (control AND PKT_CONTROL_SQN)\<rparr>;
          control = (if is_pd_mode pd \<or> (is_cp_mode pd \<and> ISSET_FLAG pd PD_FLAG_CP_USE_CRC)
                     then control OR PKT_CONTROL_CRC else control);
          (control, scb) =
            (if busy then (control, [])
             else if sc_is_active pd then (control OR PKT_CONTROL_SCB, [2, SCS_15])
             else if osdp_phy_in_sc_handshake (is_pd_mode pd) msg_id
             then (control OR PKT_CONTROL_SCB, [3, SCS_11])
             else (control, []));
          buf = write_at (m + PKT_HDR) scb (buf[m + 4 := control]);
          scb_len = (if scb = [] then 0 else unat (hd scb))
      in (int (mark_len pd + PKT_HDR + scb_len), buf, pd))"

subsection \<open>Finalizing and sending\<close>

text \<open>
  The security part of finalizing, on the packet without its mark byte: encrypt the data block
  of an SCS_17 or SCS_18 packet, then append four bytes of the authentication code.  The first
  component is \<open>False\<close> for the jump to \<open>out_of_space_error\<close>.  The caller built the packet,
  so its length covers the header, the security block and the command or reply byte.
\<close>

definition phy_finalize_encrypt ::
  "'z osdp_pd_scheme \<Rightarrow> bytes \<Rightarrow> nat \<Rightarrow> int \<Rightarrow> bool \<times> nat \<times> bytes" where
  "phy_finalize_encrypt pd b len max_len =
     (if pkt_data b 1 = SCS_17 \<or> pkt_data b 1 = SCS_18
      then let off = PKT_HDR + unat (pkt_data b 0) + 1;
               data_len = len - off;
               len = len - data_len
           in if int (AES_PAD_LEN (data_len + 1)) > max_len then (False, len, b)
              else let (n, b) = osdp_encrypt_data pd (is_cp_mode pd) b off data_len
                   in (True, len + n, b)
      else (True, len, b))"

definition phy_finalize_secure ::
  "'z osdp_pd_scheme \<Rightarrow> bytes \<Rightarrow> nat \<Rightarrow> int \<Rightarrow> bool \<times> nat \<times> bytes \<times> 'z osdp_pd_scheme" where
  "phy_finalize_secure pd b len max_len =
     (let (ok, len, b) = phy_finalize_encrypt pd b len max_len
      in if \<not> ok \<or> int (len + 4) > max_len then (False, len, b, pd)
         else let checksum_len = (if has_ctl PKT_CONTROL_CRC b then 2 else 1);
                  b = set_pkt_length (len + checksum_len + 4) b;
                  pd = osdp_compute_mac (is_cp_mode pd) b len pd;
                  mac = (if is_cp_mode pd then c_mac (pd_sc pd) else r_mac (pd_sc pd))
              in (True, len + 4, write_at len (take 4 mac) b, pd))"

definition phy_finalize_check :: "crc16 \<Rightarrow> bytes \<Rightarrow> nat \<Rightarrow> int \<Rightarrow> bool \<times> nat \<times> bytes" where
  "phy_finalize_check crc b len max_len =
     (if has_ctl PKT_CONTROL_CRC b
      then if int (len + 2) > max_len then (False, len, b)
           else let (b, n) = bwrite_u16_le (osdp_compute_crc16 crc b len) b len in (True, n, b)
      else if int (len + 1) > max_len then (False, len, b)
           else (True, len + 1, write_at len [osdp_compute_checksum b len] b))"

text \<open>The return, the buffer and the device.\<close>

definition osdp_phy_finalize_packet ::
  "crc16 \<Rightarrow> 'z osdp_pd_scheme \<Rightarrow> bytes \<Rightarrow> nat \<Rightarrow> int \<Rightarrow> int \<times> bytes \<times> 'z osdp_pd_scheme" where
  "osdp_phy_finalize_packet crc pd buf len max_len =
     (if len \<le> PKT_HDR then (OSDP_ERR_PKT_FMT, buf, pd)
      else if packet_has_mark pd \<and> buf ! 0 \<noteq> OSDP_PKT_MARK then (OSDP_ERR_PKT_FMT, buf, pd)
      else
      let m = mark_len pd; b = drop m buf; n = len - m; max_len = max_len - int m
      in if pkt_som b \<noteq> OSDP_PKT_SOM then (OSDP_ERR_PKT_FMT, buf, pd)
         else
         let checksum_len = (if has_ctl PKT_CONTROL_CRC b then 2 else 1);
             b = set_pkt_length (n + checksum_len) b;
             (ok, n, b, pd) =
               (if sc_is_active pd \<and> has_ctl PKT_CONTROL_SCB b \<and> pkt_data b 1 \<ge> SCS_15
                then phy_finalize_secure pd b n max_len else (True, n, b, pd))
         in if \<not> ok then (OSDP_ERR_PKT_FMT, take m buf @ b, pd)
            else
            let (ok, n, b) = phy_finalize_check crc b n max_len
            in (if ok then int (n + m) else OSDP_ERR_PKT_FMT, take m buf @ b, pd))"

definition osdp_phy_send_packet ::
  "'z osdp_pd_scheme \<Rightarrow> bytes \<Rightarrow> nat \<Rightarrow> int \<times> 'z osdp_pd_scheme" where
  "osdp_phy_send_packet pd buf len =
     (let (ret, pd) = osdp_channel_send pd buf len
      in if ret = 0 then (OSDP_ERR_PKT_WAIT_TX, pd)
         else if ret < 0 \<or> ret \<noteq> int len then (OSDP_ERR_PKT_BUILD, pd)
         else (int len, osdp_metrics_report OSDP_METRIC_PACKET_SENT pd))"

subsection \<open>The framer\<close>

definition phy_validate_header ::
  "'z osdp_pd_scheme \<Rightarrow> bytes \<Rightarrow> nat \<Rightarrow> nat \<Rightarrow> int \<times> 'z osdp_pd_scheme" where
  "phy_validate_header pd buf buf_len max_len =
     (if buf_len < PKT_HDR then (OSDP_ERR_PKT_WAIT, pd)
      else
      let marked = (buf ! 0 = OSDP_PKT_MARK \<and> buf_len > 1 \<and> buf ! 1 = OSDP_PKT_SOM)
      in if \<not> marked \<and> buf ! 0 \<noteq> OSDP_PKT_SOM then (OSDP_ERR_PKT_FMT, pd)
         else
         let m = of_bool marked;
             pd = SET_FLAG_V PD_FLAG_PKT_HAS_MARK marked pd;
             b = drop m buf;
             pkt_len = pkt_length b
         in if pkt_som b \<noteq> OSDP_PKT_SOM then (OSDP_ERR_PKT_FMT, pd)
            else if pkt_len + m > max_len \<or> pkt_len < PKT_HDR + 1 then (OSDP_ERR_PKT_FMT, pd)
            else if is_pd_mode pd \<and> pkt_pd_address b AND 0x80 \<noteq> 0 then (OSDP_ERR_PKT_SKIP, pd)
            else if is_cp_mode pd \<and> pkt_pd_address b AND 0x80 = 0 then (OSDP_ERR_PKT_SKIP, pd)
            else (int (pkt_len + m), pd))"

text \<open>\<open>find_som i buf len\<close> is the first index from \<open>i\<close> below \<open>len\<close> that holds a SOM, or \<open>len\<close>.\<close>

function find_som :: "nat \<Rightarrow> bytes \<Rightarrow> nat \<Rightarrow> nat" where
  "find_som i buf len = (if i < len \<and> buf ! i \<noteq> OSDP_PKT_SOM then find_som (i + 1) buf len else i)"
  by auto
termination by (relation "measure (\<lambda>(i, _, len). len - i)") auto

declare find_som.simps [simp del]

definition phy_rescan_packet_buf :: "'z osdp_pd_scheme \<Rightarrow> bool \<times> 'z osdp_pd_scheme" where
  "phy_rescan_packet_buf pd =
     (let buf = packet_bytes pd; len = pd_packet_buf_len pd;
          i = find_som (mark_len pd + 1) buf len
      in if i < len
         then let marked = (i \<noteq> 0 \<and> buf ! (i - 1) = OSDP_PKT_MARK);
                  j = of_bool marked;
                  rest = bytes_at i (len - i) buf;
                  buf = write_at j rest (if marked then buf[0 := OSDP_PKT_MARK] else buf);
                  pd = SET_FLAG_V PD_FLAG_PKT_HAS_MARK marked pd
              in (True, (put_packet_bytes buf pd)\<lparr>pd_packet_buf_len := j + (len - i)\<rparr>)
         else (False, pd\<lparr>pd_packet_buf_len := 0\<rparr>))"

text \<open>
  The scan for a packet start, one byte popped per round.  The ring buffer holds fewer than
  \<open>OSDP_RX_RB_SIZE\<close> bytes, which bounds the rounds.  The result is the bytes to put at the
  start of the packet buffer, if a start was found.
\<close>

fun phy_scan_start :: "nat \<Rightarrow> osdp_rb \<Rightarrow> u8 \<Rightarrow> u32 \<Rightarrow> bytes option \<times> osdp_rb \<times> u32" where
  "phy_scan_start 0 rb prev_byte skip = (None, rb, skip)"
| "phy_scan_start (Suc fuel) rb prev_byte skip =
     (case osdp_rb_pop rb of
        None \<Rightarrow> (None, rb, skip)
      | Some (cur_byte, rb) \<Rightarrow>
          if cur_byte = OSDP_PKT_SOM
          then (Some (if prev_byte = OSDP_PKT_MARK then [OSDP_PKT_MARK, OSDP_PKT_SOM]
                      else [OSDP_PKT_SOM]), rb, skip)
          else phy_scan_start fuel rb cur_byte
                 (if cur_byte \<noteq> OSDP_PKT_MARK then skip + 1 else skip))"

text \<open>Popping up to \<open>n\<close> bytes behind the bytes collected so far.\<close>

definition phy_top_up :: "nat \<Rightarrow> 'z osdp_pd_scheme \<Rightarrow> 'z osdp_pd_scheme" where
  "phy_top_up n pd =
     (let (got, rb) = osdp_rb_pop_buf (pd_rx_rb pd) n;
          buf = write_at (pd_packet_buf_len pd) got (packet_bytes pd)
      in (put_packet_bytes buf pd)\<lparr>pd_rx_rb := rb,
            pd_packet_buf_len := pd_packet_buf_len pd + length got\<rparr>)"

definition phy_find_start :: "'z osdp_pd_scheme \<Rightarrow> bool \<times> 'z osdp_pd_scheme" where
  "phy_find_start pd =
     (if pd_packet_buf_len pd \<noteq> 0 then (True, pd)
      else let (r, rb, skip) = phy_scan_start OSDP_RX_RB_SIZE (pd_rx_rb pd) 0 (pd_packet_scan_skip pd);
               pd = pd\<lparr>pd_rx_rb := rb, pd_packet_scan_skip := skip\<rparr>
           in case r of
                None \<Rightarrow> (False, pd)
              | Some bs \<Rightarrow> (True, (put_packet_bytes (write_at 0 bs (packet_bytes pd)) pd)
                                    \<lparr>pd_packet_buf_len := length bs\<rparr>))"

definition phy_check_header :: "'z osdp_pd_scheme \<Rightarrow> int \<times> 'z osdp_pd_scheme" where
  "phy_check_header pd =
     (let (found, pd) = phy_find_start pd
      in if \<not> found then (OSDP_ERR_PKT_NO_DATA, pd)
         else
         let need = PKT_HDR + (if packet_bytes pd ! 0 = OSDP_PKT_MARK then 1 else 0);
             pd = (if pd_packet_buf_len pd < need then phy_top_up (need - pd_packet_buf_len pd) pd
                   else pd);
             (ret, pd) = phy_validate_header pd (packet_bytes pd) (pd_packet_buf_len pd)
                           OSDP_PACKET_BUF_SIZE
         in if ret = OSDP_ERR_PKT_FMT
            then let (_, pd) = phy_rescan_packet_buf pd in (OSDP_ERR_PKT_WAIT, pd)
            else (ret, pd))"

subsection \<open>Checking a complete packet\<close>

text \<open>
  The integrity check of the packet \<open>b\<close> without its mark: the length left before the check
  bytes, and whether they match.
\<close>

definition phy_check_integrity :: "crc16 \<Rightarrow> bytes \<Rightarrow> nat \<Rightarrow> nat \<times> bool" where
  "phy_check_integrity crc b pkt_len =
     (if has_ctl PKT_CONTROL_CRC b
      then let n = pkt_len - 2;
               cur = (push_bit 8 (ucast (b ! (n + 1))) OR ucast (b ! n) :: u16)
           in (n, osdp_compute_crc16 crc b n = cur)
      else let n = pkt_len - 1 in (n, osdp_compute_checksum b n = b ! n))"

text \<open>
  The PD's reading of the sequence number \<open>sqn\<close>: 0 restarts the link, a repeat of the last
  number sends the cached reply again (\<open>True\<close>: skip the packet) or rolls the number back.
\<close>

definition phy_pd_sequence ::
  "'z osdp_pd_scheme \<Rightarrow> bytes \<Rightarrow> int \<Rightarrow> bool \<times> 'z osdp_pd_scheme" where
  "phy_pd_sequence pd b sqn =
     (if sqn = 0
      then (False, sc_deactivate ((phy_reset_seq_number pd)\<lparr>pd_last_tx_len := 0\<rparr>))
      else if sqn = pd_seq_number pd
      then (if pd_last_tx_len pd > 0
            then let scb_len = (if has_ctl PKT_CONTROL_SCB b then unat (pkt_data b 0) else 0)
                 in if b ! (PKT_HDR + scb_len) = pd_last_cmd_id pd
                    then (True, snd (osdp_channel_send pd (ctx_tx_buf (pd_ctx pd))
                                       (unat (pd_last_tx_len pd))))
                    else (False, phy_rollback_seq_number (pd\<lparr>pd_last_tx_len := 0\<rparr>))
            else (False, phy_rollback_seq_number pd))
      else (False, pd))"

definition phy_set_nak :: "u8 \<Rightarrow> 'z osdp_pd_scheme \<Rightarrow> 'z osdp_pd_scheme" where
  "phy_set_nak code pd = set_nak_code code (pd\<lparr>pd_reply_id := REPLY_NAK\<rparr>)"

definition phy_match_sequence :: "'z osdp_pd_scheme \<Rightarrow> int \<Rightarrow> int \<times> 'z osdp_pd_scheme" where
  "phy_match_sequence pd sqn =
     (if phy_get_next_seq_number pd \<noteq> sqn \<and> \<not> ISSET_FLAG pd PD_FLAG_SKIP_SEQ_CHECK
      then (OSDP_ERR_PKT_NACK, phy_set_nak OSDP_PD_NAK_SEQ_NUM pd)
      else (OSDP_ERR_PKT_NONE, pd))"

definition phy_check_packet ::
  "crc16 \<Rightarrow> 'z osdp_pd_scheme \<Rightarrow> bytes \<Rightarrow> nat \<Rightarrow> int \<times> 'z osdp_pd_scheme" where
  "phy_check_packet crc pd buf pkt_len =
     (let m = mark_len pd; b = drop m buf; pkt_len = pkt_len - m;
          pd = osdp_metrics_report OSDP_METRIC_PACKET_RECEIVED pd;
          (pkt_len, good) = phy_check_integrity crc b pkt_len
      in if \<not> good then (OSDP_ERR_PKT_FMT, osdp_metrics_report OSDP_METRIC_PACKET_CHECK_ERROR pd)
         else
         let pd_addr = uint (pkt_pd_address b AND 0x7F)
         in if pd_addr \<noteq> pd_address pd \<and> pd_addr \<noteq> 0x7F
            then (if is_cp_mode pd then OSDP_ERR_PKT_CHECK else OSDP_ERR_PKT_SKIP, pd)
            else
            let sqn = uint (pkt_control b AND PKT_CONTROL_SQN)
            in if is_pd_mode pd
               then let (skip, pd) = phy_pd_sequence pd b sqn
                    in if skip then (OSDP_ERR_PKT_SKIP, pd)
                       else let pd = (if pd_addr = 0x7F then SET_FLAG PD_FLAG_PKT_BROADCAST pd else pd)
                            in phy_match_sequence pd sqn
               else if sqn = 0 \<and> pkt_len = 6 \<and> uint (pkt_data b 0) = REPLY_BUSY \<and>
                       \<not> has_ctl PKT_CONTROL_SCB b
               then (OSDP_ERR_PKT_BUSY, pd)
               else phy_match_sequence pd sqn)"

text \<open>Collecting the bytes of the packet whose length the header gave.\<close>

definition phy_collect_packet :: "'z osdp_pd_scheme \<Rightarrow> int \<times> 'z osdp_pd_scheme" where
  "phy_collect_packet pd =
     (if pd_packet_buf_len pd > pd_packet_len pd then (OSDP_ERR_PKT_FMT, pd)
      else let pd = phy_top_up (pd_packet_len pd - pd_packet_buf_len pd) pd
           in if pd_packet_buf_len pd \<noteq> pd_packet_len pd then (OSDP_ERR_PKT_WAIT, pd)
              else (OSDP_ERR_PKT_NONE, pd))"

definition osdp_phy_check_packet :: "crc16 \<Rightarrow> 'z osdp_pd_scheme \<Rightarrow> int \<times> 'z osdp_pd_scheme" where
  "osdp_phy_check_packet crc pd =
     (let (ret, pd) = osdp_channel_receive pd;
          pd = (if is_pd_mode pd \<and> pd_packet_buf_len pd = 0 \<and> ret > 0
                then pd\<lparr>pd_tstamp := osdp_millis_now pd\<rparr> else pd);
          (ret, pd) =
            (if pd_packet_len pd = 0
             then let (ret, pd) = phy_check_header pd
                  in if ret < 0 then (ret, pd)
                     else (0, pd\<lparr>pd_packet_len := nat ret, pd_packet_scan_skip := 0\<rparr>)
             else (0, pd))
      in if ret < 0 then (ret, pd)
         else
         let (ret, pd) = phy_collect_packet pd
         in if ret \<noteq> OSDP_ERR_PKT_NONE then (ret, pd)
            else phy_check_packet crc pd (packet_bytes pd) (pd_packet_len pd))"

subsection \<open>Decoding\<close>

text \<open>
  The security block of a received packet \<open>b\<close>: \<open>None\<close> refuses it with a NAK, otherwise the
  offset of the command or reply byte, what is left of the length, and whether the rest of the
  decoding takes the channel as active.
\<close>

definition phy_decode_scb ::
  "'z osdp_pd_scheme \<Rightarrow> bytes \<Rightarrow> int \<Rightarrow> (nat \<times> int \<times> bool) option \<times> 'z osdp_pd_scheme" where
  "phy_decode_scb pd b len =
     (let active = sc_is_active pd; scs = pkt_data b 1
      in if has_ctl PKT_CONTROL_SCB b
         then if is_pd_mode pd \<and> \<not> sc_is_capable pd
              then (None, phy_set_nak OSDP_PD_NAK_SC_UNSUP pd)
              else if scs < SCS_11 \<or> scs > SCS_18 then (None, phy_set_nak OSDP_PD_NAK_SC_COND pd)
              else if \<not> active \<and> scs > SCS_14 then (None, phy_set_nak OSDP_PD_NAK_SC_COND pd)
              else let pd = (if (scs = SCS_11 \<or> scs = SCS_13) \<and> is_install_mode pd \<and> pkt_data b 2 = 0
                             then SET_FLAG PD_FLAG_SC_USE_SCBKD pd else pd)
                   in (Some (PKT_HDR + unat (pkt_data b 0), len - uint (pkt_data b 0), active), pd)
         else let active = (if is_cp_mode pd \<and> pd_cmd_id pd = CMD_KEYSET \<and>
                               uint (pkt_data b 0) = REPLY_ACK \<and> \<not> is_enforce_secure pd
                            then False else active)
              in if active then (None, phy_set_nak OSDP_PD_NAK_SC_COND pd)
                 else (Some (PKT_HDR, len, active), pd))"

text \<open>
  Authentication and decryption of a packet in a session: the length left, or the NAK that
  ends the session.  \<open>None\<close> is the decryption that runs over the end of the memory.
\<close>

definition phy_decode_secure ::
  "'z osdp_pd_scheme \<Rightarrow> bytes \<Rightarrow> nat \<Rightarrow> int \<Rightarrow> nat \<Rightarrow> (int \<times> bytes \<times> 'z osdp_pd_scheme) option" where
  "phy_decode_secure pd b data len mac_offset =
     (let is_cmd = is_pd_mode pd;
          pd = osdp_compute_mac is_cmd b mac_offset pd;
          mac = (if is_cmd then c_mac (pd_sc pd) else r_mac (pd_sc pd))
      in if bytes_at mac_offset 4 b \<noteq> take 4 mac
         then Some (OSDP_ERR_PKT_NACK, b, phy_set_nak OSDP_PD_NAK_SC_COND (sc_deactivate pd))
         else
         let len = len - 4
         in if pkt_data b 1 = SCS_17 \<or> pkt_data b 1 = SCS_18
            then case osdp_decrypt_data pd is_cmd b (data + 1) (len - 1) of
                   None \<Rightarrow> None
                 | Some (n, b) \<Rightarrow>
                     Some (if n < 0
                           then (OSDP_ERR_PKT_NACK, b, phy_set_nak OSDP_PD_NAK_SC_COND (sc_deactivate pd))
                           else (n + 1, b, pd))
            else Some (len, b, pd))"

text \<open>The return, the offset of the command or reply byte in the packet buffer, and the device.\<close>

definition osdp_phy_decode_packet :: "'z osdp_pd_scheme \<Rightarrow> (int \<times> nat \<times> 'z osdp_pd_scheme) option" where
  "osdp_phy_decode_packet pd =
     (let m = mark_len pd; buf = packet_bytes pd; b = drop m buf;
          len = int (pd_packet_buf_len pd) - int m - (if has_ctl PKT_CONTROL_CRC b then 2 else 1);
          mac_offset = nat (len - 4);
          (r, pd) = phy_decode_scb pd b (len - int PKT_HDR)
      in case r of
           None \<Rightarrow> Some (OSDP_ERR_PKT_NACK, 0, pd)
         | Some (data, len, active) \<Rightarrow>
             if active \<and> has_ctl PKT_CONTROL_SCB b \<and> pkt_data b 1 \<ge> SCS_15
             then case phy_decode_secure pd b data len mac_offset of
                    None \<Rightarrow> None
                  | Some (ret, b, pd) \<Rightarrow> Some (ret, m + data, put_packet_bytes (take m buf @ b) pd)
             else Some (len, m + data, pd))"

definition osdp_phy_state_reset :: "bool \<Rightarrow> 'z osdp_pd_scheme \<Rightarrow> 'z osdp_pd_scheme" where
  "osdp_phy_state_reset is_error pd =
     (let pd = pd\<lparr>pd_packet_buf_len := 0, pd_packet_len := 0, pd_phy_state := OSDP_CP_PHY_STATE_IDLE,
                  pd_packet_buf := RX_BUF\<rparr>
      in if is_error
         then let pd = phy_reset_seq_number (pd\<lparr>pd_phy_retry_count := 0, pd_phy_tx_seq := 0,
                                                 pd_last_tx_len := 0\<rparr>);
                  pd = set_channel ((pd_channel pd)\<lparr>ch_flushes := ch_flushes (pd_channel pd) + 1\<rparr>) pd
              in pd\<lparr>pd_rx_rb := osdp_rb_reset (pd_rx_rb pd)\<rparr>
         else pd)"

end
