(* ===== verification/Phy_Framer.thy ===== *)
theory Phy_Framer
  imports Phy
begin

text \<open>
  What the framer of src/src/osdp_phy.c guarantees on any received bytes: it never stores
  outside the packet buffer, and it finds a packet behind stray bytes.
\<close>

definition framer_ok :: "'z osdp_pd_scheme \<Rightarrow> bool" where
  "framer_ok pd \<longleftrightarrow> rb_ok (pd_rx_rb pd) \<and>
     length (ctx_tx_buf (pd_ctx pd)) = OSDP_PACKET_BUF_SIZE \<and>
     length (ctx_rx_store (pd_ctx pd)) = OSDP_PACKET_BUF_SIZE \<and>
     pd_packet_buf_len pd \<le> OSDP_PACKET_BUF_SIZE \<and> pd_packet_len pd \<le> OSDP_PACKET_BUF_SIZE"

lemma framer_length [simp]: "framer_ok pd \<Longrightarrow> length (packet_bytes pd) = OSDP_PACKET_BUF_SIZE"
  by (auto simp: framer_ok_def packet_bytes_def ctx_rx_buf_def split: packet_buf_ref.split)

lemma framer_put:
  "framer_ok pd \<Longrightarrow> length b = OSDP_PACKET_BUF_SIZE \<Longrightarrow> framer_ok (put_packet_bytes b pd)"
  by (auto simp: framer_ok_def put_packet_bytes_def set_rx_buf_def split: packet_buf_ref.split)

lemma put_packet_bytes_frame [simp]:
  "pd_rx_rb (put_packet_bytes b pd) = pd_rx_rb pd"
  "pd_packet_buf_len (put_packet_bytes b pd) = pd_packet_buf_len pd"
  "pd_packet_len (put_packet_bytes b pd) = pd_packet_len pd"
  "pd_flags (put_packet_bytes b pd) = pd_flags pd"
  "pd_packet_buf (put_packet_bytes b pd) = pd_packet_buf pd"
  "pd_packet_scan_skip (put_packet_bytes b pd) = pd_packet_scan_skip pd"
  by (simp_all add: put_packet_bytes_def)

lemma packet_bytes_frame [simp]:
  "packet_bytes (pd\<lparr>pd_rx_rb := r\<rparr>) = packet_bytes pd"
  "packet_bytes (pd\<lparr>pd_packet_buf_len := n\<rparr>) = packet_bytes pd"
  "packet_bytes (pd\<lparr>pd_packet_len := n\<rparr>) = packet_bytes pd"
  "packet_bytes (pd\<lparr>pd_packet_scan_skip := s\<rparr>) = packet_bytes pd"
  "packet_bytes (SET_FLAG f pd) = packet_bytes pd"
  "packet_bytes (CLEAR_FLAG f pd) = packet_bytes pd"
  "packet_bytes (SET_FLAG_V f v pd) = packet_bytes pd"
  by (simp_all add: packet_bytes_def SET_FLAG_V_def split: packet_buf_ref.split)

lemma SET_FLAG_V_frame [simp]:
  "pd_packet_buf_len (SET_FLAG_V f v pd) = pd_packet_buf_len pd"
  "pd_packet_len (SET_FLAG_V f v pd) = pd_packet_len pd"
  "pd_rx_rb (SET_FLAG_V f v pd) = pd_rx_rb pd"
  "pd_ctx (SET_FLAG_V f v pd) = pd_ctx pd"
  "pd_packet_buf (SET_FLAG_V f v pd) = pd_packet_buf pd"
  by (simp_all add: SET_FLAG_V_def)

lemma framer_flag [simp]:
  "framer_ok (SET_FLAG_V f v pd) = framer_ok pd"
  "framer_ok (SET_FLAG f pd) = framer_ok pd"
  by (simp_all add: framer_ok_def)

subsection \<open>Steps\<close>

lemma receive_loop_ok:
  "rb_ok rb \<Longrightarrow> channel_receive_loop cs rb n = (r, rb', cs') \<Longrightarrow> rb_ok rb'"
proof (induction cs arbitrary: rb n)
  case (Cons c cs)
  have "rb_ok (snd (osdp_rb_push_buf rb c))"
    using rb.push_buf_prefix [OF Cons.prems(1) surjective_pairing, of c] by simp
  then show ?case
    using Cons by (fastforce split: if_splits prod.splits)
qed simp

lemma framer_receive:
  assumes "framer_ok pd"
  shows "framer_ok (snd (osdp_channel_receive pd))"
  using assms receive_loop_ok [of "pd_rx_rb pd"]
  by (fastforce simp: framer_ok_def osdp_channel_receive_def set_channel_def Let_def split: prod.splits)

lemma top_up_spec:
  assumes "framer_ok pd" "pd_packet_buf_len pd + n \<le> OSDP_PACKET_BUF_SIZE"
  shows "framer_ok (phy_top_up n pd) \<and>
    pd_packet_buf_len (phy_top_up n pd) = pd_packet_buf_len pd + min n (length (rb_items (pd_rx_rb pd))) \<and>
    packet_bytes (phy_top_up n pd) =
      write_at (pd_packet_buf_len pd) (take n (rb_items (pd_rx_rb pd))) (packet_bytes pd) \<and>
    rb_items (pd_rx_rb (phy_top_up n pd)) = drop n (rb_items (pd_rx_rb pd)) \<and>
    pd_flags (phy_top_up n pd) = pd_flags pd \<and> pd_packet_len (phy_top_up n pd) = pd_packet_len pd"
proof -
  obtain got rb' where p: "osdp_rb_pop_buf (pd_rx_rb pd) n = (got, rb')" by (metis surj_pair)
  have rbok: "rb_ok (pd_rx_rb pd)" using assms(1) by (simp add: framer_ok_def)
  have g: "got = take n (rb_items (pd_rx_rb pd))" "rb_ok rb'"
    "rb_items rb' = drop n (rb_items (pd_rx_rb pd))"
    using rb.pop_buf_take [OF rbok, of n] p by auto
  have l: "length got = min n (length (rb_items (pd_rx_rb pd)))" using g(1) by (simp add: min.commute)
  have "framer_ok (put_packet_bytes (write_at (pd_packet_buf_len pd) got (packet_bytes pd)) pd)"
    by (rule framer_put [OF assms(1)]) (use assms l in simp)
  then have "framer_ok (phy_top_up n pd)"
    using assms(2) g(2) l by (auto simp: phy_top_up_def p Let_def framer_ok_def)
  then show ?thesis using g l by (simp add: phy_top_up_def p Let_def)
qed

lemma scan_start_ok:
  "rb_ok rb \<Longrightarrow> phy_scan_start fuel rb prev skip = (r, rb', skip') \<Longrightarrow>
   rb_ok rb' \<and> (\<forall>bs. r = Some bs \<longrightarrow> 0 < length bs \<and> length bs \<le> 2)"
proof (induction fuel arbitrary: rb prev skip)
  case (Suc fuel)
  show ?case
  proof (cases "osdp_rb_pop rb")
    case None
    then show ?thesis using Suc.prems by auto
  next
    case (Some p)
    then obtain c rb1 where pop: "osdp_rb_pop rb = Some (c, rb1)" by (cases p) auto
    then have ok1: "rb_ok rb1"
      using rb.pop_cases [OF Suc.prems(1)] by auto
    show ?thesis
      using Suc.prems Suc.IH [OF ok1] pop ok1 by (auto split: if_splits)
  qed
qed simp

lemma framer_find_start:
  assumes "framer_ok pd" "phy_find_start pd = (r, pd')"
  shows "framer_ok pd'"
proof (cases "pd_packet_buf_len pd = 0")
  case True
  obtain r1 rb1 skip1 where
    s: "phy_scan_start OSDP_RX_RB_SIZE (pd_rx_rb pd) 0 (pd_packet_scan_skip pd) = (r1, rb1, skip1)"
    by (metis prod_cases3)
  have rb1: "rb_ok rb1" "\<forall>bs. r1 = Some bs \<longrightarrow> 0 < length bs \<and> length bs \<le> 2"
    using scan_start_ok [OF _ s] assms(1) by (simp_all add: framer_ok_def)
  let ?pd1 = "pd\<lparr>pd_rx_rb := rb1, pd_packet_scan_skip := skip1\<rparr>"
  have ok1: "framer_ok ?pd1" using assms(1) rb1(1) by (simp add: framer_ok_def)
  show ?thesis
  proof (cases r1)
    case None
    then show ?thesis using assms(2) s True ok1 by (auto simp: phy_find_start_def)
  next
    case (Some bs)
    then have bs: "length bs \<le> 2" using rb1(2) by simp
    have "framer_ok (put_packet_bytes (write_at 0 bs (packet_bytes ?pd1)) ?pd1)"
      by (rule framer_put [OF ok1]) (use bs framer_length [OF ok1] in simp)
    then show ?thesis
      using assms(2) s True Some bs by (auto simp: phy_find_start_def framer_ok_def)
  qed
qed (use assms in \<open>auto simp: phy_find_start_def\<close>)

lemma validate_header_spec:
  assumes "phy_validate_header pd buf n max_len = (ret, pd')"
  shows "(framer_ok pd' = framer_ok pd) \<and> packet_bytes pd' = packet_bytes pd \<and>
         pd_packet_buf_len pd' = pd_packet_buf_len pd \<and> pd_packet_len pd' = pd_packet_len pd \<and>
         pd_rx_rb pd' = pd_rx_rb pd \<and> (ret < 0 \<or> 6 \<le> ret \<and> ret \<le> int max_len)"
  using assms by (auto simp: phy_validate_header_def Let_def PKT_HDR_def split: if_splits)

lemma find_som_ge: "i \<le> find_som i buf len"
proof (induction i buf len rule: find_som.induct)
  case (1 i buf len)
  then show ?case by (subst find_som.simps) (auto dest: Suc_leD)
qed

lemma framer_rescan:
  assumes "framer_ok pd"
  shows "framer_ok (snd (phy_rescan_packet_buf pd))"
proof -
  let ?i = "find_som (mark_len pd + 1) (packet_bytes pd) (pd_packet_buf_len pd)"
  have i: "1 \<le> ?i" using find_som_ge [of "mark_len pd + 1"] by (meson le_add2 order_trans)
  have len: "pd_packet_buf_len pd \<le> OSDP_PACKET_BUF_SIZE" using assms by (simp add: framer_ok_def)
  have "framer_ok (pd1\<lparr>pd_packet_buf_len := of_bool v + (pd_packet_buf_len pd - ?i)\<rparr>)"
    if "pd1 = put_packet_bytes (write_at (of_bool v) (bytes_at ?i (pd_packet_buf_len pd - ?i) (packet_bytes pd)) b)
                (SET_FLAG_V f v pd)" "length b = OSDP_PACKET_BUF_SIZE" "?i < pd_packet_buf_len pd" for pd1 b v f
  proof -
    have "framer_ok pd1"
      unfolding that(1)
      by (rule framer_put) (use assms that(2,3) len i in \<open>auto simp: of_bool_def\<close>)
    then show ?thesis using that(3) len i by (auto simp: framer_ok_def of_bool_def)
  qed
  then show ?thesis
    using assms by (auto simp: phy_rescan_packet_buf_def Let_def framer_ok_def [of "pd\<lparr>pd_packet_buf_len := 0\<rparr>"])
       (simp_all add: framer_ok_def)
qed

lemma framer_check_header:
  assumes "framer_ok pd" "phy_check_header pd = (ret, pd')"
  shows "framer_ok pd' \<and> (ret < 0 \<or> 6 \<le> ret \<and> ret \<le> int OSDP_PACKET_BUF_SIZE)"
proof -
  obtain found pd1 where st: "phy_find_start pd = (found, pd1)" by (metis surj_pair)
  have ok1: "framer_ok pd1" using framer_find_start [OF assms(1) st] .
  show ?thesis
  proof (cases found)
    case False
    then show ?thesis using assms(2) st ok1 by (simp add: phy_check_header_def)
  next
    case True
    define need where "need = PKT_HDR + (if packet_bytes pd1 ! 0 = OSDP_PKT_MARK then 1 else 0)"
    define pd2 where "pd2 = (if pd_packet_buf_len pd1 < need
                             then phy_top_up (need - pd_packet_buf_len pd1) pd1 else pd1)"
    have ok2: "framer_ok pd2"
    proof (cases "pd_packet_buf_len pd1 < need")
      case True
      then have "pd_packet_buf_len pd1 + (need - pd_packet_buf_len pd1) \<le> OSDP_PACKET_BUF_SIZE"
        by (simp add: need_def PKT_HDR_def split: if_splits)
      from top_up_spec [OF ok1 this] show ?thesis by (simp add: pd2_def True)
    qed (simp add: pd2_def ok1)
    obtain r pd3 where v: "phy_validate_header pd2 (packet_bytes pd2) (pd_packet_buf_len pd2)
                             OSDP_PACKET_BUF_SIZE = (r, pd3)" by (metis surj_pair)
    note vs = validate_header_spec [OF v]
    have "phy_check_header pd = (if r = OSDP_ERR_PKT_FMT
            then (OSDP_ERR_PKT_WAIT, snd (phy_rescan_packet_buf pd3)) else (r, pd3))"
      unfolding phy_check_header_def st Let_def prod.case need_def [symmetric]
        pd2_def [symmetric] v
      using True by (simp add: case_prod_beta)
    then show ?thesis
      using assms(2) vs ok2 framer_rescan [of pd3] by (auto split: if_splits)
  qed
qed

lemma framer_collect:
  assumes "framer_ok pd" "phy_collect_packet pd = (ret, pd')"
  shows "framer_ok pd' \<and> (ret = OSDP_ERR_PKT_NONE \<longrightarrow>
           pd_packet_buf_len pd' = pd_packet_len pd' \<and> pd_packet_len pd' = pd_packet_len pd)"
proof (cases "pd_packet_len pd < pd_packet_buf_len pd")
  case True
  then show ?thesis using assms by (auto simp: phy_collect_packet_def)
next
  case False
  then have "pd_packet_buf_len pd + (pd_packet_len pd - pd_packet_buf_len pd) \<le> OSDP_PACKET_BUF_SIZE"
    using assms(1) by (simp add: framer_ok_def)
  from top_up_spec [OF assms(1) this] show ?thesis
    using assms(2) False by (auto simp: phy_collect_packet_def Let_def split: if_splits)
qed

subsection \<open>The packet check leaves the framer alone\<close>

lemma sc_deactivate_frame [simp]:
  "pd_ctx (sc_deactivate pd) = pd_ctx pd" "pd_rx_rb (sc_deactivate pd) = pd_rx_rb pd"
  "pd_packet_buf_len (sc_deactivate pd) = pd_packet_buf_len pd"
  "pd_packet_len (sc_deactivate pd) = pd_packet_len pd"
  "pd_packet_buf (sc_deactivate pd) = pd_packet_buf pd"
  "pd_seq_number (sc_deactivate pd) = pd_seq_number pd"
  by (simp_all add: sc_deactivate_def Let_def)

lemma phy_set_nak_frame [simp]:
  "pd_ctx (phy_set_nak c pd) = pd_ctx pd" "pd_rx_rb (phy_set_nak c pd) = pd_rx_rb pd"
  "pd_packet_buf_len (phy_set_nak c pd) = pd_packet_buf_len pd"
  "pd_packet_len (phy_set_nak c pd) = pd_packet_len pd"
  "pd_packet_buf (phy_set_nak c pd) = pd_packet_buf pd"
  "pd_seq_number (phy_set_nak c pd) = pd_seq_number pd"
  "pd_flags (phy_set_nak c pd) = pd_flags pd" "pd_reply_id (phy_set_nak c pd) = REPLY_NAK"
  "pd_sc (phy_set_nak c pd) = pd_sc pd"
  by (simp_all add: phy_set_nak_def)

lemma framer_match_sequence:
  "framer_ok pd \<Longrightarrow> framer_ok (snd (phy_match_sequence pd c))"
  by (simp add: phy_match_sequence_def framer_ok_def)

lemma framer_pd_sequence:
  "framer_ok pd \<Longrightarrow> framer_ok (snd (phy_pd_sequence pd b c))"
  by (simp add: phy_pd_sequence_def phy_reset_seq_number_def phy_rollback_seq_number_def
      osdp_channel_send_def set_channel_def Let_def framer_ok_def)

lemma framer_metrics [simp]: "framer_ok (osdp_metrics_report e pd) = framer_ok pd"
  by (simp add: framer_ok_def)

lemma framer_check_packet:
  assumes "framer_ok pd"
  shows "framer_ok (snd (phy_check_packet crc pd buf n))"
  using assms framer_match_sequence framer_pd_sequence [of "osdp_metrics_report OSDP_METRIC_PACKET_RECEIVED pd"]
  by (auto simp: phy_check_packet_def Let_def case_prod_beta)

lemma framer_step:
  assumes "framer_ok pd"
  shows "framer_ok (snd (osdp_phy_check_packet crc pd))"
proof -
  obtain r0 pd0 where r0: "osdp_channel_receive pd = (r0, pd0)" by (metis surj_pair)
  have ok0: "framer_ok pd0" using framer_receive [OF assms] r0 by simp
  define pd1 where "pd1 = (if is_pd_mode pd0 \<and> pd_packet_buf_len pd0 = 0 \<and> r0 > 0
                           then pd0\<lparr>pd_tstamp := osdp_millis_now pd0\<rparr> else pd0)"
  have ok1: "framer_ok pd1" using ok0 by (simp add: pd1_def framer_ok_def)
  obtain r2 pd2 where h: "(if pd_packet_len pd1 = 0
      then let (ret, pd) = phy_check_header pd1
           in if ret < 0 then (ret, pd) else (0, pd\<lparr>pd_packet_len := nat ret, pd_packet_scan_skip := 0\<rparr>)
      else (0, pd1)) = (r2, pd2)" by (rule prod.exhaust)
  have ok2: "framer_ok pd2"
  proof (cases "pd_packet_len pd1 = 0")
    case True
    obtain r pd' where c: "phy_check_header pd1 = (r, pd')" by (metis surj_pair)
    have "pd2 = (if r < 0 then pd' else pd'\<lparr>pd_packet_len := nat r, pd_packet_scan_skip := 0\<rparr>)"
      using h unfolding c Let_def prod.case if_P [OF True] by (cases "r < 0") simp_all
    then show ?thesis
      using framer_check_header [OF ok1 c] by (cases "r < 0") (simp_all add: framer_ok_def nat_le_iff)
  next
    case False
    then have "(0, pd1) = (r2, pd2)" using h by (simp only: if_False)
    then show ?thesis using ok1 by simp
  qed
  obtain r3 pd3 where c: "phy_collect_packet pd2 = (r3, pd3)" by (metis surj_pair)
  have ok3: "framer_ok pd3" using framer_collect [OF ok2 c] by simp
  show ?thesis
    unfolding osdp_phy_check_packet_def r0 Let_def prod.case pd1_def [symmetric]
      h [unfolded Let_def] c
    using ok2 ok3 framer_check_packet [OF ok3] by simp
qed

text \<open>The packet layer between two packets: receive, or reset after a packet or an error.\<close>

inductive phy_run :: "crc16 \<Rightarrow> 'z osdp_pd_scheme \<Rightarrow> 'z osdp_pd_scheme \<Rightarrow> bool" for crc where
  phy_done: "phy_run crc pd pd"
| phy_receive: "phy_run crc pd pd' \<Longrightarrow>
    phy_run crc pd (snd (osdp_phy_check_packet crc (set_channel (ch\<lparr>ch_recv := chunks\<rparr>) pd')))"
| phy_reset: "phy_run crc pd pd' \<Longrightarrow> phy_run crc pd (osdp_phy_state_reset e pd')"

lemma rb_ok_reset: "rb_ok p \<Longrightarrow> rb_ok (osdp_rb_reset p)"
  by (simp add: rb_ok_def osdp_rb_reset_def OSDP_RX_RB_SIZE_def)

lemma framer_set_channel: "framer_ok pd \<Longrightarrow> framer_ok (set_channel ch pd)"
  by (simp add: framer_ok_def set_channel_def)

text \<open>
  C21. Whatever bytes arrive, in chunks of any size and with resets at any point, the framer
  stays inside its buffers: both packet buffers keep their 256 bytes, what it has collected
  and what it waits for never exceed them, and the ring buffer stays consistent.
\<close>

theorem framer_never_overruns:
  assumes "phy_run crc pd pd'" "framer_ok pd"
  shows "framer_ok pd'"
  using assms
proof (induction rule: phy_run.induct)
  case (phy_receive pd pd' ch chunks)
  then show ?case by (simp add: framer_step framer_set_channel)
next
  case (phy_reset pd pd' e)
  then show ?case
    by (auto simp: osdp_phy_state_reset_def Let_def phy_reset_seq_number_def framer_ok_def
        set_channel_def rb_ok_reset)
qed simp

lemma framer_ok_zero: "framer_ok (pd_zero sh)"
  by (simp add: framer_ok_def pd_zero_def rb_zero_def rb_ok_def OSDP_RX_RB_SIZE_def)

theorem framer_never_overruns_witness:
  "framer_ok (osdp_phy_state_reset True (snd (osdp_phy_check_packet (\<lambda>_ _. 0)
     (set_channel ((pd_channel (pd_zero True))\<lparr>ch_recv := [[0x53, 0x80, 0xFF, 0xFF, 0]]\<rparr>) (pd_zero True)))))"
  by (rule framer_never_overruns [where crc = "\<lambda>_ _. 0", OF phy_reset [OF phy_receive [OF phy_done]]
        framer_ok_zero [of True]])

subsection \<open>Finding a packet\<close>

lemma scan_start_finds:
  "rb_ok rb \<Longrightarrow> rb_items rb = g @ OSDP_PKT_SOM # rest \<Longrightarrow> OSDP_PKT_SOM \<notin> set g \<Longrightarrow> length g < fuel \<Longrightarrow>
   \<exists>rb' skip'. phy_scan_start fuel rb prev skip =
       (Some (if last (prev # g) = OSDP_PKT_MARK then [OSDP_PKT_MARK, OSDP_PKT_SOM] else [OSDP_PKT_SOM]),
        rb', skip') \<and> rb_ok rb' \<and> rb_items rb' = rest"
proof (induction g arbitrary: fuel rb prev skip)
  case Nil
  then obtain fuel' where f: "fuel = Suc fuel'" by (cases fuel) auto
  obtain rb' where "osdp_rb_pop rb = Some (OSDP_PKT_SOM, rb')" "rb_ok rb'" "rb_items rb' = rest"
    using rb.pop_item [OF Nil.prems(1)] Nil.prems(2) by fastforce
  then show ?case by (simp add: f)
next
  case (Cons c g)
  then obtain fuel' where f: "fuel = Suc fuel'" by (cases fuel) auto
  obtain rb' where p: "osdp_rb_pop rb = Some (c, rb')" "rb_ok rb'" "rb_items rb' = g @ OSDP_PKT_SOM # rest"
    using rb.pop_item [OF Cons.prems(1)] Cons.prems(2) by fastforce
  show ?case
    using Cons.IH [OF p(2,3), of fuel' c "if c \<noteq> OSDP_PKT_MARK then skip + 1 else skip"] Cons.prems p(1)
    by (auto simp: f)
qed

text \<open>\<open>k\<close> bytes of the stream \<open>s\<close> are in the packet buffer, the others still queued before \<open>rest\<close>.\<close>

definition collected :: "'z osdp_pd_scheme \<Rightarrow> bytes \<Rightarrow> bytes \<Rightarrow> nat \<Rightarrow> bool" where
  "collected pd s rest k \<longleftrightarrow> framer_ok pd \<and> k \<le> length s \<and> length s \<le> OSDP_PACKET_BUF_SIZE \<and>
     pd_packet_buf_len pd = k \<and> take k (packet_bytes pd) = take k s \<and>
     rb_items (pd_rx_rb pd) = drop k s @ rest"

lemma top_up_collected:
  assumes "collected pd s rest k" "k + n \<le> length s"
  shows "collected (phy_top_up n pd) s rest (k + n)"
proof -
  have c: "framer_ok pd" "pd_packet_buf_len pd = k" "take k (packet_bytes pd) = take k s"
    "rb_items (pd_rx_rb pd) = drop k s @ rest" "length s \<le> OSDP_PACKET_BUF_SIZE"
    using assms(1) by (simp_all add: collected_def)
  have room: "pd_packet_buf_len pd + n \<le> OSDP_PACKET_BUF_SIZE" using c assms(2) by simp
  have got: "take n (rb_items (pd_rx_rb pd)) = bytes_at k n s"
    using assms(2) by (simp add: c(4) bytes_at_def)
  have "take (k + n) (write_at k (bytes_at k n s) (packet_bytes pd)) = take k (packet_bytes pd) @ bytes_at k n s"
    by (rule take_write_at_end) (use assms(2) c room in simp_all)
  also have "\<dots> = take (k + n) s" by (simp add: c(3) bytes_at_def take_add)
  finally have "take (k + n) (packet_bytes (phy_top_up n pd)) = take (k + n) s"
    using top_up_spec [OF c(1) room] by (simp add: got c(2))
  then show ?thesis
    using top_up_spec [OF c(1) room] assms(2) c by (simp add: collected_def add.commute)
qed

lemma collected_nth:
  assumes "collected pd s rest k" "i < k"
  shows "packet_bytes pd ! i = s ! i"
proof -
  have "take k (packet_bytes pd) ! i = take k s ! i" using assms(1) by (simp add: collected_def)
  then show ?thesis using assms(2) by simp
qed

text \<open>A packet as it may be on the wire: an optional mark byte, then a header that fits it.\<close>

definition wire_packet :: "'z osdp_pd_scheme \<Rightarrow> bool \<Rightarrow> bytes \<Rightarrow> bool" where
  "wire_packet pd mark p \<longleftrightarrow> pkt_som p = OSDP_PKT_SOM \<and> pkt_length p = length p \<and> PKT_HDR < length p \<and>
     length p + of_bool mark \<le> OSDP_PACKET_BUF_SIZE \<and>
     (pkt_pd_address p AND 0x80 \<noteq> 0 \<longleftrightarrow> is_cp_mode pd)"

definition marked :: "bool \<Rightarrow> bytes \<Rightarrow> bytes" where
  "marked mark p = (if mark then [OSDP_PKT_MARK] else []) @ p"

lemma length_marked [simp]: "length (marked mark p) = of_bool mark + length p"
  by (simp add: marked_def)

lemma marked_nth: "marked mark p ! (of_bool mark + i) = p ! i"
  by (simp add: marked_def)

lemma collect_collected:
  assumes "collected pd s rest k" "pd_packet_len pd = length s"
    and "phy_collect_packet pd = (ret, pd')"
  shows "ret = OSDP_ERR_PKT_NONE \<and> collected pd' s rest (length s) \<and> pd_flags pd' = pd_flags pd"
proof -
  have k: "k \<le> length s" "pd_packet_buf_len pd = k" using assms(1) by (simp_all add: collected_def)
  have c: "collected (phy_top_up (length s - k) pd) s rest (length s)"
    using top_up_collected [OF assms(1), of "length s - k"] k by simp
  have "pd_packet_len (phy_top_up (length s - k) pd) = length s"
    and fl: "pd_flags (phy_top_up (length s - k) pd) = pd_flags pd"
    using top_up_spec [of pd "length s - k"] assms(1,2) by (simp_all add: collected_def)
  then have "phy_collect_packet pd = (OSDP_ERR_PKT_NONE, phy_top_up (length s - k) pd)"
    using c k assms(2) by (simp add: phy_collect_packet_def collected_def Let_def)
  then show ?thesis using assms(3) c fl by simp
qed

lemma validate_collected:
  assumes "collected pd (marked mark p) rest k" "wire_packet pd mark p" "PKT_HDR + of_bool mark \<le> k"
  shows "phy_validate_header pd (packet_bytes pd) k OSDP_PACKET_BUF_SIZE =
         (int (length (marked mark p)), SET_FLAG_V PD_FLAG_PKT_HAS_MARK mark pd)"
proof -
  note nth = collected_nth [OF assms(1)]
  have k: "5 + of_bool mark \<le> k" using assms(3) by (simp add: PKT_HDR_def)
  have h: "packet_bytes pd ! (of_bool mark + i) = p ! i" if "i < 5" for i
    using nth [of "of_bool mark + i"] that k by (simp add: marked_nth)
  have len: "of_bool mark + 5 \<le> length (packet_bytes pd)"
    using assms(1,2) by (auto simp: collected_def wire_packet_def)
  have dn: "drop (of_bool mark) (packet_bytes pd) ! i = p ! i" if "i < 5" for i
    using h [OF that] len by simp
  have d: "pkt_som (drop (of_bool mark) (packet_bytes pd)) = pkt_som p"
    "pkt_length (drop (of_bool mark) (packet_bytes pd)) = pkt_length p"
    "pkt_pd_address (drop (of_bool mark) (packet_bytes pd)) = pkt_pd_address p"
    by (simp_all add: pkt_som_def pkt_length_def pkt_pd_address_def dn del: nth_drop)
  have p0: "p ! 0 = OSDP_PKT_SOM" using assms(2) by (simp add: wire_packet_def pkt_som_def)
  have b0: "packet_bytes pd ! 0 = (if mark then OSDP_PKT_MARK else OSDP_PKT_SOM)"
    using nth [of 0] k p0 by (simp add: marked_def)
  have b1: "mark \<Longrightarrow> packet_bytes pd ! 1 = OSDP_PKT_SOM"
    using h [of 0] p0 by simp
  have m: "(packet_bytes pd ! 0 = OSDP_PKT_MARK \<and> packet_bytes pd ! 1 = OSDP_PKT_SOM) = mark"
    "mark \<or> packet_bytes pd ! 0 = OSDP_PKT_SOM"
    using b1 by (auto simp: b0)
  show ?thesis
    using assms(2,3) m d
    by (auto simp: phy_validate_header_def Let_def wire_packet_def PKT_HDR_def flag_defs SET_FLAG_V_def)
qed

lemma find_start_collected:
  assumes "framer_ok pd" "pd_packet_buf_len pd = 0" "wire_packet pd mark p"
    and "rb_items (pd_rx_rb pd) = g @ marked mark p @ rest"
    and "OSDP_PKT_SOM \<notin> set g" "g = [] \<or> last g \<noteq> OSDP_PKT_MARK"
  shows "\<exists>pd'. phy_find_start pd = (True, pd') \<and> collected pd' (marked mark p) rest (1 + of_bool mark) \<and>
           pd_flags pd' = pd_flags pd"
proof -
  let ?g = "g @ (if mark then [OSDP_PKT_MARK] else [])"
  have p0: "p = OSDP_PKT_SOM # tl p" "length p + of_bool mark \<le> OSDP_PACKET_BUF_SIZE"
    using assms(3) by (cases p; simp add: wire_packet_def pkt_som_def)+
  then have mp: "marked mark p = (if mark then [OSDP_PKT_MARK] else []) @ OSDP_PKT_SOM # tl p"
    by (metis marked_def)
  have items: "rb_items (pd_rx_rb pd) = ?g @ OSDP_PKT_SOM # (tl p @ rest)"
    unfolding assms(4) mp by simp
  have ok: "rb_ok (pd_rx_rb pd)" using assms(1) by (simp add: framer_ok_def)
  have fuel: "length ?g < OSDP_RX_RB_SIZE"
    using rb.items_cap [OF ok] by (simp add: items OSDP_RX_RB_SIZE_def split: if_splits)
  have som: "OSDP_PKT_SOM \<notin> set ?g" using assms(5) by auto
  obtain rb' skip' where sc:
    "phy_scan_start OSDP_RX_RB_SIZE (pd_rx_rb pd) 0 (pd_packet_scan_skip pd) =
       (Some (if last (0 # ?g) = OSDP_PKT_MARK then [OSDP_PKT_MARK, OSDP_PKT_SOM] else [OSDP_PKT_SOM]),
        rb', skip')" "rb_ok rb'" "rb_items rb' = tl p @ rest"
    using scan_start_finds [OF ok items som fuel] by blast
  have l: "last (0 # ?g) = OSDP_PKT_MARK \<longleftrightarrow> mark" using assms(6) by auto
  let ?bs = "if mark then [OSDP_PKT_MARK, OSDP_PKT_SOM] else [OSDP_PKT_SOM]"
  let ?pd1 = "pd\<lparr>pd_rx_rb := rb', pd_packet_scan_skip := skip'\<rparr>"
  let ?pd' = "(put_packet_bytes (write_at 0 ?bs (packet_bytes ?pd1)) ?pd1)\<lparr>pd_packet_buf_len := length ?bs\<rparr>"
  have e: "phy_find_start pd = (True, ?pd')"
    unfolding phy_find_start_def sc(1) Let_def prod.case l using assms(2) by simp
  have "framer_ok ?pd'" using framer_find_start [OF assms(1) e] .
  moreover have "take (length ?bs) (packet_bytes ?pd') = ?bs"
    using assms(1) by (simp add: write_at_def)
  moreover have "take (length ?bs) (marked mark p) = ?bs" "drop (length ?bs) (marked mark p) = tl p"
    unfolding mp by simp_all
  ultimately have "collected ?pd' (marked mark p) rest (1 + of_bool mark)"
    using sc(2,3) p0(2) assms(3) by (simp add: collected_def wire_packet_def PKT_HDR_def split: if_splits)
  then show ?thesis using e by auto
qed

text \<open>
  C22. The framer finds a packet behind stray bytes: with bytes queued that hold no start of
  message, then a packet with or without its mark byte, checking the header returns the
  packet's length and collecting it leaves exactly the packet in the buffer, the mark
  recorded, and the bytes behind it still queued.
\<close>

theorem framer_finds_packet:
  assumes "framer_ok pd" "pd_packet_buf_len pd = 0" "wire_packet pd mark p"
    and "rb_items (pd_rx_rb pd) = g @ marked mark p @ rest"
    and "OSDP_PKT_SOM \<notin> set g" "g = [] \<or> last g \<noteq> OSDP_PKT_MARK"
    and "phy_check_header pd = (n, pd1)"
    and "phy_collect_packet (pd1\<lparr>pd_packet_len := nat n\<rparr>) = (ret, pd2)"
  shows "n = int (length (marked mark p)) \<and> ret = OSDP_ERR_PKT_NONE \<and>
         take (nat n) (packet_bytes pd2) = marked mark p \<and> pd_packet_buf_len pd2 = nat n \<and>
         packet_has_mark pd2 = mark \<and> rb_items (pd_rx_rb pd2) = rest"
proof -
  let ?s = "marked mark p" and ?k = "5 + of_bool mark"
  obtain pd0 where st: "phy_find_start pd = (True, pd0)" "collected pd0 ?s rest (1 + of_bool mark)"
    "pd_flags pd0 = pd_flags pd"
    using find_start_collected [OF assms(1-6)] by blast
  have b0: "(packet_bytes pd0 ! 0 = OSDP_PKT_MARK) = mark"
    using collected_nth [OF st(2), of 0] assms(3)
    by (cases mark) (simp_all add: wire_packet_def pkt_som_def marked_def)
  have len: "?k \<le> length ?s" "length ?s \<le> OSDP_PACKET_BUF_SIZE"
    using assms(3) by (auto simp: wire_packet_def PKT_HDR_def)
  let ?t = "phy_top_up 4 pd0"
  have tc: "collected ?t ?s rest ?k"
    using top_up_collected [OF st(2), of 4] len by simp
  have fl: "pd_flags ?t = pd_flags pd"
    using top_up_spec [of pd0 4] st(2,3) len by (simp add: collected_def)
  have w: "wire_packet ?t mark p"
    using assms(3) fl by (simp add: wire_packet_def is_cp_mode_def ISSET_FLAG_def)
  have "phy_check_header pd = (int (length ?s), SET_FLAG_V PD_FLAG_PKT_HAS_MARK mark ?t)"
    using st b0 validate_collected [OF tc w] tc
    by (auto simp: phy_check_header_def PKT_HDR_def collected_def)
  then have h: "n = int (length ?s)" "pd1 = SET_FLAG_V PD_FLAG_PKT_HAS_MARK mark ?t"
    using assms(7) by simp_all
  let ?p1 = "pd1\<lparr>pd_packet_len := nat n\<rparr>"
  have c1: "collected ?p1 ?s rest ?k"
    using tc len(2) by (auto simp: collected_def h framer_ok_def SET_FLAG_V_def)
  have nn: "nat n = length ?s" unfolding h(1) by (rule nat_int)
  have "pd_packet_len ?p1 = length ?s" by (simp add: nn del: length_marked)
  from collect_collected [OF c1 this assms(8)]
  have r: "ret = OSDP_ERR_PKT_NONE" "collected pd2 ?s rest (length ?s)" "pd_flags pd2 = pd_flags pd1"
    by simp_all
  have "packet_has_mark pd2 = mark"
    using ISSET_FLAG_cong [OF r(3)] by (simp add: packet_has_mark_def h(2) SET_FLAG_V_def)
  moreover have "take (length ?s) (packet_bytes pd2) = ?s" "pd_packet_buf_len pd2 = length ?s"
    "rb_items (pd_rx_rb pd2) = rest"
    using r(2) by (simp_all add: collected_def)
  ultimately show ?thesis using r(1) h(1) unfolding nn by blast
qed

theorem framer_finds_packet_witness:
  "let pd = (pd_zero True)\<lparr>pd_rx_rb := \<lparr>head = 8, tail = 0,
         buffer = [7, 0x53, 0x80, 6, 0, 4, 0x40, 9] @ replicate 504 0\<rparr>\<rparr>;
       (n, pd1) = phy_check_header pd
   in n = 6 \<and> take 6 (packet_bytes (snd (phy_collect_packet (pd1\<lparr>pd_packet_len := nat n\<rparr>)))) =
        [0x53, 0x80, 6, 0, 4, 0x40]"
proof -
  let ?rb = "\<lparr>head = 8, tail = 0, buffer = [7, 0x53, 0x80, 6, 0, 4, 0x40, 9] @ replicate 504 0\<rparr>"
  let ?pd = "(pd_zero True)\<lparr>pd_rx_rb := ?rb\<rparr>"
  let ?p = "[0x53, 0x80, 6, 0, 4, 0x40] :: bytes"
  have ok: "framer_ok ?pd"
    using framer_ok_zero [of True] by (simp add: framer_ok_def rb_ok_def OSDP_RX_RB_SIZE_def)
  have w: "wire_packet ?pd False ?p"
    by (simp add: wire_packet_def pkt_som_def pkt_length_def pkt_pd_address_def PKT_HDR_def
        is_cp_mode_def ISSET_FLAG_def pd_zero_def)
  have items: "rb_items (pd_rx_rb ?pd) = [7] @ marked False ?p @ [9]"
    by (simp add: rb_items_def rb_count_def rb_index_def marked_def OSDP_RX_RB_SIZE_def upt_rec)
  obtain n pd1 where h: "phy_check_header ?pd = (n, pd1)" by (rule prod.exhaust)
  obtain ret pd2 where c: "phy_collect_packet (pd1\<lparr>pd_packet_len := nat n\<rparr>) = (ret, pd2)"
    by (rule prod.exhaust)
  have "pd_packet_buf_len ?pd = 0" by (simp add: pd_zero_def)
  from framer_finds_packet [OF ok this w items _ _ h c] have "n = 6 \<and> take (nat n) (packet_bytes pd2) = ?p"
    by (clarsimp simp: marked_def)
  then show ?thesis unfolding Let_def h c prod.case snd_conv by clarsimp
qed

end
