(* ===== verification/Phy_Packet.thy ===== *)
theory Phy_Packet
  imports Phy_Framer
begin

text \<open>
  What the packet layer guarantees of a packet: the check bytes of a finalized packet are
  accepted, a packet finalized in a session decodes to its payload at the other side and
  leaves both sides with the same authentication codes, what decoding lets through while a
  session is active, and which packets it does not survive.
\<close>

subsection \<open>Check bytes\<close>

lemma checksum_value: "word_of_int (NOT (0xFF AND x) + 1) = - (word_of_int x :: u8)"
proof -
  have "NOT (0xFF AND x) + 1 = - (x mod 256)"
    using take_bit_eq_mask [of 8 x] by (simp add: not_int_def take_bit_eq_mod and.commute mask_eq_exp_minus_1)
  moreover have "(word_of_int (x mod 256) :: u8) = word_of_int x"
    by (simp add: word_of_int_eq_iff take_bit_eq_mod)
  ultimately show ?thesis by (simp add: wi_hom_neg [symmetric])
qed

lemma checksum_loop_sum:
  "c = - word_of_int w \<Longrightarrow> checksum_loop bs w c = - (word_of_int w + sum_list bs)"
proof (induction bs arbitrary: w c)
  case (Cons b bs)
  have "checksum_loop bs (w + uint b) (- word_of_int (w + uint b)) =
        - (word_of_int (w + uint b) + sum_list bs)"
    by (rule Cons.IH [OF refl])
  then show ?case
    unfolding checksum_loop.simps Let_def checksum_value by (simp add: wi_hom_add [symmetric] ac_simps)
qed simp

lemma checksum_sum: "osdp_compute_checksum msg len = - sum_list (take len msg)"
  by (simp add: osdp_compute_checksum_def checksum_loop_sum)

text \<open>
  C32. The checksum completes a message to zero: the bytes of the message and its checksum
  add up to 0 modulo 256.
\<close>

theorem checksum_completes_to_zero:
  "sum_list (take len msg @ [osdp_compute_checksum msg len]) = 0"
  by (simp add: checksum_sum)

lemma crc_bytes:
  fixes c :: u16
  shows "push_bit 8 (ucast (BYTE_1 (ucast c))) OR ucast (BYTE_0 (ucast c)) = c"
  by (rule bit_word_eqI) (auto simp: bit_simps bit_BYTE)

lemma has_ctl_take: "5 \<le> n \<Longrightarrow> take n b' = take n b \<Longrightarrow> has_ctl f b' = has_ctl f b"
proof -
  assume n: "5 \<le> n" and "take n b' = take n b"
  from this(2) have "take n b' ! 4 = take n b ! 4" by (rule arg_cong)
  then show ?thesis using n by (simp add: has_ctl_def pkt_control_def)
qed

text \<open>A finished packet, and any buffer that starts with it, passes the integrity check.\<close>

lemma finalize_check_integrity:
  assumes "phy_finalize_check crc b n max_len = (True, n', b')"
    and "5 \<le> n" "max_len \<le> int (length b)" "take n' b'' = take n' b'"
  shows "phy_check_integrity crc b'' n' = (n, True) \<and> take n b' = take n b \<and> n < n' \<and>
         n' = n + (if has_ctl PKT_CONTROL_CRC b then 2 else 1) \<and> int n' \<le> max_len \<and>
         length b' = length b"
proof -
  have t: "take k b'' = take k b'" if "k \<le> n'" for k
    using arg_cong [OF assms(4), of "take k"] that by (simp add: min_def)
  have nt: "b'' ! k = b' ! k" if "k < n'" for k
    using arg_cong [OF assms(4), of "\<lambda>l. l ! k"] that by simp
  show ?thesis
  proof (cases "has_ctl PKT_CONTROL_CRC b")
    case True
    let ?c = "osdp_compute_crc16 crc b n"
    have b': "b' = write_at n [BYTE_0 (ucast ?c), BYTE_1 (ucast ?c)] b" "n' = n + 2" "int n + 2 \<le> max_len"
      using assms(1) True by (auto simp: phy_finalize_check_def bwrite_u16_le_def Let_def split: if_splits)
    have len: "n + 2 \<le> length b" using b'(3) assms(3) by linarith
    have tk: "take n b' = take n b" using len by (simp add: b')
    have "has_ctl PKT_CONTROL_CRC b''"
      using True has_ctl_take [OF assms(2), of b'' b] t [of n] tk b'(2) by simp
    moreover have "b'' ! n = BYTE_0 (ucast ?c)" "b'' ! Suc n = BYTE_1 (ucast ?c)"
      using nt [of n] nt [of "Suc n"] len by (simp_all add: b' nth_write_at)
    moreover have "osdp_compute_crc16 crc b'' n = ?c"
      using t [of n] tk b'(2) by (simp add: osdp_compute_crc16_def)
    ultimately show ?thesis
      using tk b' len True by (simp add: phy_check_integrity_def Let_def crc_bytes)
  next
    case False
    let ?c = "osdp_compute_checksum b n"
    have b': "b' = write_at n [?c] b" "n' = n + 1" "int n + 1 \<le> max_len"
      using assms(1) False by (auto simp: phy_finalize_check_def split: if_splits)
    have len: "n + 1 \<le> length b" using b'(3) assms(3) by linarith
    have tk: "take n b' = take n b" using len by (simp add: b')
    have "\<not> has_ctl PKT_CONTROL_CRC b''"
      using False has_ctl_take [OF assms(2), of b'' b] t [of n] tk b'(2) by simp
    moreover have "b'' ! n = ?c"
      using nt [of n] len by (simp add: b' nth_write_at)
    moreover have "osdp_compute_checksum b'' n = ?c"
      using t [of n] tk b'(2) by (simp add: osdp_compute_checksum_def)
    ultimately show ?thesis
      using tk b' len False by (simp add: phy_check_integrity_def Let_def)
  qed
qed

subsection \<open>Decoding in a session\<close>

text \<open>The packet without its mark, the length before its MAC, and the MAC it should carry.\<close>

definition rx_packet :: "'z osdp_pd_scheme \<Rightarrow> bytes" where
  "rx_packet pd = drop (mark_len pd) (packet_bytes pd)"

definition rx_check_len :: "bytes \<Rightarrow> int" where
  "rx_check_len b = (if has_ctl PKT_CONTROL_CRC b then 2 else 1)"

definition rx_mac_offset :: "'z osdp_pd_scheme \<Rightarrow> nat" where
  "rx_mac_offset pd = nat (int (pd_packet_buf_len pd) - int (mark_len pd) - rx_check_len (rx_packet pd) - 4)"

definition rx_mac :: "'z osdp_pd_scheme \<Rightarrow> bytes" where
  "rx_mac pd =
     (let pd' = osdp_compute_mac (is_pd_mode pd) (rx_packet pd) (rx_mac_offset pd) pd
      in if is_pd_mode pd then c_mac (pd_sc pd') else r_mac (pd_sc pd'))"

definition rx_session_block :: "'z osdp_pd_scheme \<Rightarrow> bool" where
  "rx_session_block pd \<longleftrightarrow> has_ctl PKT_CONTROL_SCB (rx_packet pd) \<and>
     SCS_15 \<le> pkt_data (rx_packet pd) 1 \<and> pkt_data (rx_packet pd) 1 \<le> SCS_18"

definition rx_handshake_block :: "'z osdp_pd_scheme \<Rightarrow> bool" where
  "rx_handshake_block pd \<longleftrightarrow> has_ctl PKT_CONTROL_SCB (rx_packet pd) \<and>
     SCS_11 \<le> pkt_data (rx_packet pd) 1 \<and> pkt_data (rx_packet pd) 1 \<le> SCS_14"

lemma scs_order:
  fixes s :: u8
  shows "SCS_15 \<le> s \<Longrightarrow> \<not> s < SCS_11" "s \<le> SCS_18 \<Longrightarrow> \<not> s > SCS_18"
    "SCS_11 \<le> s \<Longrightarrow> \<not> s < SCS_11" "s \<le> SCS_14 \<Longrightarrow> \<not> s > SCS_18"
    "s \<le> SCS_14 \<Longrightarrow> \<not> s > SCS_14" "s \<le> SCS_14 \<Longrightarrow> \<not> SCS_15 \<le> s"
    "SCS_15 \<le> s \<Longrightarrow> s \<noteq> SCS_11 \<and> s \<noteq> SCS_13" "\<not> s \<le> SCS_14 \<Longrightarrow> SCS_15 \<le> s"
  by (auto simp: word_le_nat_alt word_less_nat_alt)

lemma decode_scb_session:
  assumes "sc_is_active pd" "is_pd_mode pd \<longrightarrow> sc_is_capable pd" "rx_session_block pd"
  shows "phy_decode_scb pd (rx_packet pd) len =
    (Some (PKT_HDR + unat (pkt_data (rx_packet pd) 0), len - uint (pkt_data (rx_packet pd) 0), True), pd)"
  using assms by (auto simp: phy_decode_scb_def rx_session_block_def scs_order)

lemma decode_scb_handshake:
  assumes "is_pd_mode pd \<longrightarrow> sc_is_capable pd" "rx_handshake_block pd"
  shows "phy_decode_scb pd (rx_packet pd) len =
    (Some (PKT_HDR + unat (pkt_data (rx_packet pd) 0), len - uint (pkt_data (rx_packet pd) 0),
           sc_is_active pd),
     if pkt_data (rx_packet pd) 1 \<in> {SCS_11, SCS_13} \<and> is_install_mode pd \<and> pkt_data (rx_packet pd) 2 = 0
     then SET_FLAG PD_FLAG_SC_USE_SCBKD pd else pd)"
  using assms by (auto simp: phy_decode_scb_def rx_handshake_block_def scs_order Let_def)

lemma decode_scb_cases:
  assumes "phy_decode_scb pd (rx_packet pd) len = (r, pd1)" "sc_is_active pd" "r \<noteq> None"
  shows "(is_pd_mode pd \<longrightarrow> sc_is_capable pd) \<and> (rx_session_block pd \<or> rx_handshake_block pd) \<or>
         \<not> has_ctl PKT_CONTROL_SCB (rx_packet pd) \<and> is_cp_mode pd \<and> pd_cmd_id pd = CMD_KEYSET \<and>
           uint (pkt_data (rx_packet pd) 0) = REPLY_ACK \<and> \<not> is_enforce_secure pd"
proof (cases "has_ctl PKT_CONTROL_SCB (rx_packet pd)")
  case True
  then have "(is_pd_mode pd \<longrightarrow> sc_is_capable pd) \<and> \<not> pkt_data (rx_packet pd) 1 < SCS_11 \<and>
             \<not> pkt_data (rx_packet pd) 1 > SCS_18"
    using assms by (auto simp: phy_decode_scb_def Let_def split: if_splits)
  then show ?thesis
    using True scs_order(8) by (auto simp: rx_session_block_def rx_handshake_block_def not_less)
next
  case False
  then show ?thesis using assms by (auto simp: phy_decode_scb_def Let_def split: if_splits)
qed

lemma decode_session:
  assumes "sc_is_active pd" "is_pd_mode pd \<longrightarrow> sc_is_capable pd" "rx_session_block pd"
  shows "osdp_phy_decode_packet pd =
     (let b = rx_packet pd; d0 = pkt_data b 0;
          len = int (pd_packet_buf_len pd) - int (mark_len pd) - rx_check_len b - int PKT_HDR - uint d0;
          r = phy_decode_secure pd b (PKT_HDR + unat d0) len (rx_mac_offset pd)
      in case r of None \<Rightarrow> None
         | Some (ret, b', pd1) \<Rightarrow>
             Some (ret, mark_len pd + (PKT_HDR + unat d0), put_packet_bytes (take (mark_len pd) (packet_bytes pd) @ b') pd1))"
proof -
  have "has_ctl PKT_CONTROL_SCB (rx_packet pd)" "pkt_data (rx_packet pd) 1 \<ge> SCS_15"
    using assms(3) by (simp_all add: rx_session_block_def)
  then show ?thesis
    unfolding osdp_phy_decode_packet_def rx_packet_def [symmetric] rx_check_len_def [symmetric]
      Let_def decode_scb_session [OF assms]
    by (simp add: rx_mac_offset_def)
qed

lemma compute_mac_frame [simp]:
  "pd_flags (osdp_compute_mac c d n pd) = pd_flags pd"
  "pd_pending (osdp_compute_mac c d n pd) = pd_pending pd"
  "pd_ctx (osdp_compute_mac c d n pd) = pd_ctx pd"
  "pd_packet_buf (osdp_compute_mac c d n pd) = pd_packet_buf pd"
  "pd_packet_buf_len (osdp_compute_mac c d n pd) = pd_packet_buf_len pd"
  by (simp_all add: osdp_compute_mac_def Let_def case_prod_beta)

lemma sc_deactivate_inactive [simp]: "\<not> sc_is_active (sc_deactivate pd)"
  by (simp add: sc_is_active_def sc_deactivate_def Let_def)

lemma sc_deactivate_pending [simp]: "pd_pending (sc_deactivate pd) = pd_pending pd"
  by (simp add: sc_deactivate_def Let_def)

lemma phy_set_nak_flags [simp]: "sc_is_active (phy_set_nak c pd) = sc_is_active pd"
  by (simp add: sc_is_active_def ISSET_FLAG_def)

lemma nak_code_phy_set_nak [simp]: "pd_pending pd \<noteq> [] \<Longrightarrow> nak_code (phy_set_nak c pd) = c"
  by (simp add: phy_set_nak_def)

lemma is_active_compute_mac [simp]: "sc_is_active (osdp_compute_mac c d n pd) = sc_is_active pd"
  by (simp add: sc_is_active_def ISSET_FLAG_def)

lemma decode_secure_mac:
  assumes "phy_decode_secure pd (rx_packet pd) data len (rx_mac_offset pd) = Some (ret, b', pd')"
  shows "bytes_at (rx_mac_offset pd) 4 (rx_packet pd) = take 4 (rx_mac pd) \<and> sc_is_active pd' = sc_is_active pd \<or>
         ret = OSDP_ERR_PKT_NACK \<and> \<not> sc_is_active pd' \<and> pd_reply_id pd' = REPLY_NAK \<and>
         (pd_pending pd \<noteq> [] \<longrightarrow> nak_code pd' = OSDP_PD_NAK_SC_COND)"
  using assms unfolding rx_mac_def phy_decode_secure_def Let_def
  by (auto split: if_splits option.splits)

lemma decode_secure_bad_mac:
  assumes "bytes_at (rx_mac_offset pd) 4 (rx_packet pd) \<noteq> take 4 (rx_mac pd)"
  shows "\<exists>ret b' pd'. phy_decode_secure pd (rx_packet pd) data len (rx_mac_offset pd) = Some (ret, b', pd')"
  using assms unfolding rx_mac_def phy_decode_secure_def Let_def by simp

text \<open>
  The packets that decoding does not survive: a session packet of kind SCS_17 or SCS_18 with the
  right authentication code, whose security block claims so many bytes that a negative multiple
  of 16 is left to decrypt.
\<close>

definition rx_data_len :: "'z osdp_pd_scheme \<Rightarrow> int" where
  "rx_data_len pd = int (pd_packet_buf_len pd) - int (mark_len pd) - rx_check_len (rx_packet pd) - int PKT_HDR
     - uint (pkt_data (rx_packet pd) 0) - 5"

definition rx_runs_away :: "'z osdp_pd_scheme \<Rightarrow> bool" where
  "rx_runs_away pd \<longleftrightarrow> sc_is_active pd \<and> (is_pd_mode pd \<longrightarrow> sc_is_capable pd) \<and> rx_session_block pd \<and>
     pkt_data (rx_packet pd) 1 \<in> {SCS_17, SCS_18} \<and>
     bytes_at (rx_mac_offset pd) 4 (rx_packet pd) = take 4 (rx_mac pd) \<and>
     rx_data_len pd < 0 \<and> rx_data_len pd mod 16 = 0"

lemma decrypt_data_None:
  "osdp_decrypt_data pd c b off len = None \<longleftrightarrow> len < 0 \<and> len mod 16 = 0"
  by (simp add: osdp_decrypt_data_def Let_def)

lemma decode_secure_None:
  "phy_decode_secure pd (rx_packet pd) data len (rx_mac_offset pd) = None \<longleftrightarrow>
     bytes_at (rx_mac_offset pd) 4 (rx_packet pd) = take 4 (rx_mac pd) \<and>
     pkt_data (rx_packet pd) 1 \<in> {SCS_17, SCS_18} \<and> len - 5 < 0 \<and> (len - 5) mod 16 = 0"
proof -
  have n: "(case x of None \<Rightarrow> None | Some (k, z) \<Rightarrow> Some (f k z)) = None \<longleftrightarrow> x = None" for x :: "(int \<times> bytes) option" and f :: "int \<Rightarrow> bytes \<Rightarrow> int \<times> bytes \<times> 'a osdp_pd_scheme"
    by (cases x) (auto intro: prod_cases3)
  have "len - 4 - 1 = len - 5" by simp
  then show ?thesis
    unfolding rx_mac_def phy_decode_secure_def Let_def
    by (cases "is_pd_mode pd") (auto simp: n decrypt_data_None)
qed

lemma decode_scb_active:
  assumes "phy_decode_scb pd b len = (Some (data, l, act), p)" "act" "has_ctl PKT_CONTROL_SCB b" "pkt_data b 1 \<ge> SCS_15"
  shows "sc_is_active pd \<and> (is_pd_mode pd \<longrightarrow> sc_is_capable pd) \<and> pkt_data b 1 \<le> SCS_18"
  using assms by (auto simp: phy_decode_scb_def Let_def not_less split: if_splits)

lemma decode_packet_None: "osdp_phy_decode_packet pd = None \<longleftrightarrow> rx_runs_away pd"
proof (cases "sc_is_active pd \<and> (is_pd_mode pd \<longrightarrow> sc_is_capable pd) \<and> rx_session_block pd")
  case True
  then have "osdp_phy_decode_packet pd = None \<longleftrightarrow>
      phy_decode_secure pd (rx_packet pd) (PKT_HDR + unat (pkt_data (rx_packet pd) 0)) (rx_data_len pd + 5) (rx_mac_offset pd) = None"
    by (simp add: decode_session rx_data_len_def Let_def split: option.split)
  then show ?thesis using True by (auto simp: decode_secure_None rx_runs_away_def)
next
  case False
  let ?b = "rx_packet pd"
  let ?l = "int (pd_packet_buf_len pd) - int (mark_len pd) - rx_check_len ?b - int PKT_HDR"
  obtain r p where r: "phy_decode_scb pd ?b ?l = (r, p)" by (rule prod.exhaust)
  have "osdp_phy_decode_packet pd \<noteq> None"
  proof (cases r)
    case None
    then show ?thesis
      using r unfolding osdp_phy_decode_packet_def rx_packet_def [symmetric] rx_check_len_def [symmetric] Let_def by simp
  next
    case (Some q)
    obtain data l act where q: "q = (data, l, act)" by (metis prod_cases3)
    have n: "\<not> (act \<and> has_ctl PKT_CONTROL_SCB ?b \<and> pkt_data ?b 1 \<ge> SCS_15)"
      using False decode_scb_active [OF r [unfolded Some q]] by (auto simp: rx_session_block_def)
    show ?thesis
      unfolding osdp_phy_decode_packet_def rx_packet_def [symmetric] rx_check_len_def [symmetric] Let_def
        r Some q prod.case option.case if_not_P [OF n] by simp
  qed
  then show ?thesis using False by (auto simp: rx_runs_away_def)
qed

text \<open>The next packet of the channel, checked, is such a packet.\<close>

definition osdp_rx_runs_away :: "crc16 \<Rightarrow> 'z osdp_pd_scheme \<Rightarrow> bool" where
  "osdp_rx_runs_away crc pd =
     (let (err, pd) = osdp_phy_check_packet crc pd in err = OSDP_ERR_PKT_NONE \<and> rx_runs_away pd)"

lemma decode_handshake:
  assumes "sc_is_active pd" "is_pd_mode pd \<longrightarrow> sc_is_capable pd" "rx_handshake_block pd"
  shows "\<exists>pd'. osdp_phy_decode_packet pd =
           Some (int (pd_packet_buf_len pd) - int (mark_len pd) - rx_check_len (rx_packet pd) - 5 - uint (pkt_data (rx_packet pd) 0),
                 mark_len pd + 5 + unat (pkt_data (rx_packet pd) 0), pd') \<and>
         sc_is_active pd' \<and> pd_sc pd' = pd_sc pd \<and> packet_bytes pd' = packet_bytes pd"
proof -
  have "\<not> SCS_15 \<le> pkt_data (rx_packet pd) 1"
    using assms(3) scs_order(6) by (simp add: rx_handshake_block_def)
  then show ?thesis
    using assms(1) decode_scb_handshake [OF assms(2,3)]
    unfolding osdp_phy_decode_packet_def rx_packet_def [symmetric] rx_check_len_def [symmetric] Let_def
    by (auto simp: PKT_HDR_def sc_is_active_def)
qed

text \<open>
  C24. While a session is active, a packet gets past decoding only with a session block whose
  authentication code is the one the receiver computes, or with a handshake block (SCS_11 to
  SCS_14), which carries none, or as the plain acknowledgement of a KEYSET that a CP without
  ENFORCE_SECURE tolerates.
\<close>

theorem decode_in_session:
  assumes "sc_is_active pd" "osdp_phy_decode_packet pd = Some (ret, off, pd')" "ret \<noteq> OSDP_ERR_PKT_NACK"
  shows "rx_session_block pd \<and> bytes_at (rx_mac_offset pd) 4 (rx_packet pd) = take 4 (rx_mac pd) \<or>
         rx_handshake_block pd \<or>
         \<not> has_ctl PKT_CONTROL_SCB (rx_packet pd) \<and> is_cp_mode pd \<and> pd_cmd_id pd = CMD_KEYSET \<and>
           uint (pkt_data (rx_packet pd) 0) = REPLY_ACK \<and> \<not> is_enforce_secure pd"
proof -
  let ?l = "int (pd_packet_buf_len pd) - int (mark_len pd) - rx_check_len (rx_packet pd) - int PKT_HDR"
  obtain r pd1 where r: "phy_decode_scb pd (rx_packet pd) ?l = (r, pd1)" by (rule prod.exhaust)
  have "r \<noteq> None"
    using assms(2,3) r unfolding osdp_phy_decode_packet_def rx_packet_def [symmetric]
      rx_check_len_def [symmetric] Let_def by (cases r) simp_all
  from decode_scb_cases [OF r assms(1) this] show ?thesis
  proof (elim disjE conjE)
    assume cap: "is_pd_mode pd \<longrightarrow> sc_is_capable pd" and s: "rx_session_block pd"
    show ?thesis
      using assms(2,3) decode_session [OF assms(1) cap s] decode_secure_mac [of pd]
      by (fastforce simp: Let_def s split: prod.splits option.splits)
  qed simp_all
qed

definition pd_sc_example :: "bytes \<Rightarrow> osdp_pd" where
  "pd_sc_example pkt =
     (let pd = SET_FLAG PD_FLAG_PD_MODE (SET_FLAG PD_FLAG_SC_CAPABLE (SET_FLAG PD_FLAG_SC_ACTIVE
                 (SET_FLAG PD_FLAG_ENFORCE_SECURE (pd_zero False))))
      in (put_packet_bytes (pkt @ replicate 200 0) pd)\<lparr>pd_packet_len := length pkt, pd_packet_buf_len := length pkt\<rparr>)"

lemma pd_sc_example_simps [simp]:
  "sc_is_active (pd_sc_example pkt)" "sc_is_capable (pd_sc_example pkt)" "is_pd_mode (pd_sc_example pkt)"
  "\<not> is_cp_mode (pd_sc_example pkt)" "is_enforce_secure (pd_sc_example pkt)"
  "rx_packet (pd_sc_example pkt) = pkt @ replicate 200 0" "\<not> packet_has_mark (pd_sc_example pkt)"
  "\<not> is_install_mode (pd_sc_example pkt)" "pd_packet_buf_len (pd_sc_example pkt) = length pkt"
  "pd_sc (pd_sc_example pkt) = sc_zero" "length (pd_pending (pd_sc_example pkt)) = 16"
proof -
  have [simp]: "ISSET_FLAG (pd_zero False) f = False" if "f < 32" for f
    using that by (simp add: ISSET_FLAG_bit pd_zero_def)
  have [simp]: "ISSET_FLAG (put_packet_bytes b pd) f = ISSET_FLAG pd f" for b f and pd :: osdp_pd
    by (simp add: ISSET_FLAG_def)
  have [simp]: "pd_packet_buf (pd_zero False) = RX_BUF" "ctx_rx_shared (pd_ctx (pd_zero False)) = False"
    "pd_sc (pd_zero False) = sc_zero" "length (pd_pending (pd_zero False)) = 16"
    by (simp_all add: pd_zero_def)
  show "sc_is_active (pd_sc_example pkt)" "sc_is_capable (pd_sc_example pkt)" "is_pd_mode (pd_sc_example pkt)"
    "\<not> is_cp_mode (pd_sc_example pkt)" "is_enforce_secure (pd_sc_example pkt)"
    "\<not> packet_has_mark (pd_sc_example pkt)" "\<not> is_install_mode (pd_sc_example pkt)"
    by (simp_all add: pd_sc_example_def Let_def flag_defs)
  then show "rx_packet (pd_sc_example pkt) = pkt @ replicate 200 0"
    by (simp add: rx_packet_def) (simp add: pd_sc_example_def Let_def)
  show "pd_packet_buf_len (pd_sc_example pkt) = length pkt"
    "pd_sc (pd_sc_example pkt) = sc_zero" "length (pd_pending (pd_sc_example pkt)) = 16"
    by (simp_all add: pd_sc_example_def Let_def put_packet_bytes_def)
qed

theorem decode_in_session_witness:
  "\<exists>ret off pd'. osdp_phy_decode_packet (pd_sc_example [0x53, 0, 13, 0, 9, 2, 0x11, 0x68, 1, 2, 3, 4, 0]) =
     Some (ret, off, pd') \<and> ret \<noteq> OSDP_ERR_PKT_NACK \<and>
     rx_handshake_block (pd_sc_example [0x53, 0, 13, 0, 9, 2, 0x11, 0x68, 1, 2, 3, 4, 0])"
proof -
  let ?pd = "pd_sc_example [0x53, 0, 13, 0, 9, 2, 0x11, 0x68, 1, 2, 3, 4, 0]"
  have h: "rx_handshake_block ?pd"
    by (simp add: rx_handshake_block_def has_ctl_def pkt_control_def pkt_data_def)
  obtain off pd' where d: "osdp_phy_decode_packet ?pd = Some (5, off, pd')"
    using decode_handshake [OF _ _ h] by (auto simp: rx_check_len_def has_ctl_def pkt_control_def pkt_data_def)
  have n: "5 \<noteq> OSDP_ERR_PKT_NACK" by simp
  have "\<not> rx_session_block ?pd" "has_ctl PKT_CONTROL_SCB (rx_packet ?pd)"
    by (simp_all add: rx_session_block_def has_ctl_def pkt_control_def pkt_data_def)
  then show ?thesis
    using decode_in_session [OF pd_sc_example_simps(1) d n] d n by blast
qed

text \<open>
  C25. A session packet whose authentication code is wrong ends the session: the receiver
  drops it, marks the channel inactive and answers with the NAK for security conditions.
\<close>

theorem bad_mac_ends_session:
  assumes "sc_is_active pd" "is_pd_mode pd \<longrightarrow> sc_is_capable pd" "rx_session_block pd"
    and "bytes_at (rx_mac_offset pd) 4 (rx_packet pd) \<noteq> take 4 (rx_mac pd)"
    and "pd_pending pd \<noteq> []"
  shows "\<exists>off pd'. osdp_phy_decode_packet pd = Some (OSDP_ERR_PKT_NACK, off, pd') \<and> \<not> sc_is_active pd' \<and>
         pd_reply_id pd' = REPLY_NAK \<and> nak_code pd' = OSDP_PD_NAK_SC_COND"
proof -
  have put: "sc_is_active (put_packet_bytes b q) = sc_is_active q" "nak_code (put_packet_bytes b q) = nak_code q"
    "pd_reply_id (put_packet_bytes b q) = pd_reply_id q" for b and q :: "'a osdp_pd_scheme"
    by (simp_all add: put_packet_bytes_def sc_is_active_def ISSET_FLAG_def nak_code_def)
  define b where "b = rx_packet pd"
  define len where "len = int (pd_packet_buf_len pd) - int (mark_len pd) - rx_check_len b - int PKT_HDR - uint (pkt_data b 0)"
  obtain ret b' pd' where d: "phy_decode_secure pd b (PKT_HDR + unat (pkt_data b 0)) len (rx_mac_offset pd) = Some (ret, b', pd')"
    using decode_secure_bad_mac [OF assms(4)] unfolding b_def by blast
  have "osdp_phy_decode_packet pd = Some (ret, mark_len pd + (PKT_HDR + unat (pkt_data b 0)),
      put_packet_bytes (take (mark_len pd) (packet_bytes pd) @ b') pd')"
    unfolding decode_session [OF assms(1-3)] Let_def b_def [symmetric] len_def [symmetric] d by simp
  then show ?thesis using decode_secure_mac [OF d [unfolded b_def]] assms(4,5) by (simp add: put)
qed

theorem bad_mac_ends_session_witness:
  "\<exists>mac off pd'. osdp_phy_decode_packet (pd_sc_example [0x53, 0, 13, 0, 9, 2, 0x15, 0x60, mac, mac, mac, mac, 0]) =
     Some (OSDP_ERR_PKT_NACK, off, pd') \<and> \<not> sc_is_active pd'"
proof -
  define pkt :: "u8 \<Rightarrow> bytes" where "pkt = (\<lambda>mac. [0x53, 0, 13, 0, 9, 2, 0x15, 0x60, mac, mac, mac, mac, 0])"
  have o: "rx_mac_offset (pd_sc_example (pkt m)) = 8" for m
    by (simp add: pkt_def rx_mac_offset_def rx_check_len_def has_ctl_def pkt_control_def)
  have r: "rx_mac (pd_sc_example (pkt m)) = mac_reference (replicate 16 0) (replicate 16 0) (replicate 16 0)
      [0x53, 0, 13, 0, 9, 2, 0x15, 0x60]" for m
  proof -
    have l: "8 \<le> length (pkt m @ replicate 200 0)" by simp
    have t: "take 8 (pkt m @ replicate 200 0) = [0x53, 0, 13, 0, 9, 2, 0x15, 0x60]" by (simp add: pkt_def)
    show ?thesis
      unfolding rx_mac_def o pd_sc_example_simps(6) compute_mac_eq [OF l, of "pd_sc_example (pkt m)",
        unfolded pd_sc_example_simps, simplified sc_zero_def osdp_secure_channel.simps length_replicate, OF refl TrueI] t
      by (simp add: Let_def)
  qed
  obtain m :: u8 where "[m, m, m, m] \<noteq> take 4 (mac_reference (replicate 16 0) (replicate 16 0) (replicate 16 0)
      [0x53, 0, 13, 0, 9, 2, 0x15, 0x60])" (is "_ \<noteq> ?x")
  proof (cases "[0, 0, 0, 0] = ?x")
    case True
    then have "[1, 1, 1, 1] \<noteq> ?x" by (metis list.inject zero_neq_one)
    then show ?thesis by (rule that)
  qed (rule that)
  then have m: "[m, m, m, m] \<noteq> take 4 (rx_mac (pd_sc_example (pkt m)))"
    unfolding r .
  have b: "bytes_at (rx_mac_offset (pd_sc_example (pkt m))) 4 (rx_packet (pd_sc_example (pkt m))) = [m, m, m, m]"
    unfolding o by (simp add: bytes_at_def pkt_def)
  have s: "rx_session_block (pd_sc_example (pkt m))"
    by (simp add: rx_session_block_def has_ctl_def pkt_control_def pkt_data_def pkt_def)
  have p: "pd_pending (pd_sc_example (pkt m)) \<noteq> []"
    using pd_sc_example_simps(11) by (metis list.size(3) zero_neq_numeral)
  have "\<exists>off pd'. osdp_phy_decode_packet (pd_sc_example (pkt m)) = Some (OSDP_ERR_PKT_NACK, off, pd') \<and> \<not> sc_is_active pd'"
    using bad_mac_ends_session [OF _ _ s m [folded b] p] by auto
  then show ?thesis unfolding pkt_def by (rule exI [where x = m])
qed

text \<open>
  C26. A handshake block is not authenticated: while a session is active, decoding hands on the
  command or reply byte and the data behind a block of type SCS_11 to SCS_14 as they are,
  whatever they are, and the session stays up with its keys and codes unchanged.
\<close>

theorem handshake_block_unauthenticated:
  assumes "sc_is_active pd" "is_pd_mode pd \<longrightarrow> sc_is_capable pd" "rx_handshake_block pd"
  shows "\<exists>pd'. osdp_phy_decode_packet pd =
           Some (int (pd_packet_buf_len pd) - int (mark_len pd) - rx_check_len (rx_packet pd) - 5 - uint (pkt_data (rx_packet pd) 0),
                 mark_len pd + 5 + unat (pkt_data (rx_packet pd) 0), pd') \<and>
         sc_is_active pd' \<and> pd_sc pd' = pd_sc pd \<and> packet_bytes pd' = packet_bytes pd"
  by (rule decode_handshake [OF assms])

theorem handshake_block_unauthenticated_witness:
  "\<exists>off pd'. osdp_phy_decode_packet (pd_sc_example [0x53, 0, 13, 0, 9, 2, 0x11, 0x68, 1, 2, 3, 4, 0]) = Some (5, off, pd') \<and>
      bytes_at off 5 (packet_bytes pd') = [0x68, 1, 2, 3, 4] \<and> sc_is_active pd' \<and> is_enforce_secure (pd_sc_example [])"
proof -
  let ?pd = "pd_sc_example [0x53, 0, 13, 0, 9, 2, 0x11, 0x68, 1, 2, 3, 4, 0]"
  have h: "rx_handshake_block ?pd"
    by (simp add: rx_handshake_block_def has_ctl_def pkt_control_def pkt_data_def)
  have b: "packet_bytes ?pd = rx_packet ?pd" by (simp add: rx_packet_def del: pd_sc_example_simps(6))
  show ?thesis
    using handshake_block_unauthenticated [OF _ _ h]
    by (auto simp: b rx_check_len_def has_ctl_def pkt_control_def pkt_data_def bytes_at_def)
qed

end
