(* ===== verification/Phy_Session.thy ===== *)
theory Phy_Session
  imports Phy_Packet
begin

text \<open>
  The packet layer over a session: a packet that one side finalizes with a session block is
  accepted and decoded by the other, the command or reply byte and its data come back, and both
  sides hold the same authentication codes afterwards.
\<close>

subsection \<open>Whole blocks inside a buffer\<close>

lemma cbc_encrypt_append:
  "length iv = 16 \<Longrightarrow> length x = 16 * n \<Longrightarrow>
   fst (AES_CBC_encrypt_buffer k iv (x @ t) (16 * n)) = fst (AES_CBC_encrypt_buffer k iv x (16 * n)) @ t"
proof (induction n arbitrary: iv x)
  case 0
  then show ?case by (simp add: AES_CBC_encrypt_buffer.simps)
next
  case (Suc n)
  have x: "XorWithIv (x @ t) iv = XorWithIv x iv"
    using Suc.prems by (simp add: XorWithIv_def AES_BLOCKLEN_def)
  have "length (Cipher k (XorWithIv x iv)) = 16" using Suc.prems by simp
  from Suc.IH [OF this, of "drop 16 x"] show ?case
    using Suc.prems by (simp add: cbc_encrypt_step Let_def case_prod_beta x)
qed

lemma cbc_decrypt_append:
  "length iv = 16 \<Longrightarrow> length x = 16 * n \<Longrightarrow>
   fst (AES_CBC_decrypt_buffer k iv (x @ t) (16 * n)) = fst (AES_CBC_decrypt_buffer k iv x (16 * n)) @ t"
proof (induction n arbitrary: iv x)
  case 0
  then show ?case by (simp add: AES_CBC_decrypt_buffer.simps)
next
  case (Suc n)
  from Suc.IH [of "take 16 x" "drop 16 x"] show ?case
    using Suc.prems by (simp add: cbc_decrypt_step Let_def case_prod_beta)
qed

lemma crypt_append:
  assumes "length iv = 16" "length x mod 16 = 0" "len = length x"
  shows "osdp_encrypt key (Some iv) (x @ t) len = osdp_encrypt key (Some iv) x len @ t"
    and "osdp_decrypt key (Some iv) (x @ t) len = osdp_decrypt key (Some iv) x len @ t"
proof -
  obtain n where n: "length x = 16 * n" using assms(2) by auto
  show "osdp_encrypt key (Some iv) (x @ t) len = osdp_encrypt key (Some iv) x len @ t"
    using cbc_encrypt_append [OF assms(1) n] assms(1)
    by (simp add: assms(3) n osdp_encrypt_def AES_BLOCKLEN_def)
  show "osdp_decrypt key (Some iv) (x @ t) len = osdp_decrypt key (Some iv) x len @ t"
    using cbc_decrypt_append [OF assms(1) n] assms(1)
    by (simp add: assms(3) n osdp_decrypt_def AES_BLOCKLEN_def)
qed

definition eom_block :: "bytes \<Rightarrow> bytes" where
  "eom_block pl = pl @ 0x80 # replicate (AES_PAD_LEN (length pl + 1) - length pl - 1) 0"

lemma length_eom_block [simp]: "length (eom_block pl) = AES_PAD_LEN (length pl + 1)"
  using AES_PAD_LEN_props(2) [of "length pl"] by (simp add: eom_block_def)

lemma encrypt_data_block:
  assumes "length h = off" "length pl = len" "AES_PAD_LEN (len + 1) \<le> len + length t"
    and "length (sc_data_iv pd c) = 16"
  shows "osdp_encrypt_data pd c (h @ pl @ t) off len =
    (AES_PAD_LEN (len + 1),
     h @ osdp_encrypt (s_enc (pd_sc pd)) (Some (sc_data_iv pd c)) (eom_block pl) (AES_PAD_LEN (len + 1)) @
       drop (AES_PAD_LEN (len + 1) - len) t)"
proof -
  note pad = AES_PAD_LEN_props [of len]
  have "off + AES_PAD_LEN (len + 1) \<le> length (h @ pl @ t)" using assms by simp
  note e = encrypt_data_eom_pad [OF this, of pd c]
  have "eom_pad (h @ pl @ t) off len = h @ eom_block pl @ drop (AES_PAD_LEN (len + 1) - len) t"
    using assms(1,2) pad(2) by (simp add: eom_pad_def eom_block_def write_at_def Suc_diff_Suc)
  then show ?thesis
    unfolding e using assms(1,2,4) pad(1)
      crypt_append(1) [of "sc_data_iv pd c" "eom_block pl" "AES_PAD_LEN (len + 1)" "s_enc (pd_sc pd)"]
    by simp
qed

lemma decrypt_data_block:
  assumes "length h = off" "length pl = len" "length iv = 16"
    and "sc_data_iv pd c = iv" "s_enc (pd_sc pd) = key" "n = int (AES_PAD_LEN (len + 1))"
  shows "osdp_decrypt_data pd c (h @ osdp_encrypt key (Some iv) (eom_block pl) (AES_PAD_LEN (len + 1)) @ t) off n =
    Some (int len, (h @ eom_block pl @ t)[off + len := 0])"
proof -
  define P where "P = AES_PAD_LEN (len + 1)"
  have pad: "P mod 16 = 0" "len < P" using AES_PAD_LEN_props [of len] by (simp_all add: P_def)
  have lE: "length (eom_block pl) = P" using assms(2) by (simp add: P_def)
  let ?E = "h @ eom_block pl @ t"
  have args: "crypt_args (Some iv) (eom_block pl) P"
    using assms(3) pad(1) lE by (simp add: crypt_args_def)
  have "length (osdp_encrypt key (Some iv) (eom_block pl) P) = P"
    using aes.enc_length [OF args, of key] lE by simp
  then have dec: "osdp_decrypt key (Some iv) (osdp_encrypt key (Some iv) (eom_block pl) P @ t) P = eom_block pl @ t"
    using crypt_append(2) [of iv "osdp_encrypt key (Some iv) (eom_block pl) P"]
      aes.dec_enc [OF args, of key] assms(3) pad(1) by simp
  obtain k where k: "P = len + 1 + k"
    using pad(2) by (metis Suc_eq_plus1 add_Suc less_imp_Suc_add add_Suc_right)
  have at: "?E ! (off + len) = 0x80"
    and z: "\<forall>i. off + len < i \<and> i \<le> off + len + k \<longrightarrow> ?E ! i = 0"
    using assms(1,2) k unfolding P_def by (auto simp: eom_block_def nth_append nth_Cons')
  have "eom_scan ?E off (off + len + k) = off + len"
    by (rule eom_scan_zeros) (use at z in auto)
  moreover have "nat (int off + int P - 1) = off + len + k" using k by simp
  moreover have "int P mod 16 = 0" "int P \<noteq> 0" using pad by presburger+
  ultimately show ?thesis
    unfolding assms(6) P_def [symmetric]
    using assms(1) by (simp add: osdp_decrypt_data_def Let_def assms(4,5) dec at OSDP_SC_EOM_MARKER_def)
qed

lemma mac_pad_length: "length (mac_pad msg) mod 16 = 0" "16 \<le> length (mac_pad msg)"
proof -
  show m: "length (mac_pad msg) mod 16 = 0" unfolding mac_pad_def by auto presburger+
  have "mac_pad msg \<noteq> []" by (auto simp: mac_pad_def)
  then show "16 \<le> length (mac_pad msg)" using m by (intro dvd_imp_le) auto
qed

lemma length_mac_reference:
  assumes "length iv = 16"
  shows "length (mac_reference k1 k2 iv msg) = 16"
proof -
  define m where "m = length (mac_pad msg) - 16"
  define y where "y = (if m = 0 then iv else drop (m - 16) (osdp_encrypt k1 (Some iv) (take m (mac_pad msg)) m))"
  have m: "m mod 16 = 0" "length (mac_pad msg) = m + 16"
    using mac_pad_length [of msg] by (simp_all add: m_def mod_diff_left_eq le_mod_geq)
  have "length (osdp_encrypt k1 (Some iv) (take m (mac_pad msg)) m) = m"
    using aes.enc_length [of "Some iv" "take m (mac_pad msg)" m k1] m assms by (simp add: crypt_args_def)
  then have y: "length y = 16" unfolding y_def using m(1) assms by auto
  have x: "length (xor_block (drop m (mac_pad msg)) y) = 16"
    using m(2) y by (simp add: xor_block_def)
  show ?thesis
    unfolding mac_reference_def Let_def m_def [symmetric] y_def [symmetric]
    by (rule aes.enc_block_length [OF x])
qed

subsection \<open>Two sides of a session\<close>

definition sessions_agree :: "'y osdp_pd_scheme \<Rightarrow> 'z osdp_pd_scheme \<Rightarrow> bool" where
  "sessions_agree s r \<longleftrightarrow>
     s_enc (pd_sc r) = s_enc (pd_sc s) \<and> s_mac1 (pd_sc r) = s_mac1 (pd_sc s) \<and>
     s_mac2 (pd_sc r) = s_mac2 (pd_sc s) \<and> r_mac (pd_sc r) = r_mac (pd_sc s) \<and>
     c_mac (pd_sc r) = c_mac (pd_sc s) \<and> length (r_mac (pd_sc s)) = 16 \<and> length (c_mac (pd_sc s)) = 16"

lemma sessions_agree_mac:
  assumes "sessions_agree s r" "len \<le> length b" "len \<le> length b'" "take len b' = take len b"
  shows "sessions_agree (osdp_compute_mac c b len s) (osdp_compute_mac c b' len r)"
proof -
  have l: "length (r_mac (pd_sc s)) = 16" "length (c_mac (pd_sc s)) = 16"
    "length (r_mac (pd_sc r)) = 16" "length (c_mac (pd_sc r)) = 16"
    using assms(1) by (simp_all add: sessions_agree_def)
  show ?thesis
    using assms(1)
    unfolding compute_mac_eq [OF assms(2) l(1,2)] compute_mac_eq [OF assms(3) l(3,4)] assms(4)
    by (auto simp: sessions_agree_def Let_def length_mac_reference)
qed

lemma compute_mac_iv [simp]:
  "sc_data_iv (osdp_compute_mac c b len pd) c = sc_data_iv pd c"
  "s_enc (pd_sc (osdp_compute_mac c b len pd)) = s_enc (pd_sc pd)"
  by (simp_all add: osdp_compute_mac_def sc_data_iv_def Let_def case_prod_beta)

lemma sessions_agree_iv: "sessions_agree s r \<Longrightarrow> sc_data_iv r c = sc_data_iv s c"
  by (simp add: sessions_agree_def sc_data_iv_def)

lemma sessions_agree_iv_length: "sessions_agree s r \<Longrightarrow> length (sc_data_iv s c) = 16"
  by (simp add: sessions_agree_def sc_data_iv_def)

definition scs_encrypted :: "bytes \<Rightarrow> bool" where
  "scs_encrypted b \<longleftrightarrow> pkt_data b 1 = SCS_17 \<or> pkt_data b 1 = SCS_18"

lemma finalize_encrypt_sent:
  assumes "phy_finalize_encrypt s b len max_len = (True, n, b2)" "pkt_data b 0 = 2"
    and "8 \<le> len" "len \<le> length b" "n \<le> length b" "length (sc_data_iv s (is_cp_mode s)) = 16"
  shows "length b2 = length b" "8 \<le> n" "take 8 b2 = take 8 b" "\<not> scs_encrypted b \<Longrightarrow> n = len \<and> b2 = b"
    "scs_encrypted b \<Longrightarrow> n = 8 + AES_PAD_LEN (len - 8 + 1) \<and>
       take n b2 = take 8 b @ osdp_encrypt (s_enc (pd_sc s)) (Some (sc_data_iv s (is_cp_mode s)))
         (eom_block (drop 8 (take len b))) (AES_PAD_LEN (len - 8 + 1))"
proof -
  have "length b2 = length b \<and> 8 \<le> n \<and> take 8 b2 = take 8 b \<and> (\<not> scs_encrypted b \<longrightarrow> n = len \<and> b2 = b) \<and>
    (scs_encrypted b \<longrightarrow> n = 8 + AES_PAD_LEN (len - 8 + 1) \<and>
       take n b2 = take 8 b @ osdp_encrypt (s_enc (pd_sc s)) (Some (sc_data_iv s (is_cp_mode s)))
         (eom_block (drop 8 (take len b))) (AES_PAD_LEN (len - 8 + 1)))"
  proof (cases "scs_encrypted b")
    case False
    then show ?thesis using assms(1,3) by (auto simp: phy_finalize_encrypt_def scs_encrypted_def)
  next
    case True
    define P where "P = AES_PAD_LEN (len - 8 + 1)"
    have pad: "P mod 16 = 0" "len - 8 < P" using AES_PAD_LEN_props [of "len - 8"] by (simp_all add: P_def)
    define E where "E = osdp_encrypt (s_enc (pd_sc s)) (Some (sc_data_iv s (is_cp_mode s)))
         (eom_block (drop 8 (take len b))) P"
    have b: "b = take 8 b @ drop 8 (take len b) @ drop len b"
      using assms(3,4) by (metis append_assoc append_take_drop_id min.absorb1 take_take)
    have r: "(True, n, b2) = (let (k, b) = osdp_encrypt_data s (is_cp_mode s) b 8 (len - 8) in (True, len - (len - 8) + k, b))"
      using assms(1,2) True by (auto simp: phy_finalize_encrypt_def scs_encrypted_def Let_def PKT_HDR_def split: if_splits)
    have l8: "length (take 8 b) = 8" "length (drop 8 (take len b)) = len - 8" using assms(3,4) by simp_all
    have fits: "P \<le> len - 8 + length (drop len b)"
    proof -
      have "n = 8 + P"
        using r assms(3) by (simp add: osdp_encrypt_data_def Let_def P_def)
      then show ?thesis using assms(3-5) by simp
    qed
    from encrypt_data_block [OF l8 fits [unfolded P_def] assms(6)]
    have "osdp_encrypt_data s (is_cp_mode s) b 8 (len - 8) = (P, take 8 b @ E @ drop (P - (len - 8)) (drop len b))"
      unfolding b [symmetric] P_def [symmetric] E_def [symmetric] .
    with r have nb: "n = 8 + P" "b2 = take 8 b @ E @ drop (P - (len - 8)) (drop len b)"
      using assms(3) by simp_all
    have "length (eom_block (drop 8 (take len b))) = P" using l8 by (simp add: P_def)
    then have lE: "length E = P"
      unfolding E_def using assms(6) pad(1) by (subst aes.enc_length) (simp_all add: crypt_args_def)
    show ?thesis
      using True nb l8 lE assms(3-5) pad(2) unfolding P_def [symmetric] E_def [symmetric] by simp
  qed
  then show "length b2 = length b" "8 \<le> n" "take 8 b2 = take 8 b" "\<not> scs_encrypted b \<Longrightarrow> n = len \<and> b2 = b"
    "scs_encrypted b \<Longrightarrow> n = 8 + AES_PAD_LEN (len - 8 + 1) \<and>
       take n b2 = take 8 b @ osdp_encrypt (s_enc (pd_sc s)) (Some (sc_data_iv s (is_cp_mode s)))
         (eom_block (drop 8 (take len b))) (AES_PAD_LEN (len - 8 + 1))"
    by blast+
qed

lemma finalize_secure_sent:
  assumes "phy_finalize_secure s b len max_len = (True, k, b3, s')"
  obtains n b2 where "phy_finalize_encrypt s b len max_len = (True, n, b2)" "k = n + 4" "int k \<le> max_len"
    "s' = osdp_compute_mac (is_cp_mode s)
            (set_pkt_length (n + (if has_ctl PKT_CONTROL_CRC b2 then 2 else 1) + 4) b2) n s"
    "b3 = write_at n (take 4 (if is_cp_mode s then c_mac (pd_sc s') else r_mac (pd_sc s')))
            (set_pkt_length (n + (if has_ctl PKT_CONTROL_CRC b2 then 2 else 1) + 4) b2)"
proof -
  obtain ok n b2 where e: "phy_finalize_encrypt s b len max_len = (ok, n, b2)" by (metis prod_cases3)
  have "ok" "\<not> int (n + 4) > max_len"
    using assms unfolding phy_finalize_secure_def e by (auto simp: Let_def split: if_splits)
  moreover have "is_cp_mode (osdp_compute_mac c b l s) = is_cp_mode s" for c b l
    by (simp add: is_cp_mode_def is_pd_mode_def ISSET_FLAG_def)
  ultimately show ?thesis
    using assms that [of n b2] e unfolding phy_finalize_secure_def e by (auto simp: Let_def)
qed

lemma pkt_data_take:
  assumes "take n b' = take n b" "5 + i < n"
  shows "pkt_data b' i = pkt_data b i"
  using arg_cong [OF assms(1), of "\<lambda>l. l ! (5 + i)"] assms(2) by (simp add: pkt_data_def PKT_HDR_def)

lemma set_pkt_length_simps [simp]:
  "length (set_pkt_length k b) = length b" "pkt_data (set_pkt_length k b) i = pkt_data b i"
  "pkt_control (set_pkt_length k b) = pkt_control b" "4 \<le> j \<Longrightarrow> drop j (set_pkt_length k b) = drop j b"
  by (simp_all add: set_pkt_length_def pkt_data_def pkt_control_def PKT_HDR_def)

lemma decode_secure_received:
  assumes agree: "sessions_agree s r" "is_pd_mode r = is_cp_mode s"
    and e: "phy_finalize_encrypt s b len max_len = (True, n, b2)" "pkt_data b 0 = 2"
      "8 \<le> len" "len \<le> length b" "n + 4 \<le> length b"
    and b1: "b1 = set_pkt_length L b2"
    and s': "s' = osdp_compute_mac (is_cp_mode s) b1 n s"
    and b3: "b3 = write_at n (take 4 (if is_cp_mode s then c_mac (pd_sc s') else r_mac (pd_sc s'))) b1"
    and bb: "take (n + 4) bb = take (n + 4) b3" "n + 4 \<le> length bb"
  shows "\<exists>b' r'. phy_decode_secure r bb 7 (int n - 3) n = Some (int len - 7, b', r') \<and> length b' = length bb \<and>
    bytes_at 7 (len - 7) b' = bytes_at 7 (len - 7) b \<and> sessions_agree s' r' \<and> sc_is_active r' = sc_is_active r"
proof -
  let ?c = "is_cp_mode s"
  have "n \<le> length b" using e(5) by simp
  note sent = finalize_encrypt_sent [OF e(1-4) this sessions_agree_iv_length [OF agree(1)]]
  have lb1: "length b1 = length b" using sent(1) b1 by simp
  have t1: "take n bb = take n b1"
  proof -
    have "take n bb = take n (take (n + 4) b3)" using bb(1) by (metis le_add1 min.absorb1 take_take)
    then show ?thesis using lb1 e(5) by (simp add: b3)
  qed
  define r' where "r' = osdp_compute_mac ?c bb n r"
  have agree': "sessions_agree s' r'"
    unfolding s' r'_def by (rule sessions_agree_mac [OF agree(1)]) (use t1 lb1 e(5) bb(2) in auto)
  have l16: "length (c_mac (pd_sc s')) = 16" "length (r_mac (pd_sc s')) = 16"
    using agree' by (simp_all add: sessions_agree_def)
  have m: "bytes_at n 4 bb = take 4 (if ?c then c_mac (pd_sc s') else r_mac (pd_sc s'))"
  proof -
    have "bytes_at n 4 bb = drop n (take (n + 4) bb)" by (simp add: bytes_at_def drop_take)
    also have "\<dots> = bytes_at n 4 b3" unfolding bb(1) by (simp add: bytes_at_def drop_take)
    finally show ?thesis using lb1 e(5) l16 by (simp add: b3 bytes_at_def write_at_def)
  qed
  have mac_eq: "c_mac (pd_sc r') = c_mac (pd_sc s')" "r_mac (pd_sc r') = r_mac (pd_sc s')"
    using agree' by (simp_all add: sessions_agree_def)
  have scs: "pkt_data bb 1 = pkt_data b 1"
    using pkt_data_take [OF t1, of 1] pkt_data_take [OF sent(3), of 1] sent(2) b1 by simp
  have t7: "drop 7 (take 8 bb) = drop 7 (take 8 b)"
  proof -
    have "take 8 bb = take 8 b1" using arg_cong [OF t1, of "take 8"] sent(2) by (simp add: min_def)
    then have "drop 7 (take 8 bb) = take 1 (drop 7 b2)" by (simp add: b1 drop_take)
    also have "\<dots> = drop 7 (take 8 b2)" by (simp add: drop_take)
    finally show ?thesis using sent(3) by simp
  qed
  have act: "sc_is_active r' = sc_is_active r" by (simp add: r'_def)
  have ok: "phy_decode_secure r bb 7 (int n - 3) n =
    (if scs_encrypted b
     then case osdp_decrypt_data r' ?c bb 8 (int n - 8) of None \<Rightarrow> None
          | Some (k, b') \<Rightarrow>
              Some (if k < 0 then (OSDP_ERR_PKT_NACK, b', phy_set_nak OSDP_PD_NAK_SC_COND (sc_deactivate r'))
                    else (k + 1, b', r'))
     else Some (int n - 7, bb, r'))"
    unfolding phy_decode_secure_def Let_def agree(2) r'_def [symmetric] m mac_eq scs scs_encrypted_def
    by simp
  show ?thesis
  proof (cases "scs_encrypted b")
    case False
    have nb: "n = len" "b2 = b" using sent(4) [OF False] by simp_all
    have "bytes_at 7 (len - 7) bb = bytes_at 7 (len - 7) b"
      using arg_cong [OF t1, of "drop 7"] nb by (simp add: bytes_at_def b1 drop_take)
    then show ?thesis
      unfolding ok using False agree' act nb by simp
  next
    case True
    define P where "P = AES_PAD_LEN (len - 8 + 1)"
    define iv where "iv = sc_data_iv s ?c"
    define pl where "pl = drop 8 (take len b)"
    define E where "E = osdp_encrypt (s_enc (pd_sc s)) (Some iv) (eom_block pl) P"
    have nb: "n = 8 + P" "take n b2 = take 8 b @ E"
      using sent(5) [OF True] unfolding P_def E_def iv_def pl_def by blast+
    have "drop 8 (take n bb) = E"
    proof -
      have "drop 8 (take n bb) = take P (drop 8 b2)" unfolding t1 by (simp add: b1 drop_take nb(1))
      also have "\<dots> = drop 8 (take n b2)" by (simp add: drop_take nb(1))
      finally show ?thesis using nb(2) e(3,4) by simp
    qed
    then have bb_split: "bb = take 8 bb @ E @ drop n bb"
      using nb(1) by (metis append.assoc append_take_drop_id le_add1 min.absorb1 take_take)
    have lpl: "length pl = len - 8" using e(3,4) by (simp add: pl_def)
    have l8: "length (take 8 bb) = 8" using bb(2) nb(1) by simp
    have iv: "length iv = 16" "sc_data_iv r' ?c = iv" "s_enc (pd_sc r') = s_enc (pd_sc s)"
      using sessions_agree_iv_length [OF agree(1)] sessions_agree_iv [OF agree(1)] agree(1)
      by (simp_all add: iv_def r'_def sessions_agree_def)
    let ?b' = "(take 8 bb @ eom_block pl @ drop n bb)[8 + (len - 8) := 0]"
    have dec: "osdp_decrypt_data r' ?c bb 8 (int P) = Some (int (len - 8), ?b')"
      using decrypt_data_block [OF l8 lpl iv refl, of "drop n bb"]
      unfolding P_def [symmetric] E_def [symmetric] bb_split [symmetric] .
    have "length (eom_block pl) = P" by (simp add: lpl P_def)
    moreover have "n \<le> length bb" using bb(2) by simp
    ultimately have lb': "length ?b' = length bb" using nb(1) l8 by simp
    have "bytes_at 7 (len - 7) ?b' = drop 7 (take 8 bb) @ pl"
      using l8 lpl e(3) by (simp add: bytes_at_def eom_block_def list_update_append drop_take take_Cons' Suc_diff_le)
    also have "\<dots> = bytes_at 7 (len - 7) b"
    proof -
      have "len - 7 = 1 + (len - 8)" using e(3) by simp
      then have "bytes_at 7 (len - 7) b = take 1 (drop 7 b) @ take (len - 8) (drop 8 b)"
        by (simp only: bytes_at_def take_add drop_drop) simp
      then show ?thesis unfolding t7 pl_def by (simp add: drop_take)
    qed
    finally have byt: "bytes_at 7 (len - 7) ?b' = bytes_at 7 (len - 7) b" .
    have len: "int n - 8 = int P" "int (len - 8) + 1 = int len - 7" using nb(1) e(3) by simp_all
    have "phy_decode_secure r bb 7 (int n - 3) n = Some (int len - 7, ?b', r')"
      unfolding ok len(1) dec using True len(2) by simp
    then show ?thesis using agree' act lb' byt by blast
  qed
qed

subsection \<open>The round trip of a packet\<close>

text \<open>A built packet with a session block, \<open>len\<close> bytes long up to the last byte of its data.\<close>

definition session_packet :: "'z osdp_pd_scheme \<Rightarrow> bytes \<Rightarrow> nat \<Rightarrow> bool" where
  "session_packet s buf len \<longleftrightarrow>
     (let b = drop (mark_len s) buf
      in mark_len s + 8 \<le> len \<and> has_ctl PKT_CONTROL_SCB b \<and> pkt_data b 0 = 2 \<and>
         SCS_15 \<le> pkt_data b 1 \<and> pkt_data b 1 \<le> SCS_18)"

lemma finalize_session:
  assumes fin: "osdp_phy_finalize_packet crc s buf len max_len = (ret, buf', s')" "0 \<le> ret"
    and s: "sc_is_active s" "session_packet s buf len"
  obtains b3 k b4 n where
    "phy_finalize_secure s
       (set_pkt_length (len - mark_len s + (if has_ctl PKT_CONTROL_CRC (drop (mark_len s) buf) then 2 else 1))
         (drop (mark_len s) buf))
       (len - mark_len s) (max_len - int (mark_len s)) = (True, k, b3, s')"
    "phy_finalize_check crc b3 k (max_len - int (mark_len s)) = (True, n, b4)"
    "ret = int (n + mark_len s)" "buf' = take (mark_len s) buf @ b4"
proof -
  let ?m = "mark_len s" and ?b = "drop (mark_len s) buf"
  let ?b1 = "set_pkt_length (len - ?m + (if has_ctl PKT_CONTROL_CRC ?b then 2 else 1)) ?b"
  have p: "has_ctl PKT_CONTROL_SCB ?b1 \<and> pkt_data ?b1 1 \<ge> SCS_15"
    using s(2) by (simp add: session_packet_def Let_def has_ctl_def)
  have c: "\<not> len \<le> PKT_HDR" "\<not> (packet_has_mark s \<and> buf ! 0 \<noteq> OSDP_PKT_MARK)" "pkt_som ?b = OSDP_PKT_SOM"
    using fin s(2) unfolding osdp_phy_finalize_packet_def Let_def
    by (auto simp: session_packet_def PKT_HDR_def split: if_splits)
  obtain ok k b3 s1 where fs: "phy_finalize_secure s ?b1 (len - ?m) (max_len - int ?m) = (ok, k, b3, s1)"
    by (metis prod_cases4)
  obtain ok2 n b4 where fc: "phy_finalize_check crc b3 k (max_len - int ?m) = (ok2, n, b4)"
    by (metis prod_cases3)
  have "osdp_phy_finalize_packet crc s buf len max_len =
    (if \<not> ok then (OSDP_ERR_PKT_FMT, take ?m buf @ b3, s1)
     else (if ok2 then int (n + ?m) else OSDP_ERR_PKT_FMT, take ?m buf @ b4, s1))"
    unfolding osdp_phy_finalize_packet_def Let_def if_not_P [OF c(1)] if_not_P [OF c(2)]
      if_P [OF conjI [OF s(1) p]] fs prod.case fc
    using c(3) by simp
  with fin have "ok" "ok2" "ret = int (n + ?m)" "buf' = take ?m buf @ b4" "s1 = s'"
    by (auto split: if_splits)
  then show ?thesis using that fs fc by simp
qed

lemma secure_packet:
  assumes fin: "osdp_phy_finalize_packet crc s buf len max_len = (ret, buf', s')" "0 \<le> ret"
    and s: "sc_is_active s" "session_packet s buf len" "len \<le> length buf" "max_len \<le> int (length buf)"
    and r: "sc_is_active r" "is_pd_mode r = is_cp_mode s" "is_pd_mode r \<longrightarrow> sc_is_capable r"
      "packet_has_mark r = packet_has_mark s" "sessions_agree s r"
    and rx: "pd_packet_buf_len r = nat ret" "nat ret \<le> length (packet_bytes r)"
      "take (nat ret) (packet_bytes r) = take (nat ret) buf'"
  shows "snd (phy_check_integrity crc (rx_packet r) (nat ret - mark_len s)) \<and>
    (\<exists>r'. osdp_phy_decode_packet r = Some (int len - int (mark_len s) - 7, mark_len s + 7, r') \<and>
      bytes_at (mark_len s + 7) (len - mark_len s - 7) (packet_bytes r') =
        bytes_at (mark_len s + 7) (len - mark_len s - 7) buf \<and>
      sessions_agree s' r' \<and> sc_is_active r')"
proof -
  let ?m = "mark_len s"
  let ?b = "drop ?m buf"
  define b1 where "b1 = set_pkt_length (len - ?m + (if has_ctl PKT_CONTROL_CRC ?b then 2 else 1)) ?b"
  obtain b3 k b4 n where f: "phy_finalize_secure s b1 (len - ?m) (max_len - int ?m) = (True, k, b3, s')"
    "phy_finalize_check crc b3 k (max_len - int ?m) = (True, n, b4)"
    "ret = int (n + ?m)" "buf' = take ?m buf @ b4"
    by (rule finalize_session [OF fin s(1,2), folded b1_def])
  obtain n0 b2 where f2: "phy_finalize_encrypt s b1 (len - ?m) (max_len - int ?m) = (True, n0, b2)" "k = n0 + 4"
    "int k \<le> max_len - int ?m"
    "s' = osdp_compute_mac (is_cp_mode s)
            (set_pkt_length (n0 + (if has_ctl PKT_CONTROL_CRC b2 then 2 else 1) + 4) b2) n0 s"
    "b3 = write_at n0 (take 4 (if is_cp_mode s then c_mac (pd_sc s') else r_mac (pd_sc s')))
            (set_pkt_length (n0 + (if has_ctl PKT_CONTROL_CRC b2 then 2 else 1) + 4) b2)"
    by (rule finalize_secure_sent [OF f(1)])
  have sp: "?m + 8 \<le> len" "has_ctl PKT_CONTROL_SCB ?b" "pkt_data b1 0 = 2" "SCS_15 \<le> pkt_data b1 1" "pkt_data b1 1 \<le> SCS_18"
    using s(2) by (simp_all add: session_packet_def Let_def b1_def)
  have scb: "has_ctl PKT_CONTROL_SCB b1" using sp(2) by (simp add: b1_def has_ctl_def)
  have lb: "length b1 = length buf - ?m" by (simp add: b1_def)
  have l: "8 \<le> len - ?m" "len - ?m \<le> length b1" "n0 + 4 \<le> length b1"
    using sp(1) s(3,4) f2(2,3) by (auto simp: lb)
  have "n0 \<le> length b1" using l(3) by simp
  have mac16: "length (sc_data_iv s (is_cp_mode s)) = 16" by (rule sessions_agree_iv_length [OF r(5)])
  note sent = finalize_encrypt_sent [OF f2(1) sp(3) l(1,2) \<open>n0 \<le> length b1\<close> mac16]
  have "sessions_agree s' (osdp_compute_mac (is_cp_mode s)
      (set_pkt_length (n0 + (if has_ctl PKT_CONTROL_CRC b2 then 2 else 1) + 4) b2) n0 r)"
    unfolding f2(4) by (rule sessions_agree_mac [OF r(5)]) (use sent(1) l(3) in auto)
  then have agree': "length (c_mac (pd_sc s')) = 16" "length (r_mac (pd_sc s')) = 16"
    by (simp_all add: sessions_agree_def)
  have lb3: "length b3 = length b1"
    using sent(1) l(3) agree' unfolding f2(5) by simp
  let ?rx = "rx_packet r"
  have lm: "length (take ?m buf) = ?m" using s(3) sp(1) by simp
  have nr: "nat ret = ?m + n" unfolding f(3) by (simp only: nat_int add.commute)
  have rx_n: "take n ?rx = take n b4"
  proof -
    have "take n ?rx = drop ?m (take (?m + n) (packet_bytes r))" by (simp add: rx_packet_def drop_take r(4))
    also have "\<dots> = drop ?m (take (?m + n) (take ?m buf @ b4))" using rx(3) unfolding nr f(4) by (rule arg_cong)
    also have "\<dots> = take n b4" using lm by (simp add: drop_take)
    finally show ?thesis .
  qed
  have lrx: "n \<le> length ?rx" using rx(2) r(4) unfolding nr rx_packet_def by simp
  have "5 \<le> k" "max_len - int ?m \<le> int (length b3)" using f2(2) sent(2) s(4) lb lb3 by auto
  note chk = finalize_check_integrity [OF f(2) this rx_n]
  have chk': "phy_check_integrity crc ?rx n = (k, True)" "take k b4 = take k b3" "k < n"
      "n = k + (if has_ctl PKT_CONTROL_CRC b3 then 2 else 1)"
    using chk by auto
  have tk: "take k ?rx = take k b3"
    using arg_cong [OF rx_n, of "take k"] chk'(2,3) by (simp add: min_def)
  have crc: "has_ctl PKT_CONTROL_CRC ?rx = has_ctl PKT_CONTROL_CRC b3"
    by (rule has_ctl_take [OF \<open>5 \<le> k\<close> tk])
  have off: "rx_mac_offset r = n0"
    using chk'(4) f2(2) r(4) by (simp add: rx_mac_offset_def rx_check_len_def crc rx(1) nr)
  have t8: "take 8 ?rx = take 8 b3"
    using arg_cong [OF tk, of "take 8"] f2(2) sent(2) by (simp add: min_def)
  have "take 8 ?rx = take 8 (set_pkt_length (n0 + (if has_ctl PKT_CONTROL_CRC b2 then 2 else 1) + 4) b2)"
    using t8 sent(1,2) l(3) unfolding f2(5) by simp
  note t8 = this
  have pd: "pkt_data ?rx i = pkt_data b1 i" if "i < 3" for i
    using pkt_data_take [OF t8, of i] pkt_data_take [OF sent(3), of i] that by simp
  have ctl: "has_ctl PKT_CONTROL_SCB ?rx"
    using has_ctl_take [OF _ t8] has_ctl_take [OF _ sent(3)] scb by (simp add: has_ctl_def)
  have sb: "rx_session_block r" using ctl pd sp(4,5) by (simp add: rx_session_block_def)
  obtain b' r' where d: "phy_decode_secure r ?rx 7 (int n0 - 3) n0 = Some (int (len - ?m) - 7, b', r')"
    "length b' = length ?rx" "bytes_at 7 (len - ?m - 7) b' = bytes_at 7 (len - ?m - 7) b1"
    "sessions_agree s' r'" "sc_is_active r' = sc_is_active r"
    using decode_secure_received [OF r(5,2) f2(1) sp(3) l refl f2(4,5) tk [unfolded f2(2)]] lrx chk'(3) f2(2)
    by auto
  have len: "int (pd_packet_buf_len r) - int ?m - rx_check_len ?rx - int PKT_HDR - uint (pkt_data ?rx 0) = int n0 - 3"
    using chk'(4) f2(2) pd [of 0] sp(3) by (simp add: rx_check_len_def crc rx(1) nr PKT_HDR_def)
  have data: "PKT_HDR + unat (pkt_data ?rx 0) = 7" using pd [of 0] sp(3) by (simp add: PKT_HDR_def)
  let ?r = "put_packet_bytes (take ?m (packet_bytes r) @ b') r'"
  have "osdp_phy_decode_packet r = Some (int (len - ?m) - 7, ?m + 7, ?r)"
    unfolding decode_session [OF r(1,3) sb] Let_def r(4) len data off d(1) by simp
  moreover have "bytes_at (?m + 7) (len - ?m - 7) (packet_bytes ?r) = bytes_at (?m + 7) (len - ?m - 7) buf"
  proof -
    have "length (take ?m (packet_bytes r)) = ?m" using rx(2) unfolding nr by simp
    then show ?thesis using d(3) by (simp add: bytes_at_def b1_def add.commute)
  qed
  moreover have "sessions_agree s' ?r \<and> sc_is_active ?r"
    using d(4,5) r(1) by (simp add: sessions_agree_def sc_is_active_def ISSET_FLAG_def put_packet_bytes_def)
  moreover have "int (len - ?m) - 7 = int len - int ?m - 7" using sp(1) by simp
  ultimately show ?thesis using chk'(1) by (simp add: nr)
qed

text \<open>
  C23. A packet finalized in a session round-trips: a receiver of the other role in the same
  session, with the packet in its buffer, accepts the check bytes and the authentication code,
  gets back the command or reply byte and the data, decrypted where they were encrypted, with
  their length, and ends with the same chained codes as the sender, ready for the next packet.
\<close>

theorem secure_packet_roundtrip:
  assumes "osdp_phy_finalize_packet crc s buf len max_len = (ret, buf', s')" "0 \<le> ret"
    and "sc_is_active s" "session_packet s buf len" "len \<le> length buf" "max_len \<le> int (length buf)"
    and "sc_is_active r" "is_pd_mode r = is_cp_mode s" "is_pd_mode r \<longrightarrow> sc_is_capable r"
      "packet_has_mark r = packet_has_mark s" "sessions_agree s r"
    and "pd_packet_buf_len r = nat ret" "nat ret \<le> length (packet_bytes r)"
      "take (nat ret) (packet_bytes r) = take (nat ret) buf'"
  shows "snd (phy_check_integrity crc (rx_packet r) (nat ret - mark_len s)) \<and>
    (\<exists>r'. osdp_phy_decode_packet r = Some (int len - int (mark_len s) - 7, mark_len s + 7, r') \<and>
      bytes_at (mark_len s + 7) (len - mark_len s - 7) (packet_bytes r') =
        bytes_at (mark_len s + 7) (len - mark_len s - 7) buf \<and>
      sessions_agree s' r' \<and> sc_is_active r')"
  by (rule secure_packet [OF assms])

definition cp_sc_example :: osdp_pd where
  "cp_sc_example = SET_FLAG PD_FLAG_SC_ACTIVE (pd_zero False)"

lemma cp_sc_example_simps [simp]:
  "sc_is_active cp_sc_example" "is_cp_mode cp_sc_example" "\<not> packet_has_mark cp_sc_example"
  "pd_sc cp_sc_example = sc_zero"
proof -
  have [simp]: "ISSET_FLAG (pd_zero False) f = False" if "f < 32" for f
    using that by (simp add: ISSET_FLAG_bit pd_zero_def)
  show "sc_is_active cp_sc_example" "is_cp_mode cp_sc_example" "\<not> packet_has_mark cp_sc_example"
    by (simp_all add: cp_sc_example_def flag_defs)
  show "pd_sc cp_sc_example = sc_zero" by (simp add: cp_sc_example_def pd_zero_def)
qed

lemma length_sc_encrypt_example:
  "length (osdp_encrypt (s_enc sc_zero) (Some (sc_data_iv cp_sc_example c)) (x @ y) 16) = length (x @ y)"
  if "16 \<le> length (x @ y)" for x y
  using that by (subst aes.enc_length) (simp_all add: crypt_args_def sc_data_iv_def sc_zero_def)

definition session_example :: bytes where
  "session_example = [0x53, 0x65, 0, 0, 0x09, 2, 0x17, 0x61, 1, 2] @ replicate 246 0"

theorem secure_packet_roundtrip_witness:
  "\<exists>ret buf' s' r'. osdp_phy_finalize_packet (\<lambda>_ _. 0) cp_sc_example session_example 10 256 = (ret, buf', s') \<and>
     osdp_phy_decode_packet (pd_sc_example (take (nat ret) buf')) = Some (3, 7, r') \<and>
     bytes_at 7 3 (packet_bytes r') = [0x61, 1, 2]"
proof -
  obtain ret buf' s' where f:
    "osdp_phy_finalize_packet (\<lambda>_ _. 0) cp_sc_example session_example 10 256 = (ret, buf', s')"
    by (metis prod_cases3)
  let ?b = "set_pkt_length 11 session_example"
  have b: "length ?b = 256" "pkt_data ?b 1 = SCS_17" "pkt_data ?b 0 = 2" "pkt_som session_example = OSDP_PKT_SOM"
    "has_ctl PKT_CONTROL_SCB ?b" "\<not> has_ctl PKT_CONTROL_CRC ?b" "\<not> has_ctl PKT_CONTROL_CRC session_example"
    by (simp_all add: session_example_def pkt_data_def pkt_som_def has_ctl_def pkt_control_def PKT_HDR_def set_pkt_length_def)
  have "fst (phy_finalize_encrypt cp_sc_example ?b 10 256)" "fst (snd (phy_finalize_encrypt cp_sc_example ?b 10 256)) = 24"
    using b(2,3) by (simp_all add: phy_finalize_encrypt_def PKT_HDR_def osdp_encrypt_data_def Let_def AES_PAD_LEN_def)
  then obtain b2 where e: "phy_finalize_encrypt cp_sc_example ?b 10 256 = (True, 24, b2)"
    by (metis prod.collapse)
  have iv: "length (sc_data_iv cp_sc_example (is_cp_mode cp_sc_example)) = 16" by (simp add: sc_data_iv_def sc_zero_def)
  have sent: "length b2 = 256" "take 8 b2 = take 8 ?b"
    using finalize_encrypt_sent [OF e b(3) _ _ _ iv] b(1) by simp_all
  have crc: "\<not> has_ctl PKT_CONTROL_CRC b2" using has_ctl_take [OF _ sent(2)] b(6) by simp
  define b3 where "b3 = set_pkt_length 29 b2"
  define s1 where "s1 = osdp_compute_mac True b3 24 cp_sc_example"
  have "sessions_agree s1 s1"
    unfolding s1_def
    by (rule sessions_agree_mac) (simp_all add: b3_def sent(1), simp add: sessions_agree_def sc_zero_def)
  then have mac: "length (c_mac (pd_sc s1)) = 16" by (simp add: sessions_agree_def)
  have cp: "is_cp_mode s1" 
    using cp_sc_example_simps(2) unfolding is_cp_mode_def ISSET_FLAG_def s1_def compute_mac_frame .
  define b4 where "b4 = write_at 24 (take 4 (c_mac (pd_sc s1))) b3"
  have fs: "phy_finalize_secure cp_sc_example ?b 10 256 = (True, 28, b4, s1)"
    unfolding phy_finalize_secure_def e Let_def prod.case using crc
    by (simp add: b3_def [symmetric] s1_def [symmetric] cp b4_def)
  have b4: "length b4 = 256" "\<not> has_ctl PKT_CONTROL_CRC b4"
    using mac sent(1) crc by (simp_all add: b4_def b3_def has_ctl_def pkt_control_def nth_write_at set_pkt_length_def)
  have ret: "ret = 29 \<and> length buf' = 256"
    using f b b4 unfolding osdp_phy_finalize_packet_def Let_def
    by (auto simp: PKT_HDR_def fs phy_finalize_check_def)
  have sp: "session_packet cp_sc_example session_example 10"
    by (simp add: session_packet_def Let_def session_example_def has_ctl_def pkt_control_def pkt_data_def PKT_HDR_def)
  have ag: "sessions_agree cp_sc_example (pd_sc_example x)" for x
    by (simp add: sessions_agree_def sc_zero_def)
  have pb: "packet_bytes (pd_sc_example x) = x @ replicate 200 0" for x
    using pd_sc_example_simps(6) [of x] by (simp add: rx_packet_def del: pd_sc_example_simps(6))
  have ex: "bytes_at 7 3 session_example = [0x61, 1, 2]" by (simp add: session_example_def bytes_at_def)
  have "\<exists>r'. osdp_phy_decode_packet (pd_sc_example (take (nat ret) buf')) =
      Some (int 10 - int (mark_len cp_sc_example) - 7, mark_len cp_sc_example + 7, r') \<and>
      bytes_at (mark_len cp_sc_example + 7) (10 - mark_len cp_sc_example - 7) (packet_bytes r') =
      bytes_at (mark_len cp_sc_example + 7) (10 - mark_len cp_sc_example - 7) session_example \<and>
      sessions_agree s' r' \<and> sc_is_active r'"
    by (rule conjunct2 [OF secure_packet_roundtrip [OF f]])
       (simp_all add: ret sp ag pb, simp_all add: session_example_def)
  then obtain r' where "osdp_phy_decode_packet (pd_sc_example (take (nat ret) buf')) = Some (3, 7, r')"
    "bytes_at 7 3 (packet_bytes r') = [0x61, 1, 2]"
    by (auto simp: ex)
  then show ?thesis using f by blast
qed

end
