(* ===== verification/Commands.thy ===== *)
theory Commands
  imports Device
begin

text \<open>
  Commands, events and notifications as the application sees them: the structures and tagged
  unions of src/include/osdp.h.  An enumeration that the wire carries as a byte without a range
  check is an \<open>int\<close> here, as in C; a byte array with its length field is a list of bytes next
  to that field.  The unions leave out the transparent mode arm (\<open>struct osdp_trs_cmd\<close>,
  \<open>struct osdp_trs_reply\<close>): a build without OPT_BUILD_OSDP_TRS, the default, refuses such a
  command before it reads its payload and never makes such an event.
\<close>

subsection \<open>Command payloads\<close>

record osdp_cmd_output =
  output_no :: u8
  output_control_code :: int
  output_timer_count :: u16

record osdp_cmd_led_params =
  ledp_control_code :: u8
  ledp_on_count :: u8
  ledp_off_count :: u8
  ledp_on_color :: int
  ledp_off_color :: int
  ledp_timer_count :: u16

record osdp_cmd_led =
  led_reader :: u8
  led_number :: u8
  led_temporary :: osdp_cmd_led_params
  led_permanent :: osdp_cmd_led_params

record osdp_cmd_buzzer =
  buzzer_reader :: u8
  buzzer_control_code :: int
  buzzer_on_count :: u8
  buzzer_off_count :: u8
  buzzer_rep_count :: u8

record osdp_cmd_text =
  text_reader :: u8
  text_control_code :: int
  text_temp_time :: u8
  text_offset_row :: u8
  text_offset_col :: u8
  text_length :: u8
  text_data :: bytes

record osdp_cmd_comset =
  comset_address :: u8
  comset_baud_rate :: u32

record osdp_cmd_keyset =
  keyset_type :: u8
  keyset_length :: u8
  keyset_data :: bytes

record osdp_cmd_mfg =
  mfg_vendor_code :: u32
  mfg_data :: bytes
  mfg_length :: u8

record osdp_cmd_file_tx =
  file_tx_id :: int
  file_tx_flags :: u32

record osdp_cmd_bioread =
  bioread_reader :: u8
  bioread_type :: int
  bioread_format :: int
  bioread_quality :: u8

record osdp_cmd_biomatch =
  biomatch_reader :: u8
  biomatch_type :: int
  biomatch_format :: int
  biomatch_quality :: u8
  biomatch_length :: u16
  biomatch_data :: bytes

record osdp_cmd_tdset =
  tdset_year :: u16
  tdset_month :: u8
  tdset_day :: u8
  tdset_hour :: u8
  tdset_minute :: u8
  tdset_second :: u8

record osdp_cmd_pivdata =
  pivdata_oid :: bytes
  pivdata_element :: u8
  pivdata_offset :: u8

record osdp_cmd_auth =
  auth_algorithm :: u8
  auth_key :: u8
  auth_length :: u16
  auth_data :: bytes

datatype osdp_status_report_type =
    OSDP_STATUS_REPORT_INPUT | OSDP_STATUS_REPORT_OUTPUT
  | OSDP_STATUS_REPORT_LOCAL | OSDP_STATUS_REPORT_READER

record osdp_status_report =
  status_type :: osdp_status_report_type
  status_nr_entries :: int
  status_report :: bytes

subsection \<open>Notifications\<close>

datatype osdp_mp_outcome =
    OSDP_MP_OUTCOME_OK | OSDP_MP_OUTCOME_OK_REBOOTING | OSDP_MP_OUTCOME_ABORTED
  | OSDP_MP_OUTCOME_UNRECOGNIZED | OSDP_MP_OUTCOME_INVALID

fun mp_outcome_val :: "osdp_mp_outcome \<Rightarrow> int" where
  "mp_outcome_val OSDP_MP_OUTCOME_OK = 0"
| "mp_outcome_val OSDP_MP_OUTCOME_OK_REBOOTING = 1"
| "mp_outcome_val OSDP_MP_OUTCOME_ABORTED = 2"
| "mp_outcome_val OSDP_MP_OUTCOME_UNRECOGNIZED = 3"
| "mp_outcome_val OSDP_MP_OUTCOME_INVALID = 4"

abbreviation (input) OSDP_MP_MSG_FILE_TRANSFER :: int where "OSDP_MP_MSG_FILE_TRANSFER \<equiv> 1"
abbreviation (input) OSDP_MP_MSG_PIV :: int where "OSDP_MP_MSG_PIV \<equiv> 2"
abbreviation (input) OSDP_MP_MSG_GENAUTH :: int where "OSDP_MP_MSG_GENAUTH \<equiv> 3"
abbreviation (input) OSDP_MP_MSG_CRAUTH :: int where "OSDP_MP_MSG_CRAUTH \<equiv> 4"
abbreviation (input) OSDP_MP_MSG_BIOREAD :: int where "OSDP_MP_MSG_BIOREAD \<equiv> 5"

record osdp_mp_notification =
  mpn_mp_type :: int
  mpn_object_id :: int
  mpn_total :: u32
  mpn_offset :: u32
  mpn_outcome :: int

datatype osdp_notification =
    OSDP_NOTIFICATION_SC_STATUS (notif_active: bool) (notif_scbk_d: bool)
  | OSDP_NOTIFICATION_PD_STATUS (notif_online: bool)
  | OSDP_NOTIFICATION_MP_START osdp_mp_notification
  | OSDP_NOTIFICATION_MP_PROGRESS osdp_mp_notification
  | OSDP_NOTIFICATION_MP_DONE osdp_mp_notification
  | OSDP_NOTIFICATION_PD_ID osdp_pd_id

subsection \<open>Commands\<close>

datatype osdp_cmd_u =
    OSDP_CMD_OUTPUT osdp_cmd_output
  | OSDP_CMD_LED osdp_cmd_led
  | OSDP_CMD_BUZZER osdp_cmd_buzzer
  | OSDP_CMD_TEXT osdp_cmd_text
  | OSDP_CMD_KEYSET osdp_cmd_keyset
  | OSDP_CMD_COMSET osdp_cmd_comset
  | OSDP_CMD_MFG osdp_cmd_mfg
  | OSDP_CMD_FILE_TX osdp_cmd_file_tx
  | OSDP_CMD_STATUS osdp_status_report
  | OSDP_CMD_COMSET_DONE osdp_cmd_comset
  | OSDP_CMD_NOTIFICATION osdp_notification
  | OSDP_CMD_BIOREAD osdp_cmd_bioread
  | OSDP_CMD_BIOMATCH osdp_cmd_biomatch
  | OSDP_CMD_TDSET osdp_cmd_tdset
  | OSDP_CMD_PIVDATA osdp_cmd_pivdata
  | OSDP_CMD_GENAUTH osdp_cmd_auth
  | OSDP_CMD_CRAUTH osdp_cmd_auth
  | OSDP_CMD_XWR

text \<open>The number of a command, \<open>enum osdp_cmd_e\<close>.\<close>

fun osdp_cmd_e :: "osdp_cmd_u \<Rightarrow> int" where
  "osdp_cmd_e (OSDP_CMD_OUTPUT _) = 1"
| "osdp_cmd_e (OSDP_CMD_LED _) = 2"
| "osdp_cmd_e (OSDP_CMD_BUZZER _) = 3"
| "osdp_cmd_e (OSDP_CMD_TEXT _) = 4"
| "osdp_cmd_e (OSDP_CMD_KEYSET _) = 5"
| "osdp_cmd_e (OSDP_CMD_COMSET _) = 6"
| "osdp_cmd_e (OSDP_CMD_MFG _) = 7"
| "osdp_cmd_e (OSDP_CMD_FILE_TX _) = 8"
| "osdp_cmd_e (OSDP_CMD_STATUS _) = 9"
| "osdp_cmd_e (OSDP_CMD_COMSET_DONE _) = 10"
| "osdp_cmd_e (OSDP_CMD_NOTIFICATION _) = 11"
| "osdp_cmd_e (OSDP_CMD_BIOREAD _) = 12"
| "osdp_cmd_e (OSDP_CMD_BIOMATCH _) = 13"
| "osdp_cmd_e (OSDP_CMD_TDSET _) = 14"
| "osdp_cmd_e (OSDP_CMD_PIVDATA _) = 15"
| "osdp_cmd_e (OSDP_CMD_GENAUTH _) = 16"
| "osdp_cmd_e (OSDP_CMD_CRAUTH _) = 17"
| "osdp_cmd_e OSDP_CMD_XWR = 18"

record osdp_cmd =
  cmd_flags :: u32
  cmd_u :: osdp_cmd_u

abbreviation (input) OSDP_CMD_FLAG_BROADCAST :: u32 where "OSDP_CMD_FLAG_BROADCAST \<equiv> 1"
abbreviation (input) OSDP_STATUS_REPORT_MAX_LEN :: int where "OSDP_STATUS_REPORT_MAX_LEN \<equiv> 64"
abbreviation (input) OSDP_CMD_TEXT_MAX_LEN :: nat where "OSDP_CMD_TEXT_MAX_LEN \<equiv> 32"
abbreviation (input) OSDP_CMD_MFG_MAX_DATALEN :: nat where "OSDP_CMD_MFG_MAX_DATALEN \<equiv> 64"
abbreviation (input) OSDP_CMD_BIOMATCH_MAX_TEMPLATE_LEN :: nat where
  "OSDP_CMD_BIOMATCH_MAX_TEMPLATE_LEN \<equiv> 128"
abbreviation (input) OSDP_PIV_DATA_MAX_LEN :: nat where "OSDP_PIV_DATA_MAX_LEN \<equiv> 256"

subsection \<open>Events\<close>

record osdp_event_cardread =
  cardread_reader_no :: int
  cardread_format :: int
  cardread_direction :: int
  cardread_length :: u16
  cardread_data :: bytes

record osdp_event_keypress =
  keypress_reader_no :: int
  keypress_length :: int
  keypress_data :: bytes

record osdp_event_mfgrep =
  mfgrep_vendor_code :: u32
  mfgrep_length :: u8
  mfgrep_data :: bytes

record osdp_event_mfgstat =
  mfgstat_length :: u8
  mfgstat_data :: bytes

record osdp_event_bioreadr =
  bioreadr_reader :: u8
  bioreadr_status :: int
  bioreadr_type :: int
  bioreadr_quality :: u8
  bioreadr_length :: u16
  bioreadr_data :: bytes

record osdp_event_biomatchr =
  biomatchr_reader :: u8
  biomatchr_status :: int
  biomatchr_score :: u8

record osdp_event_piv_reply =
  piv_reply_length :: u16
  piv_reply_data :: bytes

datatype osdp_event =
    OSDP_EVENT_CARDREAD osdp_event_cardread
  | OSDP_EVENT_KEYPRESS osdp_event_keypress
  | OSDP_EVENT_MFGREP osdp_event_mfgrep
  | OSDP_EVENT_STATUS osdp_status_report
  | OSDP_EVENT_NOTIFICATION osdp_notification
  | OSDP_EVENT_MFGSTATR osdp_event_mfgstat
  | OSDP_EVENT_MFGERRR osdp_event_mfgstat
  | OSDP_EVENT_BIOREADR osdp_event_bioreadr
  | OSDP_EVENT_BIOMATCHR osdp_event_biomatchr
  | OSDP_EVENT_PIVDATAR osdp_event_piv_reply
  | OSDP_EVENT_GENAUTHR osdp_event_piv_reply
  | OSDP_EVENT_CRAUTHR osdp_event_piv_reply

abbreviation (input) OSDP_EVENT_CARDREAD_MAX_DATALEN :: int where
  "OSDP_EVENT_CARDREAD_MAX_DATALEN \<equiv> 64"
abbreviation (input) OSDP_EVENT_KEYPRESS_MAX_DATALEN :: int where
  "OSDP_EVENT_KEYPRESS_MAX_DATALEN \<equiv> 64"
abbreviation (input) OSDP_EVENT_MFGREP_MAX_DATALEN :: int where
  "OSDP_EVENT_MFGREP_MAX_DATALEN \<equiv> 128"
abbreviation (input) OSDP_EVENT_MFGSTAT_MAX_DATALEN :: int where
  "OSDP_EVENT_MFGSTAT_MAX_DATALEN \<equiv> 128"
abbreviation (input) OSDP_EVENT_BIOREADR_MAX_TEMPLATE_LEN :: nat where
  "OSDP_EVENT_BIOREADR_MAX_TEMPLATE_LEN \<equiv> 256"

datatype osdp_completion_status =
    OSDP_COMPLETION_OK | OSDP_COMPLETION_FAILED | OSDP_COMPLETION_FLUSHED | OSDP_COMPLETION_ABORTED

subsection \<open>The reader a command or an event names\<close>

fun osdp_cmd_reader_no :: "osdp_cmd_u \<Rightarrow> int" where
  "osdp_cmd_reader_no (OSDP_CMD_LED c) = uint (led_reader c)"
| "osdp_cmd_reader_no (OSDP_CMD_BUZZER c) = uint (buzzer_reader c)"
| "osdp_cmd_reader_no (OSDP_CMD_TEXT c) = uint (text_reader c)"
| "osdp_cmd_reader_no (OSDP_CMD_BIOREAD c) = uint (bioread_reader c)"
| "osdp_cmd_reader_no (OSDP_CMD_BIOMATCH c) = uint (biomatch_reader c)"
| "osdp_cmd_reader_no _ = -1"

fun osdp_event_reader_no :: "osdp_event \<Rightarrow> int" where
  "osdp_event_reader_no (OSDP_EVENT_CARDREAD e) = cardread_reader_no e"
| "osdp_event_reader_no (OSDP_EVENT_KEYPRESS e) = keypress_reader_no e"
| "osdp_event_reader_no (OSDP_EVENT_BIOREADR e) = uint (bioreadr_reader e)"
| "osdp_event_reader_no (OSDP_EVENT_BIOMATCHR e) = uint (biomatchr_reader e)"
| "osdp_event_reader_no _ = -1"

end
