(* ===== verification/App.thy ===== *)
theory App
  imports Multipart Commands
begin

text \<open>
  The device together with its application: the state of the three feature engines (file
  transfer, smart card, biometric reading), the command and event slots of \<open>struct osdp_pd\<close>,
  and the callbacks the application registered.  A callback is a function on the application's
  own state \<open>'w\<close>; an application that calls back into the library from inside a callback is
  outside this model.  Also here: how the progress of a multi-part engine reaches the
  application (osdp_mp_pd_notify of src/src/osdp_common.c) and how a command is handed back
  (cp_complete_cmd of src/src/osdp_cp.c).

  The command and event queues are lists, first element next: the queue of the utils submodule
  by its first-in first-out contract.  Allocation of an engine's context always succeeds.
\<close>

subsection \<open>Engine contexts\<close>

text \<open>
  \<open>fo_open\<close> maps the file id and the size passed in to the return value and the size passed
  out; \<open>fo_finalize\<close> is optional and returns whether the application is finished, with the
  outcome and the delay.
\<close>

record 'w osdp_file_ops =
  fo_open :: "int \<Rightarrow> u32 \<Rightarrow> 'w \<Rightarrow> int \<times> u32 \<times> 'w"
  fo_read :: "u32 \<Rightarrow> u32 \<Rightarrow> 'w \<Rightarrow> int \<times> bytes \<times> 'w"
  fo_write :: "bytes \<Rightarrow> u32 \<Rightarrow> u32 \<Rightarrow> 'w \<Rightarrow> int \<times> 'w"
  fo_close :: "'w \<Rightarrow> int \<times> 'w"
  fo_finalize :: "('w \<Rightarrow> bool \<times> osdp_mp_outcome \<times> u16 \<times> 'w) option"

text \<open>
  The hooks of the file's engine run on the application's state and on \<open>write_failed\<close>, the
  one field of \<open>struct osdp_file\<close> they set.
\<close>

record 'w osdp_file =
  f_flags :: u32
  f_file_id :: int
  f_mp :: "('w \<times> bool) osdp_multipart"
  f_is_open :: bool
  f_keep_alive_pending :: bool
  f_write_failed :: bool
  f_finalize_tstamp :: int
  f_errors :: int
  f_in_terminal :: bool
  f_ops :: "'w osdp_file_ops"

datatype osdp_piv_phase = OSDP_PIV_IDLE | OSDP_PIV_CMD | OSDP_PIV_REPLY

record osdp_piv =
  piv_phase :: osdp_piv_phase
  piv_mp_msg :: int
  piv_app_cmd :: int
  piv_wire_cmd :: int
  piv_wire_reply :: int
  piv_event_type :: int
  piv_start_emitted :: bool
  piv_algorithm :: u8
  piv_key :: u8
  piv_req :: osdp_cmd_pivdata
  piv_tstamp :: int
  piv_mp :: "unit osdp_multipart"
  piv_data :: bytes

datatype osdp_bio_phase = OSDP_BIO_IDLE | OSDP_BIO_REPLY

record osdp_bio =
  bio_phase :: osdp_bio_phase
  bio_start_emitted :: bool
  bio_reader :: u8
  bio_status :: u8
  bio_type :: u8
  bio_quality :: u8
  bio_tstamp :: int
  bio_mp :: "unit osdp_multipart"
  bio_data :: bytes

subsection \<open>The device with its application\<close>

record 'w osdp_callbacks =
  event_callback :: "(nat \<Rightarrow> osdp_event \<Rightarrow> 'w \<Rightarrow> int \<times> 'w) option"
  command_completion_callback :: "(nat \<Rightarrow> osdp_cmd \<Rightarrow> osdp_completion_status \<Rightarrow> 'w \<Rightarrow> 'w) option"
  command_callback :: "(osdp_cmd \<Rightarrow> 'w \<Rightarrow> int \<times> osdp_cmd \<times> 'w) option"
  event_completion_callback :: "(osdp_event \<Rightarrow> osdp_completion_status \<Rightarrow> 'w \<Rightarrow> 'w) option"

record 'w osdp_dev = osdp_pd +
  pd_tearing_down :: bool
  pd_app :: 'w
  pd_cb :: "'w osdp_callbacks"
  pd_cmd_queue :: "osdp_cmd list"
  pd_event_queue :: "osdp_event list"
  pd_active_cmd :: "osdp_cmd option"
  pd_active_event :: "osdp_event option"
  pd_engine_cmd :: "osdp_cmd option"
  pd_engine_cmd_mp_type :: int
  pd_file :: "'w osdp_file option"
  pd_piv :: "osdp_piv option"
  pd_bio :: "osdp_bio option"

subsection \<open>Engine liveness\<close>

definition osdp_file_tx_is_active :: "('w, 'z) osdp_dev_scheme \<Rightarrow> bool" where
  "osdp_file_tx_is_active pd =
     (case pd_file pd of None \<Rightarrow> False | Some f \<Rightarrow> osdp_mp_is_active (f_mp f))"

definition osdp_piv_is_active :: "('w, 'z) osdp_dev_scheme \<Rightarrow> bool" where
  "osdp_piv_is_active pd =
     (case pd_piv pd of None \<Rightarrow> False | Some p \<Rightarrow> piv_phase p \<noteq> OSDP_PIV_IDLE)"

definition osdp_bio_is_active :: "('w, 'z) osdp_dev_scheme \<Rightarrow> bool" where
  "osdp_bio_is_active pd =
     (case pd_bio pd of None \<Rightarrow> False | Some b \<Rightarrow> bio_phase b \<noteq> OSDP_BIO_IDLE)"

definition osdp_mp_engine_busy :: "('w, 'z) osdp_dev_scheme \<Rightarrow> bool" where
  "osdp_mp_engine_busy pd =
     (osdp_file_tx_is_active pd \<or> osdp_piv_is_active pd \<or> osdp_bio_is_active pd)"

subsection \<open>Handing commands back, and progress\<close>

definition cp_complete_cmd ::
  "osdp_cmd option \<Rightarrow> osdp_completion_status \<Rightarrow> ('w, 'z) osdp_dev_scheme \<Rightarrow> ('w, 'z) osdp_dev_scheme" where
  "cp_complete_cmd c status pd =
     (case (c, command_completion_callback (pd_cb pd)) of
        (Some cmd, Some cb) \<Rightarrow> pd\<lparr>pd_app := cb (pd_idx pd) cmd status (pd_app pd)\<rparr>
      | _ \<Rightarrow> pd)"

definition cp_complete_engine_cmd ::
  "osdp_cmd \<Rightarrow> osdp_completion_status \<Rightarrow> ('w, 'z) osdp_dev_scheme \<Rightarrow> ('w, 'z) osdp_dev_scheme" where
  "cp_complete_engine_cmd cmd status pd = cp_complete_cmd (Some cmd) status pd"

definition cp_own_engine_cmd ::
  "osdp_cmd option \<Rightarrow> int \<Rightarrow> ('w, 'z) osdp_dev_scheme \<Rightarrow> ('w, 'z) osdp_dev_scheme" where
  "cp_own_engine_cmd cmd mp_type pd = pd\<lparr>pd_engine_cmd := cmd, pd_engine_cmd_mp_type := mp_type\<rparr>"

definition engine_status :: "('w, 'z) osdp_dev_scheme \<Rightarrow> int \<Rightarrow> osdp_completion_status" where
  "engine_status pd outcome =
     (if pd_tearing_down pd then OSDP_COMPLETION_ABORTED
      else if outcome = mp_outcome_val OSDP_MP_OUTCOME_OK \<or>
              outcome = mp_outcome_val OSDP_MP_OUTCOME_OK_REBOOTING then OSDP_COMPLETION_OK
      else OSDP_COMPLETION_FAILED)"

definition mp_notif :: "osdp_mp_progress \<Rightarrow> osdp_notification" where
  "mp_notif p =
     (let n = \<lparr>mpn_mp_type = mpp_msg_type p, mpn_object_id = mpp_object_id p, mpn_total = mpp_total p,
               mpn_offset = mpp_offset p, mpn_outcome = mpp_outcome p\<rparr>
      in case mpp_phase p of
           OSDP_MP_PHASE_START \<Rightarrow> OSDP_NOTIFICATION_MP_START n
         | OSDP_MP_PHASE_PROGRESS \<Rightarrow> OSDP_NOTIFICATION_MP_PROGRESS n
         | OSDP_MP_PHASE_DONE \<Rightarrow> OSDP_NOTIFICATION_MP_DONE n)"

definition mp_deliver_notification ::
  "osdp_mp_progress \<Rightarrow> ('w, 'z) osdp_dev_scheme \<Rightarrow> ('w, 'z) osdp_dev_scheme" where
  "mp_deliver_notification p pd =
     (if \<not> is_notifications_enabled pd then pd
      else if is_cp_mode pd
      then (case event_callback (pd_cb pd) of
              None \<Rightarrow> pd
            | Some cb \<Rightarrow>
                osdp_metrics_report OSDP_METRIC_EVENT
                  (pd\<lparr>pd_app := snd (cb (pd_idx pd) (OSDP_EVENT_NOTIFICATION (mp_notif p)) (pd_app pd))\<rparr>))
      else (case command_callback (pd_cb pd) of
              None \<Rightarrow> pd
            | Some cb \<Rightarrow>
                osdp_metrics_report OSDP_METRIC_EVENT
                  (pd\<lparr>pd_app := snd (snd (cb \<lparr>cmd_flags = 0, cmd_u = OSDP_CMD_NOTIFICATION (mp_notif p)\<rparr>
                                         (pd_app pd)))\<rparr>)))"

definition osdp_mp_pd_notify ::
  "osdp_mp_progress \<Rightarrow> ('w, 'z) osdp_dev_scheme \<Rightarrow> ('w, 'z) osdp_dev_scheme" where
  "osdp_mp_pd_notify p pd =
     (let pd = mp_deliver_notification p pd
      in case pd_engine_cmd pd of
           None \<Rightarrow> pd
         | Some cmd \<Rightarrow>
             if mpp_phase p = OSDP_MP_PHASE_DONE \<and> is_cp_mode pd \<and>
                mpp_msg_type p = pd_engine_cmd_mp_type pd
             then cp_complete_engine_cmd cmd (engine_status pd (mpp_outcome p)) (pd\<lparr>pd_engine_cmd := None\<rparr>)
             else pd)"

text \<open>The records an engine call emitted, delivered in order.\<close>

definition mp_notify_all ::
  "osdp_mp_progress list \<Rightarrow> ('w, 'z) osdp_dev_scheme \<Rightarrow> ('w, 'z) osdp_dev_scheme" where
  "mp_notify_all ps pd = fold osdp_mp_pd_notify ps pd"

definition cp_dispatch_event ::
  "osdp_event \<Rightarrow> ('w, 'z) osdp_dev_scheme \<Rightarrow> ('w, 'z) osdp_dev_scheme" where
  "cp_dispatch_event ev pd =
     (case event_callback (pd_cb pd) of
        None \<Rightarrow> pd
      | Some cb \<Rightarrow> osdp_metrics_report OSDP_METRIC_EVENT
                     (pd\<lparr>pd_app := snd (cb (pd_idx pd) ev (pd_app pd))\<rparr>))"

subsection \<open>What reporting leaves alone\<close>

lemma metrics_report_dev [simp]:
  "pd_file (osdp_metrics_report e pd) = pd_file pd" "pd_piv (osdp_metrics_report e pd) = pd_piv pd"
  "pd_bio (osdp_metrics_report e pd) = pd_bio pd" "pd_cb (osdp_metrics_report e pd) = pd_cb pd"
  "pd_app (osdp_metrics_report e pd) = pd_app pd" "pd_engine_cmd (osdp_metrics_report e pd) = pd_engine_cmd pd"
  "pd_engine_cmd_mp_type (osdp_metrics_report e pd) = pd_engine_cmd_mp_type pd"
  "osdp_metrics_report e (pd\<lparr>pd_file := f\<rparr>) = (osdp_metrics_report e pd)\<lparr>pd_file := f\<rparr>"
  "osdp_metrics_report e (pd\<lparr>pd_piv := q\<rparr>) = (osdp_metrics_report e pd)\<lparr>pd_piv := q\<rparr>"
  "osdp_metrics_report e (pd\<lparr>pd_bio := b\<rparr>) = (osdp_metrics_report e pd)\<lparr>pd_bio := b\<rparr>"
  by (simp_all add: osdp_metrics_report_def)

lemma make_request_dev [simp]:
  "pd_app (make_request r pd) = pd_app pd" "pd_engine_cmd (make_request r pd) = pd_engine_cmd pd"
  "pd_file (make_request r pd) = pd_file pd" "pd_piv (make_request r pd) = pd_piv pd"
  "pd_bio (make_request r pd) = pd_bio pd" "pd_cb (make_request r pd) = pd_cb pd"
  by (simp_all add: make_request_def)

lemma cp_complete_cmd_frame [simp]:
  "pd_file (cp_complete_cmd c st pd) = pd_file pd" "pd_piv (cp_complete_cmd c st pd) = pd_piv pd"
  "pd_bio (cp_complete_cmd c st pd) = pd_bio pd" "pd_ctx (cp_complete_cmd c st pd) = pd_ctx pd"
  "pd_flags (cp_complete_cmd c st pd) = pd_flags pd" "pd_cb (cp_complete_cmd c st pd) = pd_cb pd"
  "pd_engine_cmd (cp_complete_cmd c st pd) = pd_engine_cmd pd"
  "pd_request (cp_complete_cmd c st pd) = pd_request pd" "pd_state (cp_complete_cmd c st pd) = pd_state pd"
  by (auto simp: cp_complete_cmd_def split: option.split)

lemma mp_deliver_frame [simp]:
  "pd_file (mp_deliver_notification p pd) = pd_file pd" "pd_piv (mp_deliver_notification p pd) = pd_piv pd"
  "pd_bio (mp_deliver_notification p pd) = pd_bio pd" "pd_ctx (mp_deliver_notification p pd) = pd_ctx pd"
  "pd_flags (mp_deliver_notification p pd) = pd_flags pd" "pd_cb (mp_deliver_notification p pd) = pd_cb pd"
  "pd_engine_cmd (mp_deliver_notification p pd) = pd_engine_cmd pd"
  "pd_engine_cmd_mp_type (mp_deliver_notification p pd) = pd_engine_cmd_mp_type pd"
  "pd_request (mp_deliver_notification p pd) = pd_request pd" "pd_state (mp_deliver_notification p pd) = pd_state pd"
  by (auto simp: mp_deliver_notification_def split: option.split)

lemma mp_pd_notify_frame [simp]:
  "pd_file (osdp_mp_pd_notify p pd) = pd_file pd" "pd_piv (osdp_mp_pd_notify p pd) = pd_piv pd"
  "pd_bio (osdp_mp_pd_notify p pd) = pd_bio pd" "pd_ctx (osdp_mp_pd_notify p pd) = pd_ctx pd"
  "pd_flags (osdp_mp_pd_notify p pd) = pd_flags pd" "pd_cb (osdp_mp_pd_notify p pd) = pd_cb pd"
  "pd_request (osdp_mp_pd_notify p pd) = pd_request pd" "pd_state (osdp_mp_pd_notify p pd) = pd_state pd"
  by (auto simp: osdp_mp_pd_notify_def Let_def cp_complete_engine_cmd_def split: option.split)

lemma mp_notify_all_simps [simp]:
  "mp_notify_all [] pd = pd"
  "mp_notify_all (p # ps) pd = mp_notify_all ps (osdp_mp_pd_notify p pd)"
  "mp_notify_all (ps @ qs) pd = mp_notify_all qs (mp_notify_all ps pd)"
  by (simp_all add: mp_notify_all_def)

lemma mp_notify_all_frame [simp]:
  "pd_file (mp_notify_all ps pd) = pd_file pd" "pd_piv (mp_notify_all ps pd) = pd_piv pd"
  "pd_bio (mp_notify_all ps pd) = pd_bio pd" "pd_ctx (mp_notify_all ps pd) = pd_ctx pd"
  "pd_flags (mp_notify_all ps pd) = pd_flags pd" "pd_cb (mp_notify_all ps pd) = pd_cb pd"
  "pd_request (mp_notify_all ps pd) = pd_request pd" "pd_state (mp_notify_all ps pd) = pd_state pd"
  by (induction ps arbitrary: pd) simp_all

lemma flags_frame_eq:
  "pd_flags pd' = pd_flags pd \<Longrightarrow> is_cp_mode pd' = is_cp_mode pd"
  "pd_flags pd' = pd_flags pd \<Longrightarrow> is_notifications_enabled pd' = is_notifications_enabled pd"
  "pd_flags pd' = pd_flags pd \<Longrightarrow> sc_is_active pd' = sc_is_active pd"
  by (simp_all add: flag_defs ISSET_FLAG_def)

lemma is_cp_mode_dev [simp]:
  "is_cp_mode (pd\<lparr>pd_app := w\<rparr>) = is_cp_mode pd" "is_cp_mode (pd\<lparr>pd_file := f\<rparr>) = is_cp_mode pd"
  "is_cp_mode (pd\<lparr>pd_piv := q\<rparr>) = is_cp_mode pd" "is_cp_mode (pd\<lparr>pd_bio := b\<rparr>) = is_cp_mode pd"
  "is_cp_mode (pd\<lparr>pd_engine_cmd := c\<rparr>) = is_cp_mode pd"
  "is_cp_mode (mp_notify_all ps pd) = is_cp_mode pd" "is_cp_mode (osdp_mp_pd_notify p pd) = is_cp_mode pd"
  by (rule flags_frame_eq; simp)+

lemma is_notifications_enabled_dev [simp]:
  "is_notifications_enabled (pd\<lparr>pd_app := w\<rparr>) = is_notifications_enabled pd"
  "is_notifications_enabled (pd\<lparr>pd_file := f\<rparr>) = is_notifications_enabled pd"
  "is_notifications_enabled (pd\<lparr>pd_piv := q\<rparr>) = is_notifications_enabled pd"
  "is_notifications_enabled (pd\<lparr>pd_bio := b\<rparr>) = is_notifications_enabled pd"
  by (rule flags_frame_eq; simp)+

lemma cp_complete_cmd_engine [simp]:
  "cp_complete_cmd c st (pd\<lparr>pd_file := f\<rparr>) = (cp_complete_cmd c st pd)\<lparr>pd_file := f\<rparr>"
  "cp_complete_cmd c st (pd\<lparr>pd_piv := q\<rparr>) = (cp_complete_cmd c st pd)\<lparr>pd_piv := q\<rparr>"
  "cp_complete_cmd c st (pd\<lparr>pd_bio := b\<rparr>) = (cp_complete_cmd c st pd)\<lparr>pd_bio := b\<rparr>"
  by (auto simp: cp_complete_cmd_def split: option.split)

lemma mp_deliver_engine [simp]:
  "mp_deliver_notification p (pd\<lparr>pd_file := f\<rparr>) = (mp_deliver_notification p pd)\<lparr>pd_file := f\<rparr>"
  "mp_deliver_notification p (pd\<lparr>pd_piv := q\<rparr>) = (mp_deliver_notification p pd)\<lparr>pd_piv := q\<rparr>"
  "mp_deliver_notification p (pd\<lparr>pd_bio := b\<rparr>) = (mp_deliver_notification p pd)\<lparr>pd_bio := b\<rparr>"
  by (auto simp: mp_deliver_notification_def osdp_metrics_report_def split: option.split)

text \<open>Reporting commutes with an update of an engine's context.\<close>

lemma mp_pd_notify_engine [simp]:
  "osdp_mp_pd_notify p (pd\<lparr>pd_file := f\<rparr>) = (osdp_mp_pd_notify p pd)\<lparr>pd_file := f\<rparr>"
  "osdp_mp_pd_notify p (pd\<lparr>pd_piv := q\<rparr>) = (osdp_mp_pd_notify p pd)\<lparr>pd_piv := q\<rparr>"
  "osdp_mp_pd_notify p (pd\<lparr>pd_bio := b\<rparr>) = (osdp_mp_pd_notify p pd)\<lparr>pd_bio := b\<rparr>"
proof -
  have u: "pd\<lparr>pd_file := f, pd_engine_cmd := None\<rparr> = pd\<lparr>pd_engine_cmd := None, pd_file := f\<rparr>"
    "pd\<lparr>pd_piv := q, pd_engine_cmd := None\<rparr> = pd\<lparr>pd_engine_cmd := None, pd_piv := q\<rparr>"
    "pd\<lparr>pd_bio := b, pd_engine_cmd := None\<rparr> = pd\<lparr>pd_engine_cmd := None, pd_bio := b\<rparr>" for pd :: "('a, 'b) osdp_dev_scheme"
    by simp_all
  show "osdp_mp_pd_notify p (pd\<lparr>pd_file := f\<rparr>) = (osdp_mp_pd_notify p pd)\<lparr>pd_file := f\<rparr>"
    "osdp_mp_pd_notify p (pd\<lparr>pd_piv := q\<rparr>) = (osdp_mp_pd_notify p pd)\<lparr>pd_piv := q\<rparr>"
    "osdp_mp_pd_notify p (pd\<lparr>pd_bio := b\<rparr>) = (osdp_mp_pd_notify p pd)\<lparr>pd_bio := b\<rparr>"
    by (auto simp: osdp_mp_pd_notify_def Let_def cp_complete_engine_cmd_def engine_status_def u split: option.split)
qed

lemma mp_notify_all_engine [simp]:
  "mp_notify_all ps (pd\<lparr>pd_file := f\<rparr>) = (mp_notify_all ps pd)\<lparr>pd_file := f\<rparr>"
  "mp_notify_all ps (pd\<lparr>pd_piv := q\<rparr>) = (mp_notify_all ps pd)\<lparr>pd_piv := q\<rparr>"
  "mp_notify_all ps (pd\<lparr>pd_bio := b\<rparr>) = (mp_notify_all ps pd)\<lparr>pd_bio := b\<rparr>"
  by (induction ps arbitrary: pd) simp_all

lemma mp_notify_all_quiet:
  "\<not> is_notifications_enabled pd \<Longrightarrow> pd_engine_cmd pd = None \<Longrightarrow> mp_notify_all ps pd = pd"
  by (induction ps) (simp_all add: osdp_mp_pd_notify_def mp_deliver_notification_def Let_def)

text \<open>Only the final record of a transfer touches the command an engine holds.\<close>

lemma notify_not_done:
  "mpp_phase p \<noteq> OSDP_MP_PHASE_DONE \<Longrightarrow> osdp_mp_pd_notify p pd = mp_deliver_notification p pd"
  by (simp add: osdp_mp_pd_notify_def Let_def split: option.split)

lemma emit_start_engine_cmd [simp]:
  "pd_engine_cmd (mp_notify_all (snd (osdp_mp_emit_start mp)) pd) = pd_engine_cmd pd"
  "pd_engine_cmd_mp_type (mp_notify_all (snd (osdp_mp_emit_start mp)) pd) = pd_engine_cmd_mp_type pd"
  by (simp_all add: osdp_mp_emit_start_def mp_emit_def Let_def notify_not_done)

lemma notify_done_engine_cmd:
  "is_cp_mode pd \<Longrightarrow> mpp_phase p = OSDP_MP_PHASE_DONE \<Longrightarrow> mpp_msg_type p = pd_engine_cmd_mp_type pd \<Longrightarrow>
   pd_engine_cmd (osdp_mp_pd_notify p pd) = None"
  using flags_frame_eq(1) [of "mp_deliver_notification p pd" pd]
  by (auto simp: osdp_mp_pd_notify_def Let_def cp_complete_engine_cmd_def split: option.split)

text \<open>A device before setup, with an application.\<close>

definition no_callbacks :: "'w osdp_callbacks" where
  "no_callbacks = \<lparr>event_callback = None, command_completion_callback = None, command_callback = None,
     event_completion_callback = None\<rparr>"

definition dev_zero :: "'w osdp_callbacks \<Rightarrow> 'w \<Rightarrow> 'w osdp_dev" where
  "dev_zero cb w = osdp_pd.extend (pd_zero True)
     (osdp_dev.fields False w cb [] [] None None None 0 None None None)"

lemma dev_zero_simps [simp]:
  "pd_flags (dev_zero cb w) = 0" "pd_cb (dev_zero cb w) = cb" "pd_app (dev_zero cb w) = w"
  "pd_file (dev_zero cb w) = None" "pd_piv (dev_zero cb w) = None" "pd_bio (dev_zero cb w) = None"
  "pd_cmd_queue (dev_zero cb w) = []" "pd_active_cmd (dev_zero cb w) = None"
  "pd_engine_cmd (dev_zero cb w) = None" "pd_event_queue (dev_zero cb w) = []"
  "pd_active_event (dev_zero cb w) = None" "pd_request (dev_zero cb w) = 0" "pd_idx (dev_zero cb w) = 0"
  "pd_ctx (dev_zero cb w) = pd_ctx (pd_zero True)"
  by (simp_all add: dev_zero_def osdp_pd.defs osdp_dev.defs pd_zero_def)

lemma dev_zero_cp [simp]: "is_cp_mode (dev_zero cb w)" "\<not> is_pd_mode (dev_zero cb w)"
  by (simp_all add: flag_defs ISSET_FLAG_def)

end
