(* ===== verification/File_Transfer.thy ===== *)
theory File_Transfer
  imports App Multipart_Transfer
begin

text \<open>
  File transfer, src/src/osdp_file.c: the CP sends a file in fragments, the PD stores them
  through the application's file operations and answers each with an FTSTAT status.  The
  messages are modelled with every branch; the assertions of a debug build are left out.
\<close>

abbreviation (input) OSDP_FILE_TX_STATUS_ACK :: int where "OSDP_FILE_TX_STATUS_ACK \<equiv> 0"
abbreviation (input) OSDP_FILE_TX_STATUS_CONTENTS_PROCESSED :: int where
  "OSDP_FILE_TX_STATUS_CONTENTS_PROCESSED \<equiv> 1"
abbreviation (input) OSDP_FILE_TX_STATUS_PD_RESET :: int where "OSDP_FILE_TX_STATUS_PD_RESET \<equiv> 2"
abbreviation (input) OSDP_FILE_TX_STATUS_KEEP_ALIVE :: int where "OSDP_FILE_TX_STATUS_KEEP_ALIVE \<equiv> 3"
abbreviation (input) OSDP_FILE_TX_STATUS_ERR_ABORT :: int where "OSDP_FILE_TX_STATUS_ERR_ABORT \<equiv> - 1"
abbreviation (input) OSDP_FILE_TX_STATUS_ERR_UNKNOWN :: int where "OSDP_FILE_TX_STATUS_ERR_UNKNOWN \<equiv> - 2"
abbreviation (input) OSDP_FILE_TX_STATUS_ERR_INVALID :: int where "OSDP_FILE_TX_STATUS_ERR_INVALID \<equiv> - 3"

abbreviation (input) OSDP_FILE_TX_FLAG_EXCLUSIVE :: nat where "OSDP_FILE_TX_FLAG_EXCLUSIVE \<equiv> 24"
abbreviation (input) OSDP_FILE_TX_FLAG_PLAIN_TEXT :: nat where "OSDP_FILE_TX_FLAG_PLAIN_TEXT \<equiv> 25"
abbreviation (input) OSDP_FILE_TX_FLAG_POLL_RESP :: nat where "OSDP_FILE_TX_FLAG_POLL_RESP \<equiv> 26"

abbreviation (input) OSDP_FILE_ERROR_RETRY_MAX :: int where "OSDP_FILE_ERROR_RETRY_MAX \<equiv> 10"
abbreviation (input) OSDP_FILE_FINALIZE_TIMEOUT_MS :: int where "OSDP_FILE_FINALIZE_TIMEOUT_MS \<equiv> 30000"

abbreviation (input) FILE_STAT_SIZE :: int where "FILE_STAT_SIZE \<equiv> 7"

subsection \<open>State\<close>

definition file_mp_read :: "'w osdp_file_ops \<Rightarrow> u32 \<Rightarrow> u32 \<Rightarrow> 'w \<times> bool \<Rightarrow> int \<times> bytes \<times> 'w \<times> bool" where
  "file_mp_read ops sz offset s =
     (let (n, bs, w) = fo_read ops sz offset (fst s) in (n, bs, w, snd s))"

definition file_mp_write :: "'w osdp_file_ops \<Rightarrow> bytes \<Rightarrow> u32 \<Rightarrow> u32 \<Rightarrow> 'w \<times> bool \<Rightarrow> int \<times> 'w \<times> bool" where
  "file_mp_write ops buf sz offset s =
     (let (n, w) = fo_write ops buf sz offset (fst s)
      in if n \<noteq> sint sz then (OSDP_MP_RX_ABORT, w, True) else (OSDP_MP_RX_OK, w, snd s))"

definition file_state_reset :: "'w osdp_file \<Rightarrow> 'w osdp_file" where
  "file_state_reset f =
     f\<lparr>f_flags := 0, f_errors := 0, f_is_open := False, f_keep_alive_pending := False,
       f_write_failed := False, f_finalize_tstamp := 0, f_file_id := 0, f_in_terminal := False,
       f_mp := osdp_mp_set_event_cb
                 (osdp_mp_bind_ops osdp_mp_reset (MP_OPS_HOOKS (file_mp_read (f_ops f)) (file_mp_write (f_ops f))))
                 True\<rparr>"

definition file_close_if_open :: "'w osdp_file \<Rightarrow> 'w \<Rightarrow> 'w osdp_file \<times> 'w" where
  "file_close_if_open f w =
     (if f_is_open f then (f\<lparr>f_is_open := False\<rparr>, snd (fo_close (f_ops f) w)) else (f, w))"

definition file_transition_done ::
  "osdp_mp_outcome \<Rightarrow> ('w, 'z) osdp_dev_scheme \<Rightarrow> ('w, 'z) osdp_dev_scheme" where
  "file_transition_done outcome pd =
     (case pd_file pd of
        None \<Rightarrow> pd
      | Some f \<Rightarrow>
          let (mp, ev) = osdp_mp_emit_start (f_mp f);
              f = f\<lparr>f_in_terminal := True, f_mp := mp\<rparr>;
              pd = mp_notify_all ev (pd\<lparr>pd_file := Some f\<rparr>);
              (mp, ev) = osdp_mp_finish (f_mp f) (mp_outcome_val outcome);
              f = f\<lparr>f_mp := mp\<rparr>;
              pd = mp_notify_all ev (pd\<lparr>pd_file := Some f\<rparr>);
              (f, w) = file_close_if_open f (pd_app pd);
              pd = pd\<lparr>pd_file := Some f, pd_app := w\<rparr>;
              pd = (if is_cp_mode pd \<and> outcome = OSDP_MP_OUTCOME_OK_REBOOTING
                    then make_request CP_REQ_OFFLINE pd else pd)
          in pd\<lparr>pd_file := Some (file_state_reset f)\<rparr>)"

definition file_outcome_from_wire_status :: "int \<Rightarrow> osdp_mp_outcome" where
  "file_outcome_from_wire_status status =
     (if status = OSDP_FILE_TX_STATUS_CONTENTS_PROCESSED then OSDP_MP_OUTCOME_OK
      else if status = OSDP_FILE_TX_STATUS_PD_RESET then OSDP_MP_OUTCOME_OK_REBOOTING
      else if status = OSDP_FILE_TX_STATUS_ERR_UNKNOWN then OSDP_MP_OUTCOME_UNRECOGNIZED
      else if status = OSDP_FILE_TX_STATUS_ERR_INVALID then OSDP_MP_OUTCOME_INVALID
      else OSDP_MP_OUTCOME_ABORTED)"

fun file_wire_status_from_outcome :: "osdp_mp_outcome \<Rightarrow> int" where
  "file_wire_status_from_outcome OSDP_MP_OUTCOME_OK = OSDP_FILE_TX_STATUS_CONTENTS_PROCESSED"
| "file_wire_status_from_outcome OSDP_MP_OUTCOME_OK_REBOOTING = OSDP_FILE_TX_STATUS_PD_RESET"
| "file_wire_status_from_outcome OSDP_MP_OUTCOME_UNRECOGNIZED = OSDP_FILE_TX_STATUS_ERR_UNKNOWN"
| "file_wire_status_from_outcome OSDP_MP_OUTCOME_INVALID = OSDP_FILE_TX_STATUS_ERR_INVALID"
| "file_wire_status_from_outcome OSDP_MP_OUTCOME_ABORTED = OSDP_FILE_TX_STATUS_ERR_ABORT"

definition file_flag :: "'w osdp_file \<Rightarrow> nat \<Rightarrow> bool" where
  "file_flag f b \<longleftrightarrow> f_flags f AND BIT b = BIT b"

definition set_file_flag :: "nat \<Rightarrow> bool \<Rightarrow> 'w osdp_file \<Rightarrow> 'w osdp_file" where
  "set_file_flag b v f =
     f\<lparr>f_flags := (if v then f_flags f OR BIT b else f_flags f AND NOT (BIT b))\<rparr>"

subsection \<open>Sender\<close>

text \<open>
  The return value, the packet space from the byte behind the command byte, and the device.
  The caller has checked that a transfer is active.
\<close>

definition osdp_file_cmd_tx_build ::
  "('w, 'z) osdp_dev_scheme \<Rightarrow> bytes \<Rightarrow> int \<Rightarrow> int \<times> bytes \<times> ('w, 'z) osdp_dev_scheme" where
  "osdp_file_cmd_tx_build pd buf max_len =
     (case pd_file pd of
        None \<Rightarrow> (-1, buf, pd)
      | Some f \<Rightarrow>
     let hdr = 1 + int (OSDP_MP_HDR_SIZE OSDP_MP_W32);
         abort = (\<lambda>buf pd. (-1, buf, file_transition_done OSDP_MP_OUTCOME_ABORTED pd))
     in if max_len \<le> hdr then abort buf pd
        else if mp_state (f_mp f) = OSDP_MP_WAIT \<and> mp_offset (f_mp f) = mp_total (f_mp f)
        then let (n, b, mp) = osdp_mp_tx_build_idle (f_mp f) (drop 1 buf)
             in (1 + int n, (take 1 buf @ b)[0 := word_of_int (f_file_id f)],
                 pd\<lparr>pd_file := Some (f\<lparr>f_mp := mp\<rparr>)\<rparr>)
        else
     let engine_max = (max_len - 1) - OSDP_MP_SC_RESERVE
     in if engine_max \<le> int (OSDP_MP_HDR_SIZE OSDP_MP_W32) then abort buf pd
        else
     let (n, b, mp, w, wf) = osdp_mp_tx_build (f_mp f) (drop 1 buf) engine_max (pd_app pd, f_write_failed f);
         buf = take 1 buf @ b;
         f = f\<lparr>f_mp := mp, f_write_failed := wf\<rparr>;
         pd = pd\<lparr>pd_app := w, pd_file := Some f\<rparr>
     in if n < 0 then abort buf pd
        else
     let buf = buf[0 := word_of_int (f_file_id f)]
     in if mp_last_len mp = 0
        then (1 + n, buf,
              if mp_state mp = OSDP_MP_WAIT then pd\<lparr>pd_file := Some (f\<lparr>f_errors := f_errors f + 1\<rparr>)\<rparr>
              else pd)
        else (1 + n, buf, pd\<lparr>pd_file := Some (f\<lparr>f_errors := 0\<rparr>)\<rparr>))"

text \<open>\<open>buf\<close> holds the \<open>len\<close> data bytes of an FTSTAT reply.\<close>

definition osdp_file_cmd_stat_decode ::
  "('w, 'z) osdp_dev_scheme \<Rightarrow> bytes \<Rightarrow> int \<Rightarrow> int \<times> ('w, 'z) osdp_dev_scheme" where
  "osdp_file_cmd_stat_decode pd buf len =
     (case pd_file pd of
        None \<Rightarrow> (-1, pd)
      | Some f \<Rightarrow>
     if \<not> osdp_mp_is_active (f_mp f) then (-1, pd)
     else if len < FILE_STAT_SIZE then (-1, pd)
     else
     let control = buf ! 0;
         (delay, pos) = bread_u16_le buf 1;
         (st, pos) = bread_u16_le buf pos;
         status = sint st;
         f = set_file_flag OSDP_FILE_TX_FLAG_EXCLUSIVE (control AND 1 = 0) f;
         f = set_file_flag OSDP_FILE_TX_FLAG_PLAIN_TEXT (control AND 2 \<noteq> 0) f;
         f = set_file_flag OSDP_FILE_TX_FLAG_POLL_RESP (control AND 4 \<noteq> 0) f;
         (mp, ev) = osdp_mp_tx_commit (f_mp f);
         pd = mp_notify_all ev (pd\<lparr>pd_file := Some (f\<lparr>f_mp := mp\<rparr>)\<rparr>);
         mp = osdp_mp_set_wait (osdp_millis_now pd) mp (ucast delay);
         f = f\<lparr>f_mp := mp\<rparr>;
         pd = pd\<lparr>pd_file := Some f\<rparr>
     in if status < 0 then (0, file_transition_done (file_outcome_from_wire_status status) pd)
        else if mp_offset mp \<noteq> mp_total mp then (0, pd)
        else if status = OSDP_FILE_TX_STATUS_KEEP_ALIVE
        then (0, pd\<lparr>pd_file := Some (f\<lparr>f_mp := osdp_mp_park mp\<rparr>)\<rparr>)
        else (0, file_transition_done (file_outcome_from_wire_status status) pd))"

subsection \<open>Receiver\<close>

text \<open>
  The first frame of a transfer: its header is read for the size, the application is told,
  opens the file, and the engine is armed.  \<open>None\<close> refuses the frame.
\<close>

definition file_rx_open ::
  "('w, 'z) osdp_dev_scheme \<Rightarrow> 'w osdp_file \<Rightarrow> bytes \<Rightarrow> int \<Rightarrow> bool \<times> ('w, 'z) osdp_dev_scheme" where
  "file_rx_open pd f buf len =
     (let type = uint (buf ! 0)
      in case osdp_mp_hdr_read OSDP_MP_W32 (drop 1 buf) (len - 1) of
           None \<Rightarrow> (False, pd)
         | Some (tot, off, dlen, _) \<Rightarrow>
     if uint dlen > len - 1 - int (OSDP_MP_HDR_SIZE OSDP_MP_W32) then (False, pd)
     else
     let (r, w) = (case command_callback (pd_cb pd) of
                     None \<Rightarrow> (0, pd_app pd)
                   | Some cb \<Rightarrow>
                       (let (r, _, w) = cb \<lparr>cmd_flags = 0, cmd_u = OSDP_CMD_FILE_TX
                                              \<lparr>file_tx_id = type, file_tx_flags = f_flags f\<rparr>\<rparr> (pd_app pd)
                        in (r, w)));
         pd = pd\<lparr>pd_app := w\<rparr>
     in if r < 0 then (False, pd)
        else
     let (r, _, w) = fo_open (f_ops f) type tot (pd_app pd);
         pd = pd\<lparr>pd_app := w\<rparr>
     in if r < 0 then (False, pd)
        else
     let f = (file_state_reset f)\<lparr>f_file_id := type, f_is_open := True\<rparr>;
         mp = osdp_mp_set_identity (f_mp f) OSDP_MP_MSG_FILE_TRANSFER type;
         (mp, ev) = osdp_mp_emit_start (osdp_mp_rx_init mp OSDP_MP_W32 tot)
     in (True, mp_notify_all ev (pd\<lparr>pd_file := Some (f\<lparr>f_mp := mp\<rparr>)\<rparr>)))"

definition file_rx_consume ::
  "('w, 'z) osdp_dev_scheme \<Rightarrow> 'w osdp_file \<Rightarrow> bytes \<Rightarrow> int \<Rightarrow> bool \<Rightarrow> int \<times> ('w, 'z) osdp_dev_scheme" where
  "file_rx_consume pd f buf len opened_now =
     (let (mrc, mp, w, wf) =
            osdp_mp_rx_consume (f_mp f) (drop 1 buf) (len - 1) (pd_app pd, f_write_failed f);
          f = f\<lparr>f_mp := mp, f_write_failed := wf\<rparr>;
          pd = pd\<lparr>pd_app := w, pd_file := Some f\<rparr>
      in if mrc = OSDP_MP_RC_ERR \<and> f_write_failed f then (0, pd)
         else if mrc = OSDP_MP_RC_ERR
         then let pd = pd\<lparr>pd_file := Some (f\<lparr>f_errors := f_errors f + 1\<rparr>)\<rparr>
              in (-1, if opened_now then file_transition_done OSDP_MP_OUTCOME_ABORTED pd else pd)
         else if mrc = OSDP_MP_RC_EARLY_TERM \<or> mp_last_len mp = 0
         then (0, pd\<lparr>pd_file := Some (f\<lparr>f_keep_alive_pending := True\<rparr>)\<rparr>)
         else (0, pd))"

definition osdp_file_cmd_tx_decode ::
  "('w, 'z) osdp_dev_scheme \<Rightarrow> bytes \<Rightarrow> int \<Rightarrow> int \<times> ('w, 'z) osdp_dev_scheme" where
  "osdp_file_cmd_tx_decode pd buf len =
     (case pd_file pd of
        None \<Rightarrow> (-1, pd)
      | Some f \<Rightarrow>
     if len < 1 + int (OSDP_MP_HDR_SIZE OSDP_MP_W32) then (-1, pd)
     else if osdp_mp_is_active (f_mp f) then file_rx_consume pd f buf len False
     else let (ok, pd) = file_rx_open pd f buf len
          in if ok then file_rx_consume pd (the (pd_file pd)) buf len True else (-1, pd))"

text \<open>The FTSTAT payload.\<close>

definition file_stat_bytes :: "u8 \<Rightarrow> u16 \<Rightarrow> int \<Rightarrow> u16 \<Rightarrow> bytes \<Rightarrow> int \<times> bytes" where
  "file_stat_bytes control delay status rx_size buf =
     (let (buf, len) = bwrite_u8 control buf 0;
          (buf, len) = bwrite_u16_le delay buf len;
          (buf, len) = bwrite_u16_le (word_of_int status) buf len;
          (buf, len) = bwrite_u16_le rx_size buf len
      in (int len, buf))"

text \<open>
  What the receiver answers once the frame at hand is acknowledged: the status, the delay,
  and the device.
\<close>

definition file_stat_ack :: "'w osdp_file \<Rightarrow> int \<times> 'w osdp_file \<times> osdp_mp_progress list" where
  "file_stat_ack f =
     (if f_keep_alive_pending f
      then (OSDP_FILE_TX_STATUS_ACK, f\<lparr>f_keep_alive_pending := False\<rparr>, [])
      else if mp_last_len (f_mp f) > 0
      then let (mp, ev) = osdp_mp_rx_commit (f_mp f) in (OSDP_FILE_TX_STATUS_ACK, f\<lparr>f_mp := mp\<rparr>, ev)
      else (OSDP_FILE_TX_STATUS_ERR_INVALID, f, []))"

definition file_stat_eof ::
  "('w, 'z) osdp_dev_scheme \<Rightarrow> 'w osdp_file \<Rightarrow> int \<times> u16 \<times> ('w, 'z) osdp_dev_scheme" where
  "file_stat_eof pd f =
     (let (fin, outcome, delay, w) =
            (case fo_finalize (f_ops f) of
               None \<Rightarrow> (True, OSDP_MP_OUTCOME_OK, 0, pd_app pd)
             | Some g \<Rightarrow> g (pd_app pd));
          pd = pd\<lparr>pd_app := w\<rparr>
      in if fin
         then (file_wire_status_from_outcome outcome, 0, file_transition_done outcome pd)
         else
         let f = (if f_finalize_tstamp f = 0 then f\<lparr>f_finalize_tstamp := osdp_millis_now pd\<rparr> else f);
             pd = pd\<lparr>pd_file := Some f\<rparr>
         in if osdp_millis_since pd (f_finalize_tstamp f) < OSDP_FILE_FINALIZE_TIMEOUT_MS
            then (OSDP_FILE_TX_STATUS_KEEP_ALIVE, delay, pd)
            else (file_wire_status_from_outcome OSDP_MP_OUTCOME_ABORTED, 0,
                  file_transition_done OSDP_MP_OUTCOME_ABORTED pd))"

definition osdp_file_cmd_stat_build ::
  "('w, 'z) osdp_dev_scheme \<Rightarrow> bytes \<Rightarrow> int \<Rightarrow> int \<times> bytes \<times> ('w, 'z) osdp_dev_scheme" where
  "osdp_file_cmd_stat_build pd buf max_len =
     (case pd_file pd of
        None \<Rightarrow> (-1, buf, pd)
      | Some f \<Rightarrow>
     if \<not> osdp_mp_is_active (f_mp f) then (-1, buf, pd)
     else if max_len < FILE_STAT_SIZE then (-1, buf, pd)
     else
     let (status, delay, pd) =
           (if f_write_failed f
            then (OSDP_FILE_TX_STATUS_ERR_ABORT, 0, file_transition_done OSDP_MP_OUTCOME_ABORTED pd)
            else
            let (status, f, ev) = file_stat_ack f;
                pd = mp_notify_all ev (pd\<lparr>pd_file := Some f\<rparr>)
            in if mp_offset (f_mp f) = mp_total (f_mp f) \<and> mp_total (f_mp f) \<noteq> 0
               then file_stat_eof pd f else (status, 0, pd));
         (len, buf) = file_stat_bytes 1 delay status 0 buf
     in (len, buf, pd))"

subsection \<open>State management\<close>

definition osdp_file_tx_request_cancel ::
  "('w, 'z) osdp_dev_scheme \<Rightarrow> int \<times> ('w, 'z) osdp_dev_scheme" where
  "osdp_file_tx_request_cancel pd =
     (case pd_file pd of
        None \<Rightarrow> (-1, pd)
      | Some f \<Rightarrow>
          if \<not> osdp_file_tx_is_active pd then (-1, pd)
          else (0, pd\<lparr>pd_file := Some (f\<lparr>f_mp := osdp_mp_request_cancel (f_mp f)\<rparr>)\<rparr>))"

definition osdp_file_tx_abort :: "('w, 'z) osdp_dev_scheme \<Rightarrow> ('w, 'z) osdp_dev_scheme" where
  "osdp_file_tx_abort pd =
     (if osdp_file_tx_is_active pd then file_transition_done OSDP_MP_OUTCOME_ABORTED pd else pd)"

definition osdp_file_tx_get_command ::
  "('w, 'z) osdp_dev_scheme \<Rightarrow> int \<times> ('w, 'z) osdp_dev_scheme" where
  "osdp_file_tx_get_command pd =
     (case pd_file pd of
        None \<Rightarrow> (0, pd)
      | Some f \<Rightarrow>
     if \<not> osdp_file_tx_is_active pd then (0, pd)
     else
     let (mp, ev) = osdp_mp_emit_start (f_mp f);
         pd = mp_notify_all ev (pd\<lparr>pd_file := Some (f\<lparr>f_mp := mp\<rparr>)\<rparr>)
     in if f_errors f > OSDP_FILE_ERROR_RETRY_MAX \<or> osdp_mp_cancel_requested mp
        then (CMD_ABORT, file_transition_done OSDP_MP_OUTCOME_ABORTED pd)
        else (case osdp_mp_tx_next (osdp_millis_now pd) mp of
                OSDP_MP_ACT_WAIT \<Rightarrow> if file_flag f OSDP_FILE_TX_FLAG_EXCLUSIVE then -1 else 0
              | OSDP_MP_ACT_DATA \<Rightarrow>
                  if file_flag f OSDP_FILE_TX_FLAG_POLL_RESP then CMD_POLL else CMD_FILETRANSFER
              | _ \<Rightarrow> 0, pd))"

definition osdp_file_tx_command ::
  "('w, 'z) osdp_dev_scheme \<Rightarrow> int \<Rightarrow> u32 \<Rightarrow> int \<times> ('w, 'z) osdp_dev_scheme" where
  "osdp_file_tx_command pd file_id flags =
     (case pd_file pd of
        None \<Rightarrow> (-1, pd)
      | Some f \<Rightarrow>
     if f_in_terminal f then (-1, pd)
     else if osdp_file_tx_is_active pd then (-1, pd)
     else if osdp_mp_engine_busy pd then (-1, pd)
     else
     let (r, sz, w) = fo_open (f_ops f) file_id 0 (pd_app pd);
         pd = pd\<lparr>pd_app := w\<rparr>
     in if r < 0 then (-1, pd)
        else if sz = 0 then (-1, pd\<lparr>pd_app := snd (fo_close (f_ops f) (pd_app pd))\<rparr>)
        else
     let f = (file_state_reset f)\<lparr>f_flags := flags, f_file_id := file_id, f_is_open := True\<rparr>;
         mp = osdp_mp_set_identity (f_mp f) OSDP_MP_MSG_FILE_TRANSFER file_id;
         mp = (case osdp_mp_tx_init mp sz OSDP_MP_W32 of Some mp \<Rightarrow> mp | None \<Rightarrow> mp)
     in (0, pd\<lparr>pd_file := Some (f\<lparr>f_mp := mp\<rparr>)\<rparr>))"

text \<open>
  \<open>sealed\<close> stands for the setup-only checks of the context: a registration after the first
  refresh, during teardown or from a callback is refused.
\<close>

definition osdp_file_register_ops ::
  "bool \<Rightarrow> 'w osdp_file_ops \<Rightarrow> ('w, 'z) osdp_dev_scheme \<Rightarrow> int \<times> ('w, 'z) osdp_dev_scheme" where
  "osdp_file_register_ops sealed ops pd =
     (if sealed then (-1, pd)
      else let f = (case pd_file pd of
                      Some f \<Rightarrow> f\<lparr>f_ops := ops\<rparr>
                    | None \<Rightarrow> \<lparr>f_flags = 0, f_file_id = 0, f_mp = osdp_mp_reset, f_is_open = False,
                                f_keep_alive_pending = False, f_write_failed = False,
                                f_finalize_tstamp = 0, f_errors = 0, f_in_terminal = False, f_ops = ops\<rparr>)
           in (0, pd\<lparr>pd_file := Some (file_state_reset f)\<rparr>))"

text \<open>The total size and the offset, unless no transfer is in progress.\<close>

definition osdp_get_file_tx_status :: "('w, 'z) osdp_dev_scheme \<Rightarrow> (u32 \<times> u32) option" where
  "osdp_get_file_tx_status pd =
     (case pd_file pd of
        None \<Rightarrow> None
      | Some f \<Rightarrow> if osdp_mp_is_active (f_mp f) then Some (mp_total (f_mp f), mp_offset (f_mp f)) else None)"

subsection \<open>Every transfer ends the same way\<close>

definition file_done_record :: "'w osdp_file \<Rightarrow> osdp_mp_outcome \<Rightarrow> osdp_mp_progress" where
  "file_done_record f outcome =
     \<lparr>mpp_phase = OSDP_MP_PHASE_DONE, mpp_msg_type = mp_msg_type (f_mp f), mpp_object_id = mp_object_id (f_mp f),
      mpp_total = mp_total (f_mp f), mpp_offset = mp_offset (f_mp f), mpp_outcome = mp_outcome_val outcome\<rparr>"

definition file_app_close :: "'w osdp_file \<Rightarrow> 'w \<Rightarrow> 'w" where
  "file_app_close f w = (if f_is_open f then snd (fo_close (f_ops f) w) else w)"

lemma file_state_reset_cong:
  "f_ops f = f_ops g \<Longrightarrow> file_state_reset f = file_state_reset g"
  by (cases f, cases g) (simp add: file_state_reset_def)

lemma transition_done:
  assumes f: "pd_file pd = Some f" "osdp_mp_is_active (f_mp f)" "mp_event_cb (f_mp f)"
  shows "file_transition_done outcome pd =
    (let pd1 = mp_notify_all (snd (osdp_mp_emit_start (f_mp f)) @ [file_done_record f outcome]) pd;
         pd2 = pd1\<lparr>pd_app := file_app_close f (pd_app pd1)\<rparr>;
         pd3 = (if is_cp_mode pd \<and> outcome = OSDP_MP_OUTCOME_OK_REBOOTING
                then make_request CP_REQ_OFFLINE pd2 else pd2)
     in pd3\<lparr>pd_file := Some (file_state_reset f)\<rparr>)"
proof -
  obtain mp ev where e: "osdp_mp_emit_start (f_mp f) = (mp, ev)" by (rule prod.exhaust)
  have mp: "osdp_mp_is_active mp" "mp_event_cb mp" "mp_msg_type mp = mp_msg_type (f_mp f)"
    "mp_object_id mp = mp_object_id (f_mp f)" "mp_total mp = mp_total (f_mp f)" "mp_offset mp = mp_offset (f_mp f)"
    using e f(2,3) by (auto simp: osdp_mp_emit_start_def Let_def osdp_mp_is_active_def split: if_splits)
  obtain mp2 ev2 where e2: "osdp_mp_finish mp (mp_outcome_val outcome) = (mp2, ev2)" by (rule prod.exhaust)
  have ev2: "ev2 = [file_done_record f outcome]"
    using e2 mp by (auto simp: osdp_mp_finish_def Let_def osdp_mp_is_active_def mp_emit_def file_done_record_def)
  show ?thesis
    unfolding file_transition_done_def f(1) option.case Let_def prod.case e file_close_if_open_def file_app_close_def
    by (simp add: e2 ev2 Let_def make_request_def cong: file_state_reset_cong)
qed

lemma file_state_reset_inactive [simp]: "\<not> osdp_mp_is_active (f_mp (file_state_reset f))"
  by (simp add: file_state_reset_def osdp_mp_is_active_def osdp_mp_set_event_cb_def osdp_mp_bind_ops_def osdp_mp_reset_def)

lemma file_transition_done_inactive:
  assumes "pd_file pd = Some f" "osdp_mp_is_active (f_mp f)" "mp_event_cb (f_mp f)"
  shows "\<not> osdp_file_tx_is_active (file_transition_done outcome pd)"
  unfolding transition_done [OF assms] by (simp add: Let_def osdp_file_tx_is_active_def)

definition file_sending :: "'w osdp_file \<Rightarrow> bool" where
  "file_sending f \<longleftrightarrow> osdp_mp_is_active (f_mp f) \<and> mp_width (f_mp f) = OSDP_MP_W32 \<and>
     mp_ops (f_mp f) = MP_OPS_HOOKS (file_mp_read (f_ops f)) (file_mp_write (f_ops f)) \<and>
     mp_offset (f_mp f) \<noteq> mp_total (f_mp f)"

text \<open>A CP in the middle of sending a file of \<open>n\<close> bytes; the application counts its closes.\<close>

definition file_ops_example :: "nat osdp_file_ops" where
  "file_ops_example = \<lparr>fo_open = (\<lambda>_ sz w. (0, sz, w)), fo_read = (\<lambda>_ _ w. (0, [], w)),
     fo_write = (\<lambda>_ sz _ w. (sint sz, w)), fo_close = (\<lambda>w. (0, w + 1)), fo_finalize = None\<rparr>"

definition file_dev_example :: "u32 \<Rightarrow> nat osdp_dev" where
  "file_dev_example n =
     (let (_, pd) = osdp_file_register_ops False file_ops_example (dev_zero no_callbacks 0);
          f = (the (pd_file pd))\<lparr>f_is_open := True\<rparr>
      in pd\<lparr>pd_file := Some (f\<lparr>f_mp := the (osdp_mp_tx_init (f_mp f) n OSDP_MP_W32)\<rparr>)\<rparr>)"

definition file_example_acked :: "u32 \<Rightarrow> nat osdp_dev" where
  "file_example_acked k =
     (let f = the (pd_file (file_dev_example 5))
      in (file_dev_example 5)\<lparr>pd_file := Some (f\<lparr>f_mp := (f_mp f)\<lparr>mp_last_len := 2, mp_offset := k\<rparr>\<rparr>)\<rparr>)"

lemmas file_example_defs = file_dev_example_def file_ops_example_def osdp_file_register_ops_def
  file_state_reset_def osdp_mp_set_event_cb_def osdp_mp_bind_ops_def osdp_mp_reset_def osdp_mp_tx_init_def
  osdp_mp_is_active_def file_sending_def Let_def

lemma file_dev_example:
  obtains f where "pd_file (file_dev_example 5) = Some f" "osdp_mp_is_active (f_mp f)" "mp_event_cb (f_mp f)"
    "f_is_open f" "f_ops f = file_ops_example" "file_sending f" "f_errors f = 0" "\<not> mp_cancel_req (f_mp f)"
    "mp_last_len (f_mp f) = 0" "mp_offset (f_mp f) = 0" "mp_total (f_mp f) = 5"
  by (simp add: file_example_defs)

lemma file_dev_example_quiet:
  "mp_notify_all ps (file_dev_example n) = file_dev_example n" "pd_app (file_dev_example n) = 0"
  "is_cp_mode (file_dev_example n)"
proof -
  have "\<not> is_notifications_enabled (file_dev_example n)"
    by (simp add: file_example_defs is_notifications_enabled_def ISSET_FLAG_def)
  moreover have "pd_engine_cmd (file_dev_example n) = None" by (simp add: file_example_defs)
  ultimately show "mp_notify_all ps (file_dev_example n) = file_dev_example n" by (rule mp_notify_all_quiet)
  show "pd_app (file_dev_example n) = 0" "is_cp_mode (file_dev_example n)"
    by (simp_all add: file_example_defs)
qed

text \<open>
  The operations of a transfer in progress: the sender builds a frame and decodes the status,
  the receiver decodes a frame and answers, the CP asks for the next command, and either side
  cancels or aborts.
\<close>

inductive file_op :: "('w, 'z) osdp_dev_scheme \<Rightarrow> ('w, 'z) osdp_dev_scheme \<Rightarrow> bool" where
  cmd_tx_build: "file_op pd (snd (snd (osdp_file_cmd_tx_build pd buf max_len)))"
| cmd_stat_decode: "file_op pd (snd (osdp_file_cmd_stat_decode pd buf len))"
| cmd_tx_decode: "file_op pd (snd (osdp_file_cmd_tx_decode pd buf len))"
| cmd_stat_build: "file_op pd (snd (snd (osdp_file_cmd_stat_build pd buf max_len)))"
| get_command: "file_op pd (snd (osdp_file_tx_get_command pd))"
| request_cancel: "file_op pd (snd (osdp_file_tx_request_cancel pd))"
| abort: "file_op pd (osdp_file_tx_abort pd)"

text \<open>The same transfer, still in progress.\<close>

definition file_goes_on :: "'w osdp_file \<Rightarrow> 'w osdp_file \<Rightarrow> bool" where
  "file_goes_on f g \<longleftrightarrow> osdp_mp_is_active (f_mp g) \<and> mp_event_cb (f_mp g) \<and> f_is_open g = f_is_open f \<and> f_ops g = f_ops f \<and>
     mp_msg_type (f_mp g) = mp_msg_type (f_mp f) \<and> mp_object_id (f_mp g) = mp_object_id (f_mp f)"

definition mp_same :: "'w osdp_multipart \<Rightarrow> 'v osdp_multipart \<Rightarrow> bool" where
  "mp_same m n \<longleftrightarrow> (osdp_mp_is_active m \<longrightarrow> osdp_mp_is_active n) \<and> mp_event_cb n = mp_event_cb m \<and>
     mp_msg_type n = mp_msg_type m \<and> mp_object_id n = mp_object_id m"

lemma goes_on:
  assumes "osdp_mp_is_active (f_mp f)" "mp_event_cb (f_mp f)" "mp_same (f_mp f) (f_mp g)" "f_is_open g = f_is_open f" "f_ops g = f_ops f"
  shows "file_goes_on f g"
  using assms by (simp add: file_goes_on_def mp_same_def)

lemma mp_same_refl [simp]: "mp_same m m" by (simp add: mp_same_def)

lemma mp_same_trans: "mp_same a b \<Longrightarrow> mp_same b c \<Longrightarrow> mp_same a c" by (simp add: mp_same_def)

lemma mp_same_engine:
  "mp_same m (fst (osdp_mp_emit_start m))" "mp_same m (fst (osdp_mp_tx_commit m))" "mp_same m (fst (osdp_mp_rx_commit m))"
  "mp_same m (osdp_mp_set_wait now m d)" "mp_same m (osdp_mp_request_cancel m)" "mp_same m (osdp_mp_park m)"
  "mp_same m (snd (snd (osdp_mp_tx_build_idle m buf)))"
  by (auto simp: mp_same_def osdp_mp_is_active_def osdp_mp_emit_start_def osdp_mp_tx_commit_def osdp_mp_rx_commit_def osdp_mp_set_wait_def
      osdp_mp_request_cancel_def osdp_mp_park_def osdp_mp_tx_build_idle_def Let_def case_prod_beta)

lemma mp_same_build: "osdp_mp_tx_build m buf k w = (n, b, m', w') \<Longrightarrow> mp_same m m'"
  by (auto simp: mp_same_def osdp_mp_is_active_def osdp_mp_tx_build_def osdp_mp_tx_build_ex_def Let_def split: prod.splits if_splits)

lemma mp_same_consume:
  assumes "osdp_mp_rx_consume m buf k w = (rc, m', w')"
  shows "mp_same m m'"
  using assms
proof (cases rule: rx_consume_cases)
  case reject
  show ?thesis by (subst reject(2)) (simp add: mp_same_def osdp_mp_is_active_def)
next
  case (accept tot off dlen n m1)
  then have "m1 = m\<lparr>mp_buf := mp_buf m1\<rparr>"
    using mp_do_write_frame(1) by (cases "0 < dlen") auto
  then have "mp_same m m1" by (rule ssubst) (simp add: mp_same_def osdp_mp_is_active_def)
  with accept(9) show ?thesis by (simp add: mp_same_def osdp_mp_is_active_def)
qed (simp add: mp_same_def osdp_mp_is_active_def)

text \<open>An operation leaves the transfer in progress, or has passed it to the terminal transition.\<close>

definition file_ended_by :: "'w osdp_file \<Rightarrow> ('w, 'z) osdp_dev_scheme \<Rightarrow> bool" where
  "file_ended_by f pd' \<longleftrightarrow> (\<exists>q g outcome. pd_file q = Some g \<and> file_goes_on f g \<and> pd' = file_transition_done outcome q)"

definition file_outcome_ok :: "'w osdp_file \<Rightarrow> ('w, 'z) osdp_dev_scheme \<Rightarrow> bool" where
  "file_outcome_ok f pd' \<longleftrightarrow> (\<exists>g. pd_file pd' = Some g \<and> file_goes_on f g) \<or> file_ended_by f pd'"

lemma outcome_on: "pd_file pd' = Some g \<Longrightarrow> file_goes_on f g \<Longrightarrow> file_outcome_ok f pd'"
  by (auto simp: file_outcome_ok_def)

lemma outcome_done: "pd_file q = Some g \<Longrightarrow> file_goes_on f g \<Longrightarrow> file_outcome_ok f (file_transition_done outcome q)"
  by (auto simp: file_outcome_ok_def file_ended_by_def)

lemma goes_on_mp:
  assumes "file_goes_on f g" "mp_same (f_mp g) (f_mp h)" "f_is_open h = f_is_open g" "f_ops h = f_ops g"
  shows "file_goes_on f h"
  using assms by (simp add: file_goes_on_def mp_same_def)

lemma consume_outcome:
  assumes "pd_file pd = Some g" "file_goes_on f g"
  shows "file_outcome_ok f (snd (file_rx_consume pd g buf len False))"
proof -
  obtain rc m w wf where c: "osdp_mp_rx_consume (f_mp g) (drop 1 buf) (len - 1) (pd_app pd, f_write_failed g) = (rc, m, w, wf)"
    by (metis prod_cases4)
  have k: "file_goes_on f (g\<lparr>f_mp := m, f_write_failed := x\<rparr>)" "file_goes_on f (g\<lparr>f_mp := m, f_write_failed := x, f_errors := e\<rparr>)"
    "file_goes_on f (g\<lparr>f_mp := m, f_write_failed := x, f_keep_alive_pending := b\<rparr>)" for x e b
    by (rule goes_on_mp [OF assms(2)], simp_all add: mp_same_consume [OF c])+
  show ?thesis
    unfolding file_rx_consume_def c prod.case Let_def by (auto intro: outcome_on k)
qed

lemma eof_outcome:
  assumes "pd_file pd = Some g" "file_goes_on f g"
  shows "file_outcome_ok f (snd (snd (file_stat_eof pd g)))"
proof -
  have k: "file_goes_on f (if f_finalize_tstamp g = 0 then g\<lparr>f_finalize_tstamp := t\<rparr> else g)" for t
    by (rule goes_on_mp [OF assms(2)]) simp_all
  show ?thesis unfolding file_stat_eof_def Let_def
    by (auto simp: case_prod_beta assms intro: outcome_on [OF _ k] outcome_done [OF _ k] outcome_done [OF _ assms(2)])
qed

lemma build_outcome:
  assumes "pd_file pd = Some f" "osdp_mp_is_active (f_mp f)" "mp_event_cb (f_mp f)"
  shows "file_outcome_ok f (snd (snd (osdp_file_cmd_tx_build pd buf max_len)))"
proof -
  have f: "file_goes_on f f" by (rule goes_on) (simp_all add: assms)
  obtain n b m w wf where t: "osdp_mp_tx_build (f_mp f) (drop 1 buf) (max_len - 1 - OSDP_MP_SC_RESERVE) (pd_app pd, f_write_failed f) = (n, b, m, w, wf)"
    by (metis prod_cases5)
  have k: "file_goes_on f (f\<lparr>f_mp := m, f_write_failed := wf\<rparr>)" "file_goes_on f (f\<lparr>f_mp := m, f_write_failed := wf, f_errors := e\<rparr>)"
    "file_goes_on f (f\<lparr>f_mp := snd (snd (osdp_mp_tx_build_idle (f_mp f) x))\<rparr>)" for e x
    by (rule goes_on_mp [OF f], simp_all add: mp_same_build [OF t] mp_same_engine)+
  show ?thesis
    unfolding osdp_file_cmd_tx_build_def assms(1) option.case Let_def t prod.case
    by (simp add: case_prod_beta outcome_done [OF assms(1) f] outcome_done [OF _ k(1)] outcome_on [OF _ k(1)] outcome_on [OF _ k(2)] outcome_on [OF _ k(3)])
qed

lemma stat_decode_outcome:
  assumes "pd_file pd = Some f" "osdp_mp_is_active (f_mp f)" "mp_event_cb (f_mp f)"
  shows "file_outcome_ok f (snd (osdp_file_cmd_stat_decode pd buf len))"
proof -
  have f: "file_goes_on f f" by (rule goes_on) (simp_all add: assms)
  have k: "file_goes_on f (set_file_flag a x (set_file_flag b y (set_file_flag c z f))\<lparr>f_mp := m\<rparr>)" if "mp_same (f_mp f) m" for a x b y c z m
    by (rule goes_on_mp [OF f]) (simp_all add: that set_file_flag_def)
  have m: "mp_same (f_mp f) (osdp_mp_set_wait now (fst (osdp_mp_tx_commit (f_mp f))) d)"
    "mp_same (f_mp f) (osdp_mp_park (osdp_mp_set_wait now (fst (osdp_mp_tx_commit (f_mp f))) d))" for now d
    by (intro mp_same_trans [OF mp_same_trans [OF mp_same_engine(2) mp_same_engine(4)] mp_same_engine(6)]
        mp_same_trans [OF mp_same_engine(2) mp_same_engine(4)])+
  have g: "f_mp (set_file_flag a x (set_file_flag b y (set_file_flag c z f))) = f_mp f" for a x b y c z by (simp add: set_file_flag_def)
  show ?thesis
    unfolding osdp_file_cmd_stat_decode_def assms(1) option.case Let_def
    by (simp add: case_prod_beta g outcome_on [OF assms(1) f] outcome_done [OF _ k [OF m(1)]] outcome_on [OF _ k [OF m(1)]]
        outcome_on [OF _ k [OF m(2)]])
qed

lemma stat_build_outcome:
  assumes "pd_file pd = Some f" "osdp_mp_is_active (f_mp f)" "mp_event_cb (f_mp f)"
  shows "file_outcome_ok f (snd (snd (osdp_file_cmd_stat_build pd buf max_len)))"
proof -
  have f: "file_goes_on f f" by (rule goes_on) (simp_all add: assms)
  obtain st g ev where a: "file_stat_ack f = (st, g, ev)" by (metis prod_cases3)
  have g: "file_goes_on f g"
    by (rule goes_on_mp [OF f]) (use a mp_same_engine(3) [of "f_mp f"] in \<open>auto simp: file_stat_ack_def Let_def case_prod_beta split: if_splits\<close>)
  show ?thesis
    unfolding osdp_file_cmd_stat_build_def assms(1) option.case Let_def a prod.case
    by (simp add: case_prod_beta outcome_on [OF assms(1) f] outcome_done [OF assms(1) f] outcome_on [OF _ g] eof_outcome [OF _ g])
qed

lemma get_command_outcome:
  assumes "pd_file pd = Some f" "osdp_mp_is_active (f_mp f)" "mp_event_cb (f_mp f)"
  shows "file_outcome_ok f (snd (osdp_file_tx_get_command pd))"
proof -
  have f: "file_goes_on f f" by (rule goes_on) (simp_all add: assms)
  have k: "file_goes_on f (f\<lparr>f_mp := fst (osdp_mp_emit_start (f_mp f))\<rparr>)" by (rule goes_on_mp [OF f]) (simp_all add: mp_same_engine)
  show ?thesis
    unfolding osdp_file_tx_get_command_def assms(1) option.case Let_def
    by (simp add: case_prod_beta outcome_on [OF assms(1) f] outcome_on [OF _ k] outcome_done [OF _ k])
qed

lemma file_op_outcome:
  assumes "file_op pd pd'" "pd_file pd = Some f" "osdp_mp_is_active (f_mp f)" "mp_event_cb (f_mp f)"
  shows "file_outcome_ok f pd'"
proof -
  have f: "file_goes_on f f" by (rule goes_on) (simp_all add: assms)
  have c: "file_goes_on f (f\<lparr>f_mp := osdp_mp_request_cancel (f_mp f)\<rparr>)"
    by (rule goes_on_mp [OF f]) (simp_all add: mp_same_engine)
  note here = assms(2-4)
  from assms(1) show ?thesis
  proof cases
    case cmd_tx_decode
    then show ?thesis
      using consume_outcome [OF here(1) f] outcome_on [OF here(1) f] here(2) by (simp add: osdp_file_cmd_tx_decode_def here(1))
  next
    case request_cancel
    then show ?thesis
      by (simp add: osdp_file_tx_request_cancel_def here(1) outcome_on [OF _ c] outcome_on [OF here(1) f])
  next
    case abort
    then show ?thesis using outcome_on [OF here(1) f] outcome_done [OF here(1) f] by (simp add: osdp_file_tx_abort_def)
  qed (simp_all add: build_outcome [OF here] stat_decode_outcome [OF here] stat_build_outcome [OF here] get_command_outcome [OF here])
qed

text \<open>
  C37. Every way a file transfer can end goes through one terminal transition.  Whatever operation
  of the file engine leaves no transfer active where one was, on either side, the transfer in the
  state it had reached went through the transition with some outcome: the application heard START
  if it had not yet, then DONE with that outcome, and the file was closed if it was open; a CP's
  command was handed back; and the context is as fresh as after registration.
\<close>

theorem file_terminal_converges:
  assumes "file_op pd pd'" "pd_file pd = Some f" "osdp_mp_is_active (f_mp f)" "mp_event_cb (f_mp f)"
    and "\<not> osdp_file_tx_is_active pd'"
  shows "pd_file pd' = Some (file_state_reset f) \<and>
    (\<exists>q g outcome. pd_file q = Some g \<and> file_goes_on f g \<and> pd' = file_transition_done outcome q \<and>
       pd_app pd' = file_app_close f
         (pd_app (mp_notify_all (snd (osdp_mp_emit_start (f_mp g)) @ [file_done_record g outcome]) q)) \<and>
       (is_cp_mode q \<and> mp_msg_type (f_mp f) = pd_engine_cmd_mp_type q \<longrightarrow> pd_engine_cmd pd' = None) \<and>
       (test_request pd' CP_REQ_OFFLINE \<longleftrightarrow>
          test_request q CP_REQ_OFFLINE \<or> is_cp_mode q \<and> outcome = OSDP_MP_OUTCOME_OK_REBOOTING))"
proof -
  have r: "test_request (q\<lparr>pd_app := w\<rparr>) r = test_request q r" "test_request (q\<lparr>pd_file := g\<rparr>) r = test_request q r"
    "test_request (osdp_mp_pd_notify p q) r = test_request q r"
    "test_request (mp_notify_all ps q) r = test_request q r" for q :: "('a, 'b) osdp_dev_scheme" and w g r p ps
    by (simp_all add: test_request_def)
  obtain q g outcome where q: "pd_file q = Some g" "file_goes_on f g" "pd' = file_transition_done outcome q"
  proof -
    have "file_ended_by f pd'"
      using file_op_outcome [OF assms(1-4)] assms(5)
      by (auto simp: file_outcome_ok_def osdp_file_tx_is_active_def file_goes_on_def)
    then show ?thesis using that by (auto simp: file_ended_by_def)
  qed
  have g: "osdp_mp_is_active (f_mp g)" "mp_event_cb (f_mp g)" "file_state_reset g = file_state_reset f"
    "file_app_close g = file_app_close f" "mp_msg_type (f_mp g) = mp_msg_type (f_mp f)"
    using q(2) file_state_reset_cong [of g f] by (simp_all add: file_goes_on_def file_app_close_def fun_eq_iff)
  note t = transition_done [OF q(1) g(1,2), of outcome, folded q(3)]
  have k: "pd_file pd' = Some (file_state_reset f)"
    "pd_app pd' = file_app_close f (pd_app (mp_notify_all (snd (osdp_mp_emit_start (f_mp g)) @ [file_done_record g outcome]) q))"
    unfolding t by (simp_all add: Let_def g(3,4))
  have e: "is_cp_mode q \<and> mp_msg_type (f_mp f) = pd_engine_cmd_mp_type q \<longrightarrow> pd_engine_cmd pd' = None"
    unfolding t by (simp add: Let_def notify_done_engine_cmd file_done_record_def g(5))
  have "test_request pd' CP_REQ_OFFLINE \<longleftrightarrow>
          test_request q CP_REQ_OFFLINE \<or> is_cp_mode q \<and> outcome = OSDP_MP_OUTCOME_OK_REBOOTING"
    unfolding t by (auto simp: Let_def r)
  then show ?thesis using q k e by (intro conjI exI [of _ q] exI [of _ g] exI [of _ outcome])
qed

theorem file_terminal_converges_witness:
  "let pd' = osdp_file_tx_abort (file_dev_example 5)
   in \<not> osdp_file_tx_is_active pd' \<and> pd_file pd' = Some (file_state_reset (the (pd_file (file_dev_example 5))))"
proof -
  obtain f where f: "pd_file (file_dev_example 5) = Some f" "osdp_mp_is_active (f_mp f)" "mp_event_cb (f_mp f)"
    by (rule file_dev_example)
  have "osdp_file_tx_abort (file_dev_example 5) = file_transition_done OSDP_MP_OUTCOME_ABORTED (file_dev_example 5)"
    using f by (simp add: osdp_file_tx_abort_def osdp_file_tx_is_active_def)
  then have i: "\<not> osdp_file_tx_is_active (osdp_file_tx_abort (file_dev_example 5))"
    using file_transition_done_inactive [OF f] by simp
  show ?thesis using file_terminal_converges [OF abort f i] i f(1) by (simp add: Let_def)
qed

subsection \<open>The status message\<close>

lemma stat_bytes:
  "7 \<le> length buf \<Longrightarrow> file_stat_bytes c delay status rx buf =
     (7, write_at 0 (c # u16_le delay @ u16_le (word_of_int status) @ u16_le rx) buf)"
  by (simp add: file_stat_bytes_def bwrite_u8_def le16.wr_enc write_at_write_at le16.enc_length Let_def)

lemma stat_bytes_read:
  assumes "7 \<le> length buf" "-32768 \<le> status" "status < 32768"
    and "file_stat_bytes c delay status rx buf = (n, b)"
  shows "n = 7 \<and> length b = length buf \<and> b ! 0 = c \<and> bread_u16_le b 1 = (delay, 3) \<and>
         bread_u16_le b 3 = (word_of_int status, 5) \<and> sint (word_of_int status :: u16) = status \<and>
         bread_u16_le b 5 = (rx, 7)"
proof -
  have b: "n = 7" "b = c # u16_le delay @ u16_le (word_of_int status) @ u16_le rx @ drop 7 buf"
    using assms(4) stat_bytes [OF assms(1)] assms(1) by (auto simp: write_at_def le16.enc_length)
  have "bread_u16_le b 1 = (delay, 3)"
    using le16.rd_prefix [where v = delay and as = "[c]"] by (simp add: b)
  moreover have "bread_u16_le b 3 = (word_of_int status, 5)"
    using le16.rd_prefix [where v = "word_of_int status" and as = "c # u16_le delay"] by (simp add: b le16.enc_length)
  moreover have "bread_u16_le b 5 = (rx, 7)"
    using le16.rd_prefix [where v = rx and as = "c # u16_le delay @ u16_le (word_of_int status)"]
    by (simp add: b le16.enc_length)
  moreover have "sint (word_of_int status :: u16) = status"
    using assms(2,3) by (simp add: sint_word_ariths signed_take_bit_int_eq_self sint_sbintrunc')
  moreover have "length b = length buf" using assms(1) by (simp add: b(2) le16.enc_length)
  ultimately show ?thesis by (simp add: b)
qed

lemma wire_status_range:
  "-32768 \<le> file_wire_status_from_outcome o'" "file_wire_status_from_outcome o' < 32768"
  "file_outcome_from_wire_status (file_wire_status_from_outcome o') = o'"
  "file_wire_status_from_outcome o' \<noteq> OSDP_FILE_TX_STATUS_KEEP_ALIVE"
  by (cases o'; simp add: file_outcome_from_wire_status_def)+

lemma set_file_flag_frame [simp]:
  "f_mp (set_file_flag b v f) = f_mp f" "f_ops (set_file_flag b v f) = f_ops f"
  "f_errors (set_file_flag b v f) = f_errors f" "f_is_open (set_file_flag b v f) = f_is_open f"
  "f_file_id (set_file_flag b v f) = f_file_id f" "f_write_failed (set_file_flag b v f) = f_write_failed f"
  by (simp_all add: set_file_flag_def)

lemma tx_commit_simps [simp]:
  "mp_state (fst (osdp_mp_tx_commit mp)) = mp_state mp" "mp_total (fst (osdp_mp_tx_commit mp)) = mp_total mp"
  "mp_offset (fst (osdp_mp_tx_commit mp)) = mp_offset mp + word_of_int (mp_last_len mp)"
  "mp_event_cb (fst (osdp_mp_tx_commit mp)) = mp_event_cb mp" "mp_ops (fst (osdp_mp_tx_commit mp)) = mp_ops mp"
  "mp_cancel_req (fst (osdp_mp_tx_commit mp)) = mp_cancel_req mp"
  "mp_last_len (fst (osdp_mp_tx_commit mp)) = 0" "mp_width (fst (osdp_mp_tx_commit mp)) = mp_width mp"
  by (simp_all add: osdp_mp_tx_commit_def Let_def)

lemma set_wait_simps [simp]:
  "mp_state (osdp_mp_set_wait now mp ms) = mp_state mp" "mp_total (osdp_mp_set_wait now mp ms) = mp_total mp"
  "mp_offset (osdp_mp_set_wait now mp ms) = mp_offset mp" "mp_event_cb (osdp_mp_set_wait now mp ms) = mp_event_cb mp"
  "mp_ops (osdp_mp_set_wait now mp ms) = mp_ops mp" "mp_last_len (osdp_mp_set_wait now mp ms) = mp_last_len mp"
  "mp_width (osdp_mp_set_wait now mp ms) = mp_width mp"
  "mp_cancel_req (osdp_mp_set_wait now mp ms) = mp_cancel_req mp"
  by (simp_all add: osdp_mp_set_wait_def)

lemma mp_is_active_state: "mp_state mp' = mp_state mp \<Longrightarrow> osdp_mp_is_active mp' = osdp_mp_is_active mp"
  by (simp add: osdp_mp_is_active_def)

text \<open>The sender behind the commit and the wait of a status message.\<close>

lemma stat_decode:
  assumes f: "pd_file tx = Some f" "osdp_mp_is_active (f_mp f)"
    and reply: "bread_u16_le reply 1 = (delay, 3)" "bread_u16_le reply 3 = (st, 5)" "7 \<le> n"
  obtains f1 tx1 where "osdp_file_cmd_stat_decode tx reply n =
      (if sint st < 0 then (0, file_transition_done (file_outcome_from_wire_status (sint st)) tx1)
       else if mp_offset (f_mp f1) \<noteq> mp_total (f_mp f1) then (0, tx1)
       else if sint st = OSDP_FILE_TX_STATUS_KEEP_ALIVE
       then (0, tx1\<lparr>pd_file := Some (f1\<lparr>f_mp := osdp_mp_park (f_mp f1)\<rparr>)\<rparr>)
       else (0, file_transition_done (file_outcome_from_wire_status (sint st)) tx1))"
    "pd_file tx1 = Some f1" "f_ops f1 = f_ops f" "f_errors f1 = f_errors f" "osdp_mp_is_active (f_mp f1)"
    "f_write_failed f1 = f_write_failed f" "mp_state (f_mp f1) = mp_state (f_mp f)"
    "mp_offset (f_mp f1) = mp_offset (f_mp f) + word_of_int (mp_last_len (f_mp f))"
    "mp_total (f_mp f1) = mp_total (f_mp f)" "mp_ops (f_mp f1) = mp_ops (f_mp f)" "mp_last_len (f_mp f1) = 0"
    "mp_event_cb (f_mp f1) = mp_event_cb (f_mp f)" "mp_width (f_mp f1) = mp_width (f_mp f)"
    "pd_ctx tx1 = pd_ctx tx" "f_is_open f1 = f_is_open f" "mp_cancel_req (f_mp f1) = mp_cancel_req (f_mp f)"
proof -
  define f0 where "f0 = set_file_flag OSDP_FILE_TX_FLAG_POLL_RESP (reply ! 0 AND 4 \<noteq> 0)
    (set_file_flag OSDP_FILE_TX_FLAG_PLAIN_TEXT (reply ! 0 AND 2 \<noteq> 0)
      (set_file_flag OSDP_FILE_TX_FLAG_EXCLUSIVE (reply ! 0 AND 1 = 0) f))"
  obtain mp ev where c: "osdp_mp_tx_commit (f_mp f0) = (mp, ev)" by (rule prod.exhaust)
  define pd1 where "pd1 = mp_notify_all ev (tx\<lparr>pd_file := Some (f0\<lparr>f_mp := mp\<rparr>)\<rparr>)"
  define mp1 where "mp1 = osdp_mp_set_wait (osdp_millis_now pd1) mp (ucast delay)"
  define f1 where "f1 = f0\<lparr>f_mp := mp1\<rparr>"
  define tx1 where "tx1 = pd1\<lparr>pd_file := Some f1\<rparr>"
  have mp: "mp = fst (osdp_mp_tx_commit (f_mp f))" using c by (simp add: f0_def)
  have n: "\<not> n < FILE_STAT_SIZE" using reply(3) by simp
  have "osdp_file_cmd_stat_decode tx reply n =
      (if sint st < 0 then (0, file_transition_done (file_outcome_from_wire_status (sint st)) tx1)
       else if mp_offset mp1 \<noteq> mp_total mp1 then (0, tx1)
       else if sint st = OSDP_FILE_TX_STATUS_KEEP_ALIVE
       then (0, tx1\<lparr>pd_file := Some (f1\<lparr>f_mp := osdp_mp_park mp1\<rparr>)\<rparr>)
       else (0, file_transition_done (file_outcome_from_wire_status (sint st)) tx1))"
    unfolding osdp_file_cmd_stat_decode_def f(1) option.case Let_def reply prod.case
      f0_def [symmetric] c pd1_def [symmetric] mp1_def [symmetric] f1_def [symmetric] tx1_def [symmetric]
    using f(2) n by simp
  moreover have "pd_file tx1 = Some f1" "f_ops f1 = f_ops f" "f_errors f1 = f_errors f"
    "f_write_failed f1 = f_write_failed f" "f_is_open f1 = f_is_open f" "pd_ctx tx1 = pd_ctx tx"
    by (simp_all add: tx1_def f1_def f0_def pd1_def)
  moreover have "mp_state mp1 = mp_state (f_mp f)" by (simp add: mp1_def mp)
  moreover from this have "osdp_mp_is_active mp1" using f(2) mp_is_active_state by blast
  moreover have "mp_offset mp1 = mp_offset (f_mp f) + word_of_int (mp_last_len (f_mp f))"
    "mp_total mp1 = mp_total (f_mp f)" "mp_ops mp1 = mp_ops (f_mp f)" "mp_last_len mp1 = 0"
    "mp_event_cb mp1 = mp_event_cb (f_mp f)" "mp_width mp1 = mp_width (f_mp f)"
    "mp_cancel_req mp1 = mp_cancel_req (f_mp f)"
    by (simp_all add: mp1_def mp)
  ultimately show ?thesis using that [of tx1 f1] by (simp add: f1_def)
qed

text \<open>
  C38. The outcome a receiver decides on is the outcome its sender ends with: the status message
  that carries it, answering the last fragment, makes the sender finish its transfer with that
  outcome, for each of the five outcomes and whatever delay the message carries.
\<close>

theorem file_outcome_agrees:
  assumes "7 \<le> length buf" "file_stat_bytes 1 delay (file_wire_status_from_outcome outcome) 0 buf = (n, reply)"
    and "pd_file tx = Some f" "osdp_mp_is_active (f_mp f)"
    and "mp_offset (f_mp f) + word_of_int (mp_last_len (f_mp f)) = mp_total (f_mp f)"
  shows "\<exists>tx1 f1. osdp_file_cmd_stat_decode tx reply n = (0, file_transition_done outcome tx1) \<and>
           pd_file tx1 = Some f1 \<and> osdp_mp_is_active (f_mp f1) \<and> mp_offset (f_mp f1) = mp_total (f_mp f1)"
proof -
  have r: "n = 7" "bread_u16_le reply 1 = (delay, 3)"
    "bread_u16_le reply 3 = (word_of_int (file_wire_status_from_outcome outcome), 5)"
    "sint (word_of_int (file_wire_status_from_outcome outcome) :: u16) = file_wire_status_from_outcome outcome"
    using stat_bytes_read [OF assms(1) wire_status_range(1,2) assms(2)] by simp_all
  have "7 \<le> n" using r(1) by simp
  from stat_decode [OF assms(3,4) r(2,3) this] obtain f1 tx1 where
    "osdp_file_cmd_stat_decode tx reply n =
      (if file_wire_status_from_outcome outcome < 0
       then (0, file_transition_done (file_outcome_from_wire_status (file_wire_status_from_outcome outcome)) tx1)
       else if mp_offset (f_mp f1) \<noteq> mp_total (f_mp f1) then (0, tx1)
       else if file_wire_status_from_outcome outcome = OSDP_FILE_TX_STATUS_KEEP_ALIVE
       then (0, tx1\<lparr>pd_file := Some (f1\<lparr>f_mp := osdp_mp_park (f_mp f1)\<rparr>)\<rparr>)
       else (0, file_transition_done (file_outcome_from_wire_status (file_wire_status_from_outcome outcome)) tx1))"
    "pd_file tx1 = Some f1" "osdp_mp_is_active (f_mp f1)"
    "mp_offset (f_mp f1) = mp_offset (f_mp f) + word_of_int (mp_last_len (f_mp f))"
    "mp_total (f_mp f1) = mp_total (f_mp f)"
    unfolding r(4) by blast
  then show ?thesis using assms(5) wire_status_range(3,4) [of outcome] by auto
qed

theorem file_outcome_agrees_witness:
  "\<exists>tx1. osdp_file_cmd_stat_decode (file_example_acked 3)
     (snd (file_stat_bytes 1 20 (file_wire_status_from_outcome OSDP_MP_OUTCOME_INVALID) 0 (replicate 9 0))) 7 =
     (0, file_transition_done OSDP_MP_OUTCOME_INVALID tx1)"
proof -
  obtain f where f: "pd_file (file_dev_example 5) = Some f" "osdp_mp_is_active (f_mp f)" "mp_event_cb (f_mp f)"
    "f_is_open f" "f_ops f = file_ops_example" "file_sending f" "f_errors f = 0" "\<not> mp_cancel_req (f_mp f)"
    "mp_last_len (f_mp f) = 0" "mp_offset (f_mp f) = 0" "mp_total (f_mp f) = 5" by (rule file_dev_example)
  have n: "file_stat_bytes 1 20 (-3) 0 (replicate 9 0) = (7, snd (file_stat_bytes 1 20 (-3) 0 (replicate 9 0)))"
    using stat_bytes [of "replicate 9 0"] by simp
  have "7 \<le> length (replicate 9 (0::u8))" by simp
  from file_outcome_agrees [OF this, of 20 OSDP_MP_OUTCOME_INVALID 7 _ "file_example_acked 3"
      "f\<lparr>f_mp := (f_mp f)\<lparr>mp_last_len := 2, mp_offset := 3\<rparr>\<rparr>"] n
  show ?thesis
    using f by (auto simp: file_example_acked_def osdp_mp_is_active_def)
qed

subsection \<open>A sender whose application has no data\<close>

text \<open>One exchange: a frame is built and sent, the status \<open>reply\<close> comes back.\<close>

definition file_round ::
  "bytes \<Rightarrow> int \<Rightarrow> bytes \<Rightarrow> ('w, 'z) osdp_dev_scheme \<Rightarrow> ('w, 'z) osdp_dev_scheme" where
  "file_round pkt max_len reply pd =
     (let (_, _, pd) = osdp_file_cmd_tx_build pd pkt max_len in snd (osdp_file_cmd_stat_decode pd reply 7))"

lemma tx_build_no_data:
  assumes f: "pd_file pd = Some f" "file_sending f" "28 \<le> max_len"
    and rd: "\<forall>sz off w. fst (fo_read (f_ops f) sz off w) = 0"
  obtains n b pd' f' where "osdp_file_cmd_tx_build pd pkt max_len = (n, b, pd')" "pd_file pd' = Some f'"
    "f_ops f' = f_ops f" "f_errors f' = f_errors f + 1" "mp_state (f_mp f') = OSDP_MP_WAIT"
    "mp_last_len (f_mp f') = 0" "mp_offset (f_mp f') = mp_offset (f_mp f)" "mp_total (f_mp f') = mp_total (f_mp f)"
    "mp_ops (f_mp f') = mp_ops (f_mp f)" "mp_width (f_mp f') = mp_width (f_mp f)"
    "mp_event_cb (f_mp f') = mp_event_cb (f_mp f)" "mp_cancel_req (f_mp f') = mp_cancel_req (f_mp f)"
proof -
  let ?s = "(pd_app pd, f_write_failed f)"
  note w = f(2) [unfolded file_sending_def]
  have h10: "OSDP_MP_HDR_SIZE OSDP_MP_W32 = 10" by (simp add: OSDP_MP_HDR_SIZE_def)
  have c: "\<not> max_len \<le> 1 + int 10" "\<not> max_len - 1 - OSDP_MP_SC_RESERVE \<le> int 10"
    "\<not> (mp_state (f_mp f) = OSDP_MP_WAIT \<and> mp_offset (f_mp f) = mp_total (f_mp f))"
    using f(3) w by (simp_all add: OSDP_MP_SC_RESERVE_def)
  have "\<exists>k b s'. osdp_mp_tx_build (f_mp f) (drop 1 pkt) (max_len - 1 - OSDP_MP_SC_RESERVE) ?s =
    (int k, b, (f_mp f)\<lparr>mp_last_len := 0, mp_state := OSDP_MP_WAIT\<rparr>, s')"
  proof -
    define avail where "avail = max_len - 1 - OSDP_MP_SC_RESERVE - int 10 - int 0"
    define sz where "sz = (word_of_int (if (word_of_int avail :: u32) > mp_total (f_mp f) - mp_offset (f_mp f)
       then uint (mp_total (f_mp f) - mp_offset (f_mp f)) else avail) :: u32)"
    have a: "\<not> (avail < 0 \<or> avail = 0 \<and> mp_total (f_mp f) - mp_offset (f_mp f) > 0)"
      using f(3) by (simp add: avail_def OSDP_MP_SC_RESERVE_def)
    obtain bs s' where rd': "mp_do_read (f_mp f) sz (mp_offset (f_mp f)) ?s = (0, bs, s')"
    proof -
      obtain m bs w' where m: "fo_read (f_ops f) sz (mp_offset (f_mp f)) (pd_app pd) = (m, bs, w')"
        by (metis prod_cases3)
      then have "m = 0" using rd by (metis fst_conv)
      then show ?thesis using that m w by (simp add: mp_do_read_def file_mp_read_def)
    qed
    obtain b k where h: "osdp_mp_hdr_write OSDP_MP_W32 (mp_total (f_mp f)) (mp_offset (f_mp f)) 0
        (write_at (10 + 0) bs (drop 1 pkt)) = (b, k)" by (rule prod.exhaust)
    have "osdp_mp_tx_build (f_mp f) (drop 1 pkt) (max_len - 1 - OSDP_MP_SC_RESERVE) ?s =
      (int 10, b, (f_mp f)\<lparr>mp_last_len := 0, mp_state := OSDP_MP_WAIT\<rparr>, s')"
      unfolding osdp_mp_tx_build_def osdp_mp_tx_build_ex_def Let_def w [THEN conjunct2, THEN conjunct1] h10
        list.size if_cancel avail_def [symmetric] if_not_P [OF a] sz_def [symmetric] rd' prod.case
      using h w by simp
    then show ?thesis by blast
  qed
  then obtain k b w' wf where b: "osdp_mp_tx_build (f_mp f) (drop 1 pkt) (max_len - 1 - OSDP_MP_SC_RESERVE) ?s =
    (int k, b, (f_mp f)\<lparr>mp_last_len := 0, mp_state := OSDP_MP_WAIT\<rparr>, w', wf)" by auto
  show ?thesis
    using that unfolding osdp_file_cmd_tx_build_def f(1) option.case h10 Let_def b prod.case
      if_not_P [OF c(1)] if_not_P [OF c(2)] if_not_P [OF c(3)]
    by simp
qed

lemma busy_round:
  assumes f: "pd_file pd = Some f" "file_sending f" "28 \<le> max_len"
    and rd: "\<forall>sz off w. fst (fo_read (f_ops f) sz off w) = 0"
    and reply: "bread_u16_le reply 1 = (delay, 3)" "bread_u16_le reply 3 = (0, 5)"
  shows "\<exists>f'. pd_file (file_round pkt max_len reply pd) = Some f' \<and> file_sending f' \<and> f_ops f' = f_ops f \<and>
    f_errors f' = f_errors f + 1 \<and> mp_event_cb (f_mp f') = mp_event_cb (f_mp f) \<and>
    mp_cancel_req (f_mp f') = mp_cancel_req (f_mp f)"
proof -
  obtain n b pd1 f1 where b: "osdp_file_cmd_tx_build pd pkt max_len = (n, b, pd1)" "pd_file pd1 = Some f1"
    "f_ops f1 = f_ops f" "f_errors f1 = f_errors f + 1" "mp_state (f_mp f1) = OSDP_MP_WAIT"
    "mp_last_len (f_mp f1) = 0" "mp_offset (f_mp f1) = mp_offset (f_mp f)" "mp_total (f_mp f1) = mp_total (f_mp f)"
    "mp_ops (f_mp f1) = mp_ops (f_mp f)" "mp_width (f_mp f1) = mp_width (f_mp f)"
    "mp_event_cb (f_mp f1) = mp_event_cb (f_mp f)" "mp_cancel_req (f_mp f1) = mp_cancel_req (f_mp f)"
    by (rule tx_build_no_data [OF f rd])
  have act: "osdp_mp_is_active (f_mp f1)" using b(5) by (simp add: osdp_mp_is_active_def)
  have s0: "sint (0 :: u16) = 0" by simp
  have "(7::int) \<le> 7" by simp
  then show ?thesis
  proof (rule stat_decode [OF b(2) act reply], goal_cases)
    case (1 f2 tx2)
    note d = 1
    have o: "mp_offset (f_mp f2) \<noteq> mp_total (f_mp f2)" using b(6-8) d(8,9) f(2) by (simp add: file_sending_def)
    then have "file_round pkt max_len reply pd = tx2" by (simp add: file_round_def b(1) d(1) s0)
    moreover have "file_sending f2"
      using d(3,5,10,13) b(3,9,10) f(2) o by (simp add: file_sending_def)
    ultimately show ?case using b d by (intro exI [of _ f2]) simp
  qed
qed

lemma busy_rounds:
  assumes "pd_file pd = Some f" "file_sending f" "28 \<le> max_len"
    and "\<forall>sz off w. fst (fo_read (f_ops f) sz off w) = 0"
    and "bread_u16_le reply 1 = (delay, 3)" "bread_u16_le reply 3 = (0, 5)"
  shows "\<exists>f'. pd_file ((file_round pkt max_len reply ^^ k) pd) = Some f' \<and> file_sending f' \<and>
    f_ops f' = f_ops f \<and> f_errors f' = f_errors f + int k \<and> mp_event_cb (f_mp f') = mp_event_cb (f_mp f) \<and>
    mp_cancel_req (f_mp f') = mp_cancel_req (f_mp f)"
proof (induction k)
  case (Suc k)
  then obtain g where g: "pd_file ((file_round pkt max_len reply ^^ k) pd) = Some g" "file_sending g"
    "f_ops g = f_ops f" "f_errors g = f_errors f + int k" "mp_event_cb (f_mp g) = mp_event_cb (f_mp f)"
    "mp_cancel_req (f_mp g) = mp_cancel_req (f_mp f)" by blast
  from busy_round [OF g(1,2) assms(3) assms(4) [folded g(3)] assms(5,6), of pkt] show ?case
    using g by auto
qed (use assms in simp)

text \<open>
  C39. A sender whose application keeps having no data is given up on after eleven empty reads
  in a row, whatever the peer asks it to wait: until then the transfer goes on, then the next
  command for the PD is ABORT and the transfer is over.
\<close>

theorem file_retry_limit:
  assumes "pd_file pd = Some f" "file_sending f" "f_errors f = 0" "28 \<le> max_len"
    and "mp_event_cb (f_mp f)" "\<not> mp_cancel_req (f_mp f)"
    and "\<forall>sz off w. fst (fo_read (f_ops f) sz off w) = 0"
    and "bread_u16_le reply 1 = (delay, 3)" "bread_u16_le reply 3 = (0, 5)"
    and "osdp_file_tx_get_command ((file_round pkt max_len reply ^^ k) pd) = (cmd, pd')" "k \<le> 11"
  shows "if k \<le> 10 then cmd \<noteq> CMD_ABORT \<and> osdp_file_tx_is_active pd'
         else cmd = CMD_ABORT \<and> \<not> osdp_file_tx_is_active pd'"
proof -
  let ?pd = "(file_round pkt max_len reply ^^ k) pd"
  obtain g where g: "pd_file ?pd = Some g" "file_sending g" "f_ops g = f_ops f" "f_errors g = int k"
    "mp_event_cb (f_mp g)" "\<not> mp_cancel_req (f_mp g)"
    using busy_rounds [OF assms(1,2,4,7,8,9), where pkt = pkt and k = k] assms(3,5,6) by auto
  obtain mp ev where e: "osdp_mp_emit_start (f_mp g) = (mp, ev)" by (rule prod.exhaust)
  have mp: "mp_state mp = mp_state (f_mp g)" "mp_event_cb mp" "\<not> mp_cancel_req mp"
    using e g(5,6) by (auto simp: osdp_mp_emit_start_def Let_def split: if_splits)
  have act: "osdp_mp_is_active mp" "osdp_mp_is_active (f_mp g)"
    using g(2) mp_is_active_state [OF mp(1)] by (simp_all add: file_sending_def)
  let ?pd1 = "mp_notify_all ev (?pd\<lparr>pd_file := Some (g\<lparr>f_mp := mp\<rparr>)\<rparr>)"
  have r: "osdp_file_tx_get_command ?pd =
    (if int k > OSDP_FILE_ERROR_RETRY_MAX then (CMD_ABORT, file_transition_done OSDP_MP_OUTCOME_ABORTED ?pd1)
     else (case osdp_mp_tx_next (osdp_millis_now ?pd1) mp of
                OSDP_MP_ACT_WAIT \<Rightarrow> if file_flag g OSDP_FILE_TX_FLAG_EXCLUSIVE then -1 else 0
              | OSDP_MP_ACT_DATA \<Rightarrow>
                  if file_flag g OSDP_FILE_TX_FLAG_POLL_RESP then CMD_POLL else CMD_FILETRANSFER
              | _ \<Rightarrow> 0, ?pd1))"
    unfolding osdp_file_tx_get_command_def g(1) option.case Let_def e prod.case
    using act g(4) mp(3) by (simp add: osdp_file_tx_is_active_def g(1) osdp_mp_cancel_requested_def)
  have 1: "osdp_file_tx_is_active ?pd1" using act by (simp add: osdp_file_tx_is_active_def)
  have f1: "pd_file ?pd1 = Some (g\<lparr>f_mp := mp\<rparr>)" by simp
  have 2: "\<not> osdp_file_tx_is_active (file_transition_done OSDP_MP_OUTCOME_ABORTED ?pd1)"
    using file_transition_done_inactive [OF f1] act mp by simp
  show ?thesis
    using assms(10,11) unfolding r using 1 2 by (auto split: osdp_mp_action.splits if_splits)
qed

theorem file_retry_limit_witness:
  "fst (osdp_file_tx_get_command ((file_round (replicate 250 0) 250 (replicate 9 0) ^^ 11) (file_dev_example 5))) =
     CMD_ABORT"
proof -
  obtain f where f: "pd_file (file_dev_example 5) = Some f" "osdp_mp_is_active (f_mp f)" "mp_event_cb (f_mp f)"
    "f_is_open f" "f_ops f = file_ops_example" "file_sending f" "f_errors f = 0" "\<not> mp_cancel_req (f_mp f)"
    "mp_last_len (f_mp f) = 0" "mp_offset (f_mp f) = 0" "mp_total (f_mp f) = 5" by (rule file_dev_example)
  obtain cmd pd' where c: "osdp_file_tx_get_command
      ((file_round (replicate 250 0) 250 (replicate 9 0) ^^ 11) (file_dev_example 5)) = (cmd, pd')"
    by (rule prod.exhaust)
  have rd: "\<forall>sz off w. fst (fo_read (f_ops f) sz off w) = 0" by (simp add: f(5) file_ops_example_def)
  have re: "bread_u16_le (replicate 9 0) 1 = (0, 3)" "bread_u16_le (replicate 9 0) 3 = (0, 5)"
    by (simp_all add: bread_u16_le_def)
  have "(28 :: int) \<le> 250" "(11 :: nat) \<le> 11" by simp_all
  from file_retry_limit [OF f(1,6,7) this(1) f(3,8) rd re c this(2)] show ?thesis by (simp add: c)
qed
end
