(* ===== verification/File_Exchange.thy ===== *)
theory File_Exchange
  imports File_Transfer
begin

text \<open>
  A whole file transfer: the sender's osdp_file_cmd_tx_build and osdp_file_cmd_stat_decode against
  the receiver's osdp_file_cmd_tx_decode and osdp_file_cmd_stat_build (src/src/osdp_file.c), as
  many exchanges as it takes.  The applications' hooks are any that serve and keep a file.
\<close>

text \<open>
  A read hook that serves the file \<open>d\<close>, as many bytes at a time as it likes, and a write hook
  that keeps the file it receives, as \<open>content\<close> of the application's state shows it.
\<close>

definition serves :: "'w osdp_file_ops \<Rightarrow> bytes \<Rightarrow> bool" where
  "serves ops d \<longleftrightarrow> (\<forall>sz off w. 0 < sz \<longrightarrow> unat off < length d \<longrightarrow>
     (\<exists>n w'. fo_read ops sz off w = (int n, bytes_at (unat off) n d, w') \<and> 0 < n \<and> n \<le> unat sz))"

definition keeps :: "'w osdp_file_ops \<Rightarrow> ('w \<Rightarrow> bytes) \<Rightarrow> bool" where
  "keeps ops content \<longleftrightarrow>
     (\<forall>bs sz off w. unat off + length bs \<le> length (content w) \<longrightarrow>
        (\<exists>w'. fo_write ops bs sz off w = (sint sz, w') \<and> content w' = write_at (unat off) bs (content w))) \<and>
     (\<forall>i sz w. \<exists>r sz' w'. fo_open ops i sz w = (r, sz', w') \<and> 0 \<le> r \<and> unat sz \<le> length (content w')) \<and>
     (\<forall>w. content (snd (fo_close ops w)) = content w) \<and> fo_finalize ops = None"

text \<open>The receiver's command callback, if any, consents and leaves the file alone.\<close>

definition consents :: "('w, 'z) osdp_dev_scheme \<Rightarrow> ('w \<Rightarrow> bytes) \<Rightarrow> bool" where
  "consents pd content \<longleftrightarrow> is_pd_mode pd \<and> (\<forall>cb c w r c' w'. command_callback (pd_cb pd) = Some cb \<longrightarrow>
     cb c w = (r, c', w') \<longrightarrow> 0 \<le> r \<and> content w' = content w)"

lemma pd_mode_not_cp: "is_pd_mode pd \<longleftrightarrow> \<not> is_cp_mode pd"
  by (simp add: flag_defs)

lemma consents_frame [simp]:
  "consents (pd\<lparr>pd_app := w\<rparr>) content = consents pd content"
  "consents (pd\<lparr>pd_file := f\<rparr>) content = consents pd content"
  "consents (osdp_mp_pd_notify p pd) content = consents pd content"
  "consents (mp_notify_all ps pd) content = consents pd content"
  by (simp_all add: consents_def pd_mode_not_cp)

lemma consents_notify:
  assumes "consents pd content"
  shows "content (pd_app (osdp_mp_pd_notify p pd)) = content (pd_app pd)"
proof -
  have cp: "\<not> is_cp_mode pd" using assms by (simp add: consents_def pd_mode_not_cp)
  have "content (pd_app (mp_deliver_notification p pd)) = content (pd_app pd)"
  proof (cases "command_callback (pd_cb pd)")
    case (Some cb)
    then have "content (snd (snd (cb c (pd_app pd)))) = content (pd_app pd)" for c
      using assms by (metis consents_def prod.collapse)
    then show ?thesis using cp Some by (simp add: mp_deliver_notification_def)
  qed (use cp in \<open>simp add: mp_deliver_notification_def\<close>)
  moreover have "\<not> is_cp_mode (mp_deliver_notification p pd)"
    using cp flags_frame_eq(1) [of "mp_deliver_notification p pd" pd] by simp
  ultimately show ?thesis by (simp add: osdp_mp_pd_notify_def Let_def split: option.split)
qed

lemma consents_notify_all:
  "consents pd content \<Longrightarrow> content (pd_app (mp_notify_all ps pd)) = content (pd_app pd)"
  by (induction ps arbitrary: pd) (simp_all add: consents_notify)

lemma tx_build_hook:
  assumes mp: "mp_width mp = OSDP_MP_W32" "0 < mp_total mp - mp_offset mp"
    and max: "max_len = 10 + c" "0 < c" "c < 65536" "max_len \<le> length pkt"
    and rd: "\<forall>sz. 0 < sz \<longrightarrow> unat sz \<le> c \<longrightarrow> unat sz \<le> unat (mp_total mp - mp_offset mp) \<longrightarrow>
      (\<exists>n bs w'. mp_do_read mp sz (mp_offset mp) w = (int n, bs, w') \<and> length bs = n \<and> 0 < n \<and> n \<le> unat sz)"
  shows "\<exists>n bs sz w' pkt'. mp_do_read mp sz (mp_offset mp) w = (int n, bs, w') \<and> 0 < sz \<and> unat sz \<le> c \<and>
      unat sz \<le> unat (mp_total mp - mp_offset mp) \<and> 0 < n \<and> n \<le> c \<and>
      n \<le> unat (mp_total mp - mp_offset mp) \<and>
      osdp_mp_tx_build mp pkt (int max_len) w =
        (int (10 + n), pkt', mp\<lparr>mp_last_len := int n, mp_state := OSDP_MP_INPROG\<rparr>, w') \<and>
      length pkt' = length pkt \<and>
      take (10 + n) pkt' = mp_hdr OSDP_MP_W32 (mp_total mp) (mp_offset mp) (of_nat n) @ bs"
proof -
  let ?h = "OSDP_MP_HDR_SIZE OSDP_MP_W32" and ?r = "mp_total mp - mp_offset mp"
  have h: "?h = 10" by (simp add: OSDP_MP_HDR_SIZE_def)
  define sz where "sz = (word_of_int (if (word_of_int (int c) :: u32) > ?r then uint ?r else int c) :: u32)"
  have c: "unat (word_of_int (int c) :: u32) = c" using max(3) by (simp add: unat_of_nat)
  have sz: "0 < sz" "unat sz \<le> c" "unat sz \<le> unat ?r"
    using mp(2) max(2,3) c by (auto simp: sz_def word_less_nat_alt word_le_nat_alt not_less)
  obtain n bs w' where r: "mp_do_read mp sz (mp_offset mp) w = (int n, bs, w')" "length bs = n" "0 < n" "n \<le> unat sz"
    using rd sz by blast
  let ?p1 = "write_at ?h bs pkt"
  have p1: "length ?p1 = length pkt" using r max sz h by simp
  let ?p2 = "write_at 0 (mp_hdr OSDP_MP_W32 (mp_total mp) (mp_offset mp) (word_of_int (int n))) ?p1"
  have hdr: "osdp_mp_hdr_write OSDP_MP_W32 t off dl ?p1 = (write_at 0 (mp_hdr OSDP_MP_W32 t off dl) ?p1, ?h)" for t off dl
    using p1 max h by (intro mp_hdr_write_at) simp
  have "osdp_mp_tx_build mp pkt (int max_len) w =
           (int (?h + n), ?p2, mp\<lparr>mp_last_len := int n, mp_state := OSDP_MP_INPROG\<rparr>, w')"
  proof -
    have mx: "int max_len - int ?h - int 0 = int c" using max(1) h by simp
    have ne: "\<not> (int c < 0 \<or> int c = 0 \<and> ?r > 0)" using max(2) by simp
    show ?thesis
      unfolding osdp_mp_tx_build_def osdp_mp_tx_build_ex_def Let_def list.size if_cancel mp(1) mx
        if_not_P [OF ne] sz_def [symmetric] r(1) prod.case
      using r(3) by (simp add: hdr mp(1))
  qed
  moreover have "take (10 + n) ?p2 = mp_hdr OSDP_MP_W32 (mp_total mp) (mp_offset mp) (of_nat n) @ bs"
    using max r(2,4) sz h by (simp add: write_at_def)
  ultimately show ?thesis using r sz p1 h max by (intro exI conjI) auto
qed

definition file_tx_at :: "bytes \<Rightarrow> nat \<Rightarrow> 'w osdp_file \<Rightarrow> bool" where
  "file_tx_at d k f \<longleftrightarrow> osdp_mp_is_active (f_mp f) \<and> mp_width (f_mp f) = OSDP_MP_W32 \<and>
     mp_ops (f_mp f) = MP_OPS_HOOKS (file_mp_read (f_ops f)) (file_mp_write (f_ops f)) \<and>
     mp_event_cb (f_mp f) \<and> unat (mp_total (f_mp f)) = length d \<and> unat (mp_offset (f_mp f)) = k \<and> k \<le> length d"

lemma file_build_at:
  assumes f: "pd_file pd = Some f" "file_tx_at d k f" "k < length d" "serves (f_ops f) d"
    and max: "max_len = 27 + c" "0 < c" "c < 65536" "max_len \<le> length pkt"
  shows "\<exists>n pkt' pd' f'. osdp_file_cmd_tx_build pd pkt (int max_len) = (int (11 + n), pkt', pd') \<and>
    0 < n \<and> n \<le> c \<and> k + n \<le> length d \<and> length pkt' = length pkt \<and>
    take (11 + n) pkt' = word_of_int (f_file_id f) #
      mp_hdr OSDP_MP_W32 (mp_total (f_mp f)) (mp_offset (f_mp f)) (of_nat n) @ bytes_at k n d \<and>
    pd_file pd' = Some f' \<and> file_tx_at d k f' \<and> f_ops f' = f_ops f \<and> f_file_id f' = f_file_id f \<and>
    mp_total (f_mp f') = mp_total (f_mp f) \<and> mp_offset (f_mp f') = mp_offset (f_mp f) \<and>
    mp_last_len (f_mp f') = int n \<and> pd_ctx pd' = pd_ctx pd"
proof -
  let ?mp = "f_mp f" and ?s = "(pd_app pd, f_write_failed f)"
  note t = f(2) [unfolded file_tx_at_def]
  have rem: "unat (mp_total ?mp - mp_offset ?mp) = length d - k" 
    using t by (simp add: unat_sub word_le_nat_alt)
  then have pos: "0 < mp_total ?mp - mp_offset ?mp" using f(3) by (simp add: word_less_nat_alt)
  have rd: "\<forall>sz. 0 < sz \<longrightarrow> unat sz \<le> c \<longrightarrow> unat sz \<le> unat (mp_total ?mp - mp_offset ?mp) \<longrightarrow>
      (\<exists>n bs w'. mp_do_read ?mp sz (mp_offset ?mp) ?s = (int n, bs, w') \<and> length bs = n \<and> 0 < n \<and> n \<le> unat sz \<and>
         bs = bytes_at k n d)"
  proof (intro allI impI)
    fix sz :: u32
    assume sz: "0 < sz" "unat sz \<le> c" "unat sz \<le> unat (mp_total ?mp - mp_offset ?mp)"
    then obtain n w' where n: "fo_read (f_ops f) sz (mp_offset ?mp) (pd_app pd) = (int n, bytes_at k n d, w')"
      "0 < n" "n \<le> unat sz"
      using f(3,4) t unfolding serves_def by metis
    have "length (bytes_at k n d) = n" using n(3) sz(3) rem f(3) by (simp add: bytes_at_def)
    then show "\<exists>n bs w'. mp_do_read ?mp sz (mp_offset ?mp) ?s = (int n, bs, w') \<and> length bs = n \<and> 0 < n \<and>
        n \<le> unat sz \<and> bs = bytes_at k n d"
      using n t by (simp add: mp_do_read_def file_mp_read_def)
  qed
  have len: "10 + c \<le> length (drop 1 pkt)" using max by simp
  have "\<forall>sz. 0 < sz \<longrightarrow> unat sz \<le> c \<longrightarrow> unat sz \<le> unat (mp_total ?mp - mp_offset ?mp) \<longrightarrow>
      (\<exists>n bs w'. mp_do_read ?mp sz (mp_offset ?mp) ?s = (int n, bs, w') \<and> length bs = n \<and> 0 < n \<and> n \<le> unat sz)"
    using rd by blast
  from tx_build_hook [OF _ pos refl max(2,3) len this] t obtain n bs sz w' wf pkt' where b:
    "mp_do_read ?mp sz (mp_offset ?mp) ?s = (int n, bs, w', wf)" "0 < n" "n \<le> c" "n \<le> length d - k"
    "0 < sz" "unat sz \<le> c" "unat sz \<le> length d - k"
    "osdp_mp_tx_build ?mp (drop 1 pkt) (int (10 + c)) ?s =
      (int (10 + n), pkt', ?mp\<lparr>mp_last_len := int n, mp_state := OSDP_MP_INPROG\<rparr>, w', wf)"
    "length pkt' = length (drop 1 pkt)"
    "take (10 + n) pkt' = mp_hdr OSDP_MP_W32 (mp_total ?mp) (mp_offset ?mp) (of_nat n) @ bs"
    unfolding rem by auto
  have bs: "bs = bytes_at k n d"
    using rd [rule_format, OF b(5,6) b(7) [folded rem]] b(1) by auto
  have c: "\<not> int max_len \<le> 1 + int 10" "\<not> int max_len - 1 - OSDP_MP_SC_RESERVE \<le> int 10"
    "int max_len - 1 - OSDP_MP_SC_RESERVE = int (10 + c)"
    "\<not> (mp_state ?mp = OSDP_MP_WAIT \<and> mp_offset ?mp = mp_total ?mp)"
    using max(1,2) pos by (auto simp: OSDP_MP_SC_RESERVE_def)
  have h10: "OSDP_MP_HDR_SIZE OSDP_MP_W32 = 10" by (simp add: OSDP_MP_HDR_SIZE_def)
  let ?f' = "f\<lparr>f_mp := ?mp\<lparr>mp_last_len := int n, mp_state := OSDP_MP_INPROG\<rparr>, f_write_failed := wf, f_errors := 0\<rparr>"
  let ?pkt = "(take 1 pkt @ pkt')[0 := word_of_int (f_file_id f)]"
  have "osdp_file_cmd_tx_build pd pkt (int max_len) = (int (11 + n), ?pkt, pd\<lparr>pd_app := w', pd_file := Some ?f'\<rparr>)"
    unfolding osdp_file_cmd_tx_build_def f(1) option.case h10 Let_def c(3) b(8) prod.case
      if_not_P [OF c(1)] if_not_P [OF c(2) [unfolded c(3)]] if_not_P [OF c(4)]
    using b(2) by simp
  moreover have "?pkt = word_of_int (f_file_id f) # pkt'" "length ?pkt = length pkt"
    using b(9) max(1,4) by (cases pkt; simp)+
  moreover have "take (11 + n) (v # pkt') = v # take (10 + n) pkt'" for v
    using take_Suc_Cons [of "10 + n" v pkt'] by simp
  moreover have "file_tx_at d k ?f'" using t by (simp add: file_tx_at_def osdp_mp_is_active_def)
  moreover have "k + n \<le> length d" using b(4) f(3) by simp
  ultimately show ?thesis using b(2,3,10) bs
    by (intro exI [of _ n] exI [of _ "word_of_int (f_file_id f) # pkt'"]
        exI [of _ "pd\<lparr>pd_app := w', pd_file := Some ?f'\<rparr>"] exI [of _ ?f'] conjI) simp_all
qed

definition file_rx_at :: "('w \<Rightarrow> bytes) \<Rightarrow> bytes \<Rightarrow> nat \<Rightarrow> 'w osdp_file \<Rightarrow> 'w \<Rightarrow> bool" where
  "file_rx_at content d k f w \<longleftrightarrow> osdp_mp_is_active (f_mp f) \<and> mp_width (f_mp f) = OSDP_MP_W32 \<and>
     mp_ops (f_mp f) = MP_OPS_HOOKS (file_mp_read (f_ops f)) (file_mp_write (f_ops f)) \<and>
     mp_buf (f_mp f) = None \<and> mp_event_cb (f_mp f) \<and> unat (mp_total (f_mp f)) = length d \<and>
     unat (mp_offset (f_mp f)) = k \<and> k \<le> length d \<and> mp_last_len (f_mp f) = 0 \<and>
     \<not> f_keep_alive_pending f \<and> \<not> f_write_failed f \<and> take k (content w) = take k d \<and>
     length d \<le> length (content w)"

lemma file_consume_at:
  assumes f: "file_rx_at content d k f (pd_app pd)" "keeps (f_ops f) content"
    and n: "0 < n" "n < 65536" "k + n \<le> length d" "unat tot = length d" "unat off = k"
    and buf: "buf = fid # mp_hdr OSDP_MP_W32 tot off (of_nat n) @ bytes_at k n d"
  shows "\<exists>w' f'. file_rx_consume pd f buf (int (11 + n)) opened = (0, pd\<lparr>pd_app := w', pd_file := Some f'\<rparr>) \<and>
    f_ops f' = f_ops f \<and> f_keep_alive_pending f' = False \<and> f_write_failed f' = False \<and>
    f_is_open f' = f_is_open f \<and> f_mp f' = (f_mp f)\<lparr>mp_last_off := off, mp_last_len := int n\<rparr> \<and>
    take (k + n) (content w') = take (k + n) d \<and> length (content w') = length (content (pd_app pd))"
proof -
  let ?mp = "f_mp f" and ?w = "(pd_app pd, f_write_failed f)" and ?dl = "of_nat n :: u16"
  note t = f(1) [unfolded file_rx_at_def]
  have h10: "OSDP_MP_HDR_SIZE OSDP_MP_W32 = 10" by (simp add: OSDP_MP_HDR_SIZE_def)
  have tot: "tot = mp_total ?mp" "off = mp_offset ?mp"
    using n(4,5) t by (auto intro: word_unat_eq_iff [THEN iffD2])
  have dl: "uint ?dl = int n" "unat ?dl = n" "?dl \<noteq> 0"
    using n(1,2) by (simp_all add: uint_nat unat_of_nat word_unat_eq_iff)
  have ldata: "length (bytes_at k n d) = n" using n(3) by (simp add: bytes_at_def)
  obtain w' where wr: "fo_write (f_ops f) (bytes_at k n d) (ucast ?dl) off (pd_app pd) = (sint (ucast ?dl :: u32), w')"
    "content w' = write_at k (bytes_at k n d) (content (pd_app pd))"
  proof -
    have "unat off + length (bytes_at k n d) \<le> length (content (pd_app pd))" using n(3,5) t ldata by simp
    then show ?thesis using f(2) that n(5) unfolding keeps_def by metis
  qed
  have hdr: "osdp_mp_hdr_read (mp_width ?mp) (drop 1 buf) (int (11 + n) - 1) = Some (tot, off, ?dl, 10)"
    using mp_hdr_read_enc [of OSDP_MP_W32 tot off "int (11 + n) - 1" ?dl "bytes_at k n d"] t
    by (simp add: buf h10 mp_fits_def)
  have data: "bytes_at (OSDP_MP_HDR_SIZE (mp_width ?mp)) (unat ?dl) (drop 1 buf) = bytes_at k n d"
    using t ldata by (simp add: buf h10 dl bytes_at_def [of 10] length_mp_hdr)
  have b3: "\<not> ucast ?dl > tot - off"
    using n(3-5) dl(2) by (simp add: word_less_nat_alt unat_sub word_le_nat_alt ucast_u16_u32)
  have l1: "\<not> int (11 + n) - 1 - int (OSDP_MP_HDR_SIZE (mp_width ?mp)) < uint ?dl"
    using t by (simp add: h10 dl)
  have "mp_do_write ?mp (bytes_at k n d) (ucast ?dl) off ?w = (OSDP_MP_RX_OK, ?mp, w', False)"
    using t wr(1) by (simp add: mp_do_write_def file_mp_write_def)
  moreover have "?mp\<lparr>mp_total := tot, mp_last_off := off, mp_last_len := uint ?dl\<rparr> =
      ?mp\<lparr>mp_last_off := off, mp_last_len := int n\<rparr>"
    unfolding dl(1) tot(1) by simp
  ultimately obtain rc where c: "osdp_mp_rx_consume ?mp (drop 1 buf) (int (11 + n) - 1) ?w =
    (rc, ?mp\<lparr>mp_last_off := off, mp_last_len := int n\<rparr>, w', False)"
    "rc \<noteq> OSDP_MP_RC_ERR" "rc \<noteq> OSDP_MP_RC_EARLY_TERM"
    using rx_consume_acceptI [OF hdr _ l1 dl(3) _ _ b3, of ?w ?mp "(w', False)"] tot t data by simp
  let ?f' = "f\<lparr>f_mp := ?mp\<lparr>mp_last_off := off, mp_last_len := int n\<rparr>, f_write_failed := False\<rparr>"
  have "file_rx_consume pd f buf (int (11 + n)) opened = (0, pd\<lparr>pd_app := w', pd_file := Some ?f'\<rparr>)"
    unfolding file_rx_consume_def c(1) Let_def prod.case using c(2,3) n(1) by simp
  moreover have "take (k + n) (content w') = take (k + n) d"
    using t n(3) ldata by (simp add: wr(2) write_at_def bytes_at_def take_add)
  moreover have "length (content w') = length (content (pd_app pd))" using t n(3) ldata by (simp add: wr(2))
  ultimately show ?thesis
    using t by (intro exI [of _ w'] exI [of _ ?f'] conjI) simp_all
qed

lemma rx_commit_simps:
  assumes "unat (mp_last_off mp) = unat (mp_offset mp)" "mp_last_len mp = int n" "0 < n"
    and "unat (mp_offset mp) + n < 2 ^ 32"
  shows "unat (mp_offset (fst (osdp_mp_rx_commit mp))) = unat (mp_offset mp) + n"
    "fst (osdp_mp_rx_commit mp) = mp\<lparr>mp_offset := mp_offset (fst (osdp_mp_rx_commit mp)), mp_last_len := 0\<rparr>"
proof -
  have "unat (mp_last_off mp + word_of_int (mp_last_len mp)) = unat (mp_offset mp) + n"
    using assms by (simp add: unat_word_ariths unat_of_nat)
  then have "unat (mp_offset (fst (osdp_mp_rx_commit mp))) = unat (mp_offset mp) + n \<and>
    fst (osdp_mp_rx_commit mp) = mp\<lparr>mp_offset := mp_offset (fst (osdp_mp_rx_commit mp)), mp_last_len := 0\<rparr>"
    using assms(3) by (simp add: osdp_mp_rx_commit_def Let_def word_less_nat_alt)
  then show "unat (mp_offset (fst (osdp_mp_rx_commit mp))) = unat (mp_offset mp) + n"
    "fst (osdp_mp_rx_commit mp) = mp\<lparr>mp_offset := mp_offset (fst (osdp_mp_rx_commit mp)), mp_last_len := 0\<rparr>"
    by blast+
qed

lemma file_ack_at:
  assumes pd: "pd_file pd = Some f" "f_mp f = mp\<lparr>mp_last_off := off, mp_last_len := int n\<rparr>"
    "\<not> f_keep_alive_pending f" "\<not> f_write_failed f" "fo_finalize (f_ops f) = None"
    and at: "file_rx_at content d k (f\<lparr>f_mp := mp\<rparr>) w" and w: "length (content w) = length (content (pd_app pd))"
      "take (k + n) (content (pd_app pd)) = take (k + n) d"
    and n: "0 < n" "k + n \<le> length d" "unat off = k" and cons: "consents pd content" "keeps (f_ops f) content"
    and buf: "7 \<le> length buf" "7 \<le> max_len"
  shows "\<exists>status reply pd' f'. osdp_file_cmd_stat_build pd buf max_len = (7, reply, pd') \<and>
    bread_u16_le reply 1 = (0, 3) \<and> bread_u16_le reply 3 = (status, 5) \<and> length reply = length buf \<and>
    pd_file pd' = Some f' \<and> f_ops f' = f_ops f \<and> consents pd' content \<and> pd_ctx pd' = pd_ctx pd \<and>
    (if k + n < length d then sint status = 0 \<and> file_rx_at content d (k + n) f' (pd_app pd')
     else sint status = 1 \<and> \<not> osdp_file_tx_is_active pd' \<and> take (length d) (content (pd_app pd')) = d)"
proof -
  note t = at [unfolded file_rx_at_def]
  have lt: "k + n < 2 ^ 32" using n(2) t unat_u32_less [of "mp_total mp"] by simp
  obtain mp2 ev where c: "osdp_mp_rx_commit (f_mp f) = (mp2, ev)" by (rule prod.exhaust)
  have e: "fst (osdp_mp_rx_commit (f_mp f)) = mp2" by (simp add: c)
  have o: "unat (mp_offset mp2) = k + n" and mp2: "mp2 = (f_mp f)\<lparr>mp_offset := mp_offset mp2, mp_last_len := 0\<rparr>"
  proof -
    have "unat (mp_last_off (f_mp f)) = unat (mp_offset (f_mp f))" "mp_last_len (f_mp f) = int n"
      "unat (mp_offset (f_mp f)) + n < 2 ^ 32" "unat (mp_offset (f_mp f)) = k"
      using n(1,3) t lt by (simp_all add: pd(2))
    note r = rx_commit_simps [OF this(1,2) n(1) this(3)] this(4)
    show "unat (mp_offset mp2) = k + n" using r(1,3) unfolding e by simp
    show "mp2 = (f_mp f)\<lparr>mp_offset := mp_offset mp2, mp_last_len := 0\<rparr>" using r(2) unfolding e .
  qed
  define f2 where "f2 = f\<lparr>f_mp := mp2\<rparr>"
  define pd2 where "pd2 = mp_notify_all ev (pd\<lparr>pd_file := Some f2\<rparr>)"
  have ack: "file_stat_ack f = (0, f2, ev)"
  proof -
    have "mp_last_len (f_mp f) > 0" using pd(2) n(1) by simp
    then show ?thesis unfolding file_stat_ack_def c prod.case Let_def using pd(3) by (simp add: f2_def)
  qed
  have m2: "mp_state mp2 = mp_state mp" "mp_width mp2 = mp_width mp" "mp_ops mp2 = mp_ops mp" "mp_buf mp2 = None"
    "mp_event_cb mp2 = mp_event_cb mp" "mp_total mp2 = mp_total mp" "mp_last_len mp2 = 0"
    using t pd(2) by (subst mp2; simp)+
  have act: "osdp_mp_is_active (f_mp f)" "osdp_mp_is_active mp2"
    using t m2(1) pd(2) by (simp_all add: osdp_mp_is_active_def)
  have cons2: "consents pd2 content" "content (pd_app pd2) = content (pd_app pd)" "pd_file pd2 = Some f2"
    "pd_ctx pd2 = pd_ctx pd"
    using cons(1) by (simp_all add: pd2_def consents_notify_all)
  have sb: "osdp_file_cmd_stat_build pd buf max_len =
    (let (status, delay, pd) = (if mp_offset mp2 = mp_total mp2 \<and> mp_total mp2 \<noteq> 0 then file_stat_eof pd2 f2
                                else (0, 0, pd2));
         (len, buf) = file_stat_bytes 1 delay status 0 buf in (len, buf, pd))"
    unfolding osdp_file_cmd_stat_build_def pd(1) option.case Let_def ack prod.case
    using act(1) buf(2) pd(4) by (simp add: pd2_def f2_def Let_def)
  have tot: "mp_total mp2 \<noteq> 0" using n(1,2) t m2(6) by auto
  have st: "\<exists>reply. file_stat_bytes 1 0 s 0 buf = (7, reply) \<and> bread_u16_le reply 1 = (0, 3) \<and>
      bread_u16_le reply 3 = (word_of_int s, 5) \<and> length reply = length buf \<and> sint (word_of_int s :: u16) = s"
    if "-32768 \<le> s" "s < 32768" for s
    using stat_bytes_read [OF buf(1) that, of 1 0 0] stat_bytes [OF buf(1), of 1 0 s 0] by simp
  show ?thesis
  proof (cases "k + n < length d")
    case True
    then have ne: "mp_offset mp2 \<noteq> mp_total mp2" using o t m2(6) by auto
    obtain reply where r: "file_stat_bytes 1 0 0 0 buf = (7, reply)" "bread_u16_le reply 1 = (0, 3)"
      "bread_u16_le reply 3 = (word_of_int 0, 5)" "length reply = length buf" "sint (word_of_int 0 :: u16) = 0"
      using st [of 0] by auto
    have "osdp_file_cmd_stat_build pd buf max_len = (7, reply, pd2)"
      unfolding sb using ne r(1) by simp
    moreover have "file_rx_at content d (k + n) f2 (pd_app pd2)"
      unfolding file_rx_at_def using t act(2) m2 o n(2) pd(3,4) w cons2(2) by (simp add: f2_def)
    ultimately show ?thesis
      using r(2-5) cons2 True by (intro exI [of _ "word_of_int 0"] exI [of _ reply] exI [of _ pd2] exI [of _ f2])
        (simp add: f2_def)
  next
    case False
    then have e: "k + n = length d" using n(2) by simp
    then have eq: "mp_offset mp2 = mp_total mp2" using o t m2(6) by (simp add: word_unat_eq_iff)
    let ?pd3 = "file_transition_done OSDP_MP_OUTCOME_OK pd2"
    have td: "?pd3 = (let pd1 = mp_notify_all (snd (osdp_mp_emit_start mp2) @ [file_done_record f2 OSDP_MP_OUTCOME_OK]) pd2
       in pd1\<lparr>pd_app := file_app_close f2 (pd_app pd1), pd_file := Some (file_state_reset f2)\<rparr>)"
      using transition_done [OF cons2(3), of OSDP_MP_OUTCOME_OK] act(2) m2(5) t by (simp add: f2_def Let_def)
    have eof: "file_stat_eof pd2 f2 = (1, 0, ?pd3)"
      using pd(5) cons2(3) by (simp add: file_stat_eof_def f2_def Let_def)
    obtain reply where r: "file_stat_bytes 1 0 1 0 buf = (7, reply)" "bread_u16_le reply 1 = (0, 3)"
      "bread_u16_le reply 3 = (word_of_int 1, 5)" "length reply = length buf" "sint (word_of_int 1 :: u16) = 1"
      using st [of 1] by auto
    have "osdp_file_cmd_stat_build pd buf max_len = (7, reply, ?pd3)"
      unfolding sb using eq tot eof r(1) by simp
    moreover have "content (pd_app ?pd3) = content (pd_app pd)"
      using cons(2) cons2(1,2) by (simp add: td Let_def file_app_close_def keeps_def f2_def consents_notify consents_notify_all)
    moreover have "pd_file ?pd3 = Some (file_state_reset f2)" "consents ?pd3 content" "pd_ctx ?pd3 = pd_ctx pd"
      using cons2 by (simp_all add: td Let_def)
    moreover have "f_ops (file_state_reset f2) = f_ops f" by (simp add: file_state_reset_def f2_def)
    ultimately show ?thesis
      using r(2-5) e w(2) t
      by (intro exI [of _ "word_of_int 1"] exI [of _ reply] exI [of _ ?pd3] exI [of _ "file_state_reset f2"])
        (simp add: osdp_file_tx_is_active_def)
  qed
qed


lemma file_open_at:
  assumes g: "pd_file rx = Some g" "keeps (f_ops g) content" "consents rx content"
    and n: "0 < n" "n < 65536" "n \<le> length d" "unat tot = length d" "unat off = 0"
    and buf: "buf = fid # mp_hdr OSDP_MP_W32 tot off (of_nat n) @ bs" "length bs = n"
  shows "\<exists>rx' g'. file_rx_open rx g buf (int (11 + n)) = (True, rx') \<and> pd_file rx' = Some g' \<and> f_ops g' = f_ops g \<and>
    file_rx_at content d 0 g' (pd_app rx') \<and> consents rx' content \<and> pd_ctx rx' = pd_ctx rx"
proof -
  have h10: "OSDP_MP_HDR_SIZE OSDP_MP_W32 = 10" by (simp add: OSDP_MP_HDR_SIZE_def)
  have hdr: "osdp_mp_hdr_read OSDP_MP_W32 (drop 1 buf) (int (11 + n) - 1) = Some (tot, off, of_nat n, 10)"
    using mp_hdr_read_enc [of OSDP_MP_W32 tot off "int (11 + n) - 1" "of_nat n" bs] by (simp add: buf h10 mp_fits_def)
  have dl: "\<not> uint (of_nat n :: u16) > int (11 + n) - 1 - int (OSDP_MP_HDR_SIZE OSDP_MP_W32)"
    using n(1,2) by (simp add: h10 uint_nat unat_of_nat)
  define c where "c = \<lparr>cmd_flags = 0, cmd_u = OSDP_CMD_FILE_TX \<lparr>file_tx_id = uint (buf ! 0), file_tx_flags = f_flags g\<rparr>\<rparr>"
  obtain r1 w1 where cb: "(case command_callback (pd_cb rx) of None \<Rightarrow> (0, pd_app rx)
      | Some cb \<Rightarrow> (let (r, _, w) = cb c (pd_app rx) in (r, w))) = (r1, w1)" "\<not> r1 < 0"
  proof (cases "command_callback (pd_cb rx)")
    case (Some cb)
    obtain r c' w where s: "cb c (pd_app rx) = (r, c', w)" by (metis prod_cases3)
    then have "0 \<le> r" using g(3) Some unfolding consents_def by blast
    then show ?thesis using that s Some by simp
  qed (use that in simp)
  obtain r2 sz' w2 where op: "fo_open (f_ops g) (uint (buf ! 0)) tot w1 = (r2, sz', w2)" "0 \<le> r2"
    "unat tot \<le> length (content w2)"
    using g(2) unfolding keeps_def by meson
  define g0 where "g0 = (file_state_reset g)\<lparr>f_file_id := uint (buf ! 0), f_is_open := True\<rparr>"
  obtain mp ev where e: "osdp_mp_emit_start (osdp_mp_rx_init
      (osdp_mp_set_identity (f_mp g0) OSDP_MP_MSG_FILE_TRANSFER (uint (buf ! 0))) OSDP_MP_W32 tot) = (mp, ev)"
    by (rule prod.exhaust)
  let ?rx = "mp_notify_all ev (rx\<lparr>pd_app := w1, pd_app := w2, pd_file := Some (g0\<lparr>f_mp := mp\<rparr>)\<rparr>)"
  have "file_rx_open rx g buf (int (11 + n)) = (True, ?rx)"
    unfolding file_rx_open_def Let_def hdr option.case prod.case if_not_P [OF dl] c_def [symmetric]
      cb(1) [unfolded Let_def] if_not_P [OF cb(2)]
    using op(1,2) e by (simp add: g0_def)
  moreover have "mp = (osdp_mp_rx_init
      (osdp_mp_set_identity (f_mp g0) OSDP_MP_MSG_FILE_TRANSFER (uint (buf ! 0))) OSDP_MP_W32 tot)\<lparr>mp_start_emitted := True\<rparr>"
    using e by (auto simp: osdp_mp_emit_start_def osdp_mp_rx_init_def Let_def)
  then have "file_rx_at content d 0 (g0\<lparr>f_mp := mp\<rparr>) w2"
    using op(3) n(4) by (simp add: file_rx_at_def g0_def file_state_reset_def osdp_mp_rx_init_def
      osdp_mp_set_identity_def osdp_mp_set_event_cb_def osdp_mp_bind_ops_def osdp_mp_reset_def osdp_mp_is_active_def)
  moreover have "content (pd_app ?rx) = content w2" "consents ?rx content"
    using g(3) by (simp_all add: consents_notify_all)
  moreover have "f_ops (g0\<lparr>f_mp := mp\<rparr>) = f_ops g" by (simp add: g0_def file_state_reset_def)
  ultimately show ?thesis
    by (intro exI [of _ ?rx] exI [of _ "g0\<lparr>f_mp := mp\<rparr>"]) (simp add: file_rx_at_def)
qed


definition file_rx_ready :: "('w \<Rightarrow> bytes) \<Rightarrow> bytes \<Rightarrow> nat \<Rightarrow> 'w osdp_dev \<Rightarrow> bool" where
  "file_rx_ready content d k rx \<longleftrightarrow>
     (\<exists>g. pd_file rx = Some g \<and> keeps (f_ops g) content \<and> consents rx content \<and>
        (if osdp_mp_is_active (f_mp g) then file_rx_at content d k g (pd_app rx) else k = 0))"

lemma file_receive_at:
  assumes rx: "file_rx_ready content d k rx"
    and n: "0 < n" "n < 65536" "k + n \<le> length d" "unat tot = length d" "unat off = k"
    and buf: "buf = fid # mp_hdr OSDP_MP_W32 tot off (of_nat n) @ bytes_at k n d"
    and rep: "7 \<le> length rbuf" "7 \<le> max_len"
  shows "\<exists>rx1 rx2 status reply. osdp_file_cmd_tx_decode rx buf (int (11 + n)) = (0, rx1) \<and>
    osdp_file_cmd_stat_build rx1 rbuf max_len = (7, reply, rx2) \<and>
    bread_u16_le reply 1 = (0, 3) \<and> bread_u16_le reply 3 = (status, 5) \<and>
    (if k + n < length d then sint status = 0 \<and> file_rx_ready content d (k + n) rx2
     else sint status = 1 \<and> \<not> osdp_file_tx_is_active rx2 \<and> take (length d) (content (pd_app rx2)) = d)"
proof -
  obtain g where g: "pd_file rx = Some g" "keeps (f_ops g) content" "consents rx content"
    "if osdp_mp_is_active (f_mp g) then file_rx_at content d k g (pd_app rx) else k = 0"
    using rx unfolding file_rx_ready_def by blast
  have ldata: "length (bytes_at k n d) = n" using n(3) by (simp add: bytes_at_def)
  have h: "\<not> int (11 + n) < 1 + int (OSDP_MP_HDR_SIZE OSDP_MP_W32)" by (simp add: OSDP_MP_HDR_SIZE_def)
  obtain rx0 g0 opened where o: "osdp_file_cmd_tx_decode rx buf (int (11 + n)) =
      file_rx_consume rx0 g0 buf (int (11 + n)) opened"
    "pd_file rx0 = Some g0" "keeps (f_ops g0) content" "consents rx0 content" "file_rx_at content d k g0 (pd_app rx0)"
  proof (cases "osdp_mp_is_active (f_mp g)")
    case True
    then show ?thesis
      using that [of rx g False] g h by (simp add: osdp_file_cmd_tx_decode_def)
  next
    case False
    then have k: "k = 0" using g(4) by simp
    obtain rx0 g0 where r: "file_rx_open rx g buf (int (11 + n)) = (True, rx0)" "pd_file rx0 = Some g0"
      "f_ops g0 = f_ops g" "file_rx_at content d 0 g0 (pd_app rx0)" "consents rx0 content"
      using file_open_at [OF g(1-3) n(1,2) _ n(4) _ buf ldata] n(3,5) k by auto
    have "osdp_file_cmd_tx_decode rx buf (int (11 + n)) = file_rx_consume rx0 g0 buf (int (11 + n)) True"
      unfolding osdp_file_cmd_tx_decode_def g(1) option.case if_not_P [OF h] if_not_P [OF False] r(1) Let_def
      using r(2) by simp
    then show ?thesis using that r g(2) k by simp
  qed
  obtain w' f' where c: "file_rx_consume rx0 g0 buf (int (11 + n)) opened = (0, rx0\<lparr>pd_app := w', pd_file := Some f'\<rparr>)"
    "f_ops f' = f_ops g0" "\<not> f_keep_alive_pending f'" "\<not> f_write_failed f'"
    "f_mp f' = (f_mp g0)\<lparr>mp_last_off := off, mp_last_len := int n\<rparr>"
    "take (k + n) (content w') = take (k + n) d" "length (content w') = length (content (pd_app rx0))"
    using file_consume_at [OF o(5,3) n buf, of opened] by auto
  let ?rx1 = "rx0\<lparr>pd_app := w', pd_file := Some f'\<rparr>"
  have at: "file_rx_at content d k (f'\<lparr>f_mp := f_mp g0\<rparr>) w'"
  proof -
    have "take k (content w') = take k d"
      using arg_cong [OF c(6), of "take k"] by (simp add: min_def)
    then show ?thesis using o(5) c(2-4,7) by (simp add: file_rx_at_def)
  qed
  have fin: "fo_finalize (f_ops f') = None" "keeps (f_ops f') content" using o(3) c(2) by (simp_all add: keeps_def)
  have "pd_file ?rx1 = Some f'" "length (content w') = length (content (pd_app ?rx1))"
    "take (k + n) (content (pd_app ?rx1)) = take (k + n) d" "consents ?rx1 content"
    using c(6) o(4) by simp_all
  from file_ack_at [OF this(1) c(5,3,4) fin(1) at this(2,3) n(1,3,5) this(4) fin(2) rep]
  obtain status reply rx2 f2 where s: "osdp_file_cmd_stat_build ?rx1 rbuf max_len = (7, reply, rx2)"
    "bread_u16_le reply 1 = (0, 3)" "bread_u16_le reply 3 = (status, 5)" "pd_file rx2 = Some f2" "f_ops f2 = f_ops f'"
    "consents rx2 content"
    "if k + n < length d then sint status = 0 \<and> file_rx_at content d (k + n) f2 (pd_app rx2)
     else sint status = 1 \<and> \<not> osdp_file_tx_is_active rx2 \<and> take (length d) (content (pd_app rx2)) = d"
    by blast
  have "osdp_file_cmd_tx_decode rx buf (int (11 + n)) = (0, ?rx1)" using o(1) c(1) by simp
  moreover have "file_rx_ready content d (k + n) rx2" if "k + n < length d"
    unfolding file_rx_ready_def using that s(4-7) fin(2) by (intro exI [of _ f2]) (simp add: file_rx_at_def)
  ultimately show ?thesis using s(1-3,7)
    by (intro exI [of _ ?rx1] exI [of _ rx2] exI [of _ status] exI [of _ reply]) (simp split: if_splits)
qed

lemma file_acked_at:
  assumes f: "pd_file tx = Some f" "file_tx_at d k f" "mp_last_len (f_mp f) = int n" "k + n \<le> length d"
    and reply: "bread_u16_le reply 1 = (delay, 3)" "bread_u16_le reply 3 = (status, 5)"
      "if k + n < length d then sint status = 0 else sint status = 1"
  shows "\<exists>tx1. osdp_file_cmd_stat_decode tx reply 7 = (0, tx1) \<and>
    (if k + n < length d then \<exists>f1. pd_file tx1 = Some f1 \<and> f_ops f1 = f_ops f \<and> file_tx_at d (k + n) f1
     else \<not> osdp_file_tx_is_active tx1)"
proof -
  note t = f(2) [unfolded file_tx_at_def]
  have lt: "k + n < 2 ^ 32" using f(4) t unat_u32_less [of "mp_total (f_mp f)"] by simp
  show ?thesis
  proof (rule stat_decode [OF f(1) _ reply(1,2), of 7], goal_cases)
    case 1 then show ?case using t by simp
  next
    case 2 then show ?case by simp
  next
    case (3 f1 tx1)
    note d = 3
    have o: "unat (mp_offset (f_mp f1)) = k + n"
      using d(8) f(3) t lt by (simp add: unat_word_ariths unat_of_nat)
    show ?case
    proof (cases "k + n < length d")
      case True
      have "mp_offset (f_mp f1) \<noteq> mp_total (f_mp f1)" using o True t d(9) by auto
      moreover have "file_tx_at d (k + n) f1" using o True t d(3,5,9,10,12,13) by (simp add: file_tx_at_def)
      ultimately show ?thesis using True reply(3) d(1,2,3) by (intro exI [of _ tx1]) simp
    next
      case False
      then have "mp_offset (f_mp f1) = mp_total (f_mp f1)" using o f(4) t d(9) by (simp add: word_unat_eq_iff)
      moreover have "\<not> osdp_file_tx_is_active (file_transition_done oc tx1)" for oc
        using file_transition_done_inactive [OF d(2,5)] d(12) t by simp
      ultimately show ?thesis using False reply(3) d(1) by simp
    qed
  qed
qed


text \<open>
  One FILETRANSFER command and its FTSTAT reply: built by the sender into \<open>pkt\<close>, decoded and
  answered by the receiver into \<open>rbuf\<close>, decoded by the sender.  A command that is not built, or
  not accepted, leaves the sender waiting.
\<close>

definition file_exchange :: "bytes \<Rightarrow> int \<Rightarrow> bytes \<Rightarrow> int \<Rightarrow> 'v osdp_dev \<times> 'w osdp_dev \<Rightarrow> 'v osdp_dev \<times> 'w osdp_dev" where
  "file_exchange pkt max_len rbuf rmax = (\<lambda>(tx, rx).
     let (n, frame, tx) = osdp_file_cmd_tx_build tx pkt max_len
     in if n < 0 then (tx, rx)
        else
        let (r, rx) = osdp_file_cmd_tx_decode rx (take (nat n) frame) n
        in if r < 0 then (tx, rx)
           else
           let (m, reply, rx) = osdp_file_cmd_stat_build rx rbuf rmax
           in if m < 0 then (tx, rx)
              else (snd (osdp_file_cmd_stat_decode tx reply m), rx))"

definition file_tx_ready :: "bytes \<Rightarrow> nat \<Rightarrow> 'w osdp_dev \<Rightarrow> bool" where
  "file_tx_ready d k tx \<longleftrightarrow> (\<exists>f. pd_file tx = Some f \<and> serves (f_ops f) d \<and> file_tx_at d k f)"

lemma file_exchange_at:
  assumes tx: "file_tx_ready d k tx" and rx: "file_rx_ready content d k rx" and k: "k < length d"
    and max: "max_len = 27 + c" "0 < c" "c < 65536" "max_len \<le> length pkt" and rep: "7 \<le> length rbuf" "7 \<le> rmax"
  shows "\<exists>n tx' rx'. 0 < n \<and> k + n \<le> length d \<and>
    file_exchange pkt (int max_len) rbuf rmax (tx, rx) = (tx', rx') \<and>
    (if k + n < length d then file_tx_ready d (k + n) tx' \<and> file_rx_ready content d (k + n) rx'
     else \<not> osdp_file_tx_is_active tx' \<and> \<not> osdp_file_tx_is_active rx' \<and>
       take (length d) (content (pd_app rx')) = d)"
proof -
  obtain f where f: "pd_file tx = Some f" "serves (f_ops f) d" "file_tx_at d k f"
    using tx unfolding file_tx_ready_def by blast
  obtain n frame tx1 f1 where b: "osdp_file_cmd_tx_build tx pkt (int max_len) = (int (11 + n), frame, tx1)"
    "0 < n" "n \<le> c" "k + n \<le> length d"
    "take (11 + n) frame = word_of_int (f_file_id f) #
      mp_hdr OSDP_MP_W32 (mp_total (f_mp f)) (mp_offset (f_mp f)) (of_nat n) @ bytes_at k n d"
    "pd_file tx1 = Some f1" "file_tx_at d k f1" "f_ops f1 = f_ops f" "mp_last_len (f_mp f1) = int n"
    using file_build_at [OF f(1,3) k f(2) max] by blast
  have n: "n < 65536" "unat (mp_total (f_mp f)) = length d" "unat (mp_offset (f_mp f)) = k"
    using b(3) max(3) f(3) by (simp_all add: file_tx_at_def)
  obtain rx1 rx2 status reply where r:
    "osdp_file_cmd_tx_decode rx (take (11 + n) frame) (int (11 + n)) = (0, rx1)"
    "osdp_file_cmd_stat_build rx1 rbuf rmax = (7, reply, rx2)"
    "bread_u16_le reply 1 = (0, 3)" "bread_u16_le reply 3 = (status, 5)"
    "if k + n < length d then sint status = 0 \<and> file_rx_ready content d (k + n) rx2
     else sint status = 1 \<and> \<not> osdp_file_tx_is_active rx2 \<and> take (length d) (content (pd_app rx2)) = d"
    using file_receive_at [OF rx b(2) n(1) b(4) n(2,3) b(5) rep] by blast
  have st: "if k + n < length d then sint status = 0 else sint status = 1" using r(5) by (simp split: if_splits)
  obtain tx2 where a: "osdp_file_cmd_stat_decode tx1 reply 7 = (0, tx2)"
    "if k + n < length d then \<exists>f2. pd_file tx2 = Some f2 \<and> f_ops f2 = f_ops f1 \<and> file_tx_at d (k + n) f2
     else \<not> osdp_file_tx_is_active tx2"
    using file_acked_at [OF b(6,7,9,4) r(3,4) st] by blast
  have "file_exchange pkt (int max_len) rbuf rmax (tx, rx) = (tx2, rx2)"
    using r(1,2) a(1) by (simp add: file_exchange_def b(1) nat_int_add del: of_nat_add)
  moreover have "file_tx_ready d (k + n) tx2" if "k + n < length d"
    using a(2) that f(2) b(8) by (auto simp: file_tx_ready_def)
  ultimately show ?thesis using b(2,4) a(2) r(5)
    by (intro exI [of _ n] exI [of _ tx2] exI [of _ rx2]) (simp split: if_splits)
qed

lemma file_exchange_all:
  assumes "file_tx_ready d k tx" "file_rx_ready content d k rx" "k < length d"
    and "max_len = 27 + c" "0 < c" "c < 65536" "max_len \<le> length pkt" "7 \<le> length rbuf" "7 \<le> rmax"
  shows "\<exists>i tx' rx'. i \<le> length d - k \<and> (file_exchange pkt (int max_len) rbuf rmax ^^ i) (tx, rx) = (tx', rx') \<and>
    \<not> osdp_file_tx_is_active tx' \<and> \<not> osdp_file_tx_is_active rx' \<and> take (length d) (content (pd_app rx')) = d"
  using assms(1-3)
proof (induction "length d - k" arbitrary: k tx rx rule: less_induct)
  case less
  obtain n tx1 rx1 where e: "0 < n" "k + n \<le> length d"
    "file_exchange pkt (int max_len) rbuf rmax (tx, rx) = (tx1, rx1)"
    "if k + n < length d then file_tx_ready d (k + n) tx1 \<and> file_rx_ready content d (k + n) rx1
     else \<not> osdp_file_tx_is_active tx1 \<and> \<not> osdp_file_tx_is_active rx1 \<and>
       take (length d) (content (pd_app rx1)) = d"
    using file_exchange_at [OF less(2-4) assms(4-9)] by blast
  show ?case
  proof (cases "k + n < length d")
    case True
    then obtain i tx' rx' where i: "i \<le> length d - (k + n)"
      "(file_exchange pkt (int max_len) rbuf rmax ^^ i) (tx1, rx1) = (tx', rx')"
      "\<not> osdp_file_tx_is_active tx'" "\<not> osdp_file_tx_is_active rx'" "take (length d) (content (pd_app rx')) = d"
      using less(1) [of "k + n" tx1 rx1] e(1,4) less(4) by (auto simp: diff_less_mono2)
    then have "(file_exchange pkt (int max_len) rbuf rmax ^^ Suc i) (tx, rx) = (tx', rx')"
      using e(3) by (simp add: funpow_Suc_right del: funpow.simps)
    moreover have "Suc i \<le> length d - k" using i(1) e(1,2) by simp
    ultimately show ?thesis using i(3-5) by blast
  next
    case False
    then have "(file_exchange pkt (int max_len) rbuf rmax ^^ 1) (tx, rx) = (tx1, rx1)" using e(3) by simp
    moreover have "1 \<le> length d - k" using less(4) by simp
    ultimately show ?thesis using e(4) False by (metis (no_types))
  qed
qed

lemma file_tx_command_ready:
  assumes "pd_file tx = Some f" "osdp_file_tx_command tx file_id flags = (0, tx0)"
    and "serves (f_ops f) d" "\<forall>w. fst (snd (fo_open (f_ops f) file_id 0 w)) = of_nat (length d)" "length d < 2 ^ 32"
  shows "file_tx_ready d 0 tx0 \<and> d \<noteq> []"
proof -
  obtain r sz w where o: "fo_open (f_ops f) file_id 0 (pd_app tx) = (r, sz, w)" by (metis prod_cases3)
  then have sz: "sz = of_nat (length d)" using assms(4) by (metis fst_conv snd_conv)
  have nz: "sz \<noteq> 0" and 0: "\<not> r < 0"
    using assms(1,2) o by (auto simp: osdp_file_tx_command_def Let_def split: if_splits)
  have "unat sz = length d" using assms(5) by (simp add: sz unat_of_nat)
  then show ?thesis
    using assms(1-3) o nz 0 sz
    by (auto simp: osdp_file_tx_command_def file_tx_ready_def file_tx_at_def osdp_mp_tx_init_def file_state_reset_def
      osdp_mp_set_identity_def osdp_mp_set_event_cb_def osdp_mp_bind_ops_def osdp_mp_reset_def osdp_mp_is_active_def
      Let_def split: if_splits)
qed

text \<open>
  C33. A file sent with FILETRANSFER arrives.  Once the sending application's file is open, at
  most as many exchanges as the file has bytes end the transfer on both sides, and the receiving
  application's file starts with exactly the bytes of the sender's, whatever chunks the read hook
  serves and whatever room, at least one data byte, the packets leave.  The receiver's hooks keep
  what they are given, its command callback consents, and it has registered no finalize hook.
\<close>

theorem file_transfer_delivers:
  assumes "pd_file tx = Some f" "osdp_file_tx_command tx file_id flags = (0, tx0)" "serves (f_ops f) d"
    and "\<forall>w. fst (snd (fo_open (f_ops f) file_id 0 w)) = of_nat (length d)" "length d < 2 ^ 32"
    and "pd_file rx = Some g" "\<not> osdp_file_tx_is_active rx" "keeps (f_ops g) content" "consents rx content"
    and "28 \<le> max_len" "max_len \<le> 65000" "max_len \<le> length pkt" "7 \<le> length rbuf" "7 \<le> rmax"
  shows "\<exists>i tx' rx'. i \<le> length d \<and> (file_exchange pkt (int max_len) rbuf rmax ^^ i) (tx0, rx) = (tx', rx') \<and>
    \<not> osdp_file_tx_is_active tx' \<and> \<not> osdp_file_tx_is_active rx' \<and> take (length d) (content (pd_app rx')) = d"
proof -
  have tx: "file_tx_ready d 0 tx0" and d: "0 < length d" using file_tx_command_ready [OF assms(1-5)] by auto
  have rx: "file_rx_ready content d 0 rx"
    using assms(6-9) by (simp add: file_rx_ready_def osdp_file_tx_is_active_def)
  have "max_len = 27 + (max_len - 27)" "0 < max_len - 27" "max_len - 27 < 65536" using assms(10,11) by auto
  from file_exchange_all [OF tx rx d this assms(12-14)] show ?thesis by simp
qed

text \<open>The file ABCDE, read two bytes at a time, and an application that keeps 16 bytes.\<close>

definition exchange_src :: "unit osdp_file_ops" where
  "exchange_src = \<lparr>fo_open = (\<lambda>_ _ w. (0, 5, w)),
     fo_read = (\<lambda>sz off w. let n = min (min 2 (unat sz)) (5 - unat off)
                            in (int n, bytes_at (unat off) n [65, 66, 67, 68, 69], w)),
     fo_write = (\<lambda>_ _ _ w. (-1, w)), fo_close = (\<lambda>w. (0, w)), fo_finalize = None\<rparr>"

definition exchange_dst :: "bytes osdp_file_ops" where
  "exchange_dst = \<lparr>fo_open = (\<lambda>_ sz w. (0, sz, replicate (unat sz) 0)), fo_read = (\<lambda>_ _ w. (-1, [], w)),
     fo_write = (\<lambda>bs sz off w. (sint sz, write_at (unat off) bs w)), fo_close = (\<lambda>w. (0, w)), fo_finalize = None\<rparr>"

definition exchange_tx :: "unit osdp_dev" where
  "exchange_tx = snd (osdp_file_register_ops False exchange_src (dev_zero no_callbacks ()))"

definition exchange_rx :: "bytes osdp_dev" where
  "exchange_rx = SET_FLAG PD_FLAG_PD_MODE (snd (osdp_file_register_ops False exchange_dst (dev_zero no_callbacks [])))"

lemma file_state_reset_ops [simp]: "f_ops (file_state_reset f) = f_ops f"
  by (simp add: file_state_reset_def)

lemma exchange_rx:
  obtains g where "pd_file exchange_rx = Some g" "\<not> osdp_file_tx_is_active exchange_rx" "f_ops g = exchange_dst"
    "consents exchange_rx (\<lambda>w. w)"
proof -
  have f: "pd_file exchange_rx = Some (file_state_reset
      \<lparr>f_flags = 0, f_file_id = 0, f_mp = osdp_mp_reset, f_is_open = False, f_keep_alive_pending = False,
       f_write_failed = False, f_finalize_tstamp = 0, f_errors = 0, f_in_terminal = False, f_ops = exchange_dst\<rparr>)"
    by (simp add: exchange_rx_def osdp_file_register_ops_def SET_FLAG_def)
  show ?thesis
    by (rule that [OF f])
      (simp_all add: osdp_file_tx_is_active_def f consents_def exchange_rx_def osdp_file_register_ops_def
        SET_FLAG_def is_pd_mode_def ISSET_FLAG_def no_callbacks_def bit_simps)
qed

lemma exchange_laws: "serves exchange_src [65, 66, 67, 68, 69]" "keeps exchange_dst (\<lambda>w. w)"
  by (auto simp: serves_def keeps_def exchange_src_def exchange_dst_def Let_def word_less_nat_alt)

lemma exchange_tx:
  obtains f tx0 where "pd_file exchange_tx = Some f" "osdp_file_tx_command exchange_tx 7 0 = (0, tx0)"
    "f_ops f = exchange_src"
proof -
  have "fst (osdp_file_tx_command exchange_tx 7 0) = 0 \<and>
     (\<exists>f. pd_file exchange_tx = Some f \<and> f_ops f = exchange_src)"
    by (simp add: exchange_tx_def osdp_file_register_ops_def osdp_file_tx_command_def file_state_reset_def
      osdp_mp_engine_busy_def osdp_file_tx_is_active_def osdp_piv_is_active_def osdp_bio_is_active_def
      osdp_mp_set_event_cb_def osdp_mp_bind_ops_def osdp_mp_reset_def osdp_mp_is_active_def exchange_src_def Let_def)
  then show ?thesis using that by (metis prod.collapse)
qed

theorem file_transfer_delivers_witness:
  "\<exists>i tx' rx'. i \<le> 5 \<and>
     (file_exchange (replicate 250 0) 250 (replicate 9 0) 9 ^^ i)
       (snd (osdp_file_tx_command exchange_tx 7 0), exchange_rx) = (tx', rx') \<and>
     \<not> osdp_file_tx_is_active tx' \<and> \<not> osdp_file_tx_is_active rx' \<and> take 5 (pd_app rx') = [65, 66, 67, 68, 69]"
proof -
  obtain f tx0 where f: "pd_file exchange_tx = Some f" "osdp_file_tx_command exchange_tx 7 0 = (0, tx0)"
    "f_ops f = exchange_src" by (rule exchange_tx)
  obtain g where g: "pd_file exchange_rx = Some g" "\<not> osdp_file_tx_is_active exchange_rx" "f_ops g = exchange_dst"
    "consents exchange_rx (\<lambda>w. w)" by (rule exchange_rx)
  have "\<forall>w. fst (snd (fo_open (f_ops f) 7 0 w)) = of_nat (length [65, 66, 67, 68, 69 :: u8])"
    by (simp add: f(3) exchange_src_def)
  from file_transfer_delivers [OF f(1,2) exchange_laws(1) [folded f(3)] this _ g(1,2) exchange_laws(2) [folded g(3)]
      g(4), of 250 "replicate 250 0" "replicate 9 0" 9]
  moreover have "length [65, 66, 67, 68, 69 :: u8] = 5" by simp
  ultimately show ?thesis using f(2) by (simp only: snd_conv) simp
qed

end
