(* ===== verification/Smartcard.thy ===== *)
theory Smartcard
  imports App Multipart_Transfer
begin

text \<open>
  The smart-card operations of src/src/osdp_piv.c: PIVDATA, GENAUTH and CRAUTH, each a command
  leg and a reply leg over the multi-part engine, both roles.  The engine's buffer is the
  context's own \<open>data\<close> array, so \<open>piv_data\<close> is brought up to date after every fragment
  received.  The context always exists once asked for (allocation succeeds).
\<close>

abbreviation (input) OSDP_PIV_OP_TIMEOUT_MS :: int where "OSDP_PIV_OP_TIMEOUT_MS \<equiv> 10000"
abbreviation (input) PIV_AUTH_PFX_LEN :: nat where "PIV_AUTH_PFX_LEN \<equiv> 2"
abbreviation (input) CMD_PIVDATA_DATA_LEN :: int where "CMD_PIVDATA_DATA_LEN \<equiv> 5"

subsection \<open>The three families\<close>

record piv_family =
  fam_mp_msg :: int
  fam_app_cmd :: int
  fam_wire_cmd :: int
  fam_wire_reply :: int
  fam_event_type :: int

definition piv_families :: "piv_family list" where
  "piv_families =
    [\<lparr>fam_mp_msg = OSDP_MP_MSG_PIV, fam_app_cmd = 15, fam_wire_cmd = CMD_PIVDATA,
      fam_wire_reply = REPLY_PIVDATAR, fam_event_type = 10\<rparr>,
     \<lparr>fam_mp_msg = OSDP_MP_MSG_GENAUTH, fam_app_cmd = 16, fam_wire_cmd = CMD_GENAUTH,
      fam_wire_reply = REPLY_GENAUTHR, fam_event_type = 11\<rparr>,
     \<lparr>fam_mp_msg = OSDP_MP_MSG_CRAUTH, fam_app_cmd = 17, fam_wire_cmd = CMD_CRAUTH,
      fam_wire_reply = REPLY_CRAUTHR, fam_event_type = 12\<rparr>]"

definition piv_cmd_pfx_len :: "osdp_piv \<Rightarrow> nat" where
  "piv_cmd_pfx_len p = (if piv_mp_msg p = OSDP_MP_MSG_PIV then 0 else PIV_AUTH_PFX_LEN)"

definition family_by_app_cmd :: "int \<Rightarrow> piv_family option" where
  "family_by_app_cmd c = find (\<lambda>f. fam_app_cmd f = c) piv_families"

definition family_by_wire_cmd :: "int \<Rightarrow> piv_family option" where
  "family_by_wire_cmd c = find (\<lambda>f. fam_wire_cmd f = c) piv_families"

subsection \<open>The context\<close>

definition piv_zero :: osdp_piv where
  "piv_zero = \<lparr>piv_phase = OSDP_PIV_IDLE, piv_mp_msg = 0, piv_app_cmd = 0, piv_wire_cmd = 0,
     piv_wire_reply = 0, piv_event_type = 0, piv_start_emitted = False, piv_algorithm = 0, piv_key = 0,
     piv_req = \<lparr>pivdata_oid = replicate 3 0, pivdata_element = 0, pivdata_offset = 0\<rparr>,
     piv_tstamp = 0, piv_mp = osdp_mp_reset, piv_data = replicate OSDP_PIV_DATA_MAX_LEN 0\<rparr>"

definition piv_get :: "('w, 'z) osdp_dev_scheme \<Rightarrow> osdp_piv" where
  "piv_get pd = (case pd_piv pd of Some p \<Rightarrow> p | None \<Rightarrow> piv_zero)"

text \<open>The context stored, and what its engine reported delivered.\<close>

definition piv_put ::
  "osdp_piv \<Rightarrow> osdp_mp_progress list \<Rightarrow> ('w, 'z) osdp_dev_scheme \<Rightarrow> ('w, 'z) osdp_dev_scheme" where
  "piv_put p ev pd = mp_notify_all ev (pd\<lparr>pd_piv := Some p\<rparr>)"

definition piv_op_reset :: "osdp_piv \<Rightarrow> osdp_piv" where
  "piv_op_reset p = p\<lparr>piv_phase := OSDP_PIV_IDLE, piv_mp_msg := 0, piv_mp := osdp_mp_reset\<rparr>"

definition piv_op_setup :: "int \<Rightarrow> osdp_piv \<Rightarrow> piv_family \<Rightarrow> int \<Rightarrow> osdp_piv" where
  "piv_op_setup now p f object_id =
     p\<lparr>piv_mp_msg := fam_mp_msg f, piv_app_cmd := fam_app_cmd f, piv_wire_cmd := fam_wire_cmd f,
       piv_wire_reply := fam_wire_reply f, piv_event_type := fam_event_type f,
       piv_start_emitted := False, piv_tstamp := now,
       piv_mp := osdp_mp_rx_init
                   (osdp_mp_set_identity (osdp_mp_set_event_cb osdp_mp_reset True) (fam_mp_msg f) object_id)
                   OSDP_MP_W16 0,
       piv_phase := OSDP_PIV_CMD\<rparr>"

definition piv_emit_start :: "osdp_piv \<Rightarrow> osdp_piv \<times> osdp_mp_progress list" where
  "piv_emit_start p =
     (if \<not> piv_start_emitted p
      then let (mp, ev) = osdp_mp_emit_start (piv_mp p)
           in (p\<lparr>piv_start_emitted := True, piv_mp := mp\<rparr>, ev)
      else (p, []))"

definition osdp_piv_owns_cmd :: "('w, 'z) osdp_dev_scheme \<Rightarrow> int \<Rightarrow> bool" where
  "osdp_piv_owns_cmd pd cmd_id =
     (osdp_piv_is_active pd \<and> piv_wire_cmd (the (pd_piv pd)) = cmd_id)"

definition osdp_piv_request_cancel ::
  "('w, 'z) osdp_dev_scheme \<Rightarrow> int \<Rightarrow> int \<times> ('w, 'z) osdp_dev_scheme" where
  "osdp_piv_request_cancel pd mp_msg =
     (case pd_piv pd of
        None \<Rightarrow> (-1, pd)
      | Some p \<Rightarrow>
          if piv_phase p = OSDP_PIV_IDLE \<or> piv_mp_msg p \<noteq> mp_msg then (-1, pd)
          else (0, pd\<lparr>pd_piv := Some (p\<lparr>piv_mp := osdp_mp_request_cancel (piv_mp p)\<rparr>)\<rparr>))"

definition osdp_piv_abort :: "('w, 'z) osdp_dev_scheme \<Rightarrow> ('w, 'z) osdp_dev_scheme" where
  "osdp_piv_abort pd =
     (case pd_piv pd of
        None \<Rightarrow> pd
      | Some p \<Rightarrow>
     if piv_phase p = OSDP_PIV_IDLE then pd
     else
     let (p, ev1) = piv_emit_start p;
         (mp, ev2) = osdp_mp_finish (piv_mp p) (mp_outcome_val OSDP_MP_OUTCOME_ABORTED)
     in piv_put (piv_op_reset (p\<lparr>piv_mp := mp\<rparr>)) (ev1 @ ev2) pd)"

subsection \<open>CP role\<close>

definition osdp_piv_cp_submit ::
  "('w, 'z) osdp_dev_scheme \<Rightarrow> osdp_cmd \<Rightarrow> int \<times> ('w, 'z) osdp_dev_scheme" where
  "osdp_piv_cp_submit pd cmd =
     (let p = piv_get pd;
          pd = pd\<lparr>pd_piv := Some p\<rparr>;
          now = osdp_millis_now pd
      in case family_by_app_cmd (osdp_cmd_e (cmd_u cmd)) of
           None \<Rightarrow> (-1, pd)
         | Some f \<Rightarrow>
     if piv_phase p \<noteq> OSDP_PIV_IDLE then (-1, pd)
     else if osdp_mp_engine_busy pd then (-1, pd)
     else
     let auth = (\<lambda>a.
           if auth_length a = 0 \<or> unat (auth_length a) > length (piv_data p) then (-1, pd)
           else
           let p = (piv_op_setup now p f (uint (auth_key a)))
                     \<lparr>piv_algorithm := auth_algorithm a, piv_key := auth_key a,
                      piv_data := write_at 0 (take (unat (auth_length a)) (auth_data a)) (piv_data p)\<rparr>;
               mp = osdp_mp_bind_buffer (piv_mp p) (piv_data p) (ucast (auth_length a));
               mp = (case osdp_mp_tx_init mp (ucast (auth_length a)) OSDP_MP_W16 of Some mp \<Rightarrow> mp | None \<Rightarrow> mp)
           in (0, pd\<lparr>pd_piv := Some (p\<lparr>piv_mp := mp\<rparr>)\<rparr>))
     in case cmd_u cmd of
          OSDP_CMD_PIVDATA r \<Rightarrow>
            (0, pd\<lparr>pd_piv := Some (piv_op_setup now (p\<lparr>piv_req := r\<rparr>) f (uint (pivdata_element r)))\<rparr>)
        | OSDP_CMD_GENAUTH a \<Rightarrow> auth a
        | OSDP_CMD_CRAUTH a \<Rightarrow> auth a
        | _ \<Rightarrow> (-1, pd))"

definition osdp_piv_cp_get_command ::
  "('w, 'z) osdp_dev_scheme \<Rightarrow> int \<times> ('w, 'z) osdp_dev_scheme" where
  "osdp_piv_cp_get_command pd =
     (case pd_piv pd of
        None \<Rightarrow> (0, pd)
      | Some p \<Rightarrow>
     if piv_phase p = OSDP_PIV_IDLE then (0, pd)
     else if osdp_mp_cancel_requested (piv_mp p) \<or>
             osdp_millis_since pd (piv_tstamp p) > OSDP_PIV_OP_TIMEOUT_MS
     then (CMD_ABORT, osdp_piv_abort pd)
     else (case piv_phase p of
             OSDP_PIV_CMD \<Rightarrow> piv_wire_cmd p
           | OSDP_PIV_REPLY \<Rightarrow> CMD_POLL
           | _ \<Rightarrow> 0, pd))"

definition osdp_piv_cp_cmd_build ::
  "('w, 'z) osdp_dev_scheme \<Rightarrow> bytes \<Rightarrow> int \<Rightarrow> int \<times> bytes \<times> ('w, 'z) osdp_dev_scheme" where
  "osdp_piv_cp_cmd_build pd buf max_len =
     (case pd_piv pd of
        None \<Rightarrow> (-1, buf, pd)
      | Some p \<Rightarrow>
     if piv_phase p \<noteq> OSDP_PIV_CMD \<or> pd_cmd_id pd \<noteq> piv_wire_cmd p then (-1, buf, pd)
     else if pd_cmd_id pd = CMD_PIVDATA
     then if max_len < CMD_PIVDATA_DATA_LEN then (-1, buf, pd)
          else (5, write_at 0 (take 3 (pivdata_oid (piv_req p)) @
                               [pivdata_element (piv_req p), pivdata_offset (piv_req p)]) buf, pd)
     else if pd_cmd_id pd = CMD_GENAUTH \<or> pd_cmd_id pd = CMD_CRAUTH
     then let (len, buf, mp, _) = osdp_mp_tx_build_ex (piv_mp p) buf (max_len - 1 - OSDP_MP_SC_RESERVE)
                                    [piv_algorithm p, piv_key p] ();
              p = p\<lparr>piv_mp := mp\<rparr>
          in if len \<le> 0 then (-1, buf, pd\<lparr>pd_piv := Some p\<rparr>)
             else let (p, ev) = piv_emit_start p in (len, buf, piv_put p ev pd)
     else (-1, buf, pd))"

definition piv_cp_reply_begin :: "int \<Rightarrow> osdp_piv \<Rightarrow> osdp_piv \<times> osdp_mp_progress list" where
  "piv_cp_reply_begin now p =
     (let mp = osdp_mp_rx_init (osdp_mp_bind_buffer (piv_mp p) (piv_data p) (of_nat (length (piv_data p))))
                 OSDP_MP_W16 0;
          (p, ev) = piv_emit_start (p\<lparr>piv_mp := mp\<rparr>)
      in (p\<lparr>piv_tstamp := now, piv_phase := OSDP_PIV_REPLY\<rparr>, ev))"

definition piv_cp_cmd_leg_done :: "int \<Rightarrow> osdp_piv \<Rightarrow> bool \<times> osdp_piv \<times> osdp_mp_progress list" where
  "piv_cp_cmd_leg_done now p =
     (if mp_total (piv_mp p) = 0 \<or> \<not> osdp_mp_is_active (piv_mp p) then (True, p, [])
      else let (mp, ev) = osdp_mp_tx_commit (piv_mp p)
           in (mp_offset mp \<ge> mp_total mp, p\<lparr>piv_mp := mp, piv_tstamp := now\<rparr>, ev))"

definition osdp_piv_cp_cmd_acked :: "('w, 'z) osdp_dev_scheme \<Rightarrow> ('w, 'z) osdp_dev_scheme" where
  "osdp_piv_cp_cmd_acked pd =
     (case pd_piv pd of
        None \<Rightarrow> pd
      | Some p \<Rightarrow>
     if piv_phase p \<noteq> OSDP_PIV_CMD \<or> pd_cmd_id pd \<noteq> piv_wire_cmd p then pd
     else
     let now = osdp_millis_now pd;
         (done, p, ev1) = piv_cp_cmd_leg_done now p
     in if done then let (p, ev2) = piv_cp_reply_begin now p in piv_put p (ev1 @ ev2) pd
        else piv_put p ev1 pd)"

text \<open>The event of a finished reply: the type the family names, the bytes received.\<close>

definition piv_reply_event :: "osdp_piv \<Rightarrow> osdp_event" where
  "piv_reply_event p =
     (let r = \<lparr>piv_reply_length = ucast (mp_total (piv_mp p)),
               piv_reply_data = write_at 0 (take (unat (mp_total (piv_mp p))) (piv_data p))
                                  (replicate OSDP_PIV_DATA_MAX_LEN 0)\<rparr>
      in if piv_event_type p = 10 then OSDP_EVENT_PIVDATAR r
         else if piv_event_type p = 11 then OSDP_EVENT_GENAUTHR r
         else OSDP_EVENT_CRAUTHR r)"

definition piv_rx :: "unit osdp_multipart \<Rightarrow> osdp_piv \<Rightarrow> osdp_piv" where
  "piv_rx mp p = p\<lparr>piv_mp := mp, piv_data := (case mp_buf mp of Some b \<Rightarrow> b | None \<Rightarrow> piv_data p)\<rparr>"

definition osdp_piv_cp_reply_consume ::
  "('w, 'z) osdp_dev_scheme \<Rightarrow> bytes \<Rightarrow> int \<Rightarrow> int \<times> osdp_event option \<times> ('w, 'z) osdp_dev_scheme" where
  "osdp_piv_cp_reply_consume pd buf len =
     (case pd_piv pd of
        None \<Rightarrow> (-1, None, pd)
      | Some p \<Rightarrow>
     let now = osdp_millis_now pd;
         inline = (piv_phase p = OSDP_PIV_CMD \<and> pd_cmd_id pd = piv_wire_cmd p)
     in if pd_reply_id pd \<noteq> piv_wire_reply p then (-1, None, pd)
        else if \<not> inline \<and> piv_phase p \<noteq> OSDP_PIV_REPLY then (-1, None, pd)
        else
     let (p, ev) = (if inline
                    then let (_, p, ev1) = piv_cp_cmd_leg_done now p;
                             (p, ev2) = piv_cp_reply_begin now p
                         in (p, ev1 @ ev2)
                    else (p, []));
         pd = piv_put p ev pd;
         (rc, mp, _) = osdp_mp_rx_consume (piv_mp p) buf len ();
         p = piv_rx mp p
     in if rc = OSDP_MP_RC_MORE
        then let (mp, ev) = osdp_mp_rx_commit (piv_mp p)
             in (0, None, piv_put (p\<lparr>piv_mp := mp, piv_tstamp := now\<rparr>) ev pd)
        else if rc = OSDP_MP_RC_DONE
        then let (mp, ev) = osdp_mp_rx_commit (piv_mp p); p = p\<lparr>piv_mp := mp\<rparr>
             in (1, Some (piv_reply_event p), piv_put p ev pd)
        else (0, None, osdp_piv_abort (pd\<lparr>pd_piv := Some p\<rparr>)))"

definition osdp_piv_cp_reply_finish :: "('w, 'z) osdp_dev_scheme \<Rightarrow> ('w, 'z) osdp_dev_scheme" where
  "osdp_piv_cp_reply_finish pd =
     (case pd_piv pd of
        None \<Rightarrow> pd
      | Some p \<Rightarrow>
          let (mp, ev) = osdp_mp_finish (piv_mp p) (mp_outcome_val OSDP_MP_OUTCOME_OK)
          in piv_put (piv_op_reset (p\<lparr>piv_mp := mp\<rparr>)) ev pd)"

subsection \<open>PD role\<close>

definition osdp_piv_pd_open ::
  "('w, 'z) osdp_dev_scheme \<Rightarrow> int \<Rightarrow> int \<Rightarrow> int \<times> ('w, 'z) osdp_dev_scheme" where
  "osdp_piv_pd_open pd wire_cmd object_id =
     (let pd = pd\<lparr>pd_piv := Some (piv_get pd)\<rparr>
      in case family_by_wire_cmd wire_cmd of
           None \<Rightarrow> (-1, pd)
         | Some f \<Rightarrow>
             let pd = osdp_piv_abort pd
             in (0, pd\<lparr>pd_piv := Some (piv_op_setup (osdp_millis_now pd) (piv_get pd) f object_id)\<rparr>))"

text \<open>
  The command handed to the application.  The callers pass the two authentication commands
  only.
\<close>

definition piv_auth_cmd :: "osdp_piv \<Rightarrow> osdp_cmd" where
  "piv_auth_cmd p =
     (let a = \<lparr>auth_algorithm = piv_algorithm p, auth_key = piv_key p,
               auth_length = ucast (mp_total (piv_mp p)),
               auth_data = write_at 0 (take (unat (mp_total (piv_mp p))) (piv_data p))
                             (replicate OSDP_PIV_DATA_MAX_LEN 0)\<rparr>
      in \<lparr>cmd_flags = 0,
          cmd_u = (if piv_app_cmd p = 16 then OSDP_CMD_GENAUTH a else OSDP_CMD_CRAUTH a)\<rparr>)"

definition osdp_piv_pd_cmd_frag ::
  "('w, 'z) osdp_dev_scheme \<Rightarrow> int \<Rightarrow> bytes \<Rightarrow> int \<Rightarrow> int \<times> osdp_cmd option \<times> ('w, 'z) osdp_dev_scheme" where
  "osdp_piv_pd_cmd_frag pd wire_cmd buf len =
     (case osdp_mp_hdr_read OSDP_MP_W16 buf len of
        None \<Rightarrow> (-1, None, pd)
      | Some (tot, off, _, _) \<Rightarrow>
     let (ok, pd) =
       (if off = 0
        then if tot = 0 \<or> unat tot > OSDP_PIV_DATA_MAX_LEN then (False, pd)
             else
             let (r, pd) = osdp_piv_pd_open pd wire_cmd 0
             in if r \<noteq> 0 then (False, pd)
                else
                let p = piv_get pd;
                    mp = osdp_mp_rx_init
                           (osdp_mp_bind_buffer (piv_mp p) (piv_data p) (of_nat (length (piv_data p))))
                           OSDP_MP_W16 tot;
                    (p, ev) = piv_emit_start (p\<lparr>piv_mp := mp\<rparr>)
                in (True, piv_put p ev pd)
        else (case pd_piv pd of
                None \<Rightarrow> (False, pd)
              | Some p \<Rightarrow> (\<not> (piv_phase p \<noteq> OSDP_PIV_CMD \<or> piv_wire_cmd p \<noteq> wire_cmd \<or>
                             \<not> osdp_mp_is_active (piv_mp p)), pd)))
     in if \<not> ok then (-1, None, pd)
        else
     let now = osdp_millis_now pd;
         p = piv_get pd;
         (rc, pfx, mp, _) = osdp_mp_rx_consume_ex (piv_mp p) buf len (replicate (piv_cmd_pfx_len p) 0) ();
         p = piv_rx mp p
     in if rc = OSDP_MP_RC_MORE \<or> rc = OSDP_MP_RC_DONE
        then let pfx = pfx @ replicate (PIV_AUTH_PFX_LEN - length pfx) 0;
                 p = (if off = 0
                      then p\<lparr>piv_algorithm := pfx ! 0, piv_key := pfx ! 1,
                             piv_mp := osdp_mp_set_identity (piv_mp p) (piv_mp_msg p) (uint (pfx ! 1))\<rparr>
                      else p);
                 (mp, ev) = osdp_mp_rx_commit (piv_mp p);
                 p = p\<lparr>piv_mp := mp, piv_tstamp := now\<rparr>;
                 pd = piv_put p ev pd
             in if rc = OSDP_MP_RC_MORE then (0, None, pd) else (1, Some (piv_auth_cmd p), pd)
        else (if rc = OSDP_MP_RC_EARLY_TERM then 0 else -1, None, osdp_piv_abort (pd\<lparr>pd_piv := Some p\<rparr>)))"

definition osdp_piv_pd_reply_pending :: "('w, 'z) osdp_dev_scheme \<Rightarrow> bool" where
  "osdp_piv_pd_reply_pending pd =
     (case pd_piv pd of
        None \<Rightarrow> False
      | Some p \<Rightarrow> piv_phase p = OSDP_PIV_REPLY \<and> osdp_mp_is_active (piv_mp p) \<and>
                  mp_offset (piv_mp p) < mp_total (piv_mp p))"

definition osdp_piv_pd_reply_id :: "('w, 'z) osdp_dev_scheme \<Rightarrow> int" where
  "osdp_piv_pd_reply_id pd = piv_wire_reply (the (pd_piv pd))"

text \<open>\<open>event\<close> is the application's reply on the first fragment.\<close>

definition osdp_piv_pd_reply_build ::
  "('w, 'z) osdp_dev_scheme \<Rightarrow> osdp_event_piv_reply option \<Rightarrow> bytes \<Rightarrow> int
   \<Rightarrow> int \<times> bytes \<times> ('w, 'z) osdp_dev_scheme" where
  "osdp_piv_pd_reply_build pd event buf max_len =
     (case pd_piv pd of
        None \<Rightarrow> (-1, buf, pd)
      | Some p \<Rightarrow>
     let start =
       (case event of
          Some r \<Rightarrow>
            if piv_phase p \<noteq> OSDP_PIV_CMD then None
            else if piv_reply_length r = 0 \<or> unat (piv_reply_length r) > length (piv_data p) then None
            else
            let data = write_at 0 (take (unat (piv_reply_length r)) (piv_reply_data r)) (piv_data p);
                mp = osdp_mp_bind_buffer (piv_mp p) data (ucast (piv_reply_length r));
                mp = (case osdp_mp_tx_init mp (ucast (piv_reply_length r)) OSDP_MP_W16 of
                        Some mp \<Rightarrow> mp | None \<Rightarrow> mp);
                (mp, ev) = osdp_mp_emit_start mp
            in Some (p\<lparr>piv_data := data, piv_mp := mp, piv_phase := OSDP_PIV_REPLY\<rparr>, ev)
        | None \<Rightarrow> if \<not> osdp_piv_pd_reply_pending pd then None else Some (p, []))
     in case start of
          None \<Rightarrow> (-1, buf, pd)
        | Some (p, ev) \<Rightarrow>
     let pd = piv_put p ev pd;
         (n, buf, mp, _) = osdp_mp_tx_build (piv_mp p) buf (max_len - 16) ();
         p = p\<lparr>piv_mp := mp\<rparr>
     in if n < 0 then (-1, buf, osdp_piv_abort (pd\<lparr>pd_piv := Some p\<rparr>))
        else
     let (mp, ev) = osdp_mp_tx_commit (piv_mp p);
         p = p\<lparr>piv_mp := mp, piv_tstamp := osdp_millis_now pd\<rparr>;
         pd = piv_put p ev pd
     in if mp_offset mp \<ge> mp_total mp
        then let (mp, ev) = osdp_mp_finish mp (mp_outcome_val OSDP_MP_OUTCOME_OK)
             in (n, buf, piv_put (piv_op_reset (p\<lparr>piv_mp := mp\<rparr>)) ev pd)
        else (n, buf, pd))"


subsection \<open>An operation that stalls ends\<close>

definition piv_done_record :: "osdp_piv \<Rightarrow> int \<Rightarrow> osdp_mp_progress" where
  "piv_done_record p outcome =
     \<lparr>mpp_phase = OSDP_MP_PHASE_DONE, mpp_msg_type = mp_msg_type (piv_mp p), mpp_object_id = mp_object_id (piv_mp p),
      mpp_total = mp_total (piv_mp p), mpp_offset = mp_offset (piv_mp p), mpp_outcome = outcome\<rparr>"

lemma piv_put_piv [simp]: "pd_piv (piv_put p ev pd) = Some p"
  by (simp add: piv_put_def)

lemma piv_put_put [simp]: "piv_put p ev (pd\<lparr>pd_piv := x\<rparr>) = piv_put p ev pd"
  by (simp add: piv_put_def)

lemma piv_emit_start_frame:
  assumes "piv_emit_start p = (p', ev)"
  shows "piv_phase p' = piv_phase p" "osdp_mp_is_active (piv_mp p') = osdp_mp_is_active (piv_mp p)"
    "mp_event_cb (piv_mp p') = mp_event_cb (piv_mp p)" "piv_done_record p' oc = piv_done_record p oc"
    "mp_state (piv_mp p') = mp_state (piv_mp p)"
  using assms by (auto simp: piv_emit_start_def osdp_mp_emit_start_def Let_def piv_done_record_def osdp_mp_is_active_def
      split: if_splits)

lemma piv_emit_start_records:
  "mp_notify_all (snd (piv_emit_start p)) pd = pd \<or>
   mp_notify_all (snd (piv_emit_start p)) pd = mp_notify_all (snd (osdp_mp_emit_start (piv_mp p))) pd"
  by (simp add: piv_emit_start_def Let_def split: prod.split)

lemma piv_op_reset_idle [simp]: "piv_phase (piv_op_reset p) = OSDP_PIV_IDLE"
  by (simp add: piv_op_reset_def)

lemma piv_op_reset_cong:
  "piv_emit_start p = (p', ev) \<Longrightarrow> piv_op_reset (p'\<lparr>piv_mp := mp\<rparr>) = piv_op_reset (p\<lparr>piv_start_emitted := True\<rparr>)"
  by (auto simp: piv_emit_start_def Let_def piv_op_reset_def split: if_splits prod.splits)

lemma piv_abort_active:
  assumes "pd_piv pd = Some p" "piv_phase p \<noteq> OSDP_PIV_IDLE" "osdp_mp_is_active (piv_mp p)" "mp_event_cb (piv_mp p)"
  shows "osdp_piv_abort pd = piv_put (piv_op_reset (p\<lparr>piv_start_emitted := True\<rparr>))
    (snd (piv_emit_start p) @ [piv_done_record p (mp_outcome_val OSDP_MP_OUTCOME_ABORTED)]) pd"
proof -
  obtain p' ev where e: "piv_emit_start p = (p', ev)" by (rule prod.exhaust)
  note f = piv_emit_start_frame [OF e]
  have "snd (osdp_mp_finish (piv_mp p') (mp_outcome_val OSDP_MP_OUTCOME_ABORTED)) =
      [piv_done_record p (mp_outcome_val OSDP_MP_OUTCOME_ABORTED)]"
    using f(2,3) assms(3,4) by (subst f(4) [symmetric])
      (auto simp: osdp_mp_finish_def osdp_mp_is_active_def mp_emit_def piv_done_record_def Let_def)
  then show ?thesis
    using assms(1,2) e by (simp add: osdp_piv_abort_def Let_def piv_op_reset_cong [OF e] split: prod.split) (metis snd_conv)
qed

text \<open>
  C35. A smart-card operation cannot hang.  When it was cancelled, or nothing moved for more than
  ten seconds, the next request for a command yields CMD_ABORT; the application hears the start,
  if it has not yet, and then one final record with the outcome ABORTED, the context is idle, and
  a command the engine held is handed back.
\<close>

theorem piv_stalled_op_aborts:
  assumes "pd_piv pd = Some p" "piv_phase p \<noteq> OSDP_PIV_IDLE" "osdp_mp_is_active (piv_mp p)" "mp_event_cb (piv_mp p)"
    and "osdp_mp_cancel_requested (piv_mp p) \<or> osdp_millis_since pd (piv_tstamp p) > OSDP_PIV_OP_TIMEOUT_MS"
    and "osdp_piv_cp_get_command pd = (cmd, pd')"
  shows "cmd = CMD_ABORT \<and> \<not> osdp_piv_is_active pd' \<and>
    pd_app pd' = pd_app (mp_notify_all
      (snd (piv_emit_start p) @ [piv_done_record p (mp_outcome_val OSDP_MP_OUTCOME_ABORTED)]) pd) \<and>
    (is_cp_mode pd \<and> mp_msg_type (piv_mp p) = pd_engine_cmd_mp_type pd \<longrightarrow> pd_engine_cmd pd' = None)"
proof -
  have a: "cmd = CMD_ABORT" "pd' = osdp_piv_abort pd"
    using assms by (auto simp: osdp_piv_cp_get_command_def split: if_splits)
  note r = piv_abort_active [OF assms(1-4)]
  have n: "mp_notify_all ps (pd\<lparr>pd_piv := x\<rparr>) = (mp_notify_all ps pd)\<lparr>pd_piv := x\<rparr>" for ps x
    by (induction ps arbitrary: pd) simp_all
  have "pd_engine_cmd pd' = None" if "is_cp_mode pd" "mp_msg_type (piv_mp p) = pd_engine_cmd_mp_type pd"
  proof -
    have "pd_engine_cmd_mp_type (mp_notify_all (snd (piv_emit_start p)) pd) = pd_engine_cmd_mp_type pd"
      using piv_emit_start_records [of p] emit_start_engine_cmd(2) by metis
    then show ?thesis
      using that notify_done_engine_cmd [of "mp_notify_all (snd (piv_emit_start p)) pd"
          "piv_done_record p (mp_outcome_val OSDP_MP_OUTCOME_ABORTED)"]
      unfolding a(2) r by (simp add: piv_put_def n piv_done_record_def)
  qed
  then show ?thesis using a(1) unfolding a(2) r by (simp add: piv_put_def n osdp_piv_is_active_def)
qed

text \<open>A PIVDATA request at time 0, looked at 10001 ms later.\<close>

definition piv_stalled_example :: "nat osdp_dev" where
  "piv_stalled_example =
     (let pd = snd (osdp_piv_cp_submit (dev_zero no_callbacks 0)
                 \<lparr>cmd_flags = 0, cmd_u = OSDP_CMD_PIVDATA
                    \<lparr>pivdata_oid = [1, 2, 3], pivdata_element = 4, pivdata_offset = 0\<rparr>\<rparr>)
      in set_channel ((pd_channel pd)\<lparr>ch_now := 10001\<rparr>) pd)"

lemma piv_stalled_example:
  obtains p where "pd_piv piv_stalled_example = Some p" "piv_phase p \<noteq> OSDP_PIV_IDLE"
    "osdp_mp_is_active (piv_mp p)" "mp_event_cb (piv_mp p)"
    "osdp_millis_since piv_stalled_example (piv_tstamp p) > OSDP_PIV_OP_TIMEOUT_MS"
proof -
  have "osdp_millis_now (dev_zero no_callbacks (0 :: nat)) = 0"
    by (simp add: osdp_millis_now_def pd_zero_def)
  then show ?thesis
    using that by (simp add: piv_stalled_example_def osdp_piv_cp_submit_def family_by_app_cmd_def piv_families_def
      piv_get_def piv_zero_def osdp_mp_engine_busy_def osdp_file_tx_is_active_def osdp_piv_is_active_def
      osdp_bio_is_active_def piv_op_setup_def osdp_mp_rx_init_def osdp_mp_set_identity_def osdp_mp_set_event_cb_def
      osdp_mp_reset_def osdp_mp_is_active_def Let_def osdp_millis_since_def osdp_millis_now_def set_channel_def)
qed

theorem piv_stalled_op_aborts_witness:
  "fst (osdp_piv_cp_get_command piv_stalled_example) = CMD_ABORT \<and>
   \<not> osdp_piv_is_active (snd (osdp_piv_cp_get_command piv_stalled_example))"
proof -
  obtain p where p: "pd_piv piv_stalled_example = Some p" "piv_phase p \<noteq> OSDP_PIV_IDLE"
    "osdp_mp_is_active (piv_mp p)" "mp_event_cb (piv_mp p)"
    "osdp_millis_since piv_stalled_example (piv_tstamp p) > OSDP_PIV_OP_TIMEOUT_MS"
    by (rule piv_stalled_example)
  show ?thesis
    using piv_stalled_op_aborts [OF p(1-4) disjI2 [OF p(5)] prod.collapse [symmetric]] by simp
qed

subsection \<open>A reply leg on the PD reports a second start\<close>

text \<open>
  C36. On a PD the reply leg of an operation reports a start of its own, even when the command leg
  has reported one: the first record the application hears when its reply event is taken up is
  MP_START again, although both legs are one transfer.
\<close>

theorem piv_pd_second_start:
  assumes "pd_piv pd = Some p" "piv_phase p = OSDP_PIV_CMD" "piv_start_emitted p" "mp_event_cb (piv_mp p)"
    and "piv_reply_length r \<noteq> 0" "unat (piv_reply_length r) \<le> length (piv_data p)"
  shows "\<exists>rec rest. mpp_phase rec = OSDP_MP_PHASE_START \<and> mpp_msg_type rec = mp_msg_type (piv_mp p) \<and>
    pd_app (snd (snd (osdp_piv_pd_reply_build pd (Some r) buf max_len))) = pd_app (mp_notify_all (rec # rest) pd)"
proof -
  let ?L = "ucast (piv_reply_length r) :: u32"
  define data where "data = write_at 0 (take (unat (piv_reply_length r)) (piv_reply_data r)) (piv_data p)"
  have L: "?L \<noteq> 0"
  proof
    assume "?L = 0"
    then have "unat ?L = 0" by simp
    then show False using assms(5) ucast_u16_u32(2) [of "piv_reply_length r"] by (simp add: unat_eq_0)
  qed
  obtain mp where ti: "osdp_mp_tx_init (osdp_mp_bind_buffer (piv_mp p) data ?L) ?L OSDP_MP_W16 = Some mp"
    "\<not> mp_start_emitted mp" "mp_event_cb mp" "mp_msg_type mp = mp_msg_type (piv_mp p)"
    using L assms(4) by (auto simp: osdp_mp_tx_init_def osdp_mp_bind_buffer_def)
  obtain mp1 rec where st: "osdp_mp_emit_start mp = (mp1, [rec])" "mpp_phase rec = OSDP_MP_PHASE_START"
    "mpp_msg_type rec = mp_msg_type (piv_mp p)"
    using ti(2-4) by (simp add: osdp_mp_emit_start_def mp_emit_def Let_def)
  let ?p1 = "p\<lparr>piv_data := data, piv_mp := mp1, piv_phase := OSDP_PIV_REPLY\<rparr>"
  have n: "mp_notify_all ps (pd\<lparr>pd_piv := x\<rparr>) = (mp_notify_all ps pd)\<lparr>pd_piv := x\<rparr>" for ps x and pd :: "('a, 'b) osdp_dev_scheme"
    by (induction ps arbitrary: pd) simp_all
  have ab: "\<exists>ps. pd_app (osdp_piv_abort pd') = pd_app (mp_notify_all ps pd')" for pd' :: "('a, 'b) osdp_dev_scheme"
  proof (cases "pd_piv pd'")
    case None
    then show ?thesis by (intro exI [of _ "[]"]) (simp add: osdp_piv_abort_def)
  next
    case (Some a)
    obtain x1 x2 where 1: "piv_emit_start a = (x1, x2)" by (rule prod.exhaust)
    obtain y1 y2 where 2: "osdp_mp_finish (piv_mp x1) (mp_outcome_val OSDP_MP_OUTCOME_ABORTED) = (y1, y2)"
      by (rule prod.exhaust)
    show ?thesis
      by (intro exI [of _ "if piv_phase a = OSDP_PIV_IDLE then [] else x2 @ y2"])
        (use Some 1 2 in \<open>simp add: osdp_piv_abort_def piv_put_def n Let_def del: mp_outcome_val.simps\<close>)
  qed
  have "\<exists>rest. pd_app (snd (snd (osdp_piv_pd_reply_build pd (Some r) buf max_len))) =
      pd_app (mp_notify_all rest (piv_put ?p1 [rec] pd))"
  proof -
    let ?pd1 = "piv_put ?p1 [rec] pd"
    obtain k pkt mp2 u where b: "osdp_mp_tx_build mp1 buf (max_len - 16) () = (k, pkt, mp2, u)" by (metis prod_cases4)
    obtain mp3 ev where c: "osdp_mp_tx_commit mp2 = (mp3, ev)" by (rule prod.exhaust)
    obtain mp4 ev2 where f: "osdp_mp_finish mp3 (mp_outcome_val OSDP_MP_OUTCOME_OK) = (mp4, ev2)" by (rule prod.exhaust)
    let ?p3 = "?p1\<lparr>piv_mp := mp2, piv_mp := mp3, piv_tstamp := osdp_millis_now ?pd1\<rparr>"
    have len: "\<not> (piv_reply_length r = 0 \<or> unat (piv_reply_length r) > length (piv_data p))" using assms(5,6) by simp
    have ph: "\<not> piv_phase p \<noteq> OSDP_PIV_CMD" using assms(2) by simp
    have res: "snd (snd (osdp_piv_pd_reply_build pd (Some r) buf max_len)) =
        (if k < 0 then osdp_piv_abort (?pd1\<lparr>pd_piv := Some (?p1\<lparr>piv_mp := mp2\<rparr>)\<rparr>)
         else if mp_offset mp3 \<ge> mp_total mp3
         then piv_put (piv_op_reset (?p3\<lparr>piv_mp := mp4\<rparr>)) ev2 (piv_put ?p3 ev ?pd1) else piv_put ?p3 ev ?pd1)"
      unfolding osdp_piv_pd_reply_build_def assms(1) option.case Let_def if_not_P [OF ph] if_not_P [OF len]
        data_def [symmetric] ti(1) st(1) prod.case using b c f by (simp del: mp_outcome_val.simps)
    have "\<exists>rest. pd_app (osdp_piv_abort (?pd1\<lparr>pd_piv := x\<rparr>)) = pd_app (mp_notify_all rest ?pd1)" for x
      using ab [of "?pd1\<lparr>pd_piv := x\<rparr>"] by (simp add: n)
    then obtain rest where rest: "pd_app (osdp_piv_abort (?pd1\<lparr>pd_piv := Some (?p1\<lparr>piv_mp := mp2\<rparr>)\<rparr>)) =
        pd_app (mp_notify_all rest ?pd1)" by blast
    show ?thesis
    proof (cases "k < 0")
      case True
      then show ?thesis unfolding res using rest by (intro exI [of _ rest]) simp
    next
      case False
      then show ?thesis unfolding res
        by (intro exI [of _ "if mp_offset mp3 \<ge> mp_total mp3 then ev @ ev2 else ev"]) (simp add: piv_put_def n)
    qed
  qed
  then obtain rest where "pd_app (snd (snd (osdp_piv_pd_reply_build pd (Some r) buf max_len))) =
      pd_app (mp_notify_all rest (piv_put ?p1 [rec] pd))" by blast
  then show ?thesis using st(2,3) by (intro exI [of _ rec] exI [of _ rest]) (simp add: piv_put_def n)
qed

text \<open>A PD that has heard the command leg of a GENAUTH.\<close>

definition piv_pd_example :: "nat osdp_dev" where
  "piv_pd_example = (dev_zero no_callbacks 0)\<lparr>pd_piv := Some (fst (piv_emit_start
     (piv_op_setup 0 piv_zero (the (family_by_wire_cmd CMD_GENAUTH)) 7)))\<rparr>"

theorem piv_pd_second_start_witness:
  "\<exists>rec rest. mpp_phase rec = OSDP_MP_PHASE_START \<and> mpp_msg_type rec = OSDP_MP_MSG_GENAUTH \<and>
    pd_app (snd (snd (osdp_piv_pd_reply_build piv_pd_example
        (Some \<lparr>piv_reply_length = 3, piv_reply_data = [1, 2, 3]\<rparr>) (replicate 200 0) 200))) =
    pd_app (mp_notify_all (rec # rest) piv_pd_example)"
proof -
  obtain p where "pd_piv piv_pd_example = Some p" "piv_phase p = OSDP_PIV_CMD" "piv_start_emitted p"
    "mp_event_cb (piv_mp p)" "length (piv_data p) = 256" "mp_msg_type (piv_mp p) = OSDP_MP_MSG_GENAUTH"
    by (simp add: piv_pd_example_def piv_emit_start_def piv_op_setup_def osdp_mp_emit_start_def osdp_mp_rx_init_def
      osdp_mp_set_identity_def osdp_mp_set_event_cb_def family_by_wire_cmd_def piv_families_def piv_zero_def Let_def)
  then show ?thesis
    using piv_pd_second_start [of piv_pd_example p "\<lparr>piv_reply_length = 3, piv_reply_data = [1, 2, 3]\<rparr>" "replicate 200 0" 200]
    by simp
qed

end
