(* ===== verification/Biometric.thy ===== *)
theory Biometric
  imports App Multipart_Transfer
begin

text \<open>
  The reassembly of biometric templates of src/src/osdp_bio.c: a template that fits goes in one
  REPLY_BIOREADR, a longer one in fragments, the first of which carries the standard header in
  place of the multi-part header.  The engine's buffer is the context's own \<open>data\<close> array, so
  \<open>bio_data\<close> is brought up to date after every fragment received.
\<close>

abbreviation (input) OSDP_BIO_OP_TIMEOUT_MS :: int where "OSDP_BIO_OP_TIMEOUT_MS \<equiv> 10000"
abbreviation (input) REPLY_BIOREADR_DATA_LEN :: nat where "REPLY_BIOREADR_DATA_LEN \<equiv> 6"

definition bio_zero :: osdp_bio where
  "bio_zero = \<lparr>bio_phase = OSDP_BIO_IDLE, bio_start_emitted = False, bio_reader = 0, bio_status = 0,
     bio_type = 0, bio_quality = 0, bio_tstamp = 0, bio_mp = osdp_mp_reset,
     bio_data = replicate OSDP_EVENT_BIOREADR_MAX_TEMPLATE_LEN 0\<rparr>"

definition bio_get :: "('w, 'z) osdp_dev_scheme \<Rightarrow> osdp_bio" where
  "bio_get pd = (case pd_bio pd of Some b \<Rightarrow> b | None \<Rightarrow> bio_zero)"

text \<open>The context stored, and what its engine reported delivered.\<close>

definition bio_put ::
  "osdp_bio \<Rightarrow> osdp_mp_progress list \<Rightarrow> ('w, 'z) osdp_dev_scheme \<Rightarrow> ('w, 'z) osdp_dev_scheme" where
  "bio_put b ev pd = mp_notify_all ev (pd\<lparr>pd_bio := Some b\<rparr>)"

definition bio_op_reset :: "osdp_bio \<Rightarrow> osdp_bio" where
  "bio_op_reset b = b\<lparr>bio_phase := OSDP_BIO_IDLE, bio_mp := osdp_mp_reset\<rparr>"

definition bio_emit_start :: "osdp_bio \<Rightarrow> osdp_bio \<times> osdp_mp_progress list" where
  "bio_emit_start b =
     (if \<not> bio_start_emitted b
      then let (mp, ev) = osdp_mp_emit_start (bio_mp b)
           in (b\<lparr>bio_start_emitted := True, bio_mp := mp\<rparr>, ev)
      else (b, []))"

definition osdp_bio_owns_cmd :: "('w, 'z) osdp_dev_scheme \<Rightarrow> int \<Rightarrow> bool" where
  "osdp_bio_owns_cmd pd cmd_id = (osdp_bio_is_active pd \<and> cmd_id = CMD_BIOREAD)"

definition osdp_bio_request_cancel :: "('w, 'z) osdp_dev_scheme \<Rightarrow> int \<times> ('w, 'z) osdp_dev_scheme" where
  "osdp_bio_request_cancel pd =
     (case pd_bio pd of
        None \<Rightarrow> (-1, pd)
      | Some b \<Rightarrow>
          if \<not> osdp_bio_is_active pd then (-1, pd)
          else (0, pd\<lparr>pd_bio := Some (b\<lparr>bio_mp := osdp_mp_request_cancel (bio_mp b)\<rparr>)\<rparr>))"

definition osdp_bio_abort :: "('w, 'z) osdp_dev_scheme \<Rightarrow> ('w, 'z) osdp_dev_scheme" where
  "osdp_bio_abort pd =
     (case pd_bio pd of
        None \<Rightarrow> pd
      | Some b \<Rightarrow>
     if bio_phase b = OSDP_BIO_IDLE then pd
     else
     let (b, ev1) = bio_emit_start b;
         (mp, ev2) = osdp_mp_finish (bio_mp b) (mp_outcome_val OSDP_MP_OUTCOME_ABORTED)
     in bio_put (bio_op_reset (b\<lparr>bio_mp := mp\<rparr>)) (ev1 @ ev2) pd)"

text \<open>
  The op opened for a fresh transfer on the stored context: what a previous op left behind is
  aborted first.
\<close>

definition bio_op_open :: "u8 \<Rightarrow> ('w, 'z) osdp_dev_scheme \<Rightarrow> ('w, 'z) osdp_dev_scheme" where
  "bio_op_open reader pd =
     (let pd = osdp_bio_abort pd;
          b = bio_get pd;
          mp = osdp_mp_set_identity (osdp_mp_set_event_cb osdp_mp_reset True) OSDP_MP_MSG_BIOREAD (uint reader)
      in pd\<lparr>pd_bio := Some (b\<lparr>bio_start_emitted := False, bio_tstamp := osdp_millis_now pd, bio_mp := mp\<rparr>)\<rparr>)"

subsection \<open>PD role\<close>

definition osdp_bio_pd_reply_pending :: "('w, 'z) osdp_dev_scheme \<Rightarrow> bool" where
  "osdp_bio_pd_reply_pending pd =
     (case pd_bio pd of
        None \<Rightarrow> False
      | Some b \<Rightarrow> bio_phase b = OSDP_BIO_REPLY \<and> osdp_mp_is_active (bio_mp b) \<and>
                  mp_offset (bio_mp b) < mp_total (bio_mp b))"

definition bio_write_std_header :: "osdp_bio \<Rightarrow> u16 \<Rightarrow> bytes \<Rightarrow> nat \<times> bytes" where
  "bio_write_std_header b tot buf =
     (let (buf, pos) = bwrite_u16_le tot
                         (write_at 0 [bio_reader b, bio_status b, bio_type b, bio_quality b] buf) 4
      in (pos, buf))"

definition bio_pd_build ::
  "osdp_bio \<Rightarrow> bytes \<Rightarrow> int \<Rightarrow> ('w, 'z) osdp_dev_scheme \<Rightarrow> int \<times> bytes \<times> ('w, 'z) osdp_dev_scheme" where
  "bio_pd_build b buf max_len pd =
     (let first = (mp_offset (bio_mp b) = 0);
          (n, buf, mp, _) = osdp_mp_tx_build (bio_mp b) buf (max_len - OSDP_MP_SC_RESERVE) ();
          b = b\<lparr>bio_mp := mp\<rparr>
      in if n < 0 then (-1, buf, osdp_bio_abort (pd\<lparr>pd_bio := Some b\<rparr>))
         else
      let buf = (if first then snd (bio_write_std_header b (ucast (mp_total mp)) buf) else buf);
          (mp, ev) = osdp_mp_tx_commit mp;
          b = b\<lparr>bio_mp := mp, bio_tstamp := osdp_millis_now pd\<rparr>;
          pd = bio_put b ev pd
      in if mp_offset mp \<ge> mp_total mp
         then let (mp, ev) = osdp_mp_finish mp (mp_outcome_val OSDP_MP_OUTCOME_OK)
              in (n, buf, bio_put (bio_op_reset (b\<lparr>bio_mp := mp\<rparr>)) ev pd)
         else (n, buf, pd))"

definition osdp_bio_pd_reply_build ::
  "('w, 'z) osdp_dev_scheme \<Rightarrow> osdp_event_bioreadr option \<Rightarrow> bytes \<Rightarrow> int
   \<Rightarrow> int \<times> bytes \<times> ('w, 'z) osdp_dev_scheme" where
  "osdp_bio_pd_reply_build pd event buf max_len =
     (case event of
        Some e \<Rightarrow>
          let b = bio_get pd;
              len = unat (bioreadr_length e)
          in if len > length (bio_data b) then (-1, buf, pd\<lparr>pd_bio := Some b\<rparr>)
             else
             let b = b\<lparr>bio_reader := bioreadr_reader e, bio_status := word_of_int (bioreadr_status e),
                       bio_type := word_of_int (bioreadr_type e), bio_quality := bioreadr_quality e\<rparr>;
                 pd = pd\<lparr>pd_bio := Some b\<rparr>;
                 avail = max_len - int REPLY_BIOREADR_DATA_LEN - OSDP_MP_SC_RESERVE
             in if int len \<le> avail
                then let (n, buf) = bio_write_std_header b (bioreadr_length e) buf
                     in (int (n + len), write_at n (take len (bioreadr_data e)) buf, pd)
                else
                let pd = bio_op_open (bio_reader b) pd;
                    b = bio_get pd;
                    b = b\<lparr>bio_data := write_at 0 (take len (bioreadr_data e)) (bio_data b)\<rparr>;
                    mp = osdp_mp_bind_buffer (bio_mp b) (bio_data b) (ucast (bioreadr_length e));
                    mp = (case osdp_mp_tx_init mp (ucast (bioreadr_length e)) OSDP_MP_W16 of
                            Some mp \<Rightarrow> mp | None \<Rightarrow> mp);
                    (b, ev) = bio_emit_start (b\<lparr>bio_mp := mp\<rparr>);
                    b = b\<lparr>bio_phase := OSDP_BIO_REPLY\<rparr>
                in bio_pd_build b buf max_len (bio_put b ev pd)
      | None \<Rightarrow>
          if \<not> osdp_bio_pd_reply_pending pd then (-1, buf, pd)
          else bio_pd_build (bio_get pd) buf max_len pd)"

subsection \<open>CP role\<close>

definition osdp_bio_cp_get_command ::
  "('w, 'z) osdp_dev_scheme \<Rightarrow> int \<times> ('w, 'z) osdp_dev_scheme" where
  "osdp_bio_cp_get_command pd =
     (case pd_bio pd of
        None \<Rightarrow> (0, pd)
      | Some b \<Rightarrow>
     if bio_phase b = OSDP_BIO_IDLE then (0, pd)
     else if osdp_mp_cancel_requested (bio_mp b) \<or>
             osdp_millis_since pd (bio_tstamp b) > OSDP_BIO_OP_TIMEOUT_MS
     then (CMD_ABORT, osdp_bio_abort pd)
     else (CMD_POLL, pd))"

definition bio_cp_fill_event :: "osdp_bio \<Rightarrow> osdp_event_bioreadr" where
  "bio_cp_fill_event b =
     \<lparr>bioreadr_reader = bio_reader b, bioreadr_status = uint (bio_status b), bioreadr_type = uint (bio_type b),
      bioreadr_quality = bio_quality b, bioreadr_length = ucast (mp_total (bio_mp b)),
      bioreadr_data = write_at 0 (take (unat (mp_total (bio_mp b))) (bio_data b))
                        (replicate OSDP_EVENT_BIOREADR_MAX_TEMPLATE_LEN 0)\<rparr>"

definition osdp_bio_cp_reply_finish :: "('w, 'z) osdp_dev_scheme \<Rightarrow> ('w, 'z) osdp_dev_scheme" where
  "osdp_bio_cp_reply_finish pd =
     (case pd_bio pd of
        None \<Rightarrow> pd
      | Some b \<Rightarrow>
     if bio_phase b \<noteq> OSDP_BIO_REPLY then pd
     else let (mp, ev) = osdp_mp_finish (bio_mp b) (mp_outcome_val OSDP_MP_OUTCOME_OK)
          in bio_put (bio_op_reset (b\<lparr>bio_mp := mp\<rparr>)) ev pd)"

definition bio_rx :: "unit osdp_multipart \<Rightarrow> osdp_bio \<Rightarrow> osdp_bio" where
  "bio_rx mp b = b\<lparr>bio_mp := mp, bio_data := (case mp_buf mp of Some d \<Rightarrow> d | None \<Rightarrow> bio_data b)\<rparr>"

text \<open>What the engine says of one fragment, and what becomes of the op.\<close>

definition bio_cp_consume ::
  "bytes \<Rightarrow> int \<Rightarrow> ('w, 'z) osdp_dev_scheme
   \<Rightarrow> int \<times> osdp_event_bioreadr option \<times> ('w, 'z) osdp_dev_scheme" where
  "bio_cp_consume frame len pd =
     (let b = bio_get pd;
          (rc, mp, _) = osdp_mp_rx_consume (bio_mp b) frame len ();
          b = bio_rx mp b
      in if rc = OSDP_MP_RC_MORE
         then let (mp, ev) = osdp_mp_rx_commit (bio_mp b)
              in (0, None, bio_put (b\<lparr>bio_mp := mp, bio_tstamp := osdp_millis_now pd\<rparr>) ev pd)
         else if rc = OSDP_MP_RC_DONE
         then let (mp, ev) = osdp_mp_rx_commit (bio_mp b); b = b\<lparr>bio_mp := mp\<rparr>
              in (1, Some (bio_cp_fill_event b), bio_put b ev pd)
         else (0, None, osdp_bio_abort (pd\<lparr>pd_bio := Some b\<rparr>)))"

definition osdp_bio_cp_reply_consume ::
  "('w, 'z) osdp_dev_scheme \<Rightarrow> bytes \<Rightarrow> int
   \<Rightarrow> int \<times> osdp_event_bioreadr option \<times> ('w, 'z) osdp_dev_scheme" where
  "osdp_bio_cp_reply_consume pd buf len =
     (if osdp_bio_is_active pd then bio_cp_consume buf len pd
      else if len < int REPLY_BIOREADR_DATA_LEN then (-1, None, pd)
      else
      let b = (bio_get pd)\<lparr>bio_reader := buf ! 0, bio_status := buf ! 1, bio_type := buf ! 2,
                           bio_quality := buf ! 3\<rparr>;
          pd = pd\<lparr>pd_bio := Some b\<rparr>;
          tot = unat (fst (bread_u16_le buf 4));
          chunk = nat (len - int REPLY_BIOREADR_DATA_LEN)
      in if tot > length (bio_data b) \<or> chunk > tot then (-1, None, pd)
         else if chunk = tot
         then let b = b\<lparr>bio_phase := OSDP_BIO_IDLE\<rparr>;
                  e = bio_cp_fill_event b
              in (1, Some (e\<lparr>bioreadr_length := of_nat tot,
                             bioreadr_data := write_at 0 (bytes_at REPLY_BIOREADR_DATA_LEN tot buf)
                                                (bioreadr_data e)\<rparr>),
                  pd\<lparr>pd_bio := Some b\<rparr>)
         else
         let pd = bio_op_open (bio_reader b) pd;
             b = bio_get pd;
             mp = osdp_mp_rx_init
                    (osdp_mp_bind_buffer (bio_mp b) (bio_data b) (of_nat (length (bio_data b))))
                    OSDP_MP_W16 (of_nat tot);
             (b, ev) = bio_emit_start (b\<lparr>bio_mp := mp\<rparr>);
             b = b\<lparr>bio_phase := OSDP_BIO_REPLY\<rparr>;
             tmp = replicate (REPLY_BIOREADR_DATA_LEN + OSDP_EVENT_BIOREADR_MAX_TEMPLATE_LEN) 0;
             (tmp, _) = osdp_mp_hdr_write OSDP_MP_W16 (of_nat tot) 0 (of_nat chunk) tmp;
             tmp = write_at REPLY_BIOREADR_DATA_LEN (bytes_at REPLY_BIOREADR_DATA_LEN chunk buf) tmp
         in bio_cp_consume tmp (int (REPLY_BIOREADR_DATA_LEN + chunk)) (bio_put b ev pd))"

subsection \<open>A template is delivered whole\<close>


lemma rx_consume_rest:
  assumes "mp_width mp = W" "mp_fits W tot" "mp_fits W off" "unat dlen \<le> length bs" "int (OSDP_MP_HDR_SIZE W) \<le> len"
  shows "osdp_mp_rx_consume mp (mp_hdr W tot off dlen @ bs @ rest) len w =
         osdp_mp_rx_consume mp (mp_hdr W tot off dlen @ bs) len w"
proof -
  have "bytes_at (OSDP_MP_HDR_SIZE W) (unat dlen) (mp_hdr W tot off dlen @ bs @ rest) =
        bytes_at (OSDP_MP_HDR_SIZE W) (unat dlen) (mp_hdr W tot off dlen @ bs)"
    using assms(4) by (simp add: bytes_at_def)
  note eq = this
  show ?thesis
    unfolding rx_consume_unfold assms(1) mp_hdr_read_enc [OF assms(2,3,5)] Let_def option.case prod.case eq
    by (rule refl)
qed

definition bio_tx_at :: "bytes \<Rightarrow> nat \<Rightarrow> ('w, 'z) osdp_dev_scheme \<Rightarrow> bool" where
  "bio_tx_at d k pd \<longleftrightarrow> (\<exists>b. pd_bio pd = Some b \<and> bio_phase b = OSDP_BIO_REPLY \<and>
     osdp_mp_is_active (bio_mp b) \<and> mp_tx_at OSDP_MP_W16 d k (bio_mp b))"

lemma mp_finish_any: "\<exists>mp2 ev. osdp_mp_finish mp oc = (mp2, ev)" by (rule surj_pair)

lemma bio_get_put [simp]: "bio_get (pd\<lparr>pd_bio := Some b\<rparr>) = b"
  by (simp add: bio_get_def)

lemma bio_put_put [simp]: "bio_put b ev (pd\<lparr>pd_bio := x\<rparr>) = bio_put b ev pd"
  by (simp add: bio_put_def)

lemma bio_put_bio [simp]: "pd_bio (bio_put b ev pd) = Some b"
  by (simp add: bio_put_def)

lemma bio_op_reset_idle [simp]: "bio_phase (bio_op_reset b) = OSDP_BIO_IDLE"
  by (simp add: bio_op_reset_def)

lemma hdr_std:
  "6 \<le> length buf \<Longrightarrow> bio_write_std_header b t buf =
     (6, write_at 0 ([bio_reader b, bio_status b, bio_type b, bio_quality b] @ u16_le t) buf)"
  by (simp add: bio_write_std_header_def le16.wr_enc write_at_write_at Let_def)

lemma bio_build_at:
  assumes b: "mp_tx_at OSDP_MP_W16 d k (bio_mp b)" "bio_phase b = OSDP_BIO_REPLY" and k: "k < length d"
    and max: "max_len = 22 + c" "0 < c" "c < 65536" "max_len \<le> length pkt" and n: "n = min c (length d - k)"
  shows "\<exists>pkt' pd'. bio_pd_build b pkt (int max_len) pd = (int (6 + n), pkt', pd') \<and> length pkt' = length pkt \<and>
    take (6 + n) pkt' = (if k = 0 then [bio_reader b, bio_status b, bio_type b, bio_quality b] @ u16_le (ucast (mp_total (bio_mp b)))
      else mp_hdr OSDP_MP_W16 (mp_total (bio_mp b)) (mp_offset (bio_mp b)) (of_nat n)) @ bytes_at k n d \<and>
    (if k + n < length d then bio_tx_at d (k + n) pd' else \<not> osdp_bio_is_active pd')"
proof -
  let ?mp = "bio_mp b"
  have h: "OSDP_MP_HDR_SIZE OSDP_MP_W16 = 6" by (simp add: OSDP_MP_HDR_SIZE_def)
  have max': "6 + c = OSDP_MP_HDR_SIZE OSDP_MP_W16 + c" "6 + c \<le> length pkt" using max h by simp_all
  have n0: "0 < n" "k + n \<le> length d" using n k max(2) by auto
  have mx: "int max_len - OSDP_MP_SC_RESERVE = int (6 + c)" using max(1) by (simp add: OSDP_MP_SC_RESERVE_def)
  have k0: "(mp_offset ?mp = 0) = (k = 0)" using b(1) by (auto simp: mp_tx_at_def unat_eq_0)
  obtain pkt1 where t: "osdp_mp_tx_build ?mp pkt (int (6 + c)) () =
      (int (6 + n), pkt1, ?mp\<lparr>mp_last_len := int n, mp_state := OSDP_MP_INPROG\<rparr>, ())" "length pkt1 = length pkt"
    "take (6 + n) pkt1 = mp_hdr OSDP_MP_W16 (mp_total ?mp) (mp_offset ?mp) (of_nat n) @ bytes_at k n d"
    using tx_build_at [OF b(1) k max'(1) max(2,3) max'(2) n] unfolding h by blast
  let ?mp1 = "?mp\<lparr>mp_last_len := int n, mp_state := OSDP_MP_INPROG\<rparr>"
  let ?b1 = "b\<lparr>bio_mp := ?mp1\<rparr>"
  obtain mp2 ev where c: "osdp_mp_tx_commit ?mp1 = (mp2, ev)" by (rule prod.exhaust)
  have at: "mp_tx_at OSDP_MP_W16 d (k + n) mp2" using tx_commit_at [OF b(1) n0, of OSDP_MP_INPROG] c by simp
  have act: "osdp_mp_is_active mp2"
    using c by (auto simp: osdp_mp_tx_commit_def Let_def osdp_mp_is_active_def split: if_splits)
  obtain mp3 ev3 where f: "osdp_mp_finish mp2 (mp_outcome_val OSDP_MP_OUTCOME_OK) = (mp3, ev3)" by (rule prod.exhaust)
  let ?pkt = "if k = 0 then snd (bio_write_std_header ?b1 (ucast (mp_total ?mp1)) pkt1) else pkt1"
  let ?b2 = "?b1\<lparr>bio_mp := mp2, bio_tstamp := osdp_millis_now pd\<rparr>"
  let ?pd1 = "bio_put ?b2 ev pd"
  let ?pd' = "if mp_offset mp2 \<ge> mp_total mp2 then bio_put (bio_op_reset (?b2\<lparr>bio_mp := mp3\<rparr>)) ev3 ?pd1 else ?pd1"
  have "bio_pd_build b pkt (int max_len) pd = (int (6 + n), ?pkt, ?pd')"
    unfolding bio_pd_build_def Let_def mx t(1) prod.case c k0 using f by (simp del: mp_outcome_val.simps)
  moreover have "length ?pkt = length pkt \<and> take (6 + n) ?pkt =
      (if k = 0 then [bio_reader b, bio_status b, bio_type b, bio_quality b] @ u16_le (ucast (mp_total ?mp))
       else mp_hdr OSDP_MP_W16 (mp_total ?mp) (mp_offset ?mp) (of_nat n)) @ bytes_at k n d"
  proof (cases "k = 0")
    case True
    have l: "6 + n \<le> length pkt1" using t(2) max n by simp
    have "drop 6 (take (6 + n) pkt1) = bytes_at k n d" unfolding t(3) by (simp add: h)
    then have "take n (drop 6 pkt1) = bytes_at k n d" by (simp add: drop_take)
    note dt = this
    define H where "H = [bio_reader b, bio_status b, bio_type b, bio_quality b] @ u16_le (ucast (mp_total ?mp))"
    have lH: "length H = 6" by (simp add: H_def le16.enc_length)
    have "snd (bio_write_std_header ?b1 (ucast (mp_total ?mp1)) pkt1) = H @ drop 6 pkt1"
      using l lH by (simp add: hdr_std write_at_def H_def)
    then show ?thesis using True lH l dt t(2) unfolding H_def [symmetric] by (simp add: le16.enc_length)
  qed (use t(2,3) in simp)
  moreover have "(mp_offset mp2 \<ge> mp_total mp2) = (\<not> k + n < length d)"
    using at by (simp add: mp_tx_at_def word_le_nat_alt not_less)
  then have "if k + n < length d then bio_tx_at d (k + n) ?pd' else \<not> osdp_bio_is_active ?pd'"
    using at act b(2) by (simp add: bio_tx_at_def osdp_bio_is_active_def)
  ultimately show ?thesis by blast
qed

definition bio_rx_at :: "osdp_bio \<Rightarrow> bytes \<Rightarrow> nat \<Rightarrow> osdp_bio \<Rightarrow> bool" where
  "bio_rx_at h d k b \<longleftrightarrow> bio_phase b = OSDP_BIO_REPLY \<and> mp_rx_at OSDP_MP_W16 d k (bio_mp b) \<and>
     unat (mp_total (bio_mp b)) = length d \<and> length (bio_data b) = OSDP_EVENT_BIOREADR_MAX_TEMPLATE_LEN \<and>
     mp_buf (bio_mp b) = Some (bio_data b) \<and> bio_reader b = bio_reader h \<and> bio_status b = bio_status h \<and>
     bio_type b = bio_type h \<and> bio_quality b = bio_quality h"

lemma bio_consume_at:
  assumes b: "pd_bio pd = Some b" "bio_rx_at h d k b" and d: "length d \<le> OSDP_EVENT_BIOREADR_MAX_TEMPLATE_LEN"
    and n: "0 < n" "k + n \<le> length d" "unat tot = length d" "unat off = k"
    and frame: "frame = mp_hdr OSDP_MP_W16 tot off (of_nat n) @ bytes_at k n d @ rest"
  shows "\<exists>r e pd' b'. bio_cp_consume frame (int (6 + n)) pd = (r, e, pd') \<and> pd_bio pd' = Some b' \<and>
    bio_rx_at h d (k + n) b' \<and>
    (if k + n < length d then r = 0 \<and> e = None else r = 1 \<and> e = Some (bio_cp_fill_event b'))"
proof -
  let ?mp = "bio_mp b"
  note t = b(2) [unfolded bio_rx_at_def]
  have h6: "OSDP_MP_HDR_SIZE OSDP_MP_W16 = 6" by (simp add: OSDP_MP_HDR_SIZE_def)
  have n': "n < 65536" using n(2) d by simp
  have fits: "mp_fits OSDP_MP_W16 tot" "mp_fits OSDP_MP_W16 off" using n d by (simp_all add: mp_fits_def)
  have ldata: "length (bytes_at k n d) = n" using n(2) by simp
  let ?f = "mp_hdr OSDP_MP_W16 tot off (of_nat n) @ bytes_at k n d"
  obtain mp' where r: "mp_rx_frame ?mp ?f () = (if k + n = length d then OSDP_MP_RC_DONE else OSDP_MP_RC_MORE, mp', ())"
    "mp_rx_at OSDP_MP_W16 d (k + n) mp'"
    using rx_frame_at [OF _ fits(1) n(3,4) n(1) n' n(2) refl, of ?mp "()"] t by blast
  obtain rc mp1 where c: "osdp_mp_rx_consume ?mp ?f (int (6 + n)) () = (rc, mp1, ())" by (metis prod_cases3 unit.exhaust)
  have c': "osdp_mp_rx_consume ?mp frame (int (6 + n)) () = (rc, mp1, ())"
    using rx_consume_rest [OF _ fits, of ?mp "of_nat n" "bytes_at k n d" "int (6 + n)" rest "()"] c t n' ldata
    by (simp add: frame h6 mp_rx_at_def unat_of_nat)
  have len: "length ?f = 6 + n" using ldata h6 by simp
  have rc: "rc = (if k + n = length d then OSDP_MP_RC_DONE else OSDP_MP_RC_MORE)"
    and mp': "fst (osdp_mp_rx_commit mp1) = mp'"
    using r(1) c unfolding mp_rx_frame_def len by (auto split: if_splits)
  obtain ev where cm: "osdp_mp_rx_commit mp1 = (mp', ev)" using mp' by (metis prod.collapse)
  have "mp_buf_ok mp1" using rx_consume_buf [OF c] t by (simp add: mp_rx_at_def)
  then obtain bd where bd: "mp_buf mp1 = Some bd" by (auto simp: mp_buf_ok_def)
  have lbd: "length bd = OSDP_EVENT_BIOREADR_MAX_TEMPLATE_LEN"
    using rx_consume_buf [OF c] t bd by (simp add: mp_rx_at_def)
  have bd': "mp_buf mp' = Some bd" using mp' bd by (metis rx_commit_fields(1))
  have tot': "unat (mp_total mp') = length d" using r(2) n(1) by (auto simp: mp_rx_at_def)
  have rx: "bio_rx mp1 b = b\<lparr>bio_mp := mp1, bio_data := bd\<rparr>" by (simp add: bio_rx_def bd)
  have g: "bio_get pd = b" by (simp add: bio_get_def b(1))
  show ?thesis
  proof (cases "k + n < length d")
    case True
    let ?b' = "b\<lparr>bio_mp := mp1, bio_data := bd, bio_mp := mp', bio_tstamp := osdp_millis_now pd\<rparr>"
    have "bio_cp_consume frame (int (6 + n)) pd = (0, None, bio_put ?b' ev pd)"
      unfolding bio_cp_consume_def Let_def g c' prod.case rx rc using True by (simp add: cm)
    moreover have "bio_rx_at h d (k + n) ?b'" using t r(2) bd' lbd tot' by (simp add: bio_rx_at_def)
    ultimately show ?thesis using True by auto
  next
    case False
    let ?b' = "b\<lparr>bio_mp := mp1, bio_data := bd, bio_mp := mp'\<rparr>"
    have "bio_cp_consume frame (int (6 + n)) pd = (1, Some (bio_cp_fill_event ?b'), bio_put ?b' ev pd)"
      unfolding bio_cp_consume_def Let_def g c' prod.case rx rc using False n(2) by (simp add: cm)
    moreover have "bio_rx_at h d (k + n) ?b'" using t r(2) bd' lbd tot' by (simp add: bio_rx_at_def)
    ultimately show ?thesis using False by auto
  qed
qed

text \<open>The first fragment at an idle CP.\<close>

lemma bio_inactive: "osdp_bio_is_active pd \<longleftrightarrow> (\<exists>b. pd_bio pd = Some b \<and> bio_phase b \<noteq> OSDP_BIO_IDLE)"
  by (simp add: osdp_bio_is_active_def split: option.split)

lemma bio_abort_idle: "\<not> osdp_bio_is_active pd \<Longrightarrow> osdp_bio_abort pd = pd"
  by (cases "pd_bio pd") (simp_all add: osdp_bio_abort_def bio_inactive)

lemma std_header_total:
  assumes "frame = [a, b, c, q] @ u16_le (of_nat (length d)) @ rest" "length d \<le> OSDP_EVENT_BIOREADR_MAX_TEMPLATE_LEN"
  shows "unat (fst (bread_u16_le frame 4)) = length d"
proof -
  have "bread_u16_le frame (length [a, b, c, q]) = (of_nat (length d), length [a, b, c, q] + 2)"
    unfolding assms(1) by (rule le16.rd_prefix) simp
  moreover have "length [a, b, c, q] = 4" by simp
  ultimately have "fst (bread_u16_le frame 4) = of_nat (length d)" by (simp only: fst_conv)
  moreover have "length d < 65536" using assms(2) by simp
  then have "unat (of_nat (length d) :: u16) = length d" by (simp add: unat_of_nat)
  ultimately show ?thesis by (simp only:)
qed

lemma bio_first_at:
  assumes cp: "\<not> osdp_bio_is_active cp" "\<forall>b. pd_bio cp = Some b \<longrightarrow> length (bio_data b) = OSDP_EVENT_BIOREADR_MAX_TEMPLATE_LEN"
    and d: "length d \<le> OSDP_EVENT_BIOREADR_MAX_TEMPLATE_LEN" and n: "0 < n" "n < length d"
    and frame: "frame = [bio_reader h, bio_status h, bio_type h, bio_quality h] @ u16_le (of_nat (length d)) @ take n d"
  shows "\<exists>cp' b'. osdp_bio_cp_reply_consume cp frame (int (6 + n)) = (0, None, cp') \<and> pd_bio cp' = Some b' \<and>
    bio_rx_at h d n b'"
proof -
  let ?tot = "of_nat (length d) :: u32"
  have h6: "OSDP_MP_HDR_SIZE OSDP_MP_W16 = 6" by (simp add: OSDP_MP_HDR_SIZE_def)
  define b0 where "b0 = (bio_get cp)\<lparr>bio_reader := frame ! 0, bio_status := frame ! 1, bio_type := frame ! 2,
     bio_quality := frame ! 3\<rparr>"
  have hd: "frame ! 0 = bio_reader h" "frame ! 1 = bio_status h" "frame ! 2 = bio_type h" "frame ! 3 = bio_quality h"
    unfolding frame by (simp_all add: numeral_2_eq_2 numeral_3_eq_3)
  have l0: "length (bio_data (bio_get cp)) = OSDP_EVENT_BIOREADR_MAX_TEMPLATE_LEN"
    using cp(2) by (simp add: bio_get_def bio_zero_def split: option.split)
  have idle: "bio_phase (bio_get cp) = OSDP_BIO_IDLE"
    using cp(1) by (cases "pd_bio cp") (auto simp: bio_get_def bio_zero_def bio_inactive)
  have tot: "unat (fst (bread_u16_le frame 4)) = length d" by (rule std_header_total [OF frame d])
  let ?pd0 = "cp\<lparr>pd_bio := Some b0\<rparr>"
  have na: "\<not> osdp_bio_is_active ?pd0" using idle by (simp add: osdp_bio_is_active_def b0_def)
  define mp0 :: "unit osdp_multipart" where "mp0 = osdp_mp_rx_init (osdp_mp_bind_buffer (osdp_mp_set_identity
     (osdp_mp_set_event_cb osdp_mp_reset True) OSDP_MP_MSG_BIOREAD (uint (bio_reader b0))) (bio_data b0)
     (of_nat (length (bio_data b0)))) OSDP_MP_W16 ?tot"
  define b1 where "b1 = b0\<lparr>bio_start_emitted := False, bio_tstamp := osdp_millis_now ?pd0, bio_mp := mp0\<rparr>"
  obtain b2 ev where e: "bio_emit_start b1 = (b2, ev)" by (rule prod.exhaust)
  have b2: "b2 = b1\<lparr>bio_start_emitted := True, bio_mp := mp0\<lparr>mp_start_emitted := True\<rparr>\<rparr>"
    using e by (auto simp: bio_emit_start_def b1_def osdp_mp_emit_start_def mp0_def osdp_mp_rx_init_def Let_def)
  let ?b3 = "b2\<lparr>bio_phase := OSDP_BIO_REPLY\<rparr>"
  let ?cp1 = "cp\<lparr>pd_bio := Some ?b3\<rparr>"
  let ?tmp = "write_at 6 (bytes_at 6 n frame) (fst (osdp_mp_hdr_write OSDP_MP_W16 ?tot 0 (of_nat n) (replicate 262 0)))"
  have data: "bytes_at 6 n frame = take n d" using n by (simp add: frame bytes_at_def le16.enc_length)
  have fr: "?tmp = mp_hdr OSDP_MP_W16 ?tot 0 (of_nat n) @ bytes_at 0 n d @ drop (6 + n) (replicate 262 0)"
    unfolding data using n d by (simp add: mp_hdr_write_at h6 write_at_def bytes_at_def)
  have at: "bio_rx_at h d 0 ?b3"
    using hd l0 d by (simp add: bio_rx_at_def b2 b1_def b0_def mp0_def osdp_mp_rx_init_def osdp_mp_bind_buffer_def
      osdp_mp_set_identity_def osdp_mp_set_event_cb_def osdp_mp_reset_def mp_rx_at_def mp_buf_ok_def mp_rx_ok_def unat_of_nat)
  have "osdp_bio_cp_reply_consume cp frame (int (6 + n)) =
      bio_cp_consume ?tmp (int (6 + n)) (bio_put ?b3 ev ?cp1)"
  proof -
    have len: "\<not> int (6 + n) < int REPLY_BIOREADR_DATA_LEN" "nat (int (6 + n) - int REPLY_BIOREADR_DATA_LEN) = n"
      by simp_all
    have c: "\<not> (length d > length (bio_data b0) \<or> n > length d)" "n \<noteq> length d" using l0 d n by (simp_all add: b0_def)
    have op: "bio_op_open (bio_reader b0) ?pd0 = cp\<lparr>pd_bio := Some (b0\<lparr>bio_start_emitted := False,
        bio_tstamp := osdp_millis_now ?pd0, bio_mp := osdp_mp_set_identity
        (osdp_mp_set_event_cb osdp_mp_reset True) OSDP_MP_MSG_BIOREAD (uint (bio_reader b0))\<rparr>)\<rparr>"
      by (simp add: bio_op_open_def bio_abort_idle [OF na] bio_get_def [of ?pd0] Let_def)
    show ?thesis
      unfolding osdp_bio_cp_reply_consume_def if_not_P [OF cp(1)] if_not_P [OF len(1)] Let_def
        b0_def [symmetric] tot len(2) if_not_P [OF c(1)] if_not_P [OF c(2)] op bio_get_put
        bio_put_put
      using e [unfolded b1_def mp0_def] by (simp split: prod.split)
  qed
  moreover have "\<exists>r e pd' b'. bio_cp_consume ?tmp (int (6 + n)) (bio_put ?b3 ev ?cp1) = (r, e, pd') \<and> pd_bio pd' = Some b' \<and>
      bio_rx_at h d (0 + n) b' \<and> (if 0 + n < length d then r = 0 \<and> e = None else r = 1 \<and> e = Some (bio_cp_fill_event b'))"
    using n d by (intro bio_consume_at [OF _ at d, of _ n ?tot 0]) (simp_all add: fr unat_of_nat)
  ultimately show ?thesis using n by auto
qed

text \<open>
  A biometric reply in flight: the PD builds a fragment, the CP consumes it, until the CP has the
  event.  \<open>None\<close> is a refused fragment or exhausted fuel.
\<close>

fun bio_deliver ::
  "nat \<Rightarrow> osdp_event_bioreadr option \<Rightarrow> bytes \<Rightarrow> int \<Rightarrow> 'v osdp_dev \<Rightarrow> 'w osdp_dev
   \<Rightarrow> (osdp_event_bioreadr \<times> 'v osdp_dev \<times> 'w osdp_dev) option" where
  "bio_deliver 0 ev pkt max_len pd cp = None"
| "bio_deliver (Suc fuel) ev pkt max_len pd cp =
     (let (n, frame, pd) = osdp_bio_pd_reply_build pd ev pkt max_len
      in if n < 0 then None
         else
         let (r, e, cp) = osdp_bio_cp_reply_consume cp (take (nat n) frame) n
         in if r < 0 then None
            else case e of
                   Some e \<Rightarrow> Some (e, pd, osdp_bio_cp_reply_finish cp)
                 | None \<Rightarrow> bio_deliver fuel None pkt max_len pd cp)"

lemma bio_finish_idle: "\<not> osdp_bio_is_active (osdp_bio_cp_reply_finish cp)"
proof (cases "pd_bio cp")
  case (Some b)
  obtain mp ev where "osdp_mp_finish (bio_mp b) (mp_outcome_val OSDP_MP_OUTCOME_OK) = (mp, ev)" by (rule prod.exhaust)
  then show ?thesis using Some
    by (cases "bio_phase b") (simp_all add: osdp_bio_cp_reply_finish_def bio_inactive Let_def)
qed (simp add: osdp_bio_cp_reply_finish_def bio_inactive)

lemma unat_u32_u16: "unat (v :: u32) < 65536 \<Longrightarrow> unat (ucast v :: u16) = unat v"
  using u16_u32_id [of v] ucast_u16_u32(2) [of "ucast v"] by simp

lemma bio_event_at:
  assumes "bio_rx_at h d (length d) b" "length d \<le> OSDP_EVENT_BIOREADR_MAX_TEMPLATE_LEN" "e = bio_cp_fill_event b"
  shows "bioreadr_reader e = bio_reader h \<and> bioreadr_status e = uint (bio_status h) \<and>
    bioreadr_type e = uint (bio_type h) \<and> bioreadr_quality e = bio_quality h \<and>
    unat (bioreadr_length e) = length d \<and> take (length d) (bioreadr_data e) = d"
proof -
  note t = assms(1) [unfolded bio_rx_at_def]
  have "mp_buf (bio_mp b) = Some (bio_data b)" using t by blast
  moreover have "take (length d) (the (mp_buf (bio_mp b))) = take (length d) d" using t unfolding mp_rx_at_def by blast
  ultimately have "take (length d) (bio_data b) = d" by simp
  moreover have "unat (ucast (mp_total (bio_mp b)) :: u16) = length d"
    using t assms(2) unat_u32_u16 [of "mp_total (bio_mp b)"] by simp
  ultimately show ?thesis
    using t assms(2) by (simp add: assms(3) bio_cp_fill_event_def write_at_def)
qed

lemma bio_deliver_at:
  assumes "bio_tx_at d k pd" "pd_bio cp = Some b" "bio_rx_at h d k b" "0 < k" "k < length d"
    and d: "length d \<le> OSDP_EVENT_BIOREADR_MAX_TEMPLATE_LEN"
    and max: "max_len = 22 + c" "0 < c" "c < 65536" "max_len \<le> length pkt" and fuel: "length d - k \<le> fuel"
  shows "\<exists>e pd' cp'. bio_deliver fuel None pkt (int max_len) pd cp = Some (e, pd', cp') \<and>
    bioreadr_reader e = bio_reader h \<and> bioreadr_status e = uint (bio_status h) \<and>
    bioreadr_type e = uint (bio_type h) \<and> bioreadr_quality e = bio_quality h \<and>
    unat (bioreadr_length e) = length d \<and> take (length d) (bioreadr_data e) = d \<and>
    \<not> osdp_bio_is_active pd' \<and> \<not> osdp_bio_is_active cp'"
  using assms(1-5) fuel
proof (induction fuel arbitrary: k pd cp b)
  case 0
  then show ?case by simp
next
  case (Suc fuel)
  define n where "n = min c (length d - k)"
  have n: "0 < n" "k + n \<le> length d" using max(2) Suc.prems(5) by (auto simp: n_def)
  obtain q where q: "pd_bio pd = Some q" "bio_phase q = OSDP_BIO_REPLY" "osdp_mp_is_active (bio_mp q)"
    "mp_tx_at OSDP_MP_W16 d k (bio_mp q)"
    using Suc.prems(1) unfolding bio_tx_at_def by blast
  obtain pkt' pd1 where p: "bio_pd_build q pkt (int max_len) pd = (int (6 + n), pkt', pd1)"
    "take (6 + n) pkt' = (if k = 0 then [bio_reader q, bio_status q, bio_type q, bio_quality q] @ u16_le (ucast (mp_total (bio_mp q)))
      else mp_hdr OSDP_MP_W16 (mp_total (bio_mp q)) (mp_offset (bio_mp q)) (of_nat n)) @ bytes_at k n d"
    "if k + n < length d then bio_tx_at d (k + n) pd1 else \<not> osdp_bio_is_active pd1"
    using bio_build_at [OF q(4,2) Suc.prems(5) max n_def] by blast
  have tot: "unat (mp_total (bio_mp q)) = length d" "unat (mp_offset (bio_mp q)) = k" using q(4) by (simp_all add: mp_tx_at_def)
  have pend: "osdp_bio_pd_reply_pending pd"
    using q tot Suc.prems(5) by (simp add: osdp_bio_pd_reply_pending_def word_less_nat_alt)
  have build: "osdp_bio_pd_reply_build pd None pkt (int max_len) = (int (6 + n), pkt', pd1)"
    using p(1) pend q(1) by (simp add: osdp_bio_pd_reply_build_def bio_get_def)
  have fr: "take (6 + n) pkt' = mp_hdr OSDP_MP_W16 (mp_total (bio_mp q)) (mp_offset (bio_mp q)) (of_nat n) @ bytes_at k n d @ []"
    using p(2) Suc.prems(4) by simp
  obtain r e cp1 b1 where c: "bio_cp_consume (take (6 + n) pkt') (int (6 + n)) cp = (r, e, cp1)" "pd_bio cp1 = Some b1"
    "bio_rx_at h d (k + n) b1" "if k + n < length d then r = 0 \<and> e = None else r = 1 \<and> e = Some (bio_cp_fill_event b1)"
    using bio_consume_at [OF Suc.prems(2,3) d n tot fr] by blast
  have act: "osdp_bio_is_active cp" using Suc.prems(2,3) by (simp add: bio_inactive bio_rx_at_def)
  have step: "bio_deliver (Suc fuel) None pkt (int max_len) pd cp =
     (case e of Some e \<Rightarrow> Some (e, pd1, osdp_bio_cp_reply_finish cp1) | None \<Rightarrow> bio_deliver fuel None pkt (int max_len) pd1 cp1)"
    using build c(1,4) act by (simp add: osdp_bio_cp_reply_consume_def nat_int_add del: of_nat_add split: if_splits)
  show ?case
  proof (cases "k + n < length d")
    case True
    then show ?thesis
      using Suc.IH [of "k + n" pd1 cp1 b1] p(3) c(2-4) n(1) Suc.prems(6) unfolding step by simp
  next
    case False
    then have e: "k + n = length d" using n(2) by simp
    then show ?thesis
      using bio_event_at [OF _ d refl, of h b1] c(3,4) p(3) bio_finish_idle [of cp1] unfolding step by simp
  qed
qed


lemma bio_single_at:
  assumes cp: "\<not> osdp_bio_is_active cp" "\<forall>b. pd_bio cp = Some b \<longrightarrow> length (bio_data b) = OSDP_EVENT_BIOREADR_MAX_TEMPLATE_LEN"
    and d: "length d \<le> OSDP_EVENT_BIOREADR_MAX_TEMPLATE_LEN"
    and frame: "frame = [bio_reader h, bio_status h, bio_type h, bio_quality h] @ u16_le (of_nat (length d)) @ d"
  shows "\<exists>e cp'. osdp_bio_cp_reply_consume cp frame (int (6 + length d)) = (1, Some e, cp') \<and>
    bioreadr_reader e = bio_reader h \<and> bioreadr_status e = uint (bio_status h) \<and>
    bioreadr_type e = uint (bio_type h) \<and> bioreadr_quality e = bio_quality h \<and>
    unat (bioreadr_length e) = length d \<and> take (length d) (bioreadr_data e) = d"
proof -
  have len: "\<not> int (6 + length d) < int REPLY_BIOREADR_DATA_LEN"
    "nat (int (6 + length d) - int REPLY_BIOREADR_DATA_LEN) = length d" by simp_all
  have l0: "length (bio_data (bio_get cp)) = OSDP_EVENT_BIOREADR_MAX_TEMPLATE_LEN"
    using cp(2) by (simp add: bio_get_def bio_zero_def split: option.split)
  have c: "\<not> (length d > length (bio_data ((bio_get cp)\<lparr>bio_reader := a, bio_status := b, bio_type := c', bio_quality := q\<rparr>)) \<or> length d > length d)"
    for a b c' q using l0 d by simp
  have hd: "frame ! 0 = bio_reader h" "frame ! 1 = bio_status h" "frame ! 2 = bio_type h" "frame ! 3 = bio_quality h"
    unfolding frame by (simp_all add: numeral_2_eq_2 numeral_3_eq_3)
  have tot: "unat (fst (bread_u16_le frame 4)) = length d" by (rule std_header_total [OF frame d])
  have data: "bytes_at 6 (length d) frame = d" by (simp add: frame bytes_at_def le16.enc_length)
  have w: "unat (of_nat (length d) :: u16) = length d" using d by (simp add: unat_of_nat)
  show ?thesis
    unfolding osdp_bio_cp_reply_consume_def if_not_P [OF cp(1)] if_not_P [OF len(1)] Let_def tot len(2) if_not_P [OF c]
      data hd
    using d w by (simp add: bio_cp_fill_event_def write_at_def)
qed

lemma bio_build_first:
  assumes pd: "\<not> osdp_bio_is_active pd" "\<forall>b. pd_bio pd = Some b \<longrightarrow> length (bio_data b) = OSDP_EVENT_BIOREADR_MAX_TEMPLATE_LEN"
    and e: "unat (bioreadr_length e) = length d" "take (length d) (bioreadr_data e) = d" "length d \<le> OSDP_EVENT_BIOREADR_MAX_TEMPLATE_LEN"
    and h: "bio_reader h = bioreadr_reader e" "bio_status h = word_of_int (bioreadr_status e)"
      "bio_type h = word_of_int (bioreadr_type e)" "bio_quality h = bioreadr_quality e"
    and max: "max_len = 22 + c" "0 < c" "c < 65536" "max_len \<le> length pkt" "c < length d"
  shows "\<exists>pkt' pd'. osdp_bio_pd_reply_build pd (Some e) pkt (int max_len) = (int (6 + c), pkt', pd') \<and>
    take (6 + c) pkt' = [bio_reader h, bio_status h, bio_type h, bio_quality h] @ u16_le (of_nat (length d)) @ take c d \<and>
    bio_tx_at d c pd'"
proof -
  let ?len = "unat (bioreadr_length e)"
  define b0 where "b0 = (bio_get pd)\<lparr>bio_reader := bioreadr_reader e, bio_status := word_of_int (bioreadr_status e),
     bio_type := word_of_int (bioreadr_type e), bio_quality := bioreadr_quality e\<rparr>"
  have l0: "length (bio_data (bio_get pd)) = OSDP_EVENT_BIOREADR_MAX_TEMPLATE_LEN"
    using pd(2) by (simp add: bio_get_def bio_zero_def split: option.split)
  have idle: "bio_phase (bio_get pd) = OSDP_BIO_IDLE"
    using pd(1) by (cases "pd_bio pd") (auto simp: bio_get_def bio_zero_def bio_inactive)
  have cs: "\<not> ?len > length (bio_data (bio_get pd))" "\<not> int ?len \<le> int max_len - int REPLY_BIOREADR_DATA_LEN - OSDP_MP_SC_RESERVE"
    using e l0 max by (simp_all add: OSDP_MP_SC_RESERVE_def)
  let ?pd0 = "pd\<lparr>pd_bio := Some b0\<rparr>"
  have na: "\<not> osdp_bio_is_active ?pd0" using idle by (simp add: osdp_bio_is_active_def b0_def)
  define mp0 :: "unit osdp_multipart" where "mp0 = osdp_mp_set_identity (osdp_mp_set_event_cb osdp_mp_reset True)
     OSDP_MP_MSG_BIOREAD (uint (bio_reader b0))"
  define b1 where "b1 = b0\<lparr>bio_start_emitted := False, bio_tstamp := osdp_millis_now ?pd0, bio_mp := mp0\<rparr>"
  have op: "bio_op_open (bio_reader b0) ?pd0 = pd\<lparr>pd_bio := Some b1\<rparr>"
    by (simp add: bio_op_open_def bio_abort_idle [OF na] Let_def b1_def mp0_def)
  define data where "data = write_at 0 (take ?len (bioreadr_data e)) (bio_data b1)"
  let ?tl = "ucast (bioreadr_length e) :: u32"
  have tl: "unat ?tl = length d" using e(1) by (simp add: ucast_u16_u32)
  have tl0: "?tl \<noteq> 0"
  proof
    assume "?tl = 0"
    then show False using tl max(5) by simp
  qed
  define mp1 where "mp1 = (osdp_mp_bind_buffer mp0 data ?tl)\<lparr>mp_width := OSDP_MP_W16, mp_total := ?tl,
     mp_offset := 0, mp_last_len := 0, mp_start_emitted := False, mp_state := OSDP_MP_INPROG\<rparr>"
  have ti: "osdp_mp_tx_init (osdp_mp_bind_buffer mp0 data ?tl) ?tl OSDP_MP_W16 = Some mp1"
    using tl0 by (simp add: osdp_mp_tx_init_def mp1_def)
  obtain b2 ev where st: "bio_emit_start (b1\<lparr>bio_data := data, bio_mp := mp1\<rparr>) = (b2, ev)" by (rule prod.exhaust)
  have b2: "b2 = b1\<lparr>bio_data := data, bio_start_emitted := True, bio_mp := mp1\<lparr>mp_start_emitted := True\<rparr>\<rparr>"
    using st by (auto simp: bio_emit_start_def b1_def osdp_mp_emit_start_def mp1_def Let_def)
  let ?b3 = "b2\<lparr>bio_phase := OSDP_BIO_REPLY\<rparr>"
  have td: "take (length d) data = d"
    using e l0 by (simp add: data_def write_at_def)
  have at: "mp_tx_at OSDP_MP_W16 d 0 (bio_mp ?b3)"
    using td tl by (simp add: mp_tx_at_def b2 mp1_def osdp_mp_bind_buffer_def)
  have build: "osdp_bio_pd_reply_build pd (Some e) pkt (int max_len) = bio_pd_build ?b3 pkt (int max_len) (bio_put ?b3 ev pd)"
    unfolding osdp_bio_pd_reply_build_def option.case Let_def if_not_P [OF cs(1)] if_not_P [OF cs(2)] b0_def [symmetric]
      op bio_get_put bio_put_put
    using ti st by (simp add: data_def mp0_def [symmetric] b1_def)
  have n: "c = min c (length d - 0)" using max(5) by simp
  have h3: "bio_reader ?b3 = bio_reader h" "bio_status ?b3 = bio_status h" "bio_type ?b3 = bio_type h"
    "bio_quality ?b3 = bio_quality h" using h by (simp_all add: b2 b1_def b0_def)
  have tw: "ucast (mp_total (bio_mp ?b3)) = (of_nat (length d) :: u16)"
    using tl e(3) unat_u32_u16 [of "mp_total (bio_mp ?b3)"]
    by (simp add: b2 mp1_def osdp_mp_bind_buffer_def word_unat_eq_iff unat_of_nat)
  have "0 < length d" using max(5) by linarith
  from bio_build_at [OF at _ this max(1-4) n, of "bio_put ?b3 ev pd"] build show ?thesis
    using max(5) unfolding h3 tw by (auto simp: bytes_at_def)
qed

lemma bio_build_single:
  assumes pd: "\<not> osdp_bio_is_active pd" "\<forall>b. pd_bio pd = Some b \<longrightarrow> length (bio_data b) = OSDP_EVENT_BIOREADR_MAX_TEMPLATE_LEN"
    and e: "unat (bioreadr_length e) = length d" "take (length d) (bioreadr_data e) = d" "length d \<le> OSDP_EVENT_BIOREADR_MAX_TEMPLATE_LEN"
    and h: "bio_reader h = bioreadr_reader e" "bio_status h = word_of_int (bioreadr_status e)"
      "bio_type h = word_of_int (bioreadr_type e)" "bio_quality h = bioreadr_quality e"
    and max: "max_len = 22 + c" "0 < c" "c < 65536" "max_len \<le> length pkt" "length d \<le> c"
  shows "\<exists>pkt' pd'. osdp_bio_pd_reply_build pd (Some e) pkt (int max_len) = (int (6 + length d), pkt', pd') \<and>
    take (6 + length d) pkt' = [bio_reader h, bio_status h, bio_type h, bio_quality h] @ u16_le (of_nat (length d)) @ d \<and>
    \<not> osdp_bio_is_active pd'"
proof -
  let ?len = "unat (bioreadr_length e)"
  define b0 where "b0 = (bio_get pd)\<lparr>bio_reader := bioreadr_reader e, bio_status := word_of_int (bioreadr_status e),
     bio_type := word_of_int (bioreadr_type e), bio_quality := bioreadr_quality e\<rparr>"
  have l0: "length (bio_data (bio_get pd)) = OSDP_EVENT_BIOREADR_MAX_TEMPLATE_LEN"
    using pd(2) by (simp add: bio_get_def bio_zero_def split: option.split)
  have idle: "bio_phase (bio_get pd) = OSDP_BIO_IDLE"
    using pd(1) by (cases "pd_bio pd") (auto simp: bio_get_def bio_zero_def bio_inactive)
  have cs: "\<not> ?len > length (bio_data (bio_get pd))" "int ?len \<le> int max_len - int REPLY_BIOREADR_DATA_LEN - OSDP_MP_SC_RESERVE"
    using e l0 max by (simp_all add: OSDP_MP_SC_RESERVE_def)
  have tw: "bioreadr_length e = of_nat (length d)"
    using e by (simp add: word_unat_eq_iff unat_of_nat)
  have "osdp_bio_pd_reply_build pd (Some e) pkt (int max_len) =
      (int (6 + length d), write_at 6 d (snd (bio_write_std_header b0 (of_nat (length d)) pkt)), pd\<lparr>pd_bio := Some b0\<rparr>)"
    unfolding osdp_bio_pd_reply_build_def option.case Let_def if_not_P [OF cs(1)] if_P [OF cs(2)] b0_def [symmetric]
    using max e by (simp add: hdr_std tw)
  moreover have "\<not> osdp_bio_is_active (pd\<lparr>pd_bio := Some b0\<rparr>)" using idle by (simp add: osdp_bio_is_active_def b0_def)
  moreover define H where "H = [bio_reader h, bio_status h, bio_type h, bio_quality h] @ u16_le (of_nat (length d))"
  have lH: "length H = 6" by (simp add: H_def le16.enc_length)
  have "snd (bio_write_std_header b0 (of_nat (length d)) pkt) = H @ drop 6 pkt"
    using max h lH by (simp add: hdr_std write_at_def H_def b0_def)
  then have "take (6 + length d) (write_at 6 d (snd (bio_write_std_header b0 (of_nat (length d)) pkt))) = H @ d"
    using lH by (simp add: write_at_def)
  ultimately show ?thesis unfolding H_def by simp
qed

text \<open>
  C34. A biometric template reaches the application of the CP whole.  A PD with a scan result to
  report, and a CP with no reassembly in progress, exchange at most as many packets as the
  template has bytes, whether it fits in one REPLY_BIOREADR or not; the event the CP raises
  carries the reader, the status, the type, the quality and exactly the bytes of the template,
  and both sides are idle again.
\<close>

theorem biometric_template_delivered:
  assumes "unat (bioreadr_length e) = length d" "take (length d) (bioreadr_data e) = d" "0 < length d"
    and "length d \<le> OSDP_EVENT_BIOREADR_MAX_TEMPLATE_LEN"
    and "0 \<le> bioreadr_status e" "bioreadr_status e < 256" "0 \<le> bioreadr_type e" "bioreadr_type e < 256"
    and "\<not> osdp_bio_is_active pd" "\<not> osdp_bio_is_active cp"
    and "\<forall>b. pd_bio pd = Some b \<longrightarrow> length (bio_data b) = OSDP_EVENT_BIOREADR_MAX_TEMPLATE_LEN"
    and "\<forall>b. pd_bio cp = Some b \<longrightarrow> length (bio_data b) = OSDP_EVENT_BIOREADR_MAX_TEMPLATE_LEN"
    and "22 < max_len" "max_len \<le> 60000" "max_len \<le> length pkt"
  shows "\<exists>e' pd' cp'. bio_deliver (length d) (Some e) pkt (int max_len) pd cp = Some (e', pd', cp') \<and>
    bioreadr_reader e' = bioreadr_reader e \<and> bioreadr_status e' = bioreadr_status e \<and>
    bioreadr_type e' = bioreadr_type e \<and> bioreadr_quality e' = bioreadr_quality e \<and>
    bioreadr_length e' = bioreadr_length e \<and> take (length d) (bioreadr_data e') = d \<and>
    \<not> osdp_bio_is_active pd' \<and> \<not> osdp_bio_is_active cp'"
proof -
  define c where "c = max_len - 22"
  have c: "max_len = 22 + c" "0 < c" "c < 65536" using assms(13,14) by (simp_all add: c_def)
  define h where "h = bio_zero\<lparr>bio_reader := bioreadr_reader e, bio_status := word_of_int (bioreadr_status e),
    bio_type := word_of_int (bioreadr_type e), bio_quality := bioreadr_quality e\<rparr>"
  have h: "bio_reader h = bioreadr_reader e" "bio_status h = word_of_int (bioreadr_status e)"
    "bio_type h = word_of_int (bioreadr_type e)" "bio_quality h = bioreadr_quality e"
    "uint (bio_status h) = bioreadr_status e" "uint (bio_type h) = bioreadr_type e"
    using assms(5-8) by (simp_all add: h_def uint_word_of_int)
  obtain f where f: "length d = Suc f" using assms(3) by (cases "length d") auto
  have len: "bioreadr_length e' = bioreadr_length e" if "unat (bioreadr_length e') = length d" for e'
    using that assms(1) by (simp add: word_unat_eq_iff)
  show ?thesis
  proof (cases "c < length d")
    case True
    obtain pkt' pd1 where b: "osdp_bio_pd_reply_build pd (Some e) pkt (int max_len) = (int (6 + c), pkt', pd1)"
      "take (6 + c) pkt' = [bio_reader h, bio_status h, bio_type h, bio_quality h] @ u16_le (of_nat (length d)) @ take c d"
      "bio_tx_at d c pd1"
      using bio_build_first [OF assms(9,11,1,2,4) h(1-4) c assms(15) True] by blast
    obtain cp1 b1 where r: "osdp_bio_cp_reply_consume cp (take (6 + c) pkt') (int (6 + c)) = (0, None, cp1)"
      "pd_bio cp1 = Some b1" "bio_rx_at h d c b1"
      using bio_first_at [OF assms(10,12,4) c(2) True b(2)] by blast
    have "length d - c \<le> f" using f c(2) by simp
    from bio_deliver_at [OF b(3) r(2,3) c(2) True assms(4) c assms(15) this]
    obtain e' pd' cp' where D: "bio_deliver f None pkt (int max_len) pd1 cp1 = Some (e', pd', cp')"
      "bioreadr_reader e' = bio_reader h" "bioreadr_status e' = uint (bio_status h)"
      "bioreadr_type e' = uint (bio_type h)" "bioreadr_quality e' = bio_quality h"
      "unat (bioreadr_length e') = length d" "take (length d) (bioreadr_data e') = d"
      "\<not> osdp_bio_is_active pd'" "\<not> osdp_bio_is_active cp'" by blast
    have "bio_deliver (length d) (Some e) pkt (int max_len) pd cp = Some (e', pd', cp')"
      unfolding f bio_deliver.simps b(1) prod.case Let_def using r(1) D(1) by (simp add: nat_int_add del: of_nat_add)
    then show ?thesis using D(2-9) h len by (intro exI [of _ e'] exI [of _ pd'] exI [of _ cp']) simp
  next
    case False
    obtain pkt' pd1 where b: "osdp_bio_pd_reply_build pd (Some e) pkt (int max_len) = (int (6 + length d), pkt', pd1)"
      "take (6 + length d) pkt' = [bio_reader h, bio_status h, bio_type h, bio_quality h] @ u16_le (of_nat (length d)) @ d"
      "\<not> osdp_bio_is_active pd1"
      using bio_build_single [OF assms(9,11,1,2,4) h(1-4) c assms(15)] False by auto
    obtain e' cp1 where r: "osdp_bio_cp_reply_consume cp (take (6 + length d) pkt') (int (6 + length d)) = (1, Some e', cp1)"
      "bioreadr_reader e' = bio_reader h \<and> bioreadr_status e' = uint (bio_status h) \<and>
       bioreadr_type e' = uint (bio_type h) \<and> bioreadr_quality e' = bio_quality h \<and>
       unat (bioreadr_length e') = length d \<and> take (length d) (bioreadr_data e') = d"
      using bio_single_at [OF assms(10,12,4) b(2)] by blast
    have "bio_deliver (length d) (Some e) pkt (int max_len) pd cp = Some (e', pd1, osdp_bio_cp_reply_finish cp1)"
      unfolding f bio_deliver.simps b(1) [unfolded f] prod.case Let_def using r(1) [unfolded f]
      by (simp add: nat_int_add del: of_nat_add)
    then show ?thesis using r(2) b(3) h len [of e'] bio_finish_idle [of cp1]
      by (intro exI [of _ e'] exI [of _ pd1] exI [of _ "osdp_bio_cp_reply_finish cp1"]) simp
  qed
qed


definition bio_example :: osdp_event_bioreadr where
  "bio_example = \<lparr>bioreadr_reader = 1, bioreadr_status = 0, bioreadr_type = 8, bioreadr_quality = 200,
     bioreadr_length = 5, bioreadr_data = [1, 2, 3, 4, 5]\<rparr>"

theorem biometric_template_delivered_witness:
  "\<exists>e' pd' cp'. bio_deliver 5 (Some bio_example) (replicate 250 0) 24
     (dev_zero no_callbacks ()) (dev_zero no_callbacks ()) = Some (e', pd', cp') \<and>
     bioreadr_type e' = 8 \<and> take 5 (bioreadr_data e') = [1, 2, 3, 4, 5]"
proof -
  have len: "length [1, 2, 3, 4, 5 :: u8] = 5" by simp
  have "\<not> osdp_bio_is_active (dev_zero no_callbacks ())" by (simp add: bio_inactive)
  from biometric_template_delivered [of bio_example "[1, 2, 3, 4, 5]", OF _ _ _ _ _ _ _ _ this this,
      of 24 "replicate 250 0", unfolded len]
  show ?thesis by (auto simp: bio_example_def)
qed

end
