(* ===== verification/Cp_Build.thy ===== *)
theory Cp_Build
  imports Phy_Session File_Transfer Smartcard Biometric
begin

text \<open>
  The CP's outgoing side, the first part of src/src/osdp_cp.c: the data block of each command
  (cp_build_command) and the packet around it (cp_build_packet).  A build without transparent
  mode, the default, is modelled: \<open>osdp_trs_cmd_build\<close> is the stub that returns -1.
\<close>

subsection \<open>Error codes\<close>

abbreviation (input) OSDP_CP_ERR_NONE :: int where "OSDP_CP_ERR_NONE \<equiv> 0"
abbreviation (input) OSDP_CP_ERR_GENERIC :: int where "OSDP_CP_ERR_GENERIC \<equiv> - 1"
abbreviation (input) OSDP_CP_ERR_NO_DATA :: int where "OSDP_CP_ERR_NO_DATA \<equiv> - 2"
abbreviation (input) OSDP_CP_ERR_RETRY_CMD :: int where "OSDP_CP_ERR_RETRY_CMD \<equiv> - 3"
abbreviation (input) OSDP_CP_ERR_DEFER :: int where "OSDP_CP_ERR_DEFER \<equiv> - 4"
abbreviation (input) OSDP_CP_ERR_INPROG :: int where "OSDP_CP_ERR_INPROG \<equiv> - 5"
abbreviation (input) OSDP_CP_ERR_UNKNOWN :: int where "OSDP_CP_ERR_UNKNOWN \<equiv> - 6"
abbreviation (input) OSDP_CP_ERR_SEQ_NUM :: int where "OSDP_CP_ERR_SEQ_NUM \<equiv> - 7"
abbreviation (input) OSDP_CP_ERR_APP :: int where "OSDP_CP_ERR_APP \<equiv> - 8"

subsection \<open>Command data blocks\<close>

text \<open>
  \<open>memcpy\<close> of \<open>n\<close> bytes out of an array of a command.  A length byte beyond the array reads
  the memory behind it, whatever it holds; zeros stand for it here.
\<close>

definition array_read :: "nat \<Rightarrow> bytes \<Rightarrow> bytes" where
  "array_read n src = take n (src @ replicate n 0)"

lemma length_array_read [simp]: "length (array_read n src) = n"
  by (simp add: array_read_def)

definition cmd_needs_payload :: "int \<Rightarrow> bool" where
  "cmd_needs_payload cmd_id \<longleftrightarrow> cmd_id \<in> {CMD_OUT, CMD_LED, CMD_BUZ, CMD_TEXT, CMD_TDSET, CMD_COMSET,
     CMD_MFG, CMD_BIOREAD, CMD_BIOMATCH, CMD_KEYSET}"

abbreviation (input) int_byte :: "int \<Rightarrow> u8" where "int_byte \<equiv> word_of_int"

text \<open>
  The data block an application command is written as, with the command code whose case of the
  switch writes it; \<open>None\<close> is a refusal.  A case reads the member of the union its code names:
  \<open>cp_setup_active_cmd\<close> sets the code from the command, so the two agree.
\<close>

definition led_params :: "osdp_cmd_led_params \<Rightarrow> bytes" where
  "led_params l = [ledp_control_code l, ledp_on_count l, ledp_off_count l,
     int_byte (ledp_on_color l), int_byte (ledp_off_color l)]"

definition keyset_payload :: "'z osdp_pd_scheme \<Rightarrow> osdp_cmd_keyset \<Rightarrow> bytes option" where
  "keyset_payload pd k =
     (if \<not> sc_is_active pd \<or> keyset_length k \<noteq> 16 then None
      else if keyset_type k = 1 then Some ([1, 16] @ array_read 16 (keyset_data k))
      else if keyset_type k = 0 then Some ([1, 16] @ osdp_compute_scbk pd (keyset_data k))
      else None)"

fun cp_payload :: "'z osdp_pd_scheme \<Rightarrow> osdp_cmd_u \<Rightarrow> int \<times> bytes option" where
  "cp_payload pd (OSDP_CMD_OUTPUT c) =
     (CMD_OUT, Some ([output_no c, int_byte (output_control_code c)] @ u16_le (output_timer_count c)))"
| "cp_payload pd (OSDP_CMD_LED c) =
     (CMD_LED, Some ([led_reader c, led_number c] @ led_params (led_temporary c)
                     @ u16_le (ledp_timer_count (led_temporary c)) @ led_params (led_permanent c)))"
| "cp_payload pd (OSDP_CMD_BUZZER c) =
     (CMD_BUZ, Some [buzzer_reader c, int_byte (buzzer_control_code c), buzzer_on_count c,
                     buzzer_off_count c, buzzer_rep_count c])"
| "cp_payload pd (OSDP_CMD_TEXT c) =
     (CMD_TEXT, Some ([text_reader c, int_byte (text_control_code c), text_temp_time c, text_offset_row c,
                       text_offset_col c, text_length c] @ array_read (unat (text_length c)) (text_data c)))"
| "cp_payload pd (OSDP_CMD_TDSET c) =
     (CMD_TDSET, Some (u16_le (tdset_year c) @ [tdset_month c, tdset_day c, tdset_hour c,
                       tdset_minute c, tdset_second c]))"
| "cp_payload pd (OSDP_CMD_COMSET c) =
     (CMD_COMSET, Some ([comset_address c] @ u32_le (comset_baud_rate c)))"
| "cp_payload pd (OSDP_CMD_MFG c) =
     (CMD_MFG, if unat (mfg_length c) > OSDP_CMD_MFG_MAX_DATALEN then None
               else Some (u24_le (mfg_vendor_code c) @ array_read (unat (mfg_length c)) (mfg_data c)))"
| "cp_payload pd (OSDP_CMD_BIOREAD c) =
     (CMD_BIOREAD, Some [bioread_reader c, int_byte (bioread_type c), int_byte (bioread_format c),
                         bioread_quality c])"
| "cp_payload pd (OSDP_CMD_BIOMATCH c) =
     (CMD_BIOMATCH, if unat (biomatch_length c) > OSDP_CMD_BIOMATCH_MAX_TEMPLATE_LEN then None
                    else Some ([biomatch_reader c, int_byte (biomatch_type c), int_byte (biomatch_format c),
                                biomatch_quality c] @ u16_le (biomatch_length c)
                               @ array_read (unat (biomatch_length c)) (biomatch_data c)))"
| "cp_payload pd (OSDP_CMD_KEYSET k) = (CMD_KEYSET, keyset_payload pd k)"
| "cp_payload pd _ = (CMD_INVALID, None)"

text \<open>
  A data block written behind the command byte at \<open>off\<close>: the length of the command or the
  jump to \<open>out_of_space\<close>.  \<open>room\<close> is what is left behind the command byte.
\<close>

definition put_command_data :: "bytes \<Rightarrow> nat \<Rightarrow> bytes \<Rightarrow> int \<Rightarrow> int \<times> bytes" where
  "put_command_data data off buf room =
     (if room < int (length data) then (OSDP_CP_ERR_GENERIC, buf)
      else (1 + int (length data), write_at (off + 1) data buf))"

text \<open>A command that a feature engine writes; the command byte becomes an ABORT if it cannot.\<close>

definition put_engine_command ::
  "int \<times> bytes \<times> ('w, 'z) osdp_dev_scheme \<Rightarrow> nat \<Rightarrow> bytes
   \<Rightarrow> int \<times> bytes \<times> ('w, 'z) osdp_dev_scheme" where
  "put_engine_command r off buf =
     (let (ret, b, pd) = r; buf = take (off + 1) buf @ b
      in if ret \<le> 0 then (1, buf[off := int_byte CMD_ABORT], pd) else (1 + ret, buf, pd))"

text \<open>
  The security block a handshake command announces itself with, and the one that the other
  commands get in a session: with or without data.
\<close>

definition put_handshake_block :: "u8 \<Rightarrow> 'z osdp_pd_scheme \<Rightarrow> nat \<Rightarrow> bytes \<Rightarrow> bytes" where
  "put_handshake_block scs pd smb buf = write_at smb [3, scs, if sc_use_scbkd pd then 0 else 1] buf"

definition put_session_block ::
  "int \<Rightarrow> nat option \<Rightarrow> 'z osdp_pd_scheme \<Rightarrow> bytes \<Rightarrow> bytes" where
  "put_session_block len smb pd buf =
     (case smb of
        None \<Rightarrow> buf
      | Some s \<Rightarrow> if buf ! (s + 1) > SCS_14 \<and> sc_is_active pd
                  then write_at s [2, if len > 1 then SCS_17 else SCS_15] buf else buf)"

text \<open>The switch over the command code, \<open>buf\<close> holding the command byte at \<open>off\<close>.\<close>

definition cp_command_body ::
  "('w, 'z) osdp_dev_scheme \<Rightarrow> osdp_cmd option \<Rightarrow> nat option \<Rightarrow> nat \<Rightarrow> bytes \<Rightarrow> int
   \<Rightarrow> int \<times> bytes \<times> ('w, 'z) osdp_dev_scheme" where
  "cp_command_body pd cmd smb off buf room =
     (let c = pd_cmd_id pd;
          fixed = (\<lambda>data. let (ret, buf) = put_command_data data off buf room in (ret, buf, pd))
      in if c \<in> {CMD_POLL, CMD_LSTAT, CMD_ISTAT, CMD_OSTAT, CMD_RSTAT, CMD_ABORT} then (1, buf, pd)
         else if c = CMD_ID \<or> c = CMD_CAP then fixed [0]
         else if c = CMD_ACURXSIZE then fixed (u16_le (of_nat OSDP_PACKET_BUF_SIZE))
         else if c = CMD_KEEPACTIVE then fixed (u16_le 0)
         else if c = CMD_FILETRANSFER
         then put_engine_command (osdp_file_cmd_tx_build pd (drop (off + 1) buf) room) off buf
         else if c \<in> {CMD_PIVDATA, CMD_GENAUTH, CMD_CRAUTH}
         then let (ret, b, pd) = osdp_piv_cp_cmd_build pd (drop (off + 1) buf) room;
                  pd = (if ret \<le> 0 then osdp_piv_abort pd else pd)
              in put_engine_command (ret, b, pd) off buf
         else if c = CMD_XWR then (OSDP_CP_ERR_GENERIC, buf, pd)
         else if c = CMD_CHLNG
         then (case smb of
                 None \<Rightarrow> (OSDP_CP_ERR_GENERIC, buf, pd)
               | Some s \<Rightarrow>
                   if room < 8 then (OSDP_CP_ERR_GENERIC, buf, pd)
                   else (9, write_at (off + 1) (take 8 (cp_random (pd_sc pd)))
                              (put_handshake_block SCS_11 pd s buf), pd))
         else if c = CMD_SCRYPT
         then (case smb of
                 None \<Rightarrow> (OSDP_CP_ERR_GENERIC, buf, pd)
               | Some s \<Rightarrow>
                   if room < 16 then (OSDP_CP_ERR_GENERIC, buf, pd)
                   else let pd = osdp_compute_cp_cryptogram pd
                        in (17, write_at (off + 1) (take 16 (cp_cryptogram (pd_sc pd)))
                                  (put_handshake_block SCS_13 pd s buf), pd))
         else case cmd of
                None \<Rightarrow> (OSDP_CP_ERR_GENERIC, buf, pd)
              | Some cmd \<Rightarrow>
                  (case cp_payload pd (cmd_u cmd) of
                     (_, None) \<Rightarrow> (OSDP_CP_ERR_GENERIC, buf, pd)
                   | (code, Some data) \<Rightarrow>
                       if code \<noteq> c then (OSDP_CP_ERR_GENERIC, buf, pd) else fixed data))"

definition cp_build_command ::
  "('w, 'z) osdp_dev_scheme \<Rightarrow> osdp_cmd option \<Rightarrow> bytes \<Rightarrow> int
   \<Rightarrow> int \<times> bytes \<times> ('w, 'z) osdp_dev_scheme" where
  "cp_build_command pd cmd buf max_len =
     (let data_off = osdp_phy_packet_get_data_offset pd buf;
          smb = osdp_phy_packet_get_smb pd buf;
          room = max_len - int data_off
      in if room \<le> 0 then (OSDP_CP_ERR_GENERIC, buf, pd)
         else if cmd = None \<and> cmd_needs_payload (pd_cmd_id pd) then (OSDP_CP_ERR_GENERIC, buf, pd)
         else
         let buf = buf[data_off := int_byte (pd_cmd_id pd)];
             (len, buf, pd) = cp_command_body pd cmd smb data_off buf (room - 1)
         in if len < 0 then (len, buf, pd) else (len, put_session_block len smb pd buf, pd))"

subsection \<open>Packets\<close>

definition fill_local_keyset_cmd :: "'z osdp_pd_scheme \<Rightarrow> osdp_cmd" where
  "fill_local_keyset_cmd pd =
     \<lparr>cmd_flags = 0, cmd_u = OSDP_CMD_KEYSET \<lparr>keyset_type = 1, keyset_length = 16, keyset_data = scbk (pd_sc pd)\<rparr>\<rparr>"

text \<open>
  The packet is built in the staging buffer \<open>tx_buf\<close>, which no callback sees, and put back
  whether or not the build came to an end.
\<close>

definition cp_build_packet ::
  "crc16 \<Rightarrow> ('w, 'z) osdp_dev_scheme \<Rightarrow> int \<times> ('w, 'z) osdp_dev_scheme" where
  "cp_build_packet crc pd =
     (let size = get_tx_buf_size pd;
          pd = pd\<lparr>pd_packet_buf := TX_BUF\<rparr>;
          (ret, buf, pd) = osdp_phy_packet_init pd (packet_bytes pd) size
      in if ret < 0 then (OSDP_CP_ERR_GENERIC, put_packet_bytes buf pd)
         else
         let pd = pd\<lparr>pd_packet_buf_len := nat ret\<rparr>;
             cmd = (if pd_state pd = OSDP_CP_STATE_SET_SCBK \<and> pd_cmd_id pd = CMD_KEYSET
                    then Some (fill_local_keyset_cmd pd) else pd_active_cmd pd);
             (ret, buf, pd) = cp_build_command pd cmd buf size
         in if ret < 0 then (OSDP_CP_ERR_GENERIC, put_packet_bytes buf pd)
            else
            let pd = pd\<lparr>pd_packet_buf_len := pd_packet_buf_len pd + nat ret\<rparr>;
                (ret, buf, pd) = osdp_phy_finalize_packet crc pd buf (pd_packet_buf_len pd) size
            in if ret < 0 then (OSDP_CP_ERR_GENERIC, put_packet_bytes buf pd)
               else (OSDP_CP_ERR_NONE, (put_packet_bytes buf pd)\<lparr>pd_packet_buf_len := nat ret\<rparr>))"

end
