(* ===== verification/Cp_Decode.thy ===== *)
theory Cp_Decode
  imports Cp_Build
begin

text \<open>
  The CP's incoming side: what a reply does to the device (cp_decode_response) and how a
  received packet becomes a reply (cp_process_reply), of src/src/osdp_cp.c.  Transparent mode
  is compiled out, the default: its hooks do nothing and its decoder refuses.  \<open>None\<close> is the
  decryption of a negative length that runs off the memory.
\<close>

subsection \<open>Capabilities and events\<close>

abbreviation (input) OSDP_PD_CAP_CONTACT_STATUS_MONITORING :: nat where
  "OSDP_PD_CAP_CONTACT_STATUS_MONITORING \<equiv> 1"
abbreviation (input) OSDP_PD_CAP_OUTPUT_CONTROL :: nat where "OSDP_PD_CAP_OUTPUT_CONTROL \<equiv> 2"
abbreviation (input) OSDP_PD_CAP_READER_LED_CONTROL :: nat where "OSDP_PD_CAP_READER_LED_CONTROL \<equiv> 4"
abbreviation (input) OSDP_PD_CAP_READER_AUDIBLE_OUTPUT :: nat where "OSDP_PD_CAP_READER_AUDIBLE_OUTPUT \<equiv> 5"
abbreviation (input) OSDP_PD_CAP_READER_TEXT_OUTPUT :: nat where "OSDP_PD_CAP_READER_TEXT_OUTPUT \<equiv> 6"
abbreviation (input) OSDP_PD_CAP_TIME_KEEPING :: nat where "OSDP_PD_CAP_TIME_KEEPING \<equiv> 7"
abbreviation (input) OSDP_PD_CAP_CHECK_CHARACTER_SUPPORT :: nat where
  "OSDP_PD_CAP_CHECK_CHARACTER_SUPPORT \<equiv> 8"
abbreviation (input) OSDP_PD_CAP_COMMUNICATION_SECURITY :: nat where
  "OSDP_PD_CAP_COMMUNICATION_SECURITY \<equiv> 9"
abbreviation (input) OSDP_PD_CAP_RECEIVE_BUFFERSIZE :: nat where "OSDP_PD_CAP_RECEIVE_BUFFERSIZE \<equiv> 10"
abbreviation (input) OSDP_PD_CAP_LARGEST_COMBINED_MESSAGE_SIZE :: nat where
  "OSDP_PD_CAP_LARGEST_COMBINED_MESSAGE_SIZE \<equiv> 11"
abbreviation (input) OSDP_PD_CAP_SMART_CARD_SUPPORT :: nat where "OSDP_PD_CAP_SMART_CARD_SUPPORT \<equiv> 12"
abbreviation (input) OSDP_PD_CAP_READERS :: nat where "OSDP_PD_CAP_READERS \<equiv> 13"
abbreviation (input) OSDP_PD_CAP_BIOMETRICS :: nat where "OSDP_PD_CAP_BIOMETRICS \<equiv> 14"
abbreviation (input) OSDP_PD_CAP_SENTINEL :: nat where "OSDP_PD_CAP_SENTINEL \<equiv> 17"

abbreviation (input) REPLY_FMT :: int where "REPLY_FMT \<equiv> 0x51"
abbreviation (input) OSDP_CMD_MAX_RETRIES :: int where "OSDP_CMD_MAX_RETRIES \<equiv> 8"

definition cp_notify :: "osdp_notification \<Rightarrow> ('w, 'z) osdp_dev_scheme \<Rightarrow> ('w, 'z) osdp_dev_scheme" where
  "cp_notify n pd =
     (if is_notifications_enabled pd then cp_dispatch_event (OSDP_EVENT_NOTIFICATION n) pd else pd)"

definition notify_pd_status :: "bool \<Rightarrow> ('w, 'z) osdp_dev_scheme \<Rightarrow> ('w, 'z) osdp_dev_scheme" where
  "notify_pd_status is_online pd = cp_notify (OSDP_NOTIFICATION_PD_STATUS is_online) pd"

definition notify_pd_id :: "('w, 'z) osdp_dev_scheme \<Rightarrow> ('w, 'z) osdp_dev_scheme" where
  "notify_pd_id pd = cp_notify (OSDP_NOTIFICATION_PD_ID (pd_id pd)) pd"

definition notify_sc_status :: "('w, 'z) osdp_dev_scheme \<Rightarrow> ('w, 'z) osdp_dev_scheme" where
  "notify_sc_status pd = cp_notify (OSDP_NOTIFICATION_SC_STATUS (sc_is_active pd) (sc_use_scbkd pd)) pd"

definition cap_at :: "'z osdp_pd_scheme \<Rightarrow> nat \<Rightarrow> osdp_pd_cap" where
  "cap_at pd t = pd_cap pd ! t"

definition cap_bit :: "'z osdp_pd_scheme \<Rightarrow> nat \<Rightarrow> bool" where
  "cap_bit pd t \<longleftrightarrow> compliance_level (cap_at pd t) AND 1 \<noteq> 0"

definition cp_pd_declared_crc :: "'z osdp_pd_scheme \<Rightarrow> bool" where
  "cp_pd_declared_crc pd \<longleftrightarrow>
     unat (function_code (cap_at pd OSDP_PD_CAP_CHECK_CHARACTER_SUPPORT)) = OSDP_PD_CAP_CHECK_CHARACTER_SUPPORT \<and>
     cap_bit pd OSDP_PD_CAP_CHECK_CHARACTER_SUPPORT"

definition pd_id_changed :: "osdp_pd_id \<Rightarrow> osdp_pd_id \<Rightarrow> bool" where
  "pd_id_changed a b \<longleftrightarrow> id_version a \<noteq> id_version b \<or> id_model a \<noteq> id_model b \<or>
     id_vendor_code a \<noteq> id_vendor_code b \<or> id_serial_number a \<noteq> id_serial_number b \<or>
     id_firmware_version a \<noteq> id_firmware_version b"

text \<open>An array of an event, cleared, with \<open>bs\<close> copied to its start.\<close>

definition event_array :: "nat \<Rightarrow> bytes \<Rightarrow> bytes" where
  "event_array n bs = write_at 0 bs (replicate n 0)"

subsection \<open>Replies\<close>

text \<open>The return value of one case of the switch, next to the device; here \<open>buf\<close> is the data block.\<close>

definition decode_nak :: "('w, 'z) osdp_dev_scheme \<Rightarrow> bytes \<Rightarrow> int \<Rightarrow> int \<times> ('w, 'z) osdp_dev_scheme" where
  "decode_nak pd buf len =
     (if len \<noteq> 1 then (OSDP_CP_ERR_GENERIC, pd)
      else
      let pd = set_nak_code (buf ! 0) (osdp_metrics_report OSDP_METRIC_NAK pd)
      in if nak_code pd = OSDP_PD_NAK_MSG_CHK \<and> pd_cmd_id pd \<noteq> CMD_XWR \<and> ISSET_FLAG pd PD_FLAG_CP_USE_CRC
         then if \<not> cp_pd_declared_crc pd
              then (OSDP_CP_ERR_RETRY_CMD, CLEAR_FLAG PD_FLAG_CP_USE_CRC pd)
              else if pd_phy_retry_count pd < OSDP_CMD_MAX_RETRIES then (OSDP_CP_ERR_RETRY_CMD, pd)
              else (OSDP_CP_ERR_NONE, pd)
         else (OSDP_CP_ERR_NONE, pd))"

definition decode_pdid :: "('w, 'z) osdp_dev_scheme \<Rightarrow> bytes \<Rightarrow> int \<Rightarrow> int \<times> ('w, 'z) osdp_dev_scheme" where
  "decode_pdid pd buf len =
     (if len \<noteq> 12 then (OSDP_CP_ERR_GENERIC, pd)
      else
      let prev = pd_id pd;
          (vendor, pos) = bread_u24_le buf 0;
          model = uint (buf ! pos); version = uint (buf ! (pos + 1));
          (serial, pos) = bread_u32_le buf (pos + 2);
          (firmware, pos) = bread_u24_be buf pos;
          pd = pd\<lparr>pd_id := \<lparr>id_version = version, id_model = model, id_vendor_code = vendor,
                             id_serial_number = serial, id_firmware_version = firmware\<rparr>\<rparr>
      in (OSDP_CP_ERR_NONE, if pd_id_changed prev (pd_id pd) then notify_pd_id pd else pd))"

text \<open>The entities of a PDCAP reply, up to one whose function code is out of the table.\<close>

fun pdcap_entities :: "bytes \<Rightarrow> osdp_pd_cap list \<Rightarrow> osdp_pd_cap list" where
  "pdcap_entities (t # l # n # rest) cap =
     (if unat t \<ge> OSDP_PD_CAP_SENTINEL then cap
      else pdcap_entities rest (cap[unat t := \<lparr>function_code = t, compliance_level = l, num_items = n\<rparr>]))"
| "pdcap_entities _ cap = cap"

definition decode_pdcap :: "('w, 'z) osdp_dev_scheme \<Rightarrow> bytes \<Rightarrow> int \<Rightarrow> int \<times> ('w, 'z) osdp_dev_scheme" where
  "decode_pdcap pd buf len =
     (if len mod 3 \<noteq> 0 then (OSDP_CP_ERR_GENERIC, pd)
      else
      let pd = pd\<lparr>pd_cap := pdcap_entities (take (nat len) buf) (pd_cap pd)\<rparr>;
          c = cap_at pd OSDP_PD_CAP_RECEIVE_BUFFERSIZE;
          pd = (if unat (function_code c) = OSDP_PD_CAP_RECEIVE_BUFFERSIZE
                then pd\<lparr>pd_peer_rx_size := ucast (compliance_level c) OR push_bit 8 (ucast (num_items c))\<rparr> else pd);
          pd = SET_FLAG_V PD_FLAG_SC_CAPABLE (cap_bit pd OSDP_PD_CAP_COMMUNICATION_SECURITY) pd;
          c = cap_at pd OSDP_PD_CAP_CHECK_CHARACTER_SUPPORT;
          pd = (if unat (function_code c) = OSDP_PD_CAP_CHECK_CHARACTER_SUPPORT
                then SET_FLAG_V PD_FLAG_CP_USE_CRC (cap_bit pd OSDP_PD_CAP_CHECK_CHARACTER_SUPPORT) pd else pd)
      in (OSDP_CP_ERR_NONE,
          SET_FLAG_V PD_FLAG_TRS_CAPABLE (cap_bit pd OSDP_PD_CAP_SMART_CARD_SUPPORT) pd))"

definition dispatch_status ::
  "osdp_status_report_type \<Rightarrow> int \<Rightarrow> bytes \<Rightarrow> ('w, 'z) osdp_dev_scheme \<Rightarrow> int \<times> ('w, 'z) osdp_dev_scheme" where
  "dispatch_status t n buf pd =
     (OSDP_CP_ERR_NONE, cp_dispatch_event (OSDP_EVENT_STATUS
        \<lparr>status_type = t, status_nr_entries = n,
         status_report = event_array (nat OSDP_STATUS_REPORT_MAX_LEN) (take (nat n) buf)\<rparr>) pd)"

definition decode_status ::
  "osdp_status_report_type \<Rightarrow> nat \<Rightarrow> ('w, 'z) osdp_dev_scheme \<Rightarrow> bytes \<Rightarrow> int
   \<Rightarrow> int \<times> ('w, 'z) osdp_dev_scheme" where
  "decode_status typ t pd buf len =
     (if len \<noteq> uint (num_items (cap_at pd t)) \<or> len > OSDP_STATUS_REPORT_MAX_LEN
      then (OSDP_CP_ERR_GENERIC, pd) else dispatch_status typ len buf pd)"

definition decode_keypad :: "('w, 'z) osdp_dev_scheme \<Rightarrow> bytes \<Rightarrow> int \<Rightarrow> int \<times> ('w, 'z) osdp_dev_scheme" where
  "decode_keypad pd buf len =
     (if len < 2 then (OSDP_CP_ERR_GENERIC, pd)
      else
      let n = uint (buf ! 1)
      in if n \<noteq> len - 2 \<or> n > OSDP_EVENT_KEYPRESS_MAX_DATALEN then (OSDP_CP_ERR_GENERIC, pd)
         else (OSDP_CP_ERR_NONE, cp_dispatch_event (OSDP_EVENT_KEYPRESS
                 \<lparr>keypress_reader_no = uint (buf ! 0), keypress_length = n,
                  keypress_data = event_array (nat OSDP_EVENT_KEYPRESS_MAX_DATALEN) (bytes_at 2 (nat n) buf)\<rparr>) pd))"

definition decode_raw :: "('w, 'z) osdp_dev_scheme \<Rightarrow> bytes \<Rightarrow> int \<Rightarrow> int \<times> ('w, 'z) osdp_dev_scheme" where
  "decode_raw pd buf len =
     (if len < 4 then (OSDP_CP_ERR_GENERIC, pd)
      else
      let (bits, pos) = bread_u16_le buf 2;
          t = BITS_TO_BYTES bits
      in if int t \<noteq> len - 4 \<or> int t > OSDP_EVENT_CARDREAD_MAX_DATALEN then (OSDP_CP_ERR_GENERIC, pd)
         else (OSDP_CP_ERR_NONE, cp_dispatch_event (OSDP_EVENT_CARDREAD
                 \<lparr>cardread_reader_no = uint (buf ! 0), cardread_format = uint (buf ! 1), cardread_direction = 0,
                  cardread_length = bits,
                  cardread_data = event_array (nat OSDP_EVENT_CARDREAD_MAX_DATALEN) (bytes_at pos t buf)\<rparr>) pd))"

definition decode_piv :: "('w, 'z) osdp_dev_scheme \<Rightarrow> bytes \<Rightarrow> int \<Rightarrow> int \<times> ('w, 'z) osdp_dev_scheme" where
  "decode_piv pd buf len =
     (let (t, ev, pd) = osdp_piv_cp_reply_consume pd buf len
      in if t < 0 then (OSDP_CP_ERR_GENERIC, pd)
         else (OSDP_CP_ERR_NONE,
               case ev of
                 None \<Rightarrow> pd
               | Some ev \<Rightarrow> if t > 0 then osdp_piv_cp_reply_finish (cp_dispatch_event ev pd) else pd))"

definition decode_mfgrep :: "('w, 'z) osdp_dev_scheme \<Rightarrow> bytes \<Rightarrow> int \<Rightarrow> int \<times> ('w, 'z) osdp_dev_scheme" where
  "decode_mfgrep pd buf len =
     (if len < 3 then (OSDP_CP_ERR_GENERIC, pd)
      else
      let (vendor, pos) = bread_u24_le buf 0;
          n = (word_of_int (len - 3) :: u8)
      in if uint n > OSDP_EVENT_MFGREP_MAX_DATALEN then (OSDP_CP_ERR_GENERIC, pd)
         else (OSDP_CP_ERR_NONE, cp_dispatch_event (OSDP_EVENT_MFGREP
                 \<lparr>mfgrep_vendor_code = vendor, mfgrep_length = n,
                  mfgrep_data = event_array (nat OSDP_EVENT_MFGREP_MAX_DATALEN) (bytes_at pos (unat n) buf)\<rparr>) pd))"

definition decode_mfgstat :: "('w, 'z) osdp_dev_scheme \<Rightarrow> bytes \<Rightarrow> int \<Rightarrow> int \<times> ('w, 'z) osdp_dev_scheme" where
  "decode_mfgstat pd buf len =
     (if len > OSDP_EVENT_MFGSTAT_MAX_DATALEN then (OSDP_CP_ERR_GENERIC, pd)
      else
      let s = \<lparr>mfgstat_length = (word_of_int len :: u8),
               mfgstat_data = event_array (nat OSDP_EVENT_MFGSTAT_MAX_DATALEN) (take (nat len) buf)\<rparr>
      in (OSDP_CP_ERR_NONE, cp_dispatch_event
            (if pd_reply_id pd = REPLY_MFGSTATR then OSDP_EVENT_MFGSTATR s else OSDP_EVENT_MFGERRR s) pd))"

definition decode_bioreadr :: "('w, 'z) osdp_dev_scheme \<Rightarrow> bytes \<Rightarrow> int \<Rightarrow> int \<times> ('w, 'z) osdp_dev_scheme" where
  "decode_bioreadr pd buf len =
     (if is_bioreadr_multipart pd
      then let (t, ev, pd) = osdp_bio_cp_reply_consume pd buf len
           in if t < 0 then (OSDP_CP_ERR_GENERIC, pd)
              else (OSDP_CP_ERR_NONE,
                    case ev of
                      None \<Rightarrow> pd
                    | Some e \<Rightarrow> if t > 0 then osdp_bio_cp_reply_finish (cp_dispatch_event (OSDP_EVENT_BIOREADR e) pd)
                                else pd)
      else if len < int REPLY_BIOREADR_DATA_LEN then (OSDP_CP_ERR_GENERIC, pd)
      else
      let (n, pos) = bread_u16_le buf 4
      in if int (unat n) \<noteq> len - int REPLY_BIOREADR_DATA_LEN \<or> unat n > OSDP_EVENT_BIOREADR_MAX_TEMPLATE_LEN
         then (OSDP_CP_ERR_GENERIC, pd)
         else (OSDP_CP_ERR_NONE, cp_dispatch_event (OSDP_EVENT_BIOREADR
                 \<lparr>bioreadr_reader = buf ! 0, bioreadr_status = uint (buf ! 1), bioreadr_type = uint (buf ! 2),
                  bioreadr_quality = buf ! 3, bioreadr_length = n,
                  bioreadr_data = event_array OSDP_EVENT_BIOREADR_MAX_TEMPLATE_LEN (bytes_at pos (unat n) buf)\<rparr>) pd))"

definition decode_ccrypt :: "('w, 'z) osdp_dev_scheme \<Rightarrow> bytes \<Rightarrow> int \<Rightarrow> int \<times> ('w, 'z) osdp_dev_scheme" where
  "decode_ccrypt pd buf len =
     (if sc_is_active pd \<or> pd_cmd_id pd \<noteq> CMD_CHLNG \<or> len \<noteq> 32 then (OSDP_CP_ERR_GENERIC, pd)
      else
      let pd = osdp_compute_session_keys (pd\<lparr>pd_sc := (pd_sc pd)\<lparr>pd_random := bytes_at 8 8 buf,
                  pd_client_uid := take 8 buf, pd_cryptogram := bytes_at 16 16 buf\<rparr>\<rparr>)
      in (if osdp_verify_pd_cryptogram pd \<noteq> 0 then OSDP_CP_ERR_APP else OSDP_CP_ERR_NONE, pd))"

definition decode_rmac_i :: "('w, 'z) osdp_dev_scheme \<Rightarrow> bytes \<Rightarrow> int \<Rightarrow> int \<times> ('w, 'z) osdp_dev_scheme" where
  "decode_rmac_i pd buf len =
     (if sc_is_active pd \<or> pd_cmd_id pd \<noteq> CMD_SCRYPT \<or> len \<noteq> 16 then (OSDP_CP_ERR_GENERIC, pd)
      else (OSDP_CP_ERR_NONE, pd\<lparr>pd_sc := (pd_sc pd)\<lparr>r_mac := take 16 buf\<rparr>\<rparr>))"

definition reply_data ::
  "int \<Rightarrow> ('w, 'z) osdp_dev_scheme \<Rightarrow> bytes \<Rightarrow> int \<Rightarrow> int \<times> ('w, 'z) osdp_dev_scheme" where
  "reply_data r pd buf len =
     (if r = REPLY_ACK
      then if len \<noteq> 0 then (OSDP_CP_ERR_GENERIC, pd) else (OSDP_CP_ERR_NONE, osdp_piv_cp_cmd_acked pd)
      else if r = REPLY_NAK then decode_nak pd buf len
      else if r = REPLY_PDID then decode_pdid pd buf len
      else if r = REPLY_PDCAP then decode_pdcap pd buf len
      else if r = REPLY_OSTATR
      then decode_status OSDP_STATUS_REPORT_OUTPUT OSDP_PD_CAP_OUTPUT_CONTROL pd buf len
      else if r = REPLY_ISTATR
      then decode_status OSDP_STATUS_REPORT_INPUT OSDP_PD_CAP_CONTACT_STATUS_MONITORING pd buf len
      else if r = REPLY_LSTATR
      then if len \<noteq> 2 then (OSDP_CP_ERR_GENERIC, pd) else dispatch_status OSDP_STATUS_REPORT_LOCAL 2 buf pd
      else if r = REPLY_RSTATR
      then decode_status OSDP_STATUS_REPORT_READER OSDP_PD_CAP_READERS pd buf len
      else if r = REPLY_COM
      then if len \<noteq> 5 then (OSDP_CP_ERR_GENERIC, pd)
           else (OSDP_CP_ERR_NONE, pd\<lparr>pd_baud_rate := fst (bread_u32_le buf 1), pd_address := uint (buf ! 0)\<rparr>)
      else if r = REPLY_KEYPAD then decode_keypad pd buf len
      else if r = REPLY_RAW then decode_raw pd buf len
      else if r = REPLY_FMT then (OSDP_CP_ERR_NONE, pd)
      else if r = REPLY_BUSY then (if len \<noteq> 0 then OSDP_CP_ERR_GENERIC else OSDP_CP_ERR_RETRY_CMD, pd)
      else if r \<in> {REPLY_PIVDATAR, REPLY_GENAUTHR, REPLY_CRAUTHR} then decode_piv pd buf len
      else if r = REPLY_MFGREP then decode_mfgrep pd buf len
      else if r = REPLY_MFGSTATR \<or> r = REPLY_MFGERRR then decode_mfgstat pd buf len
      else if r = REPLY_BIOREADR then decode_bioreadr pd buf len
      else if r = REPLY_BIOMATCHR
      then if len \<noteq> 3 then (OSDP_CP_ERR_GENERIC, pd)
           else (OSDP_CP_ERR_NONE, cp_dispatch_event (OSDP_EVENT_BIOMATCHR
                   \<lparr>biomatchr_reader = buf ! 0, biomatchr_status = uint (buf ! 1), biomatchr_score = buf ! 2\<rparr>) pd)
      else if r = REPLY_FTSTAT then osdp_file_cmd_stat_decode pd buf len
      else if r = REPLY_XRD then (OSDP_CP_ERR_NONE, pd)
      else if r = REPLY_CCRYPT then decode_ccrypt pd buf len
      else if r = REPLY_RMAC_I then decode_rmac_i pd buf len
      else (OSDP_CP_ERR_UNKNOWN, pd))"

text \<open>\<open>buf\<close> starts with the reply byte and \<open>len\<close> counts it.\<close>

definition cp_decode_response ::
  "('w, 'z) osdp_dev_scheme \<Rightarrow> bytes \<Rightarrow> int \<Rightarrow> int \<times> ('w, 'z) osdp_dev_scheme" where
  "cp_decode_response pd buf len =
     (let pd = pd\<lparr>pd_reply_id := uint (buf ! 0)\<rparr>
      in reply_data (pd_reply_id pd) pd (drop 1 buf) (len - 1))"

definition cp_process_reply :: "crc16 \<Rightarrow> ('w, 'z) osdp_dev_scheme \<Rightarrow> (int \<times> ('w, 'z) osdp_dev_scheme) option" where
  "cp_process_reply crc pd =
     (let (err, pd) = osdp_phy_check_packet crc pd
      in if err = OSDP_ERR_PKT_WAIT \<or> err = OSDP_ERR_PKT_NO_DATA then Some (OSDP_CP_ERR_NO_DATA, pd)
         else if err = OSDP_ERR_PKT_BUSY then Some (OSDP_CP_ERR_RETRY_CMD, pd\<lparr>pd_reply_id := REPLY_BUSY\<rparr>)
         else if err = OSDP_ERR_PKT_NACK
         then if nak_code pd = OSDP_PD_NAK_SEQ_NUM
              then Some (OSDP_CP_ERR_SEQ_NUM, make_request CP_REQ_LINK_RESET pd)
              else Some (OSDP_CP_ERR_GENERIC,
                    if nak_code pd = OSDP_PD_NAK_SC_COND then make_request CP_REQ_RESTART_SC pd else pd)
         else if err \<noteq> OSDP_ERR_PKT_NONE then Some (OSDP_CP_ERR_GENERIC, pd)
         else
         case osdp_phy_decode_packet pd of
           None \<Rightarrow> None
         | Some (len, off, pd) \<Rightarrow>
             Some (if len \<le> 0 then (OSDP_CP_ERR_GENERIC, pd)
                   else cp_decode_response pd (drop off (packet_bytes pd)) len))"

end
