(* ===== verification/Cp_Phy.thy ===== *)
theory Cp_Phy
  imports Cp_Decode
begin

text \<open>
  The CP's link state machine of src/src/osdp_cp.c: one command on its way to a PD, from the
  build over the wait for the reply to the retries (cp_phy_state_update).

  Where the code stops the process the result is \<open>None\<close>: the \<open>BUG()\<close> macro exits, an integer
  division by zero has no behaviour to go on with, and neither has a decryption that runs over
  the end of the memory.
\<close>

abbreviation (input) OSDP_PD_SC_RETRY_MS :: int where "OSDP_PD_SC_RETRY_MS \<equiv> 600000"
abbreviation (input) OSDP_PD_POLL_TIMEOUT_MS :: int where "OSDP_PD_POLL_TIMEOUT_MS \<equiv> 50"
abbreviation (input) OSDP_RESP_TOUT_MS :: u32 where "OSDP_RESP_TOUT_MS \<equiv> 200"
abbreviation (input) OSDP_CMD_RETRY_WAIT_MS :: u32 where "OSDP_CMD_RETRY_WAIT_MS \<equiv> 800"
abbreviation (input) OSDP_ONLINE_RETRY_WAIT_MAX_MS :: u32 where "OSDP_ONLINE_RETRY_WAIT_MAX_MS \<equiv> 300000"

definition cp_sc_should_retry :: "'z osdp_pd_scheme \<Rightarrow> bool" where
  "cp_sc_should_retry pd \<longleftrightarrow> sc_is_capable pd \<and> \<not> sc_is_active pd \<and>
     osdp_millis_since pd (pd_sc_tstamp pd) > OSDP_PD_SC_RETRY_MS"

text \<open>The wire code of an application command; -1 refuses it, \<open>None\<close> is \<open>BUG()\<close>.\<close>

fun status_report_cmd :: "osdp_status_report_type \<Rightarrow> int" where
  "status_report_cmd OSDP_STATUS_REPORT_INPUT = CMD_ISTAT"
| "status_report_cmd OSDP_STATUS_REPORT_OUTPUT = CMD_OSTAT"
| "status_report_cmd OSDP_STATUS_REPORT_LOCAL = CMD_LSTAT"
| "status_report_cmd OSDP_STATUS_REPORT_READER = CMD_RSTAT"

fun cp_translate_cmd :: "'z osdp_pd_scheme \<Rightarrow> osdp_cmd_u \<Rightarrow> int option" where
  "cp_translate_cmd pd (OSDP_CMD_OUTPUT _) = Some CMD_OUT"
| "cp_translate_cmd pd (OSDP_CMD_LED _) = Some CMD_LED"
| "cp_translate_cmd pd (OSDP_CMD_BUZZER _) = Some CMD_BUZ"
| "cp_translate_cmd pd (OSDP_CMD_TEXT _) = Some CMD_TEXT"
| "cp_translate_cmd pd (OSDP_CMD_TDSET _) = Some CMD_TDSET"
| "cp_translate_cmd pd (OSDP_CMD_COMSET _) = Some CMD_COMSET"
| "cp_translate_cmd pd (OSDP_CMD_MFG _) = Some CMD_MFG"
| "cp_translate_cmd pd (OSDP_CMD_BIOREAD _) = Some CMD_BIOREAD"
| "cp_translate_cmd pd (OSDP_CMD_BIOMATCH _) = Some CMD_BIOMATCH"
| "cp_translate_cmd pd OSDP_CMD_XWR = Some CMD_XWR"
| "cp_translate_cmd pd (OSDP_CMD_STATUS s) = Some (status_report_cmd (status_type s))"
| "cp_translate_cmd pd (OSDP_CMD_KEYSET k) =
     Some (if keyset_type k \<noteq> 1 \<or> \<not> sc_is_active pd then -1 else CMD_KEYSET)"
| "cp_translate_cmd pd _ = None"

subsection \<open>The states of the link\<close>

definition cp_phy_bus_is_busy :: "'z osdp_pd_scheme \<Rightarrow> bool" where
  "cp_phy_bus_is_busy pd \<longleftrightarrow> pd_phy_state pd \<in> {OSDP_CP_PHY_STATE_SEND_CMD,
     OSDP_CP_PHY_STATE_SEND_CMD_WAIT, OSDP_CP_PHY_STATE_REPLY_WAIT}"

definition cp_phy_running :: "'z osdp_pd_scheme \<Rightarrow> bool" where
  "cp_phy_running pd \<longleftrightarrow> cp_phy_bus_is_busy pd \<or>
     pd_phy_state pd = OSDP_CP_PHY_STATE_WAIT \<or> pd_phy_state pd = OSDP_CP_PHY_STATE_RETRY_CMD"

definition cp_phy_kick :: "'z osdp_pd_scheme \<Rightarrow> bool \<times> 'z osdp_pd_scheme" where
  "cp_phy_kick pd =
     (if pd_phy_state pd = OSDP_CP_PHY_STATE_IDLE
      then (True, pd\<lparr>pd_phy_state := OSDP_CP_PHY_STATE_SEND_CMD\<rparr>) else (False, pd))"

definition cp_phy_state_done :: "'z osdp_pd_scheme \<Rightarrow> 'z osdp_pd_scheme" where
  "cp_phy_state_done pd =
     (let pd = (if sc_is_active pd then pd\<lparr>pd_sc_tstamp := osdp_millis_now pd\<rparr> else pd)
      in pd\<lparr>pd_phy_retry_count := 0, pd_phy_state := OSDP_CP_PHY_STATE_DONE\<rparr>)"

definition cp_phy_state_wait :: "u32 \<Rightarrow> 'z osdp_pd_scheme \<Rightarrow> 'z osdp_pd_scheme" where
  "cp_phy_state_wait ms pd = pd\<lparr>pd_wait_ms := ms, pd_phy_tstamp := osdp_millis_now pd,
     pd_phy_state := OSDP_CP_PHY_STATE_WAIT\<rparr>"

text \<open>
  The time a packet takes on the wire: ten bits per byte, in milliseconds, rounded up.  The
  sum is of 64 bits and wraps; the result is cut to 32.  A baud rate of zero divides by zero.
\<close>

definition cp_calculate_transmit_time :: "'z osdp_pd_scheme \<Rightarrow> u32 option" where
  "cp_calculate_transmit_time pd =
     (let baud = uint (pd_baud_rate pd)
      in if baud = 0 then None
         else Some (word_of_int (((int (pd_packet_buf_len pd) * 10000 + baud - 1) mod 2 ^ 64) div baud)))"

definition cp_phy_error :: "'z osdp_pd_scheme \<Rightarrow> int \<times> 'z osdp_pd_scheme" where
  "cp_phy_error pd = (OSDP_CP_ERR_GENERIC, pd\<lparr>pd_phy_state := OSDP_CP_PHY_STATE_ERR\<rparr>)"

text \<open>The state SEND_CMD_WAIT: the finalized bytes go to the channel.\<close>

definition cp_phy_send :: "('w, 'z) osdp_dev_scheme \<Rightarrow> (int \<times> ('w, 'z) osdp_dev_scheme) option" where
  "cp_phy_send pd =
     (let (rc, pd) = osdp_phy_send_packet pd (packet_bytes pd) (pd_packet_buf_len pd)
      in if rc = OSDP_ERR_PKT_WAIT_TX then Some (OSDP_CP_ERR_DEFER, pd)
         else if rc < 0 then Some (cp_phy_error pd)
         else
         let pd = osdp_phy_state_reset False (osdp_metrics_report OSDP_METRIC_COMMAND pd);
             pd = pd\<lparr>pd_reply_id := REPLY_INVALID, pd_phy_state := OSDP_CP_PHY_STATE_REPLY_WAIT,
                     pd_phy_tstamp := osdp_millis_now pd\<rparr>
         in case cp_calculate_transmit_time pd of
              None \<Rightarrow> None
            | Some t \<Rightarrow> Some (OSDP_CP_ERR_INPROG, pd\<lparr>pd_resp_timeout_ms := OSDP_RESP_TOUT_MS + t\<rparr>))"

text \<open>The state SEND_CMD, which falls through to the next.\<close>

definition cp_phy_build_and_send ::
  "crc16 \<Rightarrow> ('w, 'z) osdp_dev_scheme \<Rightarrow> (int \<times> ('w, 'z) osdp_dev_scheme) option" where
  "cp_phy_build_and_send crc pd =
     (let (rc, pd) = cp_build_packet crc pd
      in if rc \<noteq> 0 then Some (cp_phy_error pd)
         else cp_phy_send (pd\<lparr>pd_phy_state := OSDP_CP_PHY_STATE_SEND_CMD_WAIT\<rparr>))"

text \<open>The state RETRY_CMD rewinds the sequence number, so that the command goes out as it did.\<close>

definition cp_phy_rewind :: "'z osdp_pd_scheme \<Rightarrow> 'z osdp_pd_scheme" where
  "cp_phy_rewind pd =
     (let pd = set_channel ((pd_channel pd)\<lparr>ch_flushes := ch_flushes (pd_channel pd) + 1\<rparr>) pd
      in pd\<lparr>pd_seq_number := pd_phy_tx_seq pd - 1, pd_phy_state := OSDP_CP_PHY_STATE_SEND_CMD\<rparr>)"

text \<open>The state REPLY_WAIT.\<close>

definition cp_phy_reply_wait ::
  "crc16 \<Rightarrow> ('w, 'z) osdp_dev_scheme \<Rightarrow> (int \<times> ('w, 'z) osdp_dev_scheme) option" where
  "cp_phy_reply_wait crc pd =
     (case cp_process_reply crc pd of None \<Rightarrow> None | Some (rc, pd) \<Rightarrow> Some (
      let pd = (if rc = OSDP_CP_ERR_NONE \<or> rc = OSDP_CP_ERR_APP
                then osdp_phy_progress_sequence (pd\<lparr>pd_tstamp := osdp_millis_now pd\<rparr>) else pd)
      in if rc = OSDP_CP_ERR_NONE \<or> rc = OSDP_CP_ERR_SEQ_NUM \<or>
            rc = OSDP_CP_ERR_UNKNOWN \<and> pd_cmd_id pd = CMD_POLL \<and> is_ignore_unsolicited_messages pd
         then (OSDP_CP_ERR_NONE, cp_phy_state_done pd)
         else if rc = OSDP_CP_ERR_GENERIC \<or> rc = OSDP_CP_ERR_UNKNOWN \<or> rc = OSDP_CP_ERR_APP
         then cp_phy_error pd
         else if rc = OSDP_CP_ERR_RETRY_CMD
         then if pd_phy_retry_count pd \<ge> OSDP_CMD_MAX_RETRIES
              then (OSDP_CP_ERR_NONE, cp_phy_state_done pd)
              else (OSDP_CP_ERR_DEFER, cp_phy_state_wait OSDP_CMD_RETRY_WAIT_MS
                      (pd\<lparr>pd_phy_retry_count := pd_phy_retry_count pd + 1\<rparr>))
         else if osdp_millis_since pd (pd_phy_tstamp pd) > uint (pd_resp_timeout_ms pd)
         then if pd_phy_retry_count pd < OSDP_CMD_MAX_RETRIES
              then (OSDP_CP_ERR_DEFER, cp_phy_state_wait OSDP_CMD_RETRY_WAIT_MS
                      (pd\<lparr>pd_phy_retry_count := pd_phy_retry_count pd + 1\<rparr>))
              else cp_phy_error pd
         else (OSDP_CP_ERR_INPROG, pd)))"

fun cp_phy_case ::
  "osdp_cp_phy_state_e \<Rightarrow> crc16 \<Rightarrow> ('w, 'z) osdp_dev_scheme \<Rightarrow> (int \<times> ('w, 'z) osdp_dev_scheme) option" where
  "cp_phy_case OSDP_CP_PHY_STATE_DONE crc pd = Some (OSDP_CP_ERR_NONE, pd)"
| "cp_phy_case OSDP_CP_PHY_STATE_IDLE crc pd = Some (OSDP_CP_ERR_NONE, pd)"
| "cp_phy_case OSDP_CP_PHY_STATE_ERR crc pd = Some (OSDP_CP_ERR_GENERIC, pd)"
| "cp_phy_case OSDP_CP_PHY_STATE_WAIT crc pd =
     Some (OSDP_CP_ERR_DEFER,
           if osdp_millis_since pd (pd_phy_tstamp pd) < uint (pd_wait_ms pd) then pd
           else pd\<lparr>pd_phy_state := OSDP_CP_PHY_STATE_RETRY_CMD\<rparr>)"
| "cp_phy_case OSDP_CP_PHY_STATE_RETRY_CMD crc pd = cp_phy_build_and_send crc (cp_phy_rewind pd)"
| "cp_phy_case OSDP_CP_PHY_STATE_SEND_CMD crc pd = cp_phy_build_and_send crc pd"
| "cp_phy_case OSDP_CP_PHY_STATE_SEND_CMD_WAIT crc pd = cp_phy_send pd"
| "cp_phy_case OSDP_CP_PHY_STATE_REPLY_WAIT crc pd = cp_phy_reply_wait crc pd"

definition cp_phy_state_update ::
  "crc16 \<Rightarrow> ('w, 'z) osdp_dev_scheme \<Rightarrow> (int \<times> ('w, 'z) osdp_dev_scheme) option" where
  "cp_phy_state_update crc pd = cp_phy_case (pd_phy_state pd) crc pd"

end
