(* ===== verification/Cp_State.thy ===== *)
theory Cp_State
  imports Cp_Phy
begin

text \<open>
  The CP's protocol state machine of src/src/osdp_cp.c: the choice of the next command, the
  judgement of its reply, the two transition tables with their effects, and one pass of it all
  (state_update).  Transparent mode is compiled out, the default, so the two states that only
  it enters are left out.  \<open>None\<close> is a stopped process, as in the link state machine.
\<close>

subsection \<open>The next command\<close>

definition cp_state_is_online :: "osdp_cp_state_e \<Rightarrow> bool" where
  "cp_state_is_online s \<longleftrightarrow> s = OSDP_CP_STATE_ONLINE"

definition cp_is_online :: "'z osdp_pd_scheme \<Rightarrow> bool" where
  "cp_is_online pd = cp_state_is_online (pd_state pd)"

definition cp_setup_active_cmd ::
  "osdp_cmd \<Rightarrow> ('w, 'z) osdp_dev_scheme \<Rightarrow> (int \<times> ('w, 'z) osdp_dev_scheme) option" where
  "cp_setup_active_cmd cmd pd =
     (case cp_translate_cmd pd (cmd_u cmd) of
        None \<Rightarrow> None
      | Some ret \<Rightarrow>
          let pd = (if cmd_flags cmd AND OSDP_CMD_FLAG_BROADCAST \<noteq> 0 then SET_FLAG PD_FLAG_PKT_BROADCAST pd else pd)
          in Some (ret, if ret < 0
                        then (cp_complete_cmd (Some cmd) OSDP_COMPLETION_FAILED pd)\<lparr>pd_active_cmd := None\<rparr>
                        else pd\<lparr>pd_active_cmd := Some cmd\<rparr>))"

definition cp_get_poll_command :: "'z osdp_pd_scheme \<Rightarrow> int \<times> 'z osdp_pd_scheme" where
  "cp_get_poll_command pd =
     (if osdp_millis_since pd (pd_tstamp pd) > OSDP_PD_POLL_TIMEOUT_MS
      then (CMD_POLL, pd\<lparr>pd_tstamp := osdp_millis_now pd\<rparr>) else (-1, pd))"

text \<open>The feature engines in their order, then the paced poll.\<close>

definition cp_get_engine_command :: "('w, 'z) osdp_dev_scheme \<Rightarrow> int \<times> ('w, 'z) osdp_dev_scheme" where
  "cp_get_engine_command pd =
     (let (ret, pd) = osdp_file_tx_get_command pd
      in if ret \<noteq> 0 then (ret, pd)
         else let (ret, pd) = osdp_piv_cp_get_command pd
              in if ret \<noteq> 0 then (ret, pd)
                 else let (ret, pd) = osdp_bio_cp_get_command pd
                      in if ret \<noteq> 0 then (ret, pd) else cp_get_poll_command pd)"

definition cp_get_online_command ::
  "('w, 'z) osdp_dev_scheme \<Rightarrow> (int \<times> ('w, 'z) osdp_dev_scheme) option" where
  "cp_get_online_command pd =
     (case pd_cmd_queue pd of
        cmd # q \<Rightarrow> cp_setup_active_cmd cmd (pd\<lparr>pd_cmd_queue := q\<rparr>)
      | [] \<Rightarrow> Some (cp_get_engine_command pd))"

fun state_cmd :: "osdp_cp_state_e \<Rightarrow> ('w, 'z) osdp_dev_scheme \<Rightarrow> (int \<times> ('w, 'z) osdp_dev_scheme) option" where
  "state_cmd OSDP_CP_STATE_INIT pd = Some (CMD_ID, pd)"
| "state_cmd OSDP_CP_STATE_CAPDET pd = Some (CMD_CAP, pd)"
| "state_cmd OSDP_CP_STATE_SC_CHLNG pd = Some (CMD_CHLNG, pd)"
| "state_cmd OSDP_CP_STATE_SC_SCRYPT pd = Some (CMD_SCRYPT, pd)"
| "state_cmd OSDP_CP_STATE_SET_SCBK pd = Some (CMD_KEYSET, pd)"
| "state_cmd OSDP_CP_STATE_ONLINE pd = cp_get_online_command pd"
| "state_cmd _ pd = Some (-1, pd)"

definition state_get_cmd :: "('w, 'z) osdp_dev_scheme \<Rightarrow> (int \<times> ('w, 'z) osdp_dev_scheme) option" where
  "state_get_cmd pd = state_cmd (pd_state pd) pd"

subsection \<open>The reply judged\<close>

definition cp_keyset_complete :: "('w, 'z) osdp_dev_scheme \<Rightarrow> ('w, 'z) osdp_dev_scheme" where
  "cp_keyset_complete pd =
     (let pd = (if \<not> sc_use_scbkd pd
                then (case map_option cmd_u (pd_active_cmd pd) of
                        Some (OSDP_CMD_KEYSET k) \<Rightarrow>
                          pd\<lparr>pd_sc := (pd_sc pd)\<lparr>scbk := array_read 16 (keyset_data k)\<rparr>\<rparr>
                      | _ \<Rightarrow> pd)
                else CLEAR_FLAG PD_FLAG_SC_USE_SCBKD pd);
          pd = notify_sc_status (sc_deactivate pd)
      in if cp_is_online pd then make_request CP_REQ_RESTART_SC pd else pd)"

text \<open>The replies an online PD may give to a poll, and those to each other command.\<close>

definition poll_replies :: "int list" where
  "poll_replies = [REPLY_LSTATR, REPLY_ISTATR, REPLY_OSTATR, REPLY_RSTATR, REPLY_MFGREP, REPLY_MFGSTATR,
     REPLY_MFGERRR, REPLY_BIOREADR, REPLY_BIOMATCHR, REPLY_PIVDATAR, REPLY_GENAUTHR, REPLY_CRAUTHR,
     REPLY_RAW, REPLY_KEYPAD, REPLY_XRD]"

definition expected_replies :: "int \<Rightarrow> int list" where
  "expected_replies c =
     (if c = CMD_FILETRANSFER then [REPLY_FTSTAT]
      else if c = CMD_COMSET then [REPLY_COM]
      else if c = CMD_MFG then [REPLY_ACK, REPLY_MFGREP, REPLY_MFGSTATR]
      else if c = CMD_BIOREAD then [REPLY_ACK, REPLY_BIOREADR]
      else if c = CMD_BIOMATCH then [REPLY_ACK, REPLY_BIOMATCHR]
      else if c = CMD_PIVDATA then [REPLY_ACK, REPLY_PIVDATAR]
      else if c = CMD_GENAUTH then [REPLY_ACK, REPLY_GENAUTHR]
      else if c = CMD_CRAUTH then [REPLY_ACK, REPLY_CRAUTHR]
      else if c = CMD_LSTAT then [REPLY_LSTATR]
      else if c = CMD_ISTAT then [REPLY_ISTATR]
      else if c = CMD_OSTAT \<or> c = CMD_OUT then [REPLY_OSTATR]
      else if c = CMD_RSTAT then [REPLY_RSTATR]
      else if c = CMD_XWR then [REPLY_XRD]
      else [])"

definition cp_check_online_response :: "('w, 'z) osdp_dev_scheme \<Rightarrow> bool \<times> ('w, 'z) osdp_dev_scheme" where
  "cp_check_online_response pd =
     (let r = pd_reply_id pd; c = pd_cmd_id pd
      in if r = REPLY_ACK then (True, if c = CMD_KEYSET then cp_keyset_complete pd else pd)
         else if r = REPLY_NAK \<or> r = REPLY_INVALID then (False, pd)
         else if c = CMD_POLL then (r \<in> set poll_replies \<or> is_ignore_unsolicited_messages pd, pd)
         else (r \<in> set (expected_replies c), pd))"

fun state_reply :: "osdp_cp_state_e \<Rightarrow> ('w, 'z) osdp_dev_scheme \<Rightarrow> bool \<times> ('w, 'z) osdp_dev_scheme" where
  "state_reply OSDP_CP_STATE_INIT pd = (pd_reply_id pd = REPLY_PDID, pd)"
| "state_reply OSDP_CP_STATE_CAPDET pd = (pd_reply_id pd = REPLY_PDCAP, pd)"
| "state_reply OSDP_CP_STATE_SC_CHLNG pd = (pd_reply_id pd = REPLY_CCRYPT, pd)"
| "state_reply OSDP_CP_STATE_SC_SCRYPT pd = (pd_reply_id pd = REPLY_RMAC_I, pd)"
| "state_reply OSDP_CP_STATE_SET_SCBK pd = (pd_reply_id pd = REPLY_ACK, pd)"
| "state_reply OSDP_CP_STATE_ONLINE pd = cp_check_online_response pd"
| "state_reply _ pd = (False, pd)"

definition state_check_reply :: "('w, 'z) osdp_dev_scheme \<Rightarrow> bool \<times> ('w, 'z) osdp_dev_scheme" where
  "state_check_reply pd = state_reply (pd_state pd) pd"

subsection \<open>The transition tables\<close>

definition get_next_ok_state :: "'z osdp_pd_scheme \<Rightarrow> osdp_cp_state_e" where
  "get_next_ok_state pd =
     (case pd_state pd of
        OSDP_CP_STATE_INIT \<Rightarrow> OSDP_CP_STATE_CAPDET
      | OSDP_CP_STATE_CAPDET \<Rightarrow>
          if sc_is_capable pd then OSDP_CP_STATE_SC_CHLNG
          else if is_enforce_secure pd then OSDP_CP_STATE_OFFLINE else OSDP_CP_STATE_ONLINE
      | OSDP_CP_STATE_SC_CHLNG \<Rightarrow> OSDP_CP_STATE_SC_SCRYPT
      | OSDP_CP_STATE_SC_SCRYPT \<Rightarrow> if sc_use_scbkd pd then OSDP_CP_STATE_SET_SCBK else OSDP_CP_STATE_ONLINE
      | OSDP_CP_STATE_SET_SCBK \<Rightarrow> OSDP_CP_STATE_SC_CHLNG
      | OSDP_CP_STATE_ONLINE \<Rightarrow> if cp_sc_should_retry pd then OSDP_CP_STATE_SC_CHLNG else OSDP_CP_STATE_ONLINE
      | OSDP_CP_STATE_OFFLINE \<Rightarrow>
          if osdp_millis_since pd (pd_tstamp pd) > uint (pd_wait_ms pd) then OSDP_CP_STATE_INIT
          else OSDP_CP_STATE_OFFLINE
      | OSDP_CP_STATE_DISABLED \<Rightarrow> OSDP_CP_STATE_DISABLED)"

definition get_next_err_state :: "'z osdp_pd_scheme \<Rightarrow> osdp_cp_state_e" where
  "get_next_err_state pd =
     (case pd_state pd of
        OSDP_CP_STATE_INIT \<Rightarrow> OSDP_CP_STATE_OFFLINE
      | OSDP_CP_STATE_CAPDET \<Rightarrow> OSDP_CP_STATE_OFFLINE
      | OSDP_CP_STATE_SC_CHLNG \<Rightarrow>
          if is_enforce_secure pd then OSDP_CP_STATE_OFFLINE
          else if \<not> sc_use_scbkd pd \<and> \<not> sc_was_established pd then OSDP_CP_STATE_SC_CHLNG
          else OSDP_CP_STATE_ONLINE
      | OSDP_CP_STATE_SC_SCRYPT \<Rightarrow> if is_enforce_secure pd then OSDP_CP_STATE_OFFLINE else OSDP_CP_STATE_ONLINE
      | OSDP_CP_STATE_SET_SCBK \<Rightarrow>
          if is_enforce_secure pd \<or> sc_use_scbkd pd then OSDP_CP_STATE_OFFLINE else OSDP_CP_STATE_ONLINE
      | OSDP_CP_STATE_ONLINE \<Rightarrow> OSDP_CP_STATE_OFFLINE
      | OSDP_CP_STATE_OFFLINE \<Rightarrow> OSDP_CP_STATE_OFFLINE
      | OSDP_CP_STATE_DISABLED \<Rightarrow> OSDP_CP_STATE_DISABLED)"

definition get_next_state :: "'z osdp_pd_scheme \<Rightarrow> int \<Rightarrow> osdp_cp_state_e" where
  "get_next_state pd err = (if err = 0 then get_next_ok_state pd else get_next_err_state pd)"

definition cp_transition_effects ::
  "osdp_cp_state_e \<Rightarrow> osdp_cp_state_e \<Rightarrow> int \<Rightarrow> ('w, 'z) osdp_dev_scheme \<Rightarrow> ('w, 'z) osdp_dev_scheme" where
  "cp_transition_effects cur next err pd =
     (if err = 0
      then (case cur of
              OSDP_CP_STATE_CAPDET \<Rightarrow>
                if next = OSDP_CP_STATE_SC_CHLNG then CLEAR_FLAG PD_FLAG_SC_USE_SCBKD pd else pd
            | OSDP_CP_STATE_SC_SCRYPT \<Rightarrow>
                let pd = notify_sc_status (sc_activate pd)
                in if next = OSDP_CP_STATE_SET_SCBK then pd else SET_FLAG PD_FLAG_SC_ESTABLISHED pd
            | OSDP_CP_STATE_SET_SCBK \<Rightarrow> cp_keyset_complete pd
            | _ \<Rightarrow> pd)
      else (case cur of
              OSDP_CP_STATE_SC_CHLNG \<Rightarrow>
                if next = OSDP_CP_STATE_OFFLINE then pd
                else if next = OSDP_CP_STATE_SC_CHLNG then SET_FLAG PD_FLAG_SC_USE_SCBKD pd
                else (CLEAR_FLAG PD_FLAG_SC_USE_SCBKD pd)\<lparr>pd_sc_tstamp := osdp_millis_now pd\<rparr>
            | OSDP_CP_STATE_SET_SCBK \<Rightarrow> notify_sc_status (sc_deactivate pd)
            | _ \<Rightarrow> pd))"

definition osdp_engines_abort :: "('w, 'z) osdp_dev_scheme \<Rightarrow> ('w, 'z) osdp_dev_scheme" where
  "osdp_engines_abort pd = osdp_bio_abort (osdp_piv_abort (osdp_file_tx_abort pd))"

definition drop_session_requests :: "'z osdp_pd_scheme \<Rightarrow> 'z osdp_pd_scheme" where
  "drop_session_requests pd =
     pd\<lparr>pd_request := pd_request pd AND NOT (BIT CP_REQ_RESTART_SC OR BIT CP_REQ_OFFLINE)\<rparr>"

definition cp_state_entry :: "osdp_cp_state_e \<Rightarrow> ('w, 'z) osdp_dev_scheme \<Rightarrow> ('w, 'z) osdp_dev_scheme" where
  "cp_state_entry next pd =
     (case next of
        OSDP_CP_STATE_INIT \<Rightarrow> osdp_phy_state_reset True pd
      | OSDP_CP_STATE_ONLINE \<Rightarrow> CLEAR_FLAG PD_FLAG_TRS_ACTIVE pd
      | OSDP_CP_STATE_OFFLINE \<Rightarrow>
          let pd = drop_session_requests (pd\<lparr>pd_wait_ms := OSDP_ONLINE_RETRY_WAIT_MAX_MS, pd_tstamp := osdp_millis_now pd\<rparr>)
          in osdp_engines_abort (notify_sc_status (sc_deactivate pd))
      | OSDP_CP_STATE_SC_CHLNG \<Rightarrow> osdp_sc_setup (osdp_phy_state_reset True pd)
      | OSDP_CP_STATE_DISABLED \<Rightarrow>
          osdp_phy_state_reset True
            (osdp_engines_abort (notify_sc_status (sc_deactivate (drop_session_requests pd))))
      | _ \<Rightarrow> pd)"

definition cp_state_change :: "osdp_cp_state_e \<Rightarrow> ('w, 'z) osdp_dev_scheme \<Rightarrow> ('w, 'z) osdp_dev_scheme" where
  "cp_state_change next pd =
     (let was_online = cp_state_is_online (pd_state pd); now_online = cp_state_is_online next;
          pd = (cp_state_entry next pd)\<lparr>pd_state := next\<rparr>
      in if was_online \<noteq> now_online then notify_pd_status now_online pd else pd)"

subsection \<open>Failures that are the command's own\<close>

definition cp_cmd_is_app_owned :: "int \<Rightarrow> bool" where
  "cp_cmd_is_app_owned c \<longleftrightarrow> c \<in> {CMD_OUT, CMD_LED, CMD_BUZ, CMD_TEXT, CMD_TDSET, CMD_ISTAT, CMD_OSTAT,
     CMD_LSTAT, CMD_RSTAT, CMD_COMSET, CMD_KEYSET, CMD_MFG, CMD_BIOREAD, CMD_BIOMATCH, CMD_PIVDATA,
     CMD_GENAUTH, CMD_CRAUTH, CMD_FILETRANSFER}"

definition cp_nak_code_is_app_level :: "u8 \<Rightarrow> bool" where
  "cp_nak_code_is_app_level n \<longleftrightarrow> n \<in> {OSDP_PD_NAK_CMD_LEN, OSDP_PD_NAK_CMD_UNKNOWN,
     OSDP_PD_NAK_BIO_TYPE, OSDP_PD_NAK_BIO_FMT, OSDP_PD_NAK_RECORD}"

definition cp_cmd_failure_is_soft :: "'z osdp_pd_scheme \<Rightarrow> bool" where
  "cp_cmd_failure_is_soft pd \<longleftrightarrow>
     cp_is_online pd \<and> pd_phy_state pd = OSDP_CP_PHY_STATE_DONE \<and> cp_cmd_is_app_owned (pd_cmd_id pd) \<and>
     (pd_cmd_id pd = CMD_MFG \<and> pd_reply_id pd = REPLY_MFGERRR \<or>
      pd_reply_id pd = REPLY_BUSY \<or>
      pd_reply_id pd = REPLY_NAK \<and> cp_nak_code_is_app_level (nak_code pd))"

subsection \<open>One pass\<close>

text \<open>The command that ended, settled: the error that picks the transition table.\<close>

definition cp_settle_cmd :: "('w, 'z) osdp_dev_scheme \<Rightarrow> int \<times> ('w, 'z) osdp_dev_scheme" where
  "cp_settle_cmd pd =
     (let (status, pd) = state_check_reply pd;
          pd = (if status \<and> pd_active_cmd pd \<noteq> None \<and> pd_engine_cmd pd = None \<and> osdp_bio_owns_cmd pd (pd_cmd_id pd)
                then cp_own_engine_cmd (pd_active_cmd pd) OSDP_MP_MSG_BIOREAD pd
                else cp_complete_cmd (pd_active_cmd pd)
                       (if status then OSDP_COMPLETION_OK else OSDP_COMPLETION_FAILED) pd);
          pd = pd\<lparr>pd_active_cmd := None\<rparr>
      in if status then (OSDP_CP_ERR_NONE, osdp_phy_state_reset False pd)
         else if cp_cmd_failure_is_soft pd
         then let pd = (if pd_cmd_id pd = CMD_FILETRANSFER then osdp_file_tx_abort pd else pd);
                  pd = (if osdp_piv_owns_cmd pd (pd_cmd_id pd) then osdp_piv_abort pd else pd)
              in (OSDP_CP_ERR_NONE, osdp_phy_state_reset False pd)
         else (OSDP_CP_ERR_GENERIC, osdp_phy_state_reset False pd))"

text \<open>The next state, with what it does to the device before the state is entered.\<close>

definition cp_session_requests ::
  "osdp_cp_state_e \<Rightarrow> ('w, 'z) osdp_dev_scheme \<Rightarrow> osdp_cp_state_e \<times> ('w, 'z) osdp_dev_scheme" where
  "cp_session_requests next pd =
     (let (restart, pd) = check_request CP_REQ_RESTART_SC pd;
          (next, pd) = (if restart then (OSDP_CP_STATE_SC_CHLNG, osdp_phy_state_reset True pd) else (next, pd));
          (offline, pd) = check_request CP_REQ_OFFLINE pd
      in (if offline then OSDP_CP_STATE_OFFLINE else next, pd))"

definition cp_pick_next ::
  "int \<Rightarrow> ('w, 'z) osdp_dev_scheme \<Rightarrow> osdp_cp_state_e \<times> ('w, 'z) osdp_dev_scheme" where
  "cp_pick_next err pd =
     (let (link_reset, pd) = check_request CP_REQ_LINK_RESET pd
      in if link_reset then (OSDP_CP_STATE_OFFLINE, pd)
         else
         let cur = pd_state pd;
             next = get_next_state pd err;
             pd = cp_transition_effects cur next err pd
         in if cur = OSDP_CP_STATE_ONLINE \<or> next = OSDP_CP_STATE_ONLINE
            then cp_session_requests next pd else (next, pd))"

definition cp_finish_pass :: "int \<Rightarrow> ('w, 'z) osdp_dev_scheme \<Rightarrow> ('w, 'z) osdp_dev_scheme" where
  "cp_finish_pass err pd =
     (let cur = pd_state pd;
          (next, pd) = cp_pick_next err pd;
          (disable, pd) = check_request CP_REQ_DISABLE pd;
          next = (if disable then OSDP_CP_STATE_DISABLED else next);
          (enable, pd) = check_request CP_REQ_ENABLE pd;
          next = (if enable then OSDP_CP_STATE_INIT else next)
      in if cur \<noteq> next then cp_state_change next pd else pd)"

definition cp_after_phy :: "('w, 'z) osdp_dev_scheme \<Rightarrow> ('w, 'z) osdp_dev_scheme option" where
  "cp_after_phy pd =
     (case pd_phy_state pd of
        OSDP_CP_PHY_STATE_IDLE \<Rightarrow>
          (case state_get_cmd pd of
             None \<Rightarrow> None
           | Some (c, pd) \<Rightarrow>
               let pd = pd\<lparr>pd_cmd_id := c\<rparr>;
                   (kicked, pd) = (if c > 0 then cp_phy_kick pd else (False, pd))
               in Some (if kicked then pd else cp_finish_pass OSDP_CP_ERR_NONE pd))
      | OSDP_CP_PHY_STATE_ERR \<Rightarrow> (let (_, pd) = cp_settle_cmd pd in Some (cp_finish_pass OSDP_CP_ERR_GENERIC pd))
      | OSDP_CP_PHY_STATE_DONE \<Rightarrow> (let (err, pd) = cp_settle_cmd pd in Some (cp_finish_pass err pd))
      | _ \<Rightarrow> None)"

definition state_update :: "crc16 \<Rightarrow> ('w, 'z) osdp_dev_scheme \<Rightarrow> ('w, 'z) osdp_dev_scheme option" where
  "state_update crc pd =
     (if cp_phy_running pd
      then (case cp_phy_state_update crc pd of
              None \<Rightarrow> None
            | Some (err, pd) \<Rightarrow>
                if err = OSDP_CP_ERR_INPROG \<or> err = OSDP_CP_ERR_DEFER then Some pd else cp_after_phy pd)
      else cp_after_phy pd)"

end
