(* ===== verification/Cp_Api.thy ===== *)
theory Cp_Api
  imports Cp_State
begin

text \<open>
  The CP's context and its exported functions, the last part of src/src/osdp_cp.c: setup,
  the refresh loop over the PDs of a bus, command submission, flush, cancel, the lifecycle
  requests and teardown.

  The PDs of a context share its packet buffers, channel, callbacks and the application's
  state: a PD is loaded with them before one of its operations and what it did to them is
  stored back.  Allocation succeeds; names and packet capture are left out.
\<close>

record 'w cp_context =
  cpx_shared :: osdp
  cpx_app :: 'w
  cpx_cb :: "'w osdp_callbacks"
  cpx_pd :: "'w osdp_dev list"
  cpx_current_pd :: "nat option"
  cpx_running :: bool
  cpx_sealed :: bool
  cpx_tearing_down :: bool

definition NUM_PD :: "'w cp_context \<Rightarrow> nat" where
  "NUM_PD c = length (cpx_pd c)"

definition cp_load :: "nat \<Rightarrow> 'w cp_context \<Rightarrow> 'w osdp_dev" where
  "cp_load i c = (cpx_pd c ! i)\<lparr>pd_ctx := cpx_shared c, pd_tearing_down := cpx_tearing_down c,
     pd_app := cpx_app c, pd_cb := cpx_cb c\<rparr>"

definition cp_store :: "nat \<Rightarrow> 'w osdp_dev \<Rightarrow> 'w cp_context \<Rightarrow> 'w cp_context" where
  "cp_store i pd c = c\<lparr>cpx_shared := pd_ctx pd, cpx_app := pd_app pd, cpx_pd := (cpx_pd c)[i := pd]\<rparr>"

subsection \<open>Submitting commands\<close>

text \<open>\<open>None\<close> is \<open>BUG()\<close>.\<close>

fun cp_cmd_mp_type :: "osdp_cmd_u \<Rightarrow> int option" where
  "cp_cmd_mp_type (OSDP_CMD_PIVDATA _) = Some OSDP_MP_MSG_PIV"
| "cp_cmd_mp_type (OSDP_CMD_GENAUTH _) = Some OSDP_MP_MSG_GENAUTH"
| "cp_cmd_mp_type (OSDP_CMD_CRAUTH _) = Some OSDP_MP_MSG_CRAUTH"
| "cp_cmd_mp_type _ = None"

definition cp_cmd_enqueue :: "osdp_cmd \<Rightarrow> ('w, 'z) osdp_dev_scheme \<Rightarrow> int \<times> ('w, 'z) osdp_dev_scheme" where
  "cp_cmd_enqueue cmd pd = (0, pd\<lparr>pd_cmd_queue := pd_cmd_queue pd @ [cmd]\<rparr>)"

text \<open>Where an admitted command goes: to the engine that runs it, or to the queue.\<close>

definition cp_route_cmd :: "osdp_cmd \<Rightarrow> ('w, 'z) osdp_dev_scheme \<Rightarrow> int \<times> ('w, 'z) osdp_dev_scheme" where
  "cp_route_cmd cmd pd =
     (case cmd_u cmd of
        OSDP_CMD_FILE_TX f \<Rightarrow>
          let (ret, pd) = osdp_file_tx_command pd (file_tx_id f) (file_tx_flags f)
          in (ret, if ret = 0 then cp_own_engine_cmd (Some cmd) OSDP_MP_MSG_FILE_TRANSFER pd else pd)
      | u \<Rightarrow>
          (case cp_cmd_mp_type u of
             Some t \<Rightarrow>
               let (ret, pd) = osdp_piv_cp_submit pd cmd
               in (ret, if ret = 0 then cp_own_engine_cmd (Some cmd) t pd else pd)
           | None \<Rightarrow>
               (case u of
                  OSDP_CMD_KEYSET k \<Rightarrow>
                    if keyset_type k \<noteq> 1 \<or> \<not> sc_is_active pd then (-1, pd) else cp_cmd_enqueue cmd pd
                | OSDP_CMD_XWR \<Rightarrow> (-1, pd)
                | _ \<Rightarrow> cp_cmd_enqueue cmd pd)))"

definition cp_submit_command ::
  "nat \<Rightarrow> osdp_cmd \<Rightarrow> ('w, 'z) osdp_dev_scheme \<Rightarrow> int \<times> ('w, 'z) osdp_dev_scheme" where
  "cp_submit_command num_pd cmd pd =
     (let broadcast = (cmd_flags cmd AND OSDP_CMD_FLAG_BROADCAST \<noteq> 0)
      in if command_completion_callback (pd_cb pd) = None then (-1, pd)
         else if pd_state pd = OSDP_CP_STATE_DISABLED \<or> \<not> cp_is_online pd then (-1, pd)
         else if cmd_flags cmd AND NOT OSDP_CMD_FLAG_BROADCAST \<noteq> 0 then (-1, pd)
         else if broadcast \<and> (num_pd \<noteq> 1 \<or> is_enforce_secure pd) then (-1, pd)
         else if osdp_cmd_reader_no (cmd_u cmd) > uint (num_items (cap_at pd OSDP_PD_CAP_READERS)) then (-1, pd)
         else cp_route_cmd cmd pd)"

definition osdp_cp_submit_command ::
  "int \<Rightarrow> osdp_cmd \<Rightarrow> 'w cp_context \<Rightarrow> int \<times> 'w cp_context" where
  "osdp_cp_submit_command i cmd c =
     (if i < 0 \<or> i \<ge> int (NUM_PD c) \<or> cpx_tearing_down c then (-1, c)
      else let (ret, pd) = cp_submit_command (NUM_PD c) cmd (cp_load (nat i) c)
           in (ret, cp_store (nat i) pd c))"

definition cp_drain_queue ::
  "osdp_completion_status \<Rightarrow> ('w, 'z) osdp_dev_scheme \<Rightarrow> int \<times> ('w, 'z) osdp_dev_scheme" where
  "cp_drain_queue status pd =
     (let drain = pd_cmd_queue pd
      in (int (length drain),
          fold (\<lambda>cmd pd. cp_complete_cmd (Some cmd) status pd) drain (pd\<lparr>pd_cmd_queue := []\<rparr>)))"

definition osdp_cp_flush_commands :: "int \<Rightarrow> 'w cp_context \<Rightarrow> int \<times> 'w cp_context" where
  "osdp_cp_flush_commands i c =
     (if i < 0 \<or> i \<ge> int (NUM_PD c) \<or> cpx_tearing_down c then (-1, c)
      else let (n, pd) = cp_drain_queue OSDP_COMPLETION_FLUSHED (cp_load (nat i) c)
           in (n, cp_store (nat i) pd c))"

definition osdp_cp_cancel :: "int \<Rightarrow> int \<Rightarrow> 'w cp_context \<Rightarrow> int \<times> 'w cp_context" where
  "osdp_cp_cancel i what c =
     (if i < 0 \<or> i \<ge> int (NUM_PD c) \<or> cpx_tearing_down c then (-1, c)
      else
      let pd = cp_load (nat i) c;
          (ret, pd) =
            (if what = OSDP_MP_MSG_FILE_TRANSFER then osdp_file_tx_request_cancel pd
             else if what \<in> {OSDP_MP_MSG_PIV, OSDP_MP_MSG_GENAUTH, OSDP_MP_MSG_CRAUTH}
             then osdp_piv_request_cancel pd what
             else if what = OSDP_MP_MSG_BIOREAD then osdp_bio_request_cancel pd
             else (-1, pd))
      in (ret, cp_store (nat i) pd c))"

subsection \<open>Setup\<close>

text \<open>The flags of the API by bit position, and the flags of the device they become.\<close>

abbreviation (input) OSDP_FLAG_ENFORCE_SECURE :: nat where "OSDP_FLAG_ENFORCE_SECURE \<equiv> 16"
abbreviation (input) OSDP_FLAG_INSTALL_MODE :: nat where "OSDP_FLAG_INSTALL_MODE \<equiv> 17"
abbreviation (input) OSDP_FLAG_IGN_UNSOLICITED :: nat where "OSDP_FLAG_IGN_UNSOLICITED \<equiv> 18"
abbreviation (input) OSDP_FLAG_ENABLE_NOTIFICATION :: nat where "OSDP_FLAG_ENABLE_NOTIFICATION \<equiv> 19"
abbreviation (input) OSDP_FLAG_CAPTURE_PACKETS :: nat where "OSDP_FLAG_CAPTURE_PACKETS \<equiv> 20"
abbreviation (input) OSDP_FLAG_ALLOW_EMPTY_EDB :: nat where "OSDP_FLAG_ALLOW_EMPTY_EDB \<equiv> 21"
abbreviation (input) OSDP_FLAG_BIOREADR_MULTIPART :: nat where "OSDP_FLAG_BIOREADR_MULTIPART \<equiv> 22"

definition api_flag :: "u32 \<Rightarrow> nat \<Rightarrow> bool" where
  "api_flag flags b \<longleftrightarrow> flags AND BIT b \<noteq> 0"

definition set_if :: "bool \<Rightarrow> nat \<Rightarrow> 'z osdp_pd_scheme \<Rightarrow> 'z osdp_pd_scheme" where
  "set_if v f pd = (if v then SET_FLAG f pd else pd)"

definition cp_collect_init_flags :: "u32 \<Rightarrow> 'z osdp_pd_scheme \<Rightarrow> 'z osdp_pd_scheme" where
  "cp_collect_init_flags flags pd =
     (let pd = set_if (api_flag flags OSDP_FLAG_ENFORCE_SECURE) PD_FLAG_ENFORCE_SECURE pd;
          pd = set_if (api_flag flags OSDP_FLAG_INSTALL_MODE) PD_FLAG_INSTALL_MODE pd;
          pd = set_if (api_flag flags OSDP_FLAG_IGN_UNSOLICITED) PD_FLAG_IGNORE_USR pd;
          pd = set_if (api_flag flags OSDP_FLAG_ENABLE_NOTIFICATION) PD_FLAG_ENABLE_NOTIF pd;
          pd = set_if (api_flag flags OSDP_FLAG_CAPTURE_PACKETS) PD_FLAG_CAPTURE_PKT pd;
          pd = set_if (api_flag flags OSDP_FLAG_ALLOW_EMPTY_EDB) PD_FLAG_ALLOW_EMPTY_EDB pd
      in set_if (api_flag flags OSDP_FLAG_BIOREADR_MULTIPART) PD_FLAG_BIOREADR_MP pd)"

definition init_flags_conflict :: "u32 \<Rightarrow> bool" where
  "init_flags_conflict flags \<longleftrightarrow> api_flag flags OSDP_FLAG_ENFORCE_SECURE \<and> api_flag flags OSDP_FLAG_INSTALL_MODE"

record osdp_pd_info =
  info_baud_rate :: u32
  info_address :: int
  info_flags :: u32
  info_id :: osdp_pd_id
  info_cap :: "osdp_pd_cap list"
  info_scbk :: "bytes option"

text \<open>
  One round of the loop of \<open>cp_add_pd\<close>, \<open>skip_mark\<close> being the build option
  \<open>OPT_OSDP_SKIP_MARK_BYTE\<close>; \<open>None\<close> is the jump to \<open>error\<close>.
\<close>

definition cp_setup_pd ::
  "bool \<Rightarrow> nat \<Rightarrow> osdp_pd_info \<Rightarrow> 'w osdp_dev \<Rightarrow> 'w osdp_dev option" where
  "cp_setup_pd skip_mark i info pd =
     (let pd = pd\<lparr>pd_idx := i, pd_packet_buf := TX_BUF, pd_baud_rate := info_baud_rate info,
                  pd_address := info_address info, pd_flags := 0, pd_seq_number := -1\<rparr>;
          pd = cp_collect_init_flags (info_flags info) pd
      in if init_flags_conflict (info_flags info) then None
         else
         let pd = SET_FLAG PD_FLAG_CP_USE_CRC (SET_FLAG PD_FLAG_SC_DISABLED pd);
             pd = pd\<lparr>pd_rx_rb := rb_zero\<rparr>
         in case info_scbk info of
              None \<Rightarrow>
                if is_enforce_secure pd then None
                else Some (set_if skip_mark PD_FLAG_PKT_SKIP_MARK (pd\<lparr>pd_cmd_queue := []\<rparr>))
            | Some key \<Rightarrow>
                let pd = CLEAR_FLAG PD_FLAG_SC_DISABLED (pd\<lparr>pd_sc := (pd_sc pd)\<lparr>scbk := take 16 key\<rparr>\<rparr>)
                in Some (set_if skip_mark PD_FLAG_PKT_SKIP_MARK (pd\<lparr>pd_cmd_queue := []\<rparr>)))"

text \<open>A failure leaves the context as it was.\<close>

fun cp_setup_pds :: "bool \<Rightarrow> nat \<Rightarrow> osdp_pd_info list \<Rightarrow> 'w osdp_dev \<Rightarrow> 'w osdp_dev list option" where
  "cp_setup_pds skip_mark i [] fresh = Some []"
| "cp_setup_pds skip_mark i (info # infos) fresh =
     (case cp_setup_pd skip_mark i info fresh of
        None \<Rightarrow> None
      | Some pd \<Rightarrow> map_option ((#) pd) (cp_setup_pds skip_mark (i + 1) infos fresh))"

definition cp_add_pd :: "bool \<Rightarrow> osdp_pd_info list \<Rightarrow> 'w cp_context \<Rightarrow> int \<times> 'w cp_context" where
  "cp_add_pd skip_mark infos c =
     (case cp_setup_pds skip_mark (NUM_PD c) infos (dev_zero (cpx_cb c) (cpx_app c)) of
        None \<Rightarrow> (-1, c)
      | Some pds \<Rightarrow> (0, c\<lparr>cpx_pd := cpx_pd c @ pds, cpx_current_pd := Some 0\<rparr>))"

definition cp_context_zero :: "osdp_channel \<Rightarrow> 'w \<Rightarrow> 'w cp_context" where
  "cp_context_zero ch w =
     \<lparr>cpx_shared = (pd_ctx (pd_zero True))\<lparr>ctx_channel := ch\<rparr>, cpx_app = w, cpx_cb = no_callbacks,
      cpx_pd = [], cpx_current_pd = None, cpx_running = False, cpx_sealed = False, cpx_tearing_down = False\<rparr>"

definition osdp_cp_setup ::
  "bool \<Rightarrow> osdp_channel \<Rightarrow> osdp_pd_info list \<Rightarrow> 'w \<Rightarrow> 'w cp_context option" where
  "osdp_cp_setup skip_mark ch infos w =
     (let c = cp_context_zero ch w
      in if infos = [] then Some c
         else let (ret, c) = cp_add_pd skip_mark infos c in if ret \<noteq> 0 then None else Some c)"

definition osdp_cp_add_pd :: "bool \<Rightarrow> osdp_pd_info list \<Rightarrow> 'w cp_context \<Rightarrow> int \<times> 'w cp_context" where
  "osdp_cp_add_pd skip_mark infos c =
     (if cpx_tearing_down c \<or> cpx_running c \<or> cpx_sealed c \<or> infos = [] then (-1, c)
      else cp_add_pd skip_mark infos c)"

definition osdp_cp_set_event_callback ::
  "(nat \<Rightarrow> osdp_event \<Rightarrow> 'w \<Rightarrow> int \<times> 'w) option \<Rightarrow> 'w cp_context \<Rightarrow> int \<times> 'w cp_context" where
  "osdp_cp_set_event_callback cb c =
     (if cpx_sealed c then (-1, c) else (0, c\<lparr>cpx_cb := (cpx_cb c)\<lparr>event_callback := cb\<rparr>\<rparr>))"

definition osdp_cp_set_command_completion_callback ::
  "(nat \<Rightarrow> osdp_cmd \<Rightarrow> osdp_completion_status \<Rightarrow> 'w \<Rightarrow> 'w) option \<Rightarrow> 'w cp_context \<Rightarrow> int \<times> 'w cp_context" where
  "osdp_cp_set_command_completion_callback cb c =
     (if cpx_sealed c then (-1, c) else (0, c\<lparr>cpx_cb := (cpx_cb c)\<lparr>command_completion_callback := cb\<rparr>\<rparr>))"

subsection \<open>The refresh loop\<close>

text \<open>The first argument is the rounds left: as many as there are PDs, less \<open>refresh_count\<close>.\<close>

fun cp_refresh_loop :: "nat \<Rightarrow> crc16 \<Rightarrow> nat \<Rightarrow> 'w cp_context \<Rightarrow> 'w cp_context option" where
  "cp_refresh_loop 0 crc i c = Some c"
| "cp_refresh_loop (Suc n) crc i c =
     (case state_update crc (cp_load i c) of
        None \<Rightarrow> None
      | Some pd \<Rightarrow>
          let c = cp_store i pd c
          in if cp_phy_bus_is_busy pd then Some c
             else let next = (if pd_idx pd + 1 \<ge> NUM_PD c then 0 else pd_idx pd + 1)
                  in cp_refresh_loop n crc next (c\<lparr>cpx_current_pd := Some next\<rparr>))"

definition osdp_cp_refresh :: "crc16 \<Rightarrow> 'w cp_context \<Rightarrow> 'w cp_context option" where
  "osdp_cp_refresh crc c =
     (if cpx_tearing_down c \<or> cpx_running c then Some c
      else
      let c = c\<lparr>cpx_sealed := True\<rparr>
      in if NUM_PD c = 0 then Some c
         else
         let i = (case cpx_current_pd c of None \<Rightarrow> 0 | Some i \<Rightarrow> i)
         in cp_refresh_loop (NUM_PD c) crc i (c\<lparr>cpx_current_pd := Some i\<rparr>))"

subsection \<open>Lifecycle, queries and teardown\<close>

definition osdp_cp_get_pd_id :: "int \<Rightarrow> 'w cp_context \<Rightarrow> osdp_pd_id option" where
  "osdp_cp_get_pd_id i c = (if i < 0 \<or> i \<ge> int (NUM_PD c) then None else Some (pd_id (cpx_pd c ! nat i)))"

definition osdp_cp_get_capability :: "int \<Rightarrow> u8 \<Rightarrow> 'w cp_context \<Rightarrow> (u8 \<times> u8) option" where
  "osdp_cp_get_capability i fc c =
     (if i < 0 \<or> i \<ge> int (NUM_PD c) \<or> unat fc = 0 \<or> unat fc \<ge> OSDP_PD_CAP_SENTINEL then None
      else let cap = cap_at (cpx_pd c ! nat i) (unat fc) in Some (compliance_level cap, num_items cap))"

text \<open>The effect of \<open>osdp_cp_modify_flag\<close> on the PD; \<open>None\<close> is the return of -1.\<close>

definition cp_modify_flag :: "u32 \<Rightarrow> bool \<Rightarrow> 'z osdp_pd_scheme \<Rightarrow> 'z osdp_pd_scheme option" where
  "cp_modify_flag flags do_set pd =
     (let all_flags = BIT OSDP_FLAG_ENFORCE_SECURE OR BIT OSDP_FLAG_IGN_UNSOLICITED OR
                      BIT OSDP_FLAG_ENABLE_NOTIFICATION OR BIT OSDP_FLAG_ALLOW_EMPTY_EDB;
          put = (\<lambda>b f pd. if api_flag flags b then SET_FLAG_V f do_set pd else pd)
      in if flags AND NOT all_flags \<noteq> 0 then None
         else if api_flag flags OSDP_FLAG_ENFORCE_SECURE \<and> (\<not> do_set \<or> ISSET_FLAG pd PD_FLAG_SC_DISABLED) then None
         else Some (put OSDP_FLAG_ALLOW_EMPTY_EDB PD_FLAG_ALLOW_EMPTY_EDB
                (put OSDP_FLAG_ENABLE_NOTIFICATION PD_FLAG_ENABLE_NOTIF
                (put OSDP_FLAG_IGN_UNSOLICITED PD_FLAG_IGNORE_USR
                (put OSDP_FLAG_ENFORCE_SECURE PD_FLAG_ENFORCE_SECURE pd)))))"

definition osdp_cp_modify_flag :: "int \<Rightarrow> u32 \<Rightarrow> bool \<Rightarrow> 'w cp_context \<Rightarrow> int \<times> 'w cp_context" where
  "osdp_cp_modify_flag i flags do_set c =
     (if i < 0 \<or> i \<ge> int (NUM_PD c) then (-1, c)
      else case cp_modify_flag flags do_set (cp_load (nat i) c) of
             None \<Rightarrow> (-1, c) | Some pd \<Rightarrow> (0, cp_store (nat i) pd c))"

definition cp_disable_pd :: "'z osdp_pd_scheme \<Rightarrow> int \<times> 'z osdp_pd_scheme" where
  "cp_disable_pd pd =
     (if pd_state pd = OSDP_CP_STATE_DISABLED \<or> test_request pd CP_REQ_DISABLE then (-1, pd)
      else (0, make_request CP_REQ_DISABLE pd))"

definition cp_enable_pd :: "'z osdp_pd_scheme \<Rightarrow> int \<times> 'z osdp_pd_scheme" where
  "cp_enable_pd pd =
     (if pd_state pd \<noteq> OSDP_CP_STATE_DISABLED \<or> test_request pd CP_REQ_ENABLE then (-1, pd)
      else (0, make_request CP_REQ_ENABLE pd))"

definition osdp_cp_disable_pd :: "int \<Rightarrow> 'w cp_context \<Rightarrow> int \<times> 'w cp_context" where
  "osdp_cp_disable_pd i c =
     (if i < 0 \<or> i \<ge> int (NUM_PD c) then (-1, c)
      else let (ret, pd) = cp_disable_pd (cp_load (nat i) c) in (ret, cp_store (nat i) pd c))"

definition osdp_cp_enable_pd :: "int \<Rightarrow> 'w cp_context \<Rightarrow> int \<times> 'w cp_context" where
  "osdp_cp_enable_pd i c =
     (if i < 0 \<or> i \<ge> int (NUM_PD c) then (-1, c)
      else let (ret, pd) = cp_enable_pd (cp_load (nat i) c) in (ret, cp_store (nat i) pd c))"

definition osdp_cp_is_pd_enabled :: "int \<Rightarrow> 'w cp_context \<Rightarrow> bool" where
  "osdp_cp_is_pd_enabled i c \<longleftrightarrow> 0 \<le> i \<and> i < int (NUM_PD c) \<and>
     pd_state (cpx_pd c ! nat i) \<noteq> OSDP_CP_STATE_DISABLED"

text \<open>One bit per PD, bit \<open>i\<close> of the mask being that of PD \<open>i\<close>.\<close>

definition osdp_get_status_mask :: "'w cp_context \<Rightarrow> bool list" where
  "osdp_get_status_mask c = map cp_is_online (cpx_pd c)"

definition osdp_get_sc_status_mask :: "'w cp_context \<Rightarrow> bool list" where
  "osdp_get_sc_status_mask c =
     map (\<lambda>pd. ISSET_FLAG pd PD_FLAG_SC_ACTIVE \<and> \<not> ISSET_FLAG pd PD_FLAG_SC_USE_SCBKD) (cpx_pd c)"

definition cp_teardown_pd :: "('w, 'z) osdp_dev_scheme \<Rightarrow> ('w, 'z) osdp_dev_scheme" where
  "cp_teardown_pd pd =
     (let (_, pd) = cp_drain_queue OSDP_COMPLETION_ABORTED pd;
          pd = (case pd_engine_cmd pd of
                  None \<Rightarrow> pd
                | Some cmd \<Rightarrow> cp_complete_engine_cmd cmd OSDP_COMPLETION_ABORTED (pd\<lparr>pd_engine_cmd := None\<rparr>));
          pd = cp_complete_cmd (pd_active_cmd pd) OSDP_COMPLETION_ABORTED pd
      in pd\<lparr>pd_active_cmd := None, pd_sc := sc_zero,
            pd_file := None, pd_piv := None, pd_bio := None\<rparr>)"

definition osdp_cp_teardown :: "'w cp_context \<Rightarrow> 'w cp_context" where
  "osdp_cp_teardown c =
     (if cpx_tearing_down c then c
      else fold (\<lambda>i c. cp_store i (cp_teardown_pd (cp_load i c)) c) [0..<NUM_PD c] (c\<lparr>cpx_tearing_down := True\<rparr>))"

end
