(* ===== verification/Cp_Frames.thy ===== *)
theory Cp_Frames
  imports Cp_Api
begin

text \<open>
  What the feature engines and the application's callbacks leave alone: everything of the
  device but the engines' contexts, the application's state and the engine's command.  The CP's
  and the PD's state machines rest on it.
\<close>

text \<open>The device without the part the engines work on; requests and link counters are kept apart.\<close>

definition outer :: "('w, 'z) osdp_dev_scheme \<Rightarrow>
    osdp_pd \<times> osdp_cmd list \<times> osdp_cmd option \<times> osdp_event list \<times> osdp_event option \<times> 'w osdp_callbacks \<times> bool" where
  "outer pd = (osdp_pd.truncate (pd\<lparr>pd_request := 0, pd_metrics := metrics_zero\<rparr>), pd_cmd_queue pd, pd_active_cmd pd, pd_event_queue pd,
     pd_active_event pd, pd_cb pd, pd_tearing_down pd)"

lemma outerD:
  assumes "outer x = outer y"
  shows "pd_ctx x = pd_ctx y" "pd_idx x = pd_idx y" "pd_flags x = pd_flags y" "pd_baud_rate x = pd_baud_rate y"
    "pd_address x = pd_address y" "pd_seq_number x = pd_seq_number y" "pd_id x = pd_id y" "pd_cap x = pd_cap y"
    "pd_state x = pd_state y" "pd_phy_state x = pd_phy_state y" "pd_phy_retry_count x = pd_phy_retry_count y"
    "pd_phy_tx_seq x = pd_phy_tx_seq y" "pd_wait_ms x = pd_wait_ms y" "pd_tstamp x = pd_tstamp y"
    "pd_sc_tstamp x = pd_sc_tstamp y" "pd_phy_tstamp x = pd_phy_tstamp y"
    "pd_resp_timeout_ms x = pd_resp_timeout_ms y" "pd_peer_rx_size x = pd_peer_rx_size y" "pd_rx_rb x = pd_rx_rb y"
    "pd_packet_buf x = pd_packet_buf y" "pd_packet_len x = pd_packet_len y" "pd_packet_buf_len x = pd_packet_buf_len y"
    "pd_cmd_id x = pd_cmd_id y" "pd_reply_id x = pd_reply_id y" "pd_pending x = pd_pending y" "pd_sc x = pd_sc y"
    "sc_is_active x = sc_is_active y" "pd_reply_prebuilt x = pd_reply_prebuilt y" "pd_last_tx_len x = pd_last_tx_len y"
    "pd_last_cmd_id x = pd_last_cmd_id y" "pd_packet_scan_skip x = pd_packet_scan_skip y"
    "pd_cmd_queue x = pd_cmd_queue y" "pd_active_cmd x = pd_active_cmd y" "pd_event_queue x = pd_event_queue y"
    "pd_active_event x = pd_active_event y" "pd_cb x = pd_cb y" "pd_tearing_down x = pd_tearing_down y"
  using assms by (simp_all add: outer_def osdp_pd.truncate_def sc_is_active_def ISSET_FLAG_def)

lemma outer_update [simp]:
  "outer (pd\<lparr>pd_app := w\<rparr>) = outer pd" "outer (pd\<lparr>pd_file := f\<rparr>) = outer pd" "outer (pd\<lparr>pd_piv := p\<rparr>) = outer pd"
  "outer (pd\<lparr>pd_bio := b\<rparr>) = outer pd" "outer (pd\<lparr>pd_engine_cmd := c\<rparr>) = outer pd"
  "outer (pd\<lparr>pd_engine_cmd_mp_type := t\<rparr>) = outer pd" "outer (make_request r pd) = outer pd"
  by (simp_all add: outer_def osdp_pd.truncate_def make_request_def)

lemma outer_metrics [simp]: "outer (osdp_metrics_report e pd) = outer pd"
  by (simp add: outer_def osdp_pd.truncate_def osdp_metrics_report_def)

lemma outer_complete [simp]: "outer (cp_complete_cmd c st pd) = outer pd"
  by (auto simp: cp_complete_cmd_def split: option.split)

lemma outer_deliver [simp]: "outer (mp_deliver_notification p pd) = outer pd"
  by (auto simp: mp_deliver_notification_def split: option.split)

lemma outer_notify [simp]: "outer (osdp_mp_pd_notify p pd) = outer pd"
  by (auto simp: osdp_mp_pd_notify_def Let_def cp_complete_engine_cmd_def split: option.split)

lemma outer_notify_all [simp]: "outer (mp_notify_all ps pd) = outer pd"
  by (induction ps arbitrary: pd) simp_all

lemma outer_own [simp]: "outer (cp_own_engine_cmd c t pd) = outer pd"
  by (simp add: cp_own_engine_cmd_def)

subsection \<open>The file engine\<close>

lemma outer_file_done [simp]: "outer (file_transition_done oc pd) = outer pd"
  by (simp add: file_transition_done_def Let_def split: option.split prod.split)

lemma outer_file_build: "outer (snd (snd (osdp_file_cmd_tx_build pd buf n))) = outer pd"
  by (simp add: osdp_file_cmd_tx_build_def Let_def split: option.split prod.split)

lemma outer_file_stat: "outer (snd (osdp_file_cmd_stat_decode pd buf n)) = outer pd"
  by (simp add: osdp_file_cmd_stat_decode_def Let_def split: option.split prod.split)

lemma outer_file_abort [simp]: "outer (osdp_file_tx_abort pd) = outer pd"
  by (simp add: osdp_file_tx_abort_def)

lemma outer_file_get: "outer (snd (osdp_file_tx_get_command pd)) = outer pd"
  by (simp add: osdp_file_tx_get_command_def Let_def split: option.split prod.split osdp_mp_action.split)

lemma outer_file_command: "outer (snd (osdp_file_tx_command pd i fl)) = outer pd"
  by (simp add: osdp_file_tx_command_def Let_def split: option.split prod.split)

lemma outer_file_cancel: "outer (snd (osdp_file_tx_request_cancel pd)) = outer pd"
  by (simp add: osdp_file_tx_request_cancel_def Let_def split: option.split prod.split)

subsection \<open>The smart card engine\<close>

lemma outer_piv_put [simp]: "outer (piv_put p ev pd) = outer pd"
  by (simp add: piv_put_def)

lemma outer_piv_abort [simp]: "outer (osdp_piv_abort pd) = outer pd"
  by (simp add: osdp_piv_abort_def Let_def split: option.split prod.split)

lemma outer_piv_get: "outer (snd (osdp_piv_cp_get_command pd)) = outer pd"
  by (simp add: osdp_piv_cp_get_command_def Let_def split: option.split prod.split)

lemma outer_piv_submit: "outer (snd (osdp_piv_cp_submit pd c)) = outer pd"
  by (simp add: osdp_piv_cp_submit_def Let_def split: option.split prod.split osdp_cmd_u.split)

lemma outer_piv_build: "outer (snd (snd (osdp_piv_cp_cmd_build pd buf n))) = outer pd"
  by (simp add: osdp_piv_cp_cmd_build_def Let_def split: option.split prod.split)

lemma outer_piv_acked [simp]: "outer (osdp_piv_cp_cmd_acked pd) = outer pd"
  by (simp add: osdp_piv_cp_cmd_acked_def Let_def split: option.split prod.split)

lemma outer_piv_consume: "outer (snd (snd (osdp_piv_cp_reply_consume pd buf n))) = outer pd"
  by (simp add: osdp_piv_cp_reply_consume_def Let_def split: option.split prod.split)

lemma outer_piv_finish [simp]: "outer (osdp_piv_cp_reply_finish pd) = outer pd"
  by (simp add: osdp_piv_cp_reply_finish_def Let_def split: option.split prod.split)

lemma outer_piv_cancel: "outer (snd (osdp_piv_request_cancel pd m)) = outer pd"
  by (simp add: osdp_piv_request_cancel_def Let_def split: option.split prod.split)

subsection \<open>The biometric engine\<close>

lemma outer_bio_put [simp]: "outer (bio_put b ev pd) = outer pd"
  by (simp add: bio_put_def)

lemma outer_bio_abort [simp]: "outer (osdp_bio_abort pd) = outer pd"
  by (simp add: osdp_bio_abort_def Let_def split: option.split prod.split)

lemma outer_bio_get: "outer (snd (osdp_bio_cp_get_command pd)) = outer pd"
  by (simp add: osdp_bio_cp_get_command_def Let_def split: option.split prod.split)

lemma outer_bio_open [simp]: "outer (bio_op_open r pd) = outer pd"
  by (simp add: bio_op_open_def Let_def)

lemma outer_bio_cp_consume: "outer (snd (snd (bio_cp_consume buf n pd))) = outer pd"
  by (simp add: bio_cp_consume_def Let_def split: option.split prod.split)

lemma outer_bio_consume: "outer (snd (snd (osdp_bio_cp_reply_consume pd buf n))) = outer pd"
  by (simp add: osdp_bio_cp_reply_consume_def Let_def outer_bio_cp_consume split: option.split prod.split)

lemma outer_bio_finish [simp]: "outer (osdp_bio_cp_reply_finish pd) = outer pd"
  by (simp add: osdp_bio_cp_reply_finish_def Let_def split: option.split prod.split)

lemma outer_bio_cancel: "outer (snd (osdp_bio_request_cancel pd)) = outer pd"
  by (simp add: osdp_bio_request_cancel_def Let_def split: option.split prod.split)

lemma outer_engines_abort [simp]: "outer (osdp_engines_abort pd) = outer pd"
  by (simp add: osdp_engines_abort_def)

subsection \<open>The packet layer\<close>

text \<open>
  What the packet layer leaves alone on the CP's side, and the flags that decide what a secure
  channel is worth.
\<close>

definition sc_keys :: "osdp_secure_channel \<Rightarrow> _" where
  "sc_keys sc = (scbk sc, s_enc sc, s_mac1 sc, s_mac2 sc, cp_random sc, pd_random sc, pd_client_uid sc,
     cp_cryptogram sc, pd_cryptogram sc)"

lemma sc_keysD:
  assumes "sc_keys x = sc_keys y"
  shows "scbk x = scbk y" "s_enc x = s_enc y" "s_mac1 x = s_mac1 y" "s_mac2 x = s_mac2 y"
    "cp_random x = cp_random y" "pd_random x = pd_random y" "pd_client_uid x = pd_client_uid y"
    "cp_cryptogram x = cp_cryptogram y" "pd_cryptogram x = pd_cryptogram y"
  using assms by (simp_all add: sc_keys_def)

lemma sc_keys_mac [simp]: "sc_keys (sc\<lparr>c_mac := m\<rparr>) = sc_keys sc" "sc_keys (sc\<lparr>r_mac := m\<rparr>) = sc_keys sc"
  by (simp_all add: sc_keys_def)

definition phy_rest where
  "phy_rest pd = (osdp_pd.more pd, pd_idx pd, pd_baud_rate pd, pd_address pd, pd_id pd, pd_cap pd, pd_state pd,
     pd_phy_state pd, pd_phy_retry_count pd, pd_wait_ms pd, pd_sc_tstamp pd, pd_phy_tstamp pd,
     pd_resp_timeout_ms pd, pd_request pd, pd_peer_rx_size pd, pd_cmd_id pd, sc_keys (pd_sc pd))"

lemma phy_restD:
  assumes "phy_rest x = phy_rest y"
  shows "osdp_pd.more x = osdp_pd.more y" "pd_idx x = pd_idx y" "pd_baud_rate x = pd_baud_rate y"
    "pd_address x = pd_address y" "pd_id x = pd_id y" "pd_cap x = pd_cap y" "pd_state x = pd_state y"
    "pd_phy_state x = pd_phy_state y" "pd_phy_retry_count x = pd_phy_retry_count y" "pd_wait_ms x = pd_wait_ms y"
    "pd_sc_tstamp x = pd_sc_tstamp y" "pd_phy_tstamp x = pd_phy_tstamp y"
    "pd_resp_timeout_ms x = pd_resp_timeout_ms y" "pd_request x = pd_request y"
    "pd_peer_rx_size x = pd_peer_rx_size y" "pd_cmd_id x = pd_cmd_id y" "sc_keys (pd_sc x) = sc_keys (pd_sc y)"
  using assms by (simp_all add: phy_rest_def)

lemma more_devD:
  fixes x y :: "('w, 'z) osdp_dev_scheme"
  assumes "osdp_pd.more x = osdp_pd.more y"
  shows "pd_app x = pd_app y" "pd_cb x = pd_cb y" "pd_cmd_queue x = pd_cmd_queue y" "pd_active_cmd x = pd_active_cmd y"
    "pd_engine_cmd x = pd_engine_cmd y" "pd_engine_cmd_mp_type x = pd_engine_cmd_mp_type y" "pd_file x = pd_file y"
    "pd_piv x = pd_piv y" "pd_bio x = pd_bio y" "pd_event_queue x = pd_event_queue y"
    "pd_active_event x = pd_active_event y" "pd_tearing_down x = pd_tearing_down y"
  using assms by (cases x; cases y; simp)+

definition sec where
  "sec pd = (is_pd_mode pd, sc_is_active pd, is_enforce_secure pd, sc_was_established pd, sc_use_scbkd pd,
     is_install_mode pd, ISSET_FLAG pd PD_FLAG_SC_DISABLED, is_bioreadr_multipart pd)"

lemma secD:
  assumes "sec x = sec y"
  shows "is_pd_mode x = is_pd_mode y" "is_cp_mode x = is_cp_mode y" "sc_is_active x = sc_is_active y"
    "is_enforce_secure x = is_enforce_secure y" "sc_was_established x = sc_was_established y"
    "sc_use_scbkd x = sc_use_scbkd y" "is_install_mode x = is_install_mode y"
    "ISSET_FLAG x PD_FLAG_SC_DISABLED = ISSET_FLAG y PD_FLAG_SC_DISABLED"
    "is_bioreadr_multipart x = is_bioreadr_multipart y"
  using assms by (simp_all add: sec_def flag_defs)

lemma sec_cong: "pd_flags x = pd_flags y \<Longrightarrow> sec x = sec y"
  by (simp add: sec_def flag_defs ISSET_FLAG_def)

lemma sec_flag [simp]:
  "f \<in> {PD_FLAG_SC_CAPABLE, PD_FLAG_PKT_HAS_MARK, PD_FLAG_PKT_BROADCAST, PD_FLAG_CP_USE_CRC, PD_FLAG_TRS_CAPABLE,
     PD_FLAG_TRS_ACTIVE} \<Longrightarrow> sec (SET_FLAG f pd) = sec pd"
  "f \<in> {PD_FLAG_SC_CAPABLE, PD_FLAG_PKT_HAS_MARK, PD_FLAG_PKT_BROADCAST, PD_FLAG_CP_USE_CRC, PD_FLAG_TRS_CAPABLE,
     PD_FLAG_TRS_ACTIVE} \<Longrightarrow> sec (CLEAR_FLAG f pd) = sec pd"
  by (auto simp: sec_def flag_defs)

lemma sec_flag_v [simp]:
  "f \<in> {PD_FLAG_SC_CAPABLE, PD_FLAG_PKT_HAS_MARK, PD_FLAG_PKT_BROADCAST, PD_FLAG_CP_USE_CRC, PD_FLAG_TRS_CAPABLE,
     PD_FLAG_TRS_ACTIVE} \<Longrightarrow> sec (SET_FLAG_V f v pd) = sec pd"
  by (auto simp: SET_FLAG_V_def)

text \<open>Both views at once.\<close>

definition view where "view pd = (phy_rest pd, sec pd)"

lemma viewI: "phy_rest x = phy_rest y \<Longrightarrow> sec x = sec y \<Longrightarrow> view x = view y"
  by (simp add: view_def)

lemma viewD: "view x = view y \<Longrightarrow> phy_rest x = phy_rest y" "view x = view y \<Longrightarrow> sec x = sec y"
  by (simp_all add: view_def)

lemma sec_update [simp]:
  "sec (pd\<lparr>pd_ctx := c\<rparr>) = sec pd"
  "sec (pd\<lparr>pd_seq_number := n\<rparr>) = sec pd"
  "sec (pd\<lparr>pd_rx_rb := r\<rparr>) = sec pd"
  "sec (pd\<lparr>pd_packet_buf := b\<rparr>) = sec pd"
  "sec (pd\<lparr>pd_packet_len := l\<rparr>) = sec pd"
  "sec (pd\<lparr>pd_packet_buf_len := l\<rparr>) = sec pd"
  "sec (pd\<lparr>pd_packet_scan_skip := s\<rparr>) = sec pd"
  "sec (pd\<lparr>pd_phy_tx_seq := t\<rparr>) = sec pd"
  "sec (pd\<lparr>pd_last_tx_len := u\<rparr>) = sec pd"
  "sec (pd\<lparr>pd_reply_id := i\<rparr>) = sec pd"
  "sec (pd\<lparr>pd_tstamp := ts\<rparr>) = sec pd"
  "sec (pd\<lparr>pd_sc := sc\<rparr>) = sec pd"
  "sec (pd\<lparr>pd_pending := q\<rparr>) = sec pd"
  "sec (pd\<lparr>pd_metrics := m\<rparr>) = sec pd"
  by (rule sec_cong, simp)+

lemma phy_rest_update [simp]:
  "phy_rest (pd\<lparr>pd_ctx := c\<rparr>) = phy_rest pd"
  "phy_rest (pd\<lparr>pd_seq_number := n\<rparr>) = phy_rest pd"
  "phy_rest (pd\<lparr>pd_rx_rb := r\<rparr>) = phy_rest pd"
  "phy_rest (pd\<lparr>pd_packet_buf := b\<rparr>) = phy_rest pd"
  "phy_rest (pd\<lparr>pd_packet_len := l\<rparr>) = phy_rest pd"
  "phy_rest (pd\<lparr>pd_packet_buf_len := l\<rparr>) = phy_rest pd"
  "phy_rest (pd\<lparr>pd_packet_scan_skip := s\<rparr>) = phy_rest pd"
  "phy_rest (pd\<lparr>pd_phy_tx_seq := t\<rparr>) = phy_rest pd"
  "phy_rest (pd\<lparr>pd_last_tx_len := u\<rparr>) = phy_rest pd"
  "phy_rest (pd\<lparr>pd_reply_id := i\<rparr>) = phy_rest pd"
  "phy_rest (pd\<lparr>pd_tstamp := ts\<rparr>) = phy_rest pd"
  "sc_keys sc = sc_keys (pd_sc pd) \<Longrightarrow> phy_rest (pd\<lparr>pd_sc := sc\<rparr>) = phy_rest pd"
  "phy_rest (pd\<lparr>pd_pending := q\<rparr>) = phy_rest pd"
  "phy_rest (pd\<lparr>pd_metrics := m\<rparr>) = phy_rest pd"
  by (simp_all add: phy_rest_def)

lemma view_update [simp]:
  "view (pd\<lparr>pd_ctx := c\<rparr>) = view pd"
  "view (pd\<lparr>pd_seq_number := n\<rparr>) = view pd"
  "view (pd\<lparr>pd_rx_rb := r\<rparr>) = view pd"
  "view (pd\<lparr>pd_packet_buf := b\<rparr>) = view pd"
  "view (pd\<lparr>pd_packet_len := l\<rparr>) = view pd"
  "view (pd\<lparr>pd_packet_buf_len := l\<rparr>) = view pd"
  "view (pd\<lparr>pd_packet_scan_skip := s\<rparr>) = view pd"
  "view (pd\<lparr>pd_phy_tx_seq := t\<rparr>) = view pd"
  "view (pd\<lparr>pd_last_tx_len := u\<rparr>) = view pd"
  "view (pd\<lparr>pd_reply_id := i\<rparr>) = view pd"
  "view (pd\<lparr>pd_tstamp := ts\<rparr>) = view pd"
  "sc_keys sc = sc_keys (pd_sc pd) \<Longrightarrow> view (pd\<lparr>pd_sc := sc\<rparr>) = view pd"
  "view (pd\<lparr>pd_pending := q\<rparr>) = view pd"
  "view (pd\<lparr>pd_metrics := m\<rparr>) = view pd"
  by (simp_all add: view_def)

lemma view_ops [simp]:
  "view (set_channel ch pd) = view pd" "view (osdp_metrics_report e pd) = view pd"
  "view (set_nak_code c pd) = view pd" "view (put_packet_bytes bs pd) = view pd" "view (phy_set_nak c pd) = view pd"
  "view (osdp_compute_mac x d n pd) = view pd" "view (osdp_phy_progress_sequence pd) = view pd"
  by (simp_all add: set_channel_def osdp_metrics_report_def set_nak_code_def put_packet_bytes_def phy_set_nak_def
      osdp_compute_mac_def osdp_phy_progress_sequence_def Let_def split: prod.split)

lemma phy_rest_flag [simp]:
  "phy_rest (SET_FLAG f pd) = phy_rest pd" "phy_rest (CLEAR_FLAG f pd) = phy_rest pd"
  "phy_rest (SET_FLAG_V f v pd) = phy_rest pd"
  by (simp_all add: phy_rest_def SET_FLAG_def CLEAR_FLAG_def SET_FLAG_V_def)

lemma view_flag [simp]:
  "f \<in> {PD_FLAG_SC_CAPABLE, PD_FLAG_PKT_HAS_MARK, PD_FLAG_PKT_BROADCAST, PD_FLAG_CP_USE_CRC, PD_FLAG_TRS_CAPABLE,
     PD_FLAG_TRS_ACTIVE} \<Longrightarrow> view (SET_FLAG f pd) = view pd"
  "f \<in> {PD_FLAG_SC_CAPABLE, PD_FLAG_PKT_HAS_MARK, PD_FLAG_PKT_BROADCAST, PD_FLAG_CP_USE_CRC, PD_FLAG_TRS_CAPABLE,
     PD_FLAG_TRS_ACTIVE} \<Longrightarrow> view (CLEAR_FLAG f pd) = view pd"
  "f \<in> {PD_FLAG_SC_CAPABLE, PD_FLAG_PKT_HAS_MARK, PD_FLAG_PKT_BROADCAST, PD_FLAG_CP_USE_CRC, PD_FLAG_TRS_CAPABLE,
     PD_FLAG_TRS_ACTIVE} \<Longrightarrow> view (SET_FLAG_V f v pd) = view pd"
  by (simp_all add: view_def)

lemma view_outer:
  fixes x y :: "('w, 'z) osdp_dev_scheme"
  assumes "outer x = outer y"
  shows "sec x = sec y" "pd_state x = pd_state y"
  using assms by (auto intro: sec_cong dest: outerD)

lemma view_receive: "view (snd (osdp_channel_receive pd)) = view pd"
  by (simp add: osdp_channel_receive_def Let_def split: prod.split option.split)

lemma view_top_up [simp]: "view (phy_top_up n pd) = view pd"
  by (simp add: phy_top_up_def Let_def split: prod.split)

lemma view_check_header:
  fixes pd :: "'a osdp_pd_scheme"
  shows "view (snd (phy_check_header pd)) = view pd"
proof -
  have f: "view (snd (phy_find_start pd)) = view pd" for pd :: "'a osdp_pd_scheme"
    by (simp add: phy_find_start_def Let_def split: prod.split option.split)
  have v: "view (snd (phy_validate_header pd b n m)) = view pd" for pd :: "'a osdp_pd_scheme" and b n m
    by (simp add: phy_validate_header_def Let_def)
  have r: "view (snd (phy_rescan_packet_buf pd)) = view pd" for pd :: "'a osdp_pd_scheme"
    by (simp add: phy_rescan_packet_buf_def Let_def)
  show ?thesis
    by (simp add: phy_check_header_def Let_def case_prod_beta f v r)
qed

lemma view_collect: "view (snd (phy_collect_packet pd)) = view pd"
  by (simp add: phy_collect_packet_def Let_def)

lemma view_match: "view (snd (phy_match_sequence pd s)) = view pd"
  by (simp add: phy_match_sequence_def)

lemma view_phy_check: "is_cp_mode pd \<Longrightarrow> view (snd (phy_check_packet crc pd buf n)) = view pd"
  by (simp add: phy_check_packet_def Let_def view_match flag_defs split: prod.split)

lemma view_osdp_check: 
  assumes "is_cp_mode pd"
  shows "view (snd (osdp_phy_check_packet crc pd)) = view pd"
proof -
  obtain r1 p1 where e1: "osdp_channel_receive pd = (r1, p1)" by (rule prod.exhaust)
  have v1: "view p1 = view pd" using view_receive [of pd] e1 by simp
  have m1: "is_pd_mode p1 = False"
    using secD(1) [OF viewD(2) [OF v1]] assms by (simp add: flag_defs)
  obtain r2 p2 where e2: "phy_check_header p1 = (r2, p2)" by (rule prod.exhaust)
  have v2: "view p2 = view pd" using view_check_header [of p1] e2 v1 by simp
  define q where "q = (if pd_packet_len p1 = 0 then p2\<lparr>pd_packet_len := nat r2, pd_packet_scan_skip := 0\<rparr> else p1)"
  have vq: "view q = view pd" using v1 v2 by (simp add: q_def)
  obtain r3 p3 where e3: "phy_collect_packet q = (r3, p3)" by (rule prod.exhaust)
  have v3: "view p3 = view pd" using view_collect [of q] e3 vq by simp
  have m3: "is_cp_mode p3" using secD(2) [OF viewD(2) [OF v3]] assms by simp
  have v4: "view (snd (phy_check_packet crc p3 b n)) = view pd" for b n
    using view_phy_check [OF m3] v3 by simp
  show ?thesis
    using v1 v2 v3 v4 e3 unfolding q_def
    by (auto simp: osdp_phy_check_packet_def e1 e2 m1 Let_def split: if_splits)
qed

text \<open>
  Decoding a packet: the only flag it may set is that of the default key, in install mode; and
  what it lets through leaves the session as it was.
\<close>

definition sec_core where
  "sec_core pd = (is_pd_mode pd, is_enforce_secure pd, sc_was_established pd, is_install_mode pd,
     ISSET_FLAG pd PD_FLAG_SC_DISABLED, is_bioreadr_multipart pd)"

lemma sec_core_cong: "sec x = sec y \<Longrightarrow> sec_core x = sec_core y"
  by (simp add: sec_core_def sec_def)

lemma sec_core_ops [simp]:
  "sec_core (sc_deactivate pd) = sec_core pd" "sec_core (SET_FLAG PD_FLAG_SC_USE_SCBKD pd) = sec_core pd"
  "sec_core (CLEAR_FLAG PD_FLAG_SC_USE_SCBKD pd) = sec_core pd" "sec_core (SET_FLAG PD_FLAG_SC_ACTIVE pd) = sec_core pd"
  by (simp_all add: sec_core_def sc_deactivate_def flag_defs Let_def)

lemma phy_rest_deactivate [simp]: "phy_rest (sc_deactivate pd) = phy_rest pd"
  using view_ops(2) [of OSDP_METRIC_SC_FAILURE pd] by (simp add: sc_deactivate_def Let_def view_def)

lemma sc_deactivate_scbkd: "sc_use_scbkd (sc_deactivate pd) = sc_use_scbkd pd"
  by (simp add: sc_deactivate_def flag_defs Let_def)

lemma decode_scb_view:
  assumes "phy_decode_scb pd b len = (r, pd')"
  shows "phy_rest pd' = phy_rest pd" "sec_core pd' = sec_core pd" "sc_is_active pd' = sc_is_active pd"
    "\<not> is_install_mode pd \<Longrightarrow> sec pd' = sec pd"
proof -
  have n: "phy_rest (phy_set_nak c pd) = phy_rest pd" "sec (phy_set_nak c pd) = sec pd" for c
    using view_ops(5) [of c pd] by (simp_all add: view_def)
  have a: "sc_is_active (SET_FLAG PD_FLAG_SC_USE_SCBKD pd) = sc_is_active pd" by (simp add: flag_defs)
  have "pd' = pd \<or> (\<exists>c. pd' = phy_set_nak c pd) \<or> is_install_mode pd \<and> pd' = SET_FLAG PD_FLAG_SC_USE_SCBKD pd"
    using assms by (auto simp: phy_decode_scb_def Let_def split: if_splits)
  then show "phy_rest pd' = phy_rest pd" "sec_core pd' = sec_core pd" "sc_is_active pd' = sc_is_active pd"
    "\<not> is_install_mode pd \<Longrightarrow> sec pd' = sec pd"
    using n by (auto simp: sec_core_cong [OF n(2)] secD(3) [OF n(2)] a)
qed

lemma decode_secure_view:
  assumes "phy_decode_secure pd b data len mo = Some (ret, b', pd')"
  shows "phy_rest pd' = phy_rest pd" "sec_core pd' = sec_core pd" "ret > 0 \<Longrightarrow> sec pd' = sec pd"
    "sc_use_scbkd pd' = sc_use_scbkd pd"
proof -
  define p where "p = osdp_compute_mac (is_pd_mode pd) b mo pd"
  have p: "phy_rest p = phy_rest pd" "sec p = sec pd"
    using view_ops(6) [of "is_pd_mode pd" b mo pd] by (simp_all add: p_def view_def)
  have n: "phy_rest (phy_set_nak c (sc_deactivate p)) = phy_rest pd"
    "sec_core (phy_set_nak c (sc_deactivate p)) = sec_core pd" for c
    using view_ops(5) [of c "sc_deactivate p"] p sec_core_cong [OF p(2)] by (auto simp: view_def dest: sec_core_cong)
  have k: "sc_use_scbkd (phy_set_nak c (sc_deactivate p)) = sc_use_scbkd pd" for c
  proof -
    have "sec (phy_set_nak c (sc_deactivate p)) = sec (sc_deactivate p)"
      using view_ops(5) [of c "sc_deactivate p"] by (simp add: view_def)
    then show ?thesis using secD(6) [OF p(2)] secD(6) by (metis sc_deactivate_scbkd)
  qed
  have "pd' \<in> {p, phy_set_nak OSDP_PD_NAK_SC_COND (sc_deactivate p)} \<and> (ret > 0 \<longrightarrow> pd' = p)"
    using assms unfolding phy_decode_secure_def Let_def p_def [symmetric] by (auto split: if_splits option.splits)
  then show "phy_rest pd' = phy_rest pd" "sec_core pd' = sec_core pd" "ret > 0 \<Longrightarrow> sec pd' = sec pd"
    "sc_use_scbkd pd' = sc_use_scbkd pd"
    using n p sec_core_cong [OF p(2)] k secD(6) [OF p(2)] by auto
qed

lemma decode_packet_view:
  assumes "osdp_phy_decode_packet pd = Some (len, off, pd')"
  shows "phy_rest pd' = phy_rest pd" "sec_core pd' = sec_core pd" "len > 0 \<Longrightarrow> sc_is_active pd' = sc_is_active pd"
    "len > 0 \<Longrightarrow> \<not> is_install_mode pd \<Longrightarrow> sec pd' = sec pd"
    "\<not> is_install_mode pd \<Longrightarrow> sc_use_scbkd pd' = sc_use_scbkd pd"
proof -
  define buf where "buf = packet_bytes pd"
  define b where "b = drop (mark_len pd) buf"
  define n where "n = int (pd_packet_buf_len pd) - int (mark_len pd) - (if has_ctl PKT_CONTROL_CRC b then 2 else 1)"
  obtain r p where s: "phy_decode_scb pd b (n - int PKT_HDR) = (r, p)" by (rule prod.exhaust)
  note sv = decode_scb_view [OF s]
  have "phy_rest pd' = phy_rest pd \<and> sec_core pd' = sec_core pd \<and> (len > 0 \<longrightarrow> sec pd' = sec p) \<and>
    sc_use_scbkd pd' = sc_use_scbkd p"
  proof (cases r)
    case None
    then show ?thesis
      using assms sv unfolding osdp_phy_decode_packet_def Let_def buf_def [symmetric] b_def [symmetric] n_def [symmetric]
      by (simp add: s)
  next
    case (Some q)
    obtain data l act where q: "q = (data, l, act)" by (metis prod_cases3)
    show ?thesis
    proof (cases "phy_decode_secure p b data l (nat (n - 4))")
      case None
      then show ?thesis
        using assms sv unfolding osdp_phy_decode_packet_def Let_def buf_def [symmetric] b_def [symmetric] n_def [symmetric]
        by (auto simp: s Some q split: if_splits)
    next
      case sd: (Some x)
      obtain ret b' p' where x: "x = (ret, b', p')" by (metis prod_cases3)
      note dv = decode_secure_view [OF sd [unfolded x]]
      have v: "phy_rest (put_packet_bytes x p') = phy_rest p'" "sec (put_packet_bytes x p') = sec p'" for x
        using view_ops(4) [of x p'] by (simp_all add: view_def)
      show ?thesis
        using assms sv dv v sec_core_cong [OF v(2)] secD(6) [OF v(2)]
        unfolding osdp_phy_decode_packet_def Let_def buf_def [symmetric] b_def [symmetric] n_def [symmetric]
        by (auto simp: s Some q sd x split: if_splits)
    qed
  qed
  then show "phy_rest pd' = phy_rest pd" "sec_core pd' = sec_core pd" "len > 0 \<Longrightarrow> sc_is_active pd' = sc_is_active pd"
    "len > 0 \<Longrightarrow> \<not> is_install_mode pd \<Longrightarrow> sec pd' = sec pd"
    "\<not> is_install_mode pd \<Longrightarrow> sc_use_scbkd pd' = sc_use_scbkd pd"
    using sv by (auto dest: secD)
qed

subsection \<open>The CP's codecs\<close>

text \<open>What building a command and decoding a reply leave alone.\<close>

definition cpv :: "('w, 'z) osdp_dev_scheme \<Rightarrow> _" where
  "cpv pd = (sec pd, pd_state pd, pd_phy_state pd, pd_phy_retry_count pd, pd_active_cmd pd, pd_cmd_queue pd,
     pd_cb pd, pd_cmd_id pd, pd_idx pd, pd_wait_ms pd, pd_phy_tstamp pd, pd_resp_timeout_ms pd)"

lemma cpvD:
  assumes "cpv x = cpv y"
  shows "sec x = sec y" "pd_state x = pd_state y" "pd_phy_state x = pd_phy_state y"
    "pd_phy_retry_count x = pd_phy_retry_count y" "pd_active_cmd x = pd_active_cmd y"
    "pd_cmd_queue x = pd_cmd_queue y" "pd_cb x = pd_cb y" "pd_cmd_id x = pd_cmd_id y" "pd_idx x = pd_idx y"
    "pd_wait_ms x = pd_wait_ms y" "pd_phy_tstamp x = pd_phy_tstamp y" "pd_resp_timeout_ms x = pd_resp_timeout_ms y"
  using assms by (simp_all add: cpv_def)

lemma cpv_outer:
  fixes x y :: "('w, 'z) osdp_dev_scheme"
  shows "outer x = outer y \<Longrightarrow> cpv x = cpv y"
  using view_outer [of x y] outerD [of x y] by (simp add: cpv_def)

lemma cpv_rest:
  fixes x y :: "('w, 'z) osdp_dev_scheme"
  shows "phy_rest x = phy_rest y \<Longrightarrow> sec x = sec y \<Longrightarrow> cpv x = cpv y"
  using phy_restD [of x y] more_devD [of x y] by (simp add: cpv_def)

lemma cpv_view:
  fixes x y :: "('w, 'z) osdp_dev_scheme"
  shows "view x = view y \<Longrightarrow> cpv x = cpv y"
  by (rule cpv_rest) (simp_all add: view_def)

lemma sec_update2 [simp]:
  "sec (pd\<lparr>pd_baud_rate := x1\<rparr>) = sec pd" "sec (pd\<lparr>pd_address := x2\<rparr>) = sec pd" "sec (pd\<lparr>pd_id := x3\<rparr>) = sec pd"
  "sec (pd\<lparr>pd_cap := x4\<rparr>) = sec pd" "sec (pd\<lparr>pd_peer_rx_size := x5\<rparr>) = sec pd" "sec (pd\<lparr>pd_request := x6\<rparr>) = sec pd"
  "sec (pd\<lparr>pd_phy_retry_count := x7\<rparr>) = sec pd" "sec (pd\<lparr>pd_wait_ms := x8\<rparr>) = sec pd"
  "sec (pd\<lparr>pd_phy_tstamp := x9\<rparr>) = sec pd" "sec (pd\<lparr>pd_phy_state := x10\<rparr>) = sec pd"
  "sec (pd\<lparr>pd_resp_timeout_ms := x11\<rparr>) = sec pd" "sec (pd\<lparr>pd_state := x12\<rparr>) = sec pd"
  "sec (pd\<lparr>pd_sc_tstamp := x13\<rparr>) = sec pd" "sec (pd\<lparr>pd_cmd_id := x14\<rparr>) = sec pd"
  by (rule sec_cong, simp)+

lemma sec_dev [simp]:
  fixes pd :: "('w, 'z) osdp_dev_scheme"
  shows "sec (pd\<lparr>pd_app := w\<rparr>) = sec pd" "sec (pd\<lparr>pd_cmd_queue := q\<rparr>) = sec pd" "sec (pd\<lparr>pd_active_cmd := c\<rparr>) = sec pd"
  by (rule sec_cong, simp)+

lemma cpv_update [simp]:
  fixes pd :: "('w, 'z) osdp_dev_scheme"
  shows "cpv (pd\<lparr>pd_baud_rate := x1\<rparr>) = cpv pd" "cpv (pd\<lparr>pd_address := x2\<rparr>) = cpv pd" "cpv (pd\<lparr>pd_id := x3\<rparr>) = cpv pd"
    "cpv (pd\<lparr>pd_cap := x4\<rparr>) = cpv pd" "cpv (pd\<lparr>pd_peer_rx_size := x5\<rparr>) = cpv pd" "cpv (pd\<lparr>pd_request := x6\<rparr>) = cpv pd"
    "cpv (pd\<lparr>pd_app := x7\<rparr>) = cpv pd" "cpv (pd\<lparr>pd_reply_id := x8\<rparr>) = cpv pd" "cpv (pd\<lparr>pd_sc := x9\<rparr>) = cpv pd"
    "cpv (pd\<lparr>pd_tstamp := x10\<rparr>) = cpv pd" "cpv (pd\<lparr>pd_packet_buf_len := x11\<rparr>) = cpv pd"
    "cpv (pd\<lparr>pd_packet_buf := x12\<rparr>) = cpv pd" "cpv (pd\<lparr>pd_sc_tstamp := x13\<rparr>) = cpv pd"
    "cpv (pd\<lparr>pd_seq_number := x14\<rparr>) = cpv pd"
  by (simp_all add: cpv_def)

lemma cpv_flag [simp]:
  fixes pd :: "('w, 'z) osdp_dev_scheme"
  shows "f \<in> {PD_FLAG_SC_CAPABLE, PD_FLAG_PKT_HAS_MARK, PD_FLAG_PKT_BROADCAST, PD_FLAG_CP_USE_CRC, PD_FLAG_TRS_CAPABLE,
     PD_FLAG_TRS_ACTIVE} \<Longrightarrow> cpv (CLEAR_FLAG f pd) = cpv pd"
  "f \<in> {PD_FLAG_SC_CAPABLE, PD_FLAG_PKT_HAS_MARK, PD_FLAG_PKT_BROADCAST, PD_FLAG_CP_USE_CRC, PD_FLAG_TRS_CAPABLE,
     PD_FLAG_TRS_ACTIVE} \<Longrightarrow> cpv (SET_FLAG f pd) = cpv pd"
  "f \<in> {PD_FLAG_SC_CAPABLE, PD_FLAG_PKT_HAS_MARK, PD_FLAG_PKT_BROADCAST, PD_FLAG_CP_USE_CRC, PD_FLAG_TRS_CAPABLE,
     PD_FLAG_TRS_ACTIVE} \<Longrightarrow> cpv (SET_FLAG_V f v pd) = cpv pd"
  by (rule cpv_view, simp)+

lemma cpv_ops [simp]:
  fixes pd :: "('w, 'z) osdp_dev_scheme"
  shows "cpv (osdp_metrics_report e pd) = cpv pd" "cpv (set_nak_code n pd) = cpv pd" "cpv (make_request r pd) = cpv pd"
    "cpv (put_packet_bytes bs pd) = cpv pd" "cpv (set_channel ch pd) = cpv pd"
    "cpv (osdp_phy_progress_sequence pd) = cpv pd"
  by (rule cpv_view, simp)+ (simp_all add: make_request_def, (rule cpv_view, simp)+)

lemma cpv_keys [simp]:
  fixes pd :: "('w, 'z) osdp_dev_scheme"
  shows "cpv (osdp_compute_session_keys pd) = cpv pd" "cpv (osdp_compute_cp_cryptogram pd) = cpv pd"
  by (simp_all add: osdp_compute_session_keys_def osdp_compute_cp_cryptogram_def Let_def split: prod.split)

lemma cpv_dispatch [simp]: "cpv (cp_dispatch_event ev pd) = cpv pd"
  by (simp add: cp_dispatch_event_def split: option.split)

lemma cpv_notify [simp]:
  "cpv (cp_notify n pd) = cpv pd" "cpv (notify_pd_id pd) = cpv pd" "cpv (notify_sc_status pd) = cpv pd"
  "cpv (notify_pd_status b pd) = cpv pd"
  by (simp_all add: cp_notify_def notify_pd_id_def notify_sc_status_def notify_pd_status_def)

lemma cpv_engine [simp]:
  "cpv (osdp_file_tx_abort pd) = cpv pd" "cpv (osdp_piv_abort pd) = cpv pd" "cpv (osdp_bio_abort pd) = cpv pd"
  "cpv (osdp_engines_abort pd) = cpv pd" "cpv (cp_complete_cmd c st pd) = cpv pd" "cpv (cp_own_engine_cmd c t pd) = cpv pd"
  "cpv (osdp_piv_cp_cmd_acked pd) = cpv pd" "cpv (osdp_piv_cp_reply_finish pd) = cpv pd"
  "cpv (osdp_bio_cp_reply_finish pd) = cpv pd" "cpv (snd (osdp_file_cmd_stat_decode pd buf n)) = cpv pd"
  by (rule cpv_outer, simp add: outer_file_stat)+

lemma cpv_piv_consume: "osdp_piv_cp_reply_consume pd buf n = (t, ev, pd') \<Longrightarrow> cpv pd' = cpv pd"
  using outer_piv_consume [of pd buf n] by (intro cpv_outer) simp

lemma cpv_bio_consume: "osdp_bio_cp_reply_consume pd buf n = (t, ev, pd') \<Longrightarrow> cpv pd' = cpv pd"
  using outer_bio_consume [of pd buf n] by (intro cpv_outer) simp

lemma cpv_decode_piv: "cpv (snd (decode_piv pd buf n)) = cpv pd"
  using cpv_piv_consume [of pd buf n]
  by (cases "osdp_piv_cp_reply_consume pd buf n") (simp add: decode_piv_def split: option.split)

lemma cpv_decode_bioreadr: "cpv (snd (decode_bioreadr pd buf n)) = cpv pd"
  using cpv_bio_consume [of pd buf n]
  by (cases "osdp_bio_cp_reply_consume pd buf n") (simp add: decode_bioreadr_def split: option.split prod.split)

lemma cpv_decode_small:
  "cpv (snd (decode_nak pd buf n)) = cpv pd" "cpv (snd (decode_pdid pd buf n)) = cpv pd"
  "cpv (snd (decode_pdcap pd buf n)) = cpv pd" "cpv (snd (decode_status t c pd buf n)) = cpv pd"
  "cpv (snd (decode_keypad pd buf n)) = cpv pd" "cpv (snd (decode_raw pd buf n)) = cpv pd"
  "cpv (snd (decode_mfgrep pd buf n)) = cpv pd" "cpv (snd (decode_mfgstat pd buf n)) = cpv pd"
  "cpv (snd (decode_ccrypt pd buf n)) = cpv pd" "cpv (snd (decode_rmac_i pd buf n)) = cpv pd"
  "cpv (snd (dispatch_status t i buf pd)) = cpv pd"
  by (simp_all add: decode_nak_def decode_pdid_def decode_pdcap_def decode_status_def dispatch_status_def
      decode_keypad_def decode_raw_def decode_mfgrep_def decode_mfgstat_def decode_ccrypt_def decode_rmac_i_def
      Let_def split: prod.split)

lemma cpv_reply_data: "cpv (snd (reply_data r pd buf n)) = cpv pd"
  unfolding reply_data_def by (simp add: cpv_decode_small cpv_decode_piv cpv_decode_bioreadr)

lemma cpv_decode_response: "cpv (snd (cp_decode_response pd buf n)) = cpv pd"
  by (simp add: cp_decode_response_def Let_def cpv_reply_data)

text \<open>The same without the session flags, which a bad packet may change.\<close>

definition cpw :: "('w, 'z) osdp_dev_scheme \<Rightarrow> _" where
  "cpw pd = (sec_core pd, pd_state pd, pd_phy_state pd, pd_phy_retry_count pd, pd_active_cmd pd, pd_cmd_queue pd,
     pd_cb pd, pd_cmd_id pd, pd_idx pd, pd_wait_ms pd, pd_phy_tstamp pd, pd_resp_timeout_ms pd)"

lemma cpwD:
  assumes "cpw x = cpw y"
  shows "sec_core x = sec_core y" "pd_state x = pd_state y" "pd_phy_state x = pd_phy_state y"
    "pd_phy_retry_count x = pd_phy_retry_count y" "pd_active_cmd x = pd_active_cmd y"
    "pd_cmd_queue x = pd_cmd_queue y" "pd_cb x = pd_cb y" "pd_cmd_id x = pd_cmd_id y" "pd_idx x = pd_idx y"
    "pd_wait_ms x = pd_wait_ms y" "pd_phy_tstamp x = pd_phy_tstamp y" "pd_resp_timeout_ms x = pd_resp_timeout_ms y"
  using assms by (simp_all add: cpw_def)

lemma sec_coreD:
  assumes "sec_core x = sec_core y"
  shows "is_pd_mode x = is_pd_mode y" "is_cp_mode x = is_cp_mode y" "is_enforce_secure x = is_enforce_secure y"
    "sc_was_established x = sc_was_established y" "is_install_mode x = is_install_mode y"
    "ISSET_FLAG x PD_FLAG_SC_DISABLED = ISSET_FLAG y PD_FLAG_SC_DISABLED"
    "is_bioreadr_multipart x = is_bioreadr_multipart y"
  using assms by (simp_all add: sec_core_def flag_defs)

lemma cpw_cpv:
  fixes x y :: "('w, 'z) osdp_dev_scheme"
  shows "cpv x = cpv y \<Longrightarrow> cpw x = cpw y"
  using cpvD [of x y] sec_core_cong [of x y] by (simp add: cpw_def)

lemma cpw_rest:
  fixes x y :: "('w, 'z) osdp_dev_scheme"
  shows "phy_rest x = phy_rest y \<Longrightarrow> sec_core x = sec_core y \<Longrightarrow> cpw x = cpw y"
  using phy_restD [of x y] more_devD [of x y] by (simp add: cpw_def)

lemma process_reply_view:
  fixes pd :: "('w, 'z) osdp_dev_scheme"
  assumes cp: "is_cp_mode pd" and r: "cp_process_reply crc pd = Some (rc, pd')"
  shows "cpw pd' = cpw pd" "\<not> is_install_mode pd \<Longrightarrow> sc_use_scbkd pd' = sc_use_scbkd pd"
    "rc \<noteq> OSDP_CP_ERR_GENERIC \<Longrightarrow> sc_is_active pd' = sc_is_active pd"
    "rc \<noteq> OSDP_CP_ERR_GENERIC \<Longrightarrow> \<not> is_install_mode pd \<Longrightarrow> sec pd' = sec pd"
proof -
  obtain err p1 where e1: "osdp_phy_check_packet crc pd = (err, p1)" by (rule prod.exhaust)
  have v1: "cpv p1 = cpv pd" using view_osdp_check [OF cp, of crc] e1 by (intro cpv_view) simp
  have s1: "sec p1 = sec pd" by (rule cpvD(1) [OF v1])
  have "cpw pd' = cpw pd \<and> (\<not> is_install_mode pd \<longrightarrow> sc_use_scbkd pd' = sc_use_scbkd pd) \<and>
      (rc \<noteq> OSDP_CP_ERR_GENERIC \<longrightarrow> sc_is_active pd' = sc_is_active pd) \<and>
      (rc \<noteq> OSDP_CP_ERR_GENERIC \<longrightarrow> \<not> is_install_mode pd \<longrightarrow> sec pd' = sec pd)"
  proof (cases "err = OSDP_ERR_PKT_NONE")
    case False
    have "cpv (p1\<lparr>pd_reply_id := i\<rparr>) = cpv p1" "cpv (make_request q p1) = cpv p1" for i q by simp_all
    then have "cpv pd' = cpv p1" using r False unfolding cp_process_reply_def e1 prod.case by (auto split: if_splits)
    then have v: "cpv pd' = cpv pd" by (simp add: v1)
    show "cpw pd' = cpw pd \<and> (\<not> is_install_mode pd \<longrightarrow> sc_use_scbkd pd' = sc_use_scbkd pd) \<and> (rc \<noteq> OSDP_CP_ERR_GENERIC \<longrightarrow> sc_is_active pd' = sc_is_active pd) \<and>
      (rc \<noteq> OSDP_CP_ERR_GENERIC \<longrightarrow> \<not> is_install_mode pd \<longrightarrow> sec pd' = sec pd)"
      using cpw_cpv [OF v] cpvD(1) [OF v] secD(3,6) [OF cpvD(1) [OF v]] by simp
  next
    case True
    obtain len off p2 where e2: "osdp_phy_decode_packet p1 = Some (len, off, p2)"
      using r \<open>err = _\<close> unfolding cp_process_reply_def e1 prod.case by (auto split: option.splits)
    note d = decode_packet_view [OF e2]
    have w2: "cpw p2 = cpw pd" using cpw_rest [OF d(1,2)] cpw_cpv [OF v1] by simp
    have v3: "cpv (snd (cp_decode_response p2 bs len)) = cpv p2" for bs by (rule cpv_decode_response)
    have act: "len > 0 \<Longrightarrow> sc_is_active p2 = sc_is_active pd" using d(3) secD(3) [OF s1] by simp
    have kd: "\<not> is_install_mode pd \<Longrightarrow> sc_use_scbkd p2 = sc_use_scbkd pd"
      using d(5) secD(6,7) [OF s1] by simp
    have sc: "len > 0 \<Longrightarrow> \<not> is_install_mode pd \<Longrightarrow> sec p2 = sec pd" using d(4) s1 secD(7) [OF s1] by simp
    show "cpw pd' = cpw pd \<and> (\<not> is_install_mode pd \<longrightarrow> sc_use_scbkd pd' = sc_use_scbkd pd) \<and> (rc \<noteq> OSDP_CP_ERR_GENERIC \<longrightarrow> sc_is_active pd' = sc_is_active pd) \<and>
      (rc \<noteq> OSDP_CP_ERR_GENERIC \<longrightarrow> \<not> is_install_mode pd \<longrightarrow> sec pd' = sec pd)"
    proof (cases "len \<le> 0")
      case True
      then show ?thesis using r w2 kd \<open>err = _\<close> unfolding cp_process_reply_def e1 prod.case by (auto simp: e2)
    next
      case False
      then have "pd' = snd (cp_decode_response p2 (drop off (packet_bytes p2)) len)"
        using r \<open>err = _\<close> unfolding cp_process_reply_def e1 prod.case by (simp add: e2)
      then have v: "cpv pd' = cpv p2" using v3 by simp
      show ?thesis
        using cpw_cpv [OF v] w2 secD(3,6) [OF cpvD(1) [OF v]] cpvD(1) [OF v] act sc kd False by simp
    qed
  qed
  then show "cpw pd' = cpw pd" "\<not> is_install_mode pd \<Longrightarrow> sc_use_scbkd pd' = sc_use_scbkd pd"
    "rc \<noteq> OSDP_CP_ERR_GENERIC \<Longrightarrow> sc_is_active pd' = sc_is_active pd"
    "rc \<noteq> OSDP_CP_ERR_GENERIC \<Longrightarrow> \<not> is_install_mode pd \<Longrightarrow> sec pd' = sec pd" by simp_all
qed

lemma sec_packet_init:
  assumes "osdp_phy_packet_init pd buf n = (ret, b, pd')"
  shows "view pd' = view pd"
proof -
  have "view (snd (snd (osdp_phy_packet_init pd buf n))) = view pd"
    by (simp add: osdp_phy_packet_init_def Let_def case_prod_beta)
  then show ?thesis by (simp add: assms)
qed

lemma view_finalize:
  "osdp_phy_finalize_packet crc pd buf len n = (ret, b, pd') \<Longrightarrow> view pd' = view pd"
  by (auto simp: osdp_phy_finalize_packet_def phy_finalize_secure_def Let_def split: if_splits prod.splits)

lemma cpv_engine_put:
  "put_engine_command r off buf = (ret, b, pd') \<Longrightarrow> pd' = snd (snd r)"
  by (auto simp: put_engine_command_def Let_def split: if_splits prod.splits)

lemma cpv_piv_build: "cpv (snd (snd (osdp_piv_cp_cmd_build pd buf n))) = cpv pd"
  by (rule cpv_outer) (rule outer_piv_build)

lemma cpv_file_build: "cpv (snd (snd (osdp_file_cmd_tx_build pd buf n))) = cpv pd"
  by (rule cpv_outer) (rule outer_file_build)

lemma cpv_body:
  "cpv (snd (snd (cp_command_body pd cmd smb off buf room))) = cpv pd"
proof -
  have p: "cpv (snd (snd (put_engine_command r o' b))) = cpv (snd (snd r))" for r :: "int \<times> bytes \<times> ('a, 'b) osdp_dev_scheme" and o' b
    by (simp add: put_engine_command_def Let_def split: prod.split)
  show ?thesis
    by (simp add: cp_command_body_def Let_def case_prod_beta p cpv_piv_build cpv_file_build split: option.split)
qed

lemma cpv_build_command: "cpv (snd (snd (cp_build_command pd cmd buf n))) = cpv pd"
proof -
  have "cpv (snd (snd (case cp_command_body pd cmd smb off b r of (len, buf, pd) \<Rightarrow>
      if len < 0 then (len, buf, pd) else (len, put_session_block len smb pd buf, pd)))) = cpv pd" for smb off b r
    using cpv_body [of pd cmd smb off b r] by (simp add: case_prod_beta)
  then show ?thesis by (simp add: cp_build_command_def Let_def)
qed

lemma cpv_build_packet: "cpv (snd (cp_build_packet crc pd)) = cpv pd"
proof -
  define p0 where "p0 = pd\<lparr>pd_packet_buf := TX_BUF\<rparr>"
  obtain r1 b1 p1 where e1: "osdp_phy_packet_init p0 (packet_bytes p0) (get_tx_buf_size pd) = (r1, b1, p1)" by (metis prod_cases3)
  define p2 where "p2 = p1\<lparr>pd_packet_buf_len := nat r1\<rparr>"
  define cmd where "cmd = (if pd_state p2 = OSDP_CP_STATE_SET_SCBK \<and> pd_cmd_id p2 = CMD_KEYSET
                    then Some (fill_local_keyset_cmd p2) else pd_active_cmd p2)"
  obtain r3 b3 p3 where e3: "cp_build_command p2 cmd b1 (get_tx_buf_size pd) = (r3, b3, p3)" by (metis prod_cases3)
  define p4 where "p4 = p3\<lparr>pd_packet_buf_len := pd_packet_buf_len p3 + nat r3\<rparr>"
  obtain r5 b5 p5 where e5: "osdp_phy_finalize_packet crc p4 b3 (pd_packet_buf_len p4) (get_tx_buf_size pd) = (r5, b5, p5)"
    by (metis prod_cases3)
  have c1: "cpv p1 = cpv pd" using cpv_view [OF sec_packet_init [OF e1]] by (simp add: p0_def)
  have c2: "cpv p2 = cpv pd" using c1 by (simp add: p2_def)
  have c3: "cpv p3 = cpv pd" using cpv_build_command [of p2 cmd b1 "get_tx_buf_size pd"] e3 c2 by simp
  have c5: "cpv p5 = cpv pd" using cpv_view [OF view_finalize [OF e5]] c3 by (simp add: p4_def)
  show ?thesis
    unfolding cp_build_packet_def Let_def p0_def [symmetric] e1 prod.case p2_def [symmetric] cmd_def [symmetric] e3
      p4_def [symmetric] e5
    using c1 c3 c5 by simp
qed

end
