(* ===== verification/Cp_Security.thy ===== *)
theory Cp_Security
  imports Cp_Frames
begin

text \<open>
  The CP's promise about the secure channel, as an invariant of every step a PD's context can
  take: a PD that must be secure is online only in a session keyed with its own key, and a PD
  that was secure once is never offered the default key again.
\<close>

subsection \<open>The flags of a session\<close>

text \<open>What each operation of the state machine does to them.\<close>

lemma session_flags [flag_simps]:
  "\<not> sc_is_active (sc_deactivate pd)" "sc_use_scbkd (sc_deactivate pd) = sc_use_scbkd pd"
  "sec_core (sc_deactivate pd) = sec_core pd"
  "sc_is_active (sc_activate pd)" "sc_use_scbkd (sc_activate pd) = sc_use_scbkd pd"
  "sec_core (sc_activate pd) = sec_core pd"
  "sc_is_active (CLEAR_FLAG PD_FLAG_SC_USE_SCBKD pd) = sc_is_active pd"
  "\<not> sc_use_scbkd (CLEAR_FLAG PD_FLAG_SC_USE_SCBKD pd)"
  "sc_is_active (SET_FLAG PD_FLAG_SC_USE_SCBKD pd) = sc_is_active pd" "sc_use_scbkd (SET_FLAG PD_FLAG_SC_USE_SCBKD pd)"
  "sc_is_active (SET_FLAG PD_FLAG_SC_ESTABLISHED pd) = sc_is_active pd"
  "sc_use_scbkd (SET_FLAG PD_FLAG_SC_ESTABLISHED pd) = sc_use_scbkd pd"
  "sc_was_established (SET_FLAG PD_FLAG_SC_ESTABLISHED pd)"
  "is_enforce_secure (SET_FLAG PD_FLAG_SC_ESTABLISHED pd) = is_enforce_secure pd"
  "is_install_mode (SET_FLAG PD_FLAG_SC_ESTABLISHED pd) = is_install_mode pd"
  "is_cp_mode (SET_FLAG PD_FLAG_SC_ESTABLISHED pd) = is_cp_mode pd"
  by (simp_all add: sc_deactivate_def sc_activate_def sec_core_def flag_defs Let_def)

lemma core_flags:
  assumes "sec_core x = sec_core y"
  shows "is_cp_mode x = is_cp_mode y" "is_enforce_secure x = is_enforce_secure y"
    "sc_was_established x = sc_was_established y" "is_install_mode x = is_install_mode y"
  using sec_coreD [OF assms] by simp_all

text \<open>The requirement on a device, apart from where it is.\<close>

definition sc_sane :: "'z osdp_pd_scheme \<Rightarrow> bool" where
  "sc_sane pd \<longleftrightarrow> is_cp_mode pd \<and> (is_enforce_secure pd \<longrightarrow> \<not> is_install_mode pd) \<and>
     (sc_was_established pd \<and> \<not> is_install_mode pd \<longrightarrow> \<not> sc_use_scbkd pd)"

definition in_session :: "'z osdp_pd_scheme \<Rightarrow> bool" where
  "in_session pd \<longleftrightarrow> (is_enforce_secure pd \<longrightarrow> sc_is_active pd \<and> \<not> sc_use_scbkd pd)"

definition cp_secure_ok :: "'z osdp_pd_scheme \<Rightarrow> bool" where
  "cp_secure_ok pd \<longleftrightarrow> sc_sane pd \<and> (pd_state pd = OSDP_CP_STATE_ONLINE \<longrightarrow> in_session pd)"

lemma sane_cong: "sec x = sec y \<Longrightarrow> sc_sane x = sc_sane y \<and> in_session x = in_session y"
  using secD [of x y] by (simp add: sc_sane_def in_session_def)

lemma sec_cp [simp]:
  fixes pd :: "('w, 'z) osdp_dev_scheme"
  shows "sec (notify_sc_status pd) = sec pd" "sec (notify_pd_status b pd) = sec pd" "sec (make_request r pd) = sec pd" "sec (osdp_engines_abort pd) = sec pd"
  by (rule cpvD(1), simp)+

lemma sane_sec [simp]:
  fixes pd :: "('w, 'z) osdp_dev_scheme"
  shows "sc_sane (notify_sc_status pd) = sc_sane pd" "in_session (notify_sc_status pd) = in_session pd"
    "sc_sane (notify_pd_status b pd) = sc_sane pd" "in_session (notify_pd_status b pd) = in_session pd"
    "sc_sane (make_request r pd) = sc_sane pd" "in_session (make_request r pd) = in_session pd"
    "sc_sane (osdp_engines_abort pd) = sc_sane pd" "in_session (osdp_engines_abort pd) = in_session pd"
  by (rule sane_cong [OF sec_cp(1), THEN conjunct1], rule sane_cong [OF sec_cp(1), THEN conjunct2],
      rule sane_cong [OF sec_cp(2), THEN conjunct1], rule sane_cong [OF sec_cp(2), THEN conjunct2],
      rule sane_cong [OF sec_cp(3), THEN conjunct1], rule sane_cong [OF sec_cp(3), THEN conjunct2],
      rule sane_cong [OF sec_cp(4), THEN conjunct1], rule sane_cong [OF sec_cp(4), THEN conjunct2])

lemma sane_core:
  "sec_core x = sec_core y \<Longrightarrow> (sc_use_scbkd x \<Longrightarrow> sc_use_scbkd y) \<Longrightarrow> sc_sane y \<Longrightarrow> sc_sane x"
  using core_flags [of x y] by (auto simp: sc_sane_def)

lemma sane_ops [simp]:
  "sc_sane (sc_deactivate pd) = sc_sane pd" "sc_sane (sc_activate pd) = sc_sane pd"
  "sc_sane pd \<Longrightarrow> sc_sane (CLEAR_FLAG PD_FLAG_SC_USE_SCBKD pd)"
  using session_flags(3,6) [of pd] sec_core_ops(3) [of pd]
  by (auto simp: sc_sane_def session_flags core_flags [OF session_flags(3)] core_flags [OF session_flags(6)]
      core_flags [OF sec_core_ops(3)])

subsection \<open>Requests\<close>

lemma check_request_view:
  assumes "check_request r pd = (b, pd')"
  shows "sec pd' = sec pd" "pd_state pd' = pd_state pd" "b = test_request pd r"
    "r < 32 \<Longrightarrow> q < 32 \<Longrightarrow> test_request pd' q = (test_request pd q \<and> q \<noteq> r)"
proof -
  have "pd' = pd \<or> pd' = pd\<lparr>pd_request := pd_request pd AND NOT (BIT r)\<rparr>"
    and b: "b = test_request pd r"
    using assms by (auto simp: check_request_def test_request_def split: if_splits)
  then show "sec pd' = sec pd" "pd_state pd' = pd_state pd" "b = test_request pd r" by auto
  assume "r < 32" "q < 32"
  then show "test_request pd' q = (test_request pd q \<and> q \<noteq> r)"
    using assms by (auto simp: check_request_def test_request_bit request_bit bit_simps split: if_splits)
qed

subsection \<open>One pass\<close>

lemma keyset_complete_view:
  fixes pd :: "('w, 'z) osdp_dev_scheme"
  defines "p \<equiv> cp_keyset_complete pd"
  shows "sec_core p = sec_core pd" "pd_state p = pd_state pd" "\<not> sc_is_active p" "\<not> sc_use_scbkd p"
    "cp_is_online pd \<Longrightarrow> test_request p CP_REQ_RESTART_SC"
proof -
  define q where "q = (if \<not> sc_use_scbkd pd
       then (case map_option cmd_u (pd_active_cmd pd) of
               Some (OSDP_CMD_KEYSET k) \<Rightarrow> pd\<lparr>pd_sc := (pd_sc pd)\<lparr>scbk := array_read 16 (keyset_data k)\<rparr>\<rparr>
             | _ \<Rightarrow> pd)
       else CLEAR_FLAG PD_FLAG_SC_USE_SCBKD pd)"
  have q: "sec_core q = sec_core pd" "pd_state q = pd_state pd" "\<not> sc_use_scbkd q"
    unfolding q_def by (auto simp: flag_simps flag_defs sec_core_def split: option.split osdp_cmd_u.split)
  define n where "n = notify_sc_status (sc_deactivate q)"
  have s: "sec n = sec (sc_deactivate q)" by (simp add: n_def)
  have st: "pd_state n = pd_state q"
    using cpvD(2) [OF cpv_notify(3) [of "sc_deactivate q"]] phy_restD(7) [OF phy_rest_deactivate [of q]] by (simp add: n_def)
  have n: "sec_core n = sec_core pd" "\<not> sc_is_active n" "\<not> sc_use_scbkd n" "pd_state n = pd_state pd"
    using sec_core_cong [OF s] secD(3,6) [OF s] q st by (simp_all add: session_flags)
  have m: "sec (make_request r n) = sec n" "pd_state (make_request r n) = pd_state n" for r
    by (simp_all add: make_request_def)
  have p: "p = (if cp_is_online n then make_request CP_REQ_RESTART_SC n else n)"
    by (simp add: p_def cp_keyset_complete_def Let_def q_def n_def)
  show "sec_core p = sec_core pd" "pd_state p = pd_state pd" "\<not> sc_is_active p" "\<not> sc_use_scbkd p"
    using n m secD [OF m(1)] sec_core_cong [OF m(1)] by (simp_all add: p)
  show "cp_is_online pd \<Longrightarrow> test_request p CP_REQ_RESTART_SC"
    using n by (simp add: p cp_is_online_def)
qed

lemma keyset_complete_sane: "sc_sane pd \<Longrightarrow> sc_sane (cp_keyset_complete pd)"
  using sane_core [OF keyset_complete_view(1)] keyset_complete_view(4) by blast

lemma effects_state: "pd_state (cp_transition_effects cur next err pd) = pd_state pd"
proof -
  have "pd_state (notify_sc_status p) = pd_state p" for p :: "('a, 'b) osdp_dev_scheme"
    using cpvD(2) [OF cpv_notify(3)] .
  moreover have "pd_state (sc_deactivate p) = pd_state p" "pd_state (sc_activate p) = pd_state p" for p :: "('a, 'b) osdp_dev_scheme"
    by (simp_all add: sc_deactivate_def sc_activate_def Let_def)
  ultimately show ?thesis
    by (cases cur) (simp_all add: cp_transition_effects_def keyset_complete_view(2) Let_def)
qed

lemma effects_secure:
  fixes pd :: "('w, 'z) osdp_dev_scheme"
  assumes sane: "sc_sane pd" and nx: "next = get_next_state pd err"
  defines "p \<equiv> cp_transition_effects (pd_state pd) next err pd"
  shows "sc_sane p" "pd_state pd \<noteq> OSDP_CP_STATE_ONLINE \<Longrightarrow> next = OSDP_CP_STATE_ONLINE \<Longrightarrow> in_session p"
    "pd_state pd = OSDP_CP_STATE_ONLINE \<Longrightarrow> p = pd"
proof -
  note fl = session_flags core_flags [OF session_flags(3)] core_flags [OF session_flags(6)]
  have est: "sc_sane (SET_FLAG PD_FLAG_SC_ESTABLISHED q)" "in_session (SET_FLAG PD_FLAG_SC_ESTABLISHED q) = in_session q"
    if "sc_sane q" "\<not> sc_use_scbkd q" for q :: "('w, 'z) osdp_dev_scheme"
    using that by (auto simp: sc_sane_def in_session_def fl)
  have scbkd: "sc_use_scbkd (notify_sc_status q) = sc_use_scbkd q" for q :: "('w, 'z) osdp_dev_scheme"
    by (rule secD(6)) simp
  have act: "in_session (sc_activate pd)" if "\<not> sc_use_scbkd pd"
    using that by (simp add: in_session_def fl)
  have ts: "sc_sane (q\<lparr>pd_sc_tstamp := t\<rparr>) = sc_sane q" "in_session (q\<lparr>pd_sc_tstamp := t\<rparr>) = in_session q"
    for q :: "('w, 'z) osdp_dev_scheme" and t
    using sane_cong [OF sec_update2(13)] by blast+
  have d: "sc_sane (SET_FLAG PD_FLAG_SC_USE_SCBKD pd)" if "\<not> sc_was_established pd"
    using that sane core_flags [OF sec_core_ops(2) [of pd]] by (auto simp: sc_sane_def)
  have enf: "in_session q" if "\<not> is_enforce_secure pd" "sec_core q = sec_core pd" for q :: "('w, 'z) osdp_dev_scheme"
    using that core_flags [OF that(2)] by (simp add: in_session_def)
  have c1: "sec_core ((CLEAR_FLAG PD_FLAG_SC_USE_SCBKD pd)\<lparr>pd_sc_tstamp := t\<rparr>) = sec_core pd" for t
    by (simp add: sec_core_cong [OF sec_update2(13)])
  have c2: "sec_core (notify_sc_status (sc_deactivate pd)) = sec_core pd"
    by (simp add: sec_core_cong [OF sec_cp(1)])
  show "sc_sane p"
    unfolding p_def nx using sane keyset_complete_sane [OF sane] est(1) scbkd ts d
    by (cases "pd_state pd")
      (auto simp: cp_transition_effects_def get_next_state_def get_next_ok_state_def get_next_err_state_def Let_def fl)
  show "in_session p" if "pd_state pd \<noteq> OSDP_CP_STATE_ONLINE" "next = OSDP_CP_STATE_ONLINE"
    unfolding p_def using that [unfolded nx] nx est sane scbkd act enf c1 c2
    by (cases "pd_state pd")
      (auto simp: cp_transition_effects_def get_next_state_def get_next_ok_state_def get_next_err_state_def Let_def fl
         split: if_splits)
  show "p = pd" if "pd_state pd = OSDP_CP_STATE_ONLINE"
    using that by (simp add: p_def cp_transition_effects_def)
qed

lemma reset_sec [simp]: "sec (osdp_phy_state_reset e pd) = sec pd" "pd_state (osdp_phy_state_reset e pd) = pd_state pd"
  by (auto simp: osdp_phy_state_reset_def phy_reset_seq_number_def set_channel_def Let_def intro: sec_cong)

lemma pick_next_secure:
  fixes pd :: "('w, 'z) osdp_dev_scheme"
  assumes pick: "cp_pick_next err pd = (next, p)" and sane: "sc_sane pd"
    and on: "err = 0 \<Longrightarrow> pd_state pd = OSDP_CP_STATE_ONLINE \<Longrightarrow> in_session pd \<or> test_request pd CP_REQ_RESTART_SC"
  shows "sc_sane p" "pd_state p = pd_state pd" "next = OSDP_CP_STATE_ONLINE \<Longrightarrow> in_session p"
proof -
  obtain lr p1 where r1: "check_request CP_REQ_LINK_RESET pd = (lr, p1)" by (rule prod.exhaust)
  note v1 = check_request_view [OF r1]
  have s1: "sc_sane p1" using sane_cong [OF v1(1)] sane by simp
  have "sc_sane p \<and> pd_state p = pd_state pd \<and> (next = OSDP_CP_STATE_ONLINE \<longrightarrow> in_session p)"
  proof (cases lr)
    case True
    then show ?thesis using pick s1 v1(2) unfolding cp_pick_next_def r1 prod.case by simp
  next
    case False
    define n2 where "n2 = get_next_state p1 err"
    define p2 where "p2 = cp_transition_effects (pd_state p1) n2 err p1"
    note e2 = effects_secure [OF s1 n2_def, folded p2_def]
    have st2: "pd_state p2 = pd_state pd" by (simp add: effects_state p2_def v1(2))
    have in2: "in_session p2 \<or> test_request p2 CP_REQ_RESTART_SC"
      if "pd_state pd = OSDP_CP_STATE_ONLINE" "n2 = OSDP_CP_STATE_ONLINE"
    proof -
      have "err = 0" using that v1(2) by (auto simp: n2_def get_next_state_def get_next_err_state_def split: if_splits)
      then have "in_session p1 \<or> test_request p1 CP_REQ_RESTART_SC"
        using on that sane_cong [OF v1(1)] v1(4) by simp
      then show ?thesis using e2(3) that v1(2) by simp
    qed
    obtain rs p3 where r3: "check_request CP_REQ_RESTART_SC p2 = (rs, p3)" by (rule prod.exhaust)
    note v3 = check_request_view [OF r3]
    define p4 where "p4 = (if rs then osdp_phy_state_reset True p3 else p3)"
    have sec4: "sec p4 = sec p2" "pd_state p4 = pd_state p2" using v3(1,2) by (simp_all add: p4_def)
    obtain off p5 where r5: "check_request CP_REQ_OFFLINE p4 = (off, p5)" by (rule prod.exhaust)
    note v5 = check_request_view [OF r5]
    have sec5: "sc_sane p5 = sc_sane p2" "in_session p5 = in_session p2"
      using sane_cong [OF v5(1)] sane_cong [OF sec4(1)] by simp_all
    have sr: "cp_session_requests n2 p2 =
        (if off then OSDP_CP_STATE_OFFLINE else if rs then OSDP_CP_STATE_SC_CHLNG else n2, p5)"
      using r5 unfolding cp_session_requests_def r3 prod.case by (cases rs) (simp_all add: p4_def)
    have eq: "cp_pick_next err pd =
       (if pd_state p1 = OSDP_CP_STATE_ONLINE \<or> n2 = OSDP_CP_STATE_ONLINE
        then (if off then OSDP_CP_STATE_OFFLINE else if rs then OSDP_CP_STATE_SC_CHLNG else n2, p5) else (n2, p2))"
      unfolding cp_pick_next_def r1 prod.case Let_def if_not_P [OF False] n2_def [symmetric] p2_def [symmetric] sr
      by (rule refl)
    show ?thesis
      using pick e2(1,2) st2 in2 sec5 sec4(2) v5(2) v3(3) v1(2) unfolding eq
      by (auto split: if_splits)
  qed
  then show "sc_sane p" "pd_state p = pd_state pd" "next = OSDP_CP_STATE_ONLINE \<Longrightarrow> in_session p" by simp_all
qed

lemma state_entry_sane: "sc_sane pd \<Longrightarrow> sc_sane (cp_state_entry next pd)"
  and state_entry_session: "in_session pd \<Longrightarrow> in_session (cp_state_entry OSDP_CP_STATE_ONLINE pd)"
proof -
  have r: "sc_sane (osdp_phy_state_reset e q) = sc_sane q" for e and q :: "('a, 'b) osdp_dev_scheme"
    using sane_cong [OF reset_sec(1)] by blast
  have d: "sc_sane (drop_session_requests q) = sc_sane q" for q :: "('a, 'b) osdp_dev_scheme"
    using sane_cong [OF sec_update2(6)] unfolding drop_session_requests_def by blast
  have w: "sc_sane (q\<lparr>pd_wait_ms := m, pd_tstamp := t\<rparr>) = sc_sane q" for q :: "('a, 'b) osdp_dev_scheme" and m t
    using sane_cong [of "q\<lparr>pd_wait_ms := m, pd_tstamp := t\<rparr>" q] by simp
  have s: "sc_sane (osdp_sc_setup q) = sc_sane q" for q :: "('a, 'b) osdp_dev_scheme"
  proof -
    have "sec (osdp_sc_setup q) = sec q"
      by (rule sec_cong) (simp add: osdp_sc_setup_def osdp_fill_random_def Let_def)
    then show ?thesis using sane_cong by blast
  qed
  have t: "sc_sane (CLEAR_FLAG PD_FLAG_TRS_ACTIVE q) = sc_sane q \<and>
      in_session (CLEAR_FLAG PD_FLAG_TRS_ACTIVE q) = in_session q" for q :: "('a, 'b) osdp_dev_scheme"
    by (rule sane_cong) simp
  show "sc_sane pd \<Longrightarrow> sc_sane (cp_state_entry next pd)" for pd :: "('a, 'b) osdp_dev_scheme"
    by (cases "next") (simp_all add: cp_state_entry_def Let_def r d w s t)
  show "in_session pd \<Longrightarrow> in_session (cp_state_entry OSDP_CP_STATE_ONLINE pd)" for pd :: "('a, 'b) osdp_dev_scheme"
    by (simp add: cp_state_entry_def t)
qed

lemma state_change_secure:
  fixes pd :: "('w, 'z) osdp_dev_scheme"
  assumes "sc_sane pd" "next = OSDP_CP_STATE_ONLINE \<Longrightarrow> in_session pd"
  shows "cp_secure_ok (cp_state_change next pd)"
proof -
  define q where "q = (cp_state_entry next pd)\<lparr>pd_state := next\<rparr>"
  have sq: "sc_sane q = sc_sane (cp_state_entry next pd)" "in_session q = in_session (cp_state_entry next pd)"
    using sane_cong [of q "cp_state_entry next pd"] by (simp_all add: q_def)
  have "sc_sane q \<and> (next = OSDP_CP_STATE_ONLINE \<longrightarrow> in_session q)"
    using state_entry_sane [OF assms(1), of "next"] state_entry_session [of pd] assms(2) sq by auto
  moreover have "pd_state q = next" "pd_state (notify_pd_status b q) = next" for b
    using cpvD(2) [OF cpv_notify(4) [of b q]] by (simp_all add: q_def)
  ultimately show ?thesis
    by (simp add: cp_state_change_def Let_def q_def [symmetric] cp_secure_ok_def)
qed

lemma finish_pass_secure:
  fixes pd :: "('w, 'z) osdp_dev_scheme"
  assumes "sc_sane pd"
    and "err = 0 \<Longrightarrow> pd_state pd = OSDP_CP_STATE_ONLINE \<Longrightarrow> in_session pd \<or> test_request pd CP_REQ_RESTART_SC"
  shows "cp_secure_ok (cp_finish_pass err pd)"
proof -
  obtain n p where pick: "cp_pick_next err pd = (n, p)" by (rule prod.exhaust)
  note s = pick_next_secure [OF pick assms]
  obtain d p1 where r1: "check_request CP_REQ_DISABLE p = (d, p1)" by (rule prod.exhaust)
  obtain e p2 where r2: "check_request CP_REQ_ENABLE p1 = (e, p2)" by (rule prod.exhaust)
  note v1 = check_request_view [OF r1] and v2 = check_request_view [OF r2]
  have q: "sc_sane p2 = sc_sane p" "in_session p2 = in_session p" "pd_state p2 = pd_state pd"
    using sane_cong [OF v1(1)] sane_cong [OF v2(1)] v1(2) v2(2) s(2) by simp_all
  define nx where "nx = (if e then OSDP_CP_STATE_INIT else if d then OSDP_CP_STATE_DISABLED else n)"
  have "cp_secure_ok (cp_state_change nx p2)" if "nx = OSDP_CP_STATE_ONLINE \<Longrightarrow> n = OSDP_CP_STATE_ONLINE"
    using state_change_secure [of p2 nx] q s that by auto
  moreover have "nx = OSDP_CP_STATE_ONLINE \<Longrightarrow> n = OSDP_CP_STATE_ONLINE" by (auto simp: nx_def split: if_splits)
  moreover have "cp_secure_ok p2" if "nx = pd_state pd"
    using q s that by (auto simp: cp_secure_ok_def nx_def split: if_splits)
  ultimately show ?thesis
    by (simp add: cp_finish_pass_def pick r1 r2 Let_def nx_def [symmetric] if_distrib cong: if_cong) (auto simp: nx_def split: if_splits)
qed

subsection \<open>A command settled, the link advanced\<close>

lemma settle_secure:
  fixes pd :: "('w, 'z) osdp_dev_scheme"
  assumes settle: "cp_settle_cmd pd = (err, p)" and sane: "sc_sane pd"
  shows "sc_sane p" "pd_state p = pd_state pd"
    "pd_state pd = OSDP_CP_STATE_ONLINE \<Longrightarrow> in_session pd \<Longrightarrow> in_session p \<or> test_request p CP_REQ_RESTART_SC"
proof -
  obtain st q where c: "state_check_reply pd = (st, q)" by (rule prod.exhaust)
  have q: "q = pd \<or> st \<and> pd_state pd = OSDP_CP_STATE_ONLINE \<and> q = cp_keyset_complete pd"
    using c by (cases "pd_state pd") (auto simp: state_check_reply_def cp_check_online_response_def Let_def split: if_splits)
  have sq: "sc_sane q" "pd_state q = pd_state pd"
    "pd_state pd = OSDP_CP_STATE_ONLINE \<Longrightarrow> in_session pd \<Longrightarrow> in_session q \<or> test_request q CP_REQ_RESTART_SC"
    using q sane keyset_complete_sane [OF sane] keyset_complete_view(2,5) [of pd]
    by (auto simp: cp_is_online_def cp_state_is_online_def)
  define q1 where "q1 = (if st \<and> pd_active_cmd q \<noteq> None \<and> pd_engine_cmd q = None \<and> osdp_bio_owns_cmd q (pd_cmd_id q)
                then cp_own_engine_cmd (pd_active_cmd q) OSDP_MP_MSG_BIOREAD q
                else cp_complete_cmd (pd_active_cmd q)
                       (if st then OSDP_COMPLETION_OK else OSDP_COMPLETION_FAILED) q)"
  define q2 where "q2 = q1\<lparr>pd_active_cmd := None\<rparr>"
  have o: "outer q1 = outer q" by (simp add: q1_def)
  have r1: "pd_request q1 = pd_request q" by (simp add: q1_def cp_own_engine_cmd_def)
  have s2: "sec q2 = sec q" "pd_state q2 = pd_state q" "test_request q2 r = test_request q r" for r
    using view_outer [OF o] r1 by (simp_all add: q2_def test_request_def)
  define q3 where "q3 = (if pd_cmd_id q2 = CMD_FILETRANSFER then osdp_file_tx_abort q2 else q2)"
  define q4 where "q4 = (if osdp_piv_owns_cmd q3 (pd_cmd_id q3) then osdp_piv_abort q3 else q3)"
  have o4: "outer q4 = outer q2" by (simp add: q4_def q3_def)
  have p: "p = osdp_phy_state_reset False q2 \<or> \<not> st \<and> p = osdp_phy_state_reset False q4"
    using settle unfolding cp_settle_cmd_def c prod.case Let_def q1_def [symmetric] q2_def [symmetric]
      q3_def [symmetric] q4_def [symmetric] by (auto split: if_splits)
  have t: "test_request (osdp_phy_state_reset False x) r = test_request x r" for x :: "('w, 'z) osdp_dev_scheme" and r
    by (simp add: osdp_phy_state_reset_def Let_def test_request_def)
  have s4: "sec q4 = sec q" "pd_state q4 = pd_state q" using view_outer [OF o4] s2 by simp_all
  have sp: "sec p = sec q" "pd_state p = pd_state q" using p s2 s4 by auto
  show "sc_sane p" "pd_state p = pd_state pd" using sane_cong [OF sp(1)] sp sq by simp_all
  show "in_session p \<or> test_request p CP_REQ_RESTART_SC" if "pd_state pd = OSDP_CP_STATE_ONLINE" "in_session pd"
  proof (cases st)
    case True
    then show ?thesis using p sq(3) [OF that] t s2(3) sane_cong [OF sp(1)] by auto
  next
    case False
    then have "q = pd" using q by simp
    then show ?thesis using that sane_cong [OF sp(1)] by simp
  qed
qed

text \<open>What the link state machine keeps of the protocol's state.\<close>

definition cpx :: "('w, 'z) osdp_dev_scheme \<Rightarrow> _" where
  "cpx pd = (sec_core pd, pd_state pd, pd_active_cmd pd, pd_cmd_queue pd, pd_cb pd, pd_idx pd)"

lemma cpx_cpw: "cpw x = cpw y \<Longrightarrow> cpx x = cpx y"
  using cpwD [of x y] by (simp add: cpx_def)

lemma cpx_sec: "sec x = sec y \<Longrightarrow> pd_state x = pd_state y \<Longrightarrow> pd_active_cmd x = pd_active_cmd y \<Longrightarrow>
    pd_cmd_queue x = pd_cmd_queue y \<Longrightarrow> pd_cb x = pd_cb y \<Longrightarrow> pd_idx x = pd_idx y \<Longrightarrow> cpx x = cpx y"
  using sec_core_cong [of x y] by (simp add: cpx_def)

text \<open>A step that keeps all of it, session flags included.\<close>

definition keeps :: "('w, 'z) osdp_dev_scheme \<Rightarrow> ('w, 'z) osdp_dev_scheme \<Rightarrow> bool" where
  "keeps x y \<longleftrightarrow> cpx y = cpx x \<and> sec y = sec x"

lemma keeps_refl [simp]: "keeps x x" by (simp add: keeps_def)

lemma keeps_trans: "keeps x y \<Longrightarrow> keeps y z \<Longrightarrow> keeps x z" by (simp add: keeps_def)

lemma keeps_cpv: "cpv y = cpv x \<Longrightarrow> keeps x y"
  using cpvD [of y x] cpx_sec [of y x] by (simp add: keeps_def)

lemma keeps_cong:
  fixes x a y :: "('w, 'z) osdp_dev_scheme"
  assumes "pd_flags a = pd_flags y" "pd_state a = pd_state y" "osdp_pd.more a = osdp_pd.more y" "pd_idx a = pd_idx y"
  shows "keeps x a = keeps x y"
proof -
  have "cpx a = cpx y" using sec_cong [OF assms(1)] more_devD [OF assms(3)] assms(2,4) by (intro cpx_sec) simp_all
  then show ?thesis using sec_cong [OF assms(1)] by (simp add: keeps_def)
qed

lemma keeps_link [simp]:
  fixes x y :: "('w, 'z) osdp_dev_scheme"
  shows "keeps x (y\<lparr>pd_phy_state := s\<rparr>) = keeps x y" "keeps x (y\<lparr>pd_phy_tstamp := t\<rparr>) = keeps x y"
    "keeps x (y\<lparr>pd_wait_ms := m\<rparr>) = keeps x y" "keeps x (y\<lparr>pd_phy_retry_count := n\<rparr>) = keeps x y"
    "keeps x (y\<lparr>pd_resp_timeout_ms := u\<rparr>) = keeps x y" "keeps x (y\<lparr>pd_seq_number := i\<rparr>) = keeps x y"
    "keeps x (y\<lparr>pd_reply_id := r\<rparr>) = keeps x y" "keeps x (y\<lparr>pd_tstamp := v\<rparr>) = keeps x y"
    "keeps x (y\<lparr>pd_sc_tstamp := w\<rparr>) = keeps x y"
  by (rule keeps_cong; simp)+

lemma keeps_link_ops [simp]:
  fixes x y :: "('w, 'z) osdp_dev_scheme"
  shows "keeps x (set_channel ch y) = keeps x y" "keeps x (osdp_metrics_report e y) = keeps x y"
    "keeps x (osdp_phy_state_reset b y) = keeps x y"
  by (rule keeps_cong; simp add: set_channel_def osdp_metrics_report_def osdp_phy_state_reset_def phy_reset_seq_number_def Let_def)+

lemma build_packet_keeps: "keeps pd (snd (cp_build_packet crc pd))"
  by (rule keeps_cpv) (rule cpv_build_packet)

lemma send_keeps:
  assumes "cp_phy_send pd = Some (err, p)"
  shows "keeps pd p"
proof -
  obtain rc q where s: "osdp_phy_send_packet pd (packet_bytes pd) (pd_packet_buf_len pd) = (rc, q)" by (rule prod.exhaust)
  have "view q = view pd"
    using s by (auto simp: osdp_phy_send_packet_def osdp_channel_send_def Let_def split: if_splits)
  then have "keeps pd q" by (intro keeps_cpv cpv_view)
  then show ?thesis
    using assms unfolding cp_phy_send_def s prod.case Let_def cp_phy_error_def
    by (auto split: if_splits option.splits)
qed

lemma build_and_send_keeps:
  assumes "cp_phy_build_and_send crc pd = Some (err, p)"
  shows "keeps pd p"
proof -
  obtain rc q where b: "cp_build_packet crc pd = (rc, q)" by (rule prod.exhaust)
  have k: "keeps pd q" using build_packet_keeps [of pd crc] by (simp add: b)
  show ?thesis
  proof (cases "rc \<noteq> 0")
    case True
    then show ?thesis using assms k by (auto simp: cp_phy_build_and_send_def b cp_phy_error_def)
  next
    case False
    then have "cp_phy_send (q\<lparr>pd_phy_state := OSDP_CP_PHY_STATE_SEND_CMD_WAIT\<rparr>) = Some (err, p)"
      using assms by (simp add: cp_phy_build_and_send_def b)
    then show ?thesis using send_keeps keeps_trans k by (metis keeps_link(1))
  qed
qed

lemma reply_wait_view:
  fixes pd :: "('w, 'z) osdp_dev_scheme"
  assumes cp: "is_cp_mode pd" and r: "cp_phy_reply_wait crc pd = Some (err, p)"
  shows "cpx p = cpx pd" "\<not> is_install_mode pd \<Longrightarrow> sc_use_scbkd p = sc_use_scbkd pd"
    "err \<noteq> OSDP_CP_ERR_GENERIC \<Longrightarrow> sc_is_active p = sc_is_active pd"
    "err \<noteq> OSDP_CP_ERR_GENERIC \<Longrightarrow> \<not> is_install_mode pd \<Longrightarrow> sec p = sec pd"
proof -
  obtain rc q where e: "cp_process_reply crc pd = Some (rc, q)" using r by (auto simp: cp_phy_reply_wait_def split: option.splits)
  note v = process_reply_view [OF cp e]
  define q1 where "q1 = (if rc = OSDP_CP_ERR_NONE \<or> rc = OSDP_CP_ERR_APP
                then osdp_phy_progress_sequence (q\<lparr>pd_tstamp := osdp_millis_now q\<rparr>) else q)"
  have "cpv q1 = cpv q" by (simp add: q1_def)
  then have k1: "keeps q q1" by (rule keeps_cpv)
  have d: "keeps x (cp_phy_state_done y) = keeps x y" "keeps x (cp_phy_state_wait t y) = keeps x y"
    "keeps x (snd (cp_phy_error y)) = keeps x y"
    for x y :: "('w, 'z) osdp_dev_scheme" and t
    by (simp_all add: cp_phy_state_done_def cp_phy_state_wait_def cp_phy_error_def Let_def)
  have "keeps q p \<and> (rc = OSDP_CP_ERR_GENERIC \<longrightarrow> err = OSDP_CP_ERR_GENERIC)"
    using r k1 unfolding cp_phy_reply_wait_def e option.case prod.case Let_def q1_def [symmetric]
    by (auto simp: d cp_phy_error_def split: if_splits)
  then have kp: "cpx p = cpx q" "sec p = sec q" and g: "rc = OSDP_CP_ERR_GENERIC \<Longrightarrow> err = OSDP_CP_ERR_GENERIC"
    by (auto simp: keeps_def)
  show "cpx p = cpx pd" "\<not> is_install_mode pd \<Longrightarrow> sc_use_scbkd p = sc_use_scbkd pd"
    "err \<noteq> OSDP_CP_ERR_GENERIC \<Longrightarrow> sc_is_active p = sc_is_active pd"
    "err \<noteq> OSDP_CP_ERR_GENERIC \<Longrightarrow> \<not> is_install_mode pd \<Longrightarrow> sec p = sec pd"
    using kp g v cpx_cpw [OF v(1)] secD(3,6) [OF kp(2)] by auto
qed

lemma phy_update_view:
  fixes pd :: "('w, 'z) osdp_dev_scheme"
  assumes cp: "is_cp_mode pd" and u: "cp_phy_state_update crc pd = Some (err, p)"
  shows "cpx p = cpx pd" "\<not> is_install_mode pd \<Longrightarrow> sc_use_scbkd p = sc_use_scbkd pd"
    "err \<noteq> OSDP_CP_ERR_GENERIC \<Longrightarrow> sc_is_active p = sc_is_active pd"
    "err \<noteq> OSDP_CP_ERR_GENERIC \<Longrightarrow> \<not> is_install_mode pd \<Longrightarrow> sec p = sec pd"
proof -
  have rw: "keeps pd (cp_phy_rewind pd)" by (simp add: cp_phy_rewind_def Let_def)
  have "keeps pd p \<or> cp_phy_reply_wait crc pd = Some (err, p)"
    using u keeps_trans [OF rw build_and_send_keeps] build_and_send_keeps send_keeps
    by (cases "pd_phy_state pd") (auto simp: cp_phy_state_update_def split: if_splits)
  then show "cpx p = cpx pd" "\<not> is_install_mode pd \<Longrightarrow> sc_use_scbkd p = sc_use_scbkd pd"
    "err \<noteq> OSDP_CP_ERR_GENERIC \<Longrightarrow> sc_is_active p = sc_is_active pd"
    "err \<noteq> OSDP_CP_ERR_GENERIC \<Longrightarrow> \<not> is_install_mode pd \<Longrightarrow> sec p = sec pd"
    using reply_wait_view [OF cp] secD(3,6) [of p pd] by (auto simp: keeps_def)
qed

text \<open>After the link's step, and whatever else the pass does.\<close>

lemma engine_get_cpv:
  "cpv (snd (osdp_file_tx_get_command pd)) = cpv pd" "cpv (snd (osdp_piv_cp_get_command pd)) = cpv pd"
  "cpv (snd (osdp_bio_cp_get_command pd)) = cpv pd"
  by (rule cpv_outer, simp add: outer_file_get outer_piv_get outer_bio_get)+

lemma engine_command_cpv: "cpv (snd (cp_get_engine_command pd)) = cpv pd"
  by (simp add: cp_get_engine_command_def cp_get_poll_command_def Let_def case_prod_beta engine_get_cpv)

lemma get_cmd_view:
  assumes "state_get_cmd pd = Some (c, p)"
  shows "sec p = sec pd" "pd_state p = pd_state pd"
proof -
  have b: "sec (SET_FLAG PD_FLAG_PKT_BROADCAST q) = sec q" for q :: "('a, 'b) osdp_dev_scheme" by simp
  have k: "sec (cp_complete_cmd x y q) = sec q" "pd_state (cp_complete_cmd x y q) = pd_state q"
    for x y and q :: "('a, 'b) osdp_dev_scheme" by (simp_all add: cpvD(1) [OF cpv_engine(5)])
  have "sec p = sec pd \<and> pd_state p = pd_state pd"
  proof (cases "pd_state pd")
    case OSDP_CP_STATE_ONLINE
    show ?thesis
    proof (cases "pd_cmd_queue pd")
      case Nil
      then have "cpv p = cpv pd"
        using assms OSDP_CP_STATE_ONLINE engine_command_cpv [of pd]
        by (simp add: state_get_cmd_def cp_get_online_command_def)
      then show ?thesis using cpvD(1,2) by blast
    next
      case (Cons cmd q)
      then show ?thesis
        using assms OSDP_CP_STATE_ONLINE
        by (auto simp: state_get_cmd_def cp_get_online_command_def cp_setup_active_cmd_def Let_def b k
            split: option.splits)
    qed
  qed (use assms in \<open>auto simp: state_get_cmd_def\<close>)
  then show "sec p = sec pd" "pd_state p = pd_state pd" by simp_all
qed

lemma after_phy_secure:
  fixes pd :: "('w, 'z) osdp_dev_scheme"
  assumes a: "cp_after_phy pd = Some p" and sane: "sc_sane pd"
    and on: "pd_phy_state pd \<noteq> OSDP_CP_PHY_STATE_ERR \<Longrightarrow> pd_state pd = OSDP_CP_STATE_ONLINE \<Longrightarrow> in_session pd"
  shows "cp_secure_ok p"
proof -
  consider (idle) "pd_phy_state pd = OSDP_CP_PHY_STATE_IDLE" | (err) "pd_phy_state pd = OSDP_CP_PHY_STATE_ERR"
    | (fin) "pd_phy_state pd = OSDP_CP_PHY_STATE_DONE"
    using a by (cases "pd_phy_state pd") (auto simp: cp_after_phy_def)
  then show ?thesis
  proof cases
    case idle
    obtain c q where g: "state_get_cmd pd = Some (c, q)" using a idle by (auto simp: cp_after_phy_def split: option.splits)
    define q1 where "q1 = q\<lparr>pd_cmd_id := c\<rparr>"
    note v = get_cmd_view [OF g]
    have s: "sec (q1\<lparr>pd_phy_state := x\<rparr>) = sec pd" "sec q1 = sec pd" for x using v by (simp_all add: q1_def)
    have st: "pd_state q1 = pd_state pd" using v by (simp add: q1_def)
    have sn: "sc_sane q1" "in_session q1 = in_session pd" "sc_sane (q1\<lparr>pd_phy_state := x\<rparr>)"
      "in_session (q1\<lparr>pd_phy_state := x\<rparr>) = in_session pd" for x
      using sane_cong [OF s(1)] sane_cong [OF s(2)] sane by simp_all
    have "p = q1\<lparr>pd_phy_state := OSDP_CP_PHY_STATE_SEND_CMD\<rparr> \<or> p = cp_finish_pass OSDP_CP_ERR_NONE q1"
      using a idle g by (auto simp: cp_after_phy_def Let_def q1_def cp_phy_kick_def split: if_splits)
    then show ?thesis
      using finish_pass_secure [of q1 OSDP_CP_ERR_NONE] sn st on idle by (auto simp: cp_secure_ok_def)
  next
    case err
    obtain e q where c: "cp_settle_cmd pd = (e, q)" by (rule prod.exhaust)
    show ?thesis
      using a err finish_pass_secure [of q OSDP_CP_ERR_GENERIC] settle_secure(1) [OF c sane] by (simp add: cp_after_phy_def c)
  next
    case fin
    obtain e q where c: "cp_settle_cmd pd = (e, q)" by (rule prod.exhaust)
    note s = settle_secure [OF c sane]
    show ?thesis
      using a fin finish_pass_secure [OF s(1), of e] s(2,3) on by (simp add: cp_after_phy_def c)
  qed
qed

lemma phy_update_error:
  "cp_phy_state_update crc pd = Some (OSDP_CP_ERR_GENERIC, p) \<Longrightarrow> pd_phy_state p = OSDP_CP_PHY_STATE_ERR"
  by (cases "pd_phy_state pd")
    (auto simp: cp_phy_state_update_def cp_phy_build_and_send_def cp_phy_send_def cp_phy_error_def
      cp_phy_reply_wait_def Let_def split: if_splits prod.splits option.splits)

lemma state_update_secure:
  fixes pd :: "('w, 'z) osdp_dev_scheme"
  assumes u: "state_update crc pd = Some p" and ok: "cp_secure_ok pd"
  shows "cp_secure_ok p"
proof (cases "cp_phy_running pd")
  case False
  then show ?thesis using u ok after_phy_secure [of pd p] by (simp add: state_update_def cp_secure_ok_def)
next
  case True
  then obtain err q where q: "cp_phy_state_update crc pd = Some (err, q)"
    using u by (auto simp: state_update_def split: option.splits)
  have sane: "sc_sane pd" and cp: "is_cp_mode pd" using ok by (simp_all add: cp_secure_ok_def sc_sane_def)
  note v = phy_update_view [OF cp q]
  have core: "sec_core q = sec_core pd" "pd_state q = pd_state pd" using v(1) by (simp_all add: cpx_def)
  have sq: "sc_sane q" using sane v(2) core_flags [OF core(1)] by (auto simp: sc_sane_def)
  have on: "in_session q" if "err \<noteq> OSDP_CP_ERR_GENERIC" "pd_state pd = OSDP_CP_STATE_ONLINE"
    using that ok v(2,3) core_flags [OF core(1)] sane by (auto simp: cp_secure_ok_def in_session_def sc_sane_def)
  show ?thesis
  proof (cases "err = OSDP_CP_ERR_INPROG \<or> err = OSDP_CP_ERR_DEFER")
    case True
    then have "p = q" using u q \<open>cp_phy_running pd\<close> by (simp add: state_update_def)
    then show ?thesis using sq on core True by (auto simp: cp_secure_ok_def)
  next
    case False
    then have "cp_after_phy q = Some p" using u q \<open>cp_phy_running pd\<close> by (simp add: state_update_def)
    moreover have "in_session q" if "pd_phy_state q \<noteq> OSDP_CP_PHY_STATE_ERR" "pd_state q = OSDP_CP_STATE_ONLINE"
    proof -
      have "err \<noteq> OSDP_CP_ERR_GENERIC" using phy_update_error q that(1) by blast
      then show ?thesis using on core that by simp
    qed
    ultimately show ?thesis using after_phy_secure sq by blast
  qed
qed

subsection \<open>Every step\<close>

text \<open>
  The steps of one PD's context: a pass of the state machine, the calls of the API, and the
  surroundings, which move the clock, the channel and the shared buffers as they like.  Raising
  ENFORCE_SECURE is a step only on a PD that meets the demand; see \<open>enforce_raised_too_late\<close>.
\<close>

inductive cp_step :: "crc16 \<Rightarrow> ('w, 'z) osdp_dev_scheme \<Rightarrow> ('w, 'z) osdp_dev_scheme \<Rightarrow> bool" for crc where
  refresh: "state_update crc pd = Some pd' \<Longrightarrow> cp_step crc pd pd'"
| submit: "cp_submit_command n cmd pd = (r, pd') \<Longrightarrow> cp_step crc pd pd'"
| flush: "cp_drain_queue st pd = (n, pd') \<Longrightarrow> cp_step crc pd pd'"
| cancel_file: "osdp_file_tx_request_cancel pd = (r, pd') \<Longrightarrow> cp_step crc pd pd'"
| cancel_piv: "osdp_piv_request_cancel pd m = (r, pd') \<Longrightarrow> cp_step crc pd pd'"
| cancel_bio: "osdp_bio_request_cancel pd = (r, pd') \<Longrightarrow> cp_step crc pd pd'"
| disable: "cp_disable_pd pd = (r, pd') \<Longrightarrow> cp_step crc pd pd'"
| enable: "cp_enable_pd pd = (r, pd') \<Longrightarrow> cp_step crc pd pd'"
| modify_flag: "cp_modify_flag fl v pd = Some pd' \<Longrightarrow>
    (api_flag fl OSDP_FLAG_ENFORCE_SECURE \<Longrightarrow> \<not> is_install_mode pd \<and>
       (pd_state pd = OSDP_CP_STATE_ONLINE \<longrightarrow> sc_is_active pd \<and> \<not> sc_use_scbkd pd)) \<Longrightarrow> cp_step crc pd pd'"
| bus: "cp_step crc pd (pd\<lparr>pd_ctx := c\<rparr>)"
| app: "cp_step crc pd (pd\<lparr>pd_app := w\<rparr>)"

abbreviation cp_steps :: "crc16 \<Rightarrow> ('w, 'z) osdp_dev_scheme \<Rightarrow> ('w, 'z) osdp_dev_scheme \<Rightarrow> bool" where
  "cp_steps crc \<equiv> (cp_step crc)\<^sup>*\<^sup>*"

lemma secure_cong:
  "sec x = sec y \<Longrightarrow> pd_state x = pd_state y \<Longrightarrow> cp_secure_ok x = cp_secure_ok y"
  using sane_cong [of x y] by (simp add: cp_secure_ok_def)

lemma secure_outer:
  fixes x y :: "('w, 'z) osdp_dev_scheme"
  shows "outer x = outer y \<Longrightarrow> cp_secure_ok x = cp_secure_ok y"
  using view_outer [of x y] secure_cong [of x y] by simp

lemma submit_sec:
  assumes "cp_submit_command n cmd pd = (r, p)"
  shows "sec p = sec pd \<and> pd_state p = pd_state pd"
proof -
  have q: "sec (snd (cp_cmd_enqueue c pd)) = sec pd" "pd_state (snd (cp_cmd_enqueue c pd)) = pd_state pd" for c
    by (simp_all add: cp_cmd_enqueue_def)
  have o: "outer (case X of (ret, x) \<Rightarrow> if ret = 0 then cp_own_engine_cmd c t x else x) = outer (snd X)"
    for X :: "int \<times> ('a, 'b) osdp_dev_scheme" and c t by (simp split: prod.split)
  have f: "outer (snd (case osdp_file_tx_command pd i fl of (ret, x) \<Rightarrow>
      (ret, if ret = 0 then cp_own_engine_cmd c t x else x))) = outer pd" for i fl c t
    using outer_file_command [of pd i fl] by (simp split: prod.split) auto
  have g: "outer (snd (case osdp_piv_cp_submit pd cmd of (ret, x) \<Rightarrow>
      (ret, if ret = 0 then cp_own_engine_cmd c t x else x))) = outer pd" for c t
    using outer_piv_submit [of pd cmd] by (simp split: prod.split) auto
  have "sec (snd (cp_route_cmd cmd pd)) = sec pd \<and> pd_state (snd (cp_route_cmd cmd pd)) = pd_state pd"
    using view_outer [OF f] view_outer [OF g] q
    by (cases "cmd_u cmd") (simp_all add: cp_route_cmd_def Let_def)
  then show ?thesis using assms by (auto simp: cp_submit_command_def Let_def split: if_splits)
qed

lemma drain_outer: "outer (fold (\<lambda>c pd. cp_complete_cmd (Some c) st pd) q pd) = outer pd"
  by (induction q arbitrary: pd) simp_all

lemma drain_sec:
  assumes "cp_drain_queue st pd = (n, p)"
  shows "sec p = sec pd" "pd_state p = pd_state pd"
  using assms by (auto simp: cp_drain_queue_def Let_def view_outer [OF drain_outer])

lemma modify_sec:
  assumes m: "cp_modify_flag fl v pd = Some p" and ok: "cp_secure_ok pd"
    and e: "api_flag fl OSDP_FLAG_ENFORCE_SECURE \<Longrightarrow> \<not> is_install_mode pd \<and>
       (pd_state pd = OSDP_CP_STATE_ONLINE \<longrightarrow> sc_is_active pd \<and> \<not> sc_use_scbkd pd)"
  shows "cp_secure_ok p"
proof -
  have k: "is_cp_mode p = is_cp_mode pd" "sc_is_active p = sc_is_active pd" "sc_use_scbkd p = sc_use_scbkd pd"
    "sc_was_established p = sc_was_established pd" "is_install_mode p = is_install_mode pd" "pd_state p = pd_state pd"
    "is_enforce_secure p \<Longrightarrow> is_enforce_secure pd \<or> api_flag fl OSDP_FLAG_ENFORCE_SECURE"
    using m by (auto simp: cp_modify_flag_def Let_def SET_FLAG_V_def flag_defs split: if_splits)
  then show ?thesis using ok e by (auto simp: cp_secure_ok_def sc_sane_def in_session_def)
qed

lemma step_secure: "cp_step crc pd pd' \<Longrightarrow> cp_secure_ok pd \<Longrightarrow> cp_secure_ok pd'"
proof (induction rule: cp_step.induct)
  case (refresh pd pd') then show ?case by (rule state_update_secure)
next
  case (submit n cmd pd r pd') then show ?case using submit_sec secure_cong by blast
next
  case (flush st pd n pd') then show ?case using drain_sec secure_cong by blast
next
  case (cancel_file pd r pd') then show ?case using secure_outer outer_file_cancel [of pd] by (metis snd_conv)
next
  case (cancel_piv pd m r pd') then show ?case using secure_outer outer_piv_cancel [of pd m] by (metis snd_conv)
next
  case (cancel_bio pd r pd') then show ?case using secure_outer outer_bio_cancel [of pd] by (metis snd_conv)
next
  case (disable pd r pd')
  then show ?case using secure_outer [of pd' pd] by (auto simp: cp_disable_pd_def split: if_splits)
next
  case (enable pd r pd')
  then show ?case using secure_outer [of pd' pd] by (auto simp: cp_enable_pd_def split: if_splits)
next
  case (modify_flag fl v pd pd') then show ?case using modify_sec by blast
next
  case (bus pd c) then show ?case using secure_cong [of "pd\<lparr>pd_ctx := c\<rparr>" pd] by simp
next
  case (app pd w) then show ?case using secure_cong [of "pd\<lparr>pd_app := w\<rparr>" pd] by simp
qed

lemma steps_secure: "cp_steps crc pd pd' \<Longrightarrow> cp_secure_ok pd \<Longrightarrow> cp_secure_ok pd'"
  by (induction rule: rtranclp_induct) (auto intro: step_secure)

text \<open>A PD as \<open>cp_add_pd\<close> sets it up.\<close>

lemma set_if_isset [simp]:
  "f < 32 \<Longrightarrow> g < 32 \<Longrightarrow> ISSET_FLAG (set_if v g pd) f \<longleftrightarrow> f = g \<and> v \<or> ISSET_FLAG pd f"
  by (simp add: set_if_def)

lemma setup_secure:
  assumes "cp_setup_pd skip i info fresh = Some pd" "pd_state fresh \<noteq> OSDP_CP_STATE_ONLINE"
  shows "cp_secure_ok pd"
proof -
  have z: "\<not> ISSET_FLAG (x\<lparr>pd_flags := 0\<rparr>) f" if "f < 32" for x :: "'a osdp_dev" and f
    using that by (simp add: ISSET_FLAG_bit)
  have cq: "ISSET_FLAG (x\<lparr>pd_cmd_queue := q\<rparr>) f = ISSET_FLAG x f" for x :: "'a osdp_dev" and q f
    by (rule ISSET_FLAG_cong) simp
  have st: "pd_state (set_if v g x) = pd_state x" for v g and x :: "'a osdp_dev" by (simp add: set_if_def)
  show ?thesis
    using assms
    by (auto simp: cp_setup_pd_def cp_collect_init_flags_def init_flags_conflict_def Let_def cp_secure_ok_def
        sc_sane_def in_session_def flag_defs z cq st split: if_splits option.splits)
qed

subsection \<open>The promises\<close>

definition cp_online_example :: "nat osdp_dev" where
  "cp_online_example =
     (SET_FLAG PD_FLAG_ENFORCE_SECURE (SET_FLAG PD_FLAG_SC_ACTIVE (SET_FLAG PD_FLAG_SC_CAPABLE
        (SET_FLAG PD_FLAG_SC_ESTABLISHED (dev_zero no_callbacks 0)))))\<lparr>pd_state := OSDP_CP_STATE_ONLINE\<rparr>"

lemma dev_zero_link [simp]:
  "pd_phy_state (dev_zero cb w) = OSDP_CP_PHY_STATE_IDLE" "pd_tstamp (dev_zero cb w) = 0"
  "pd_wait_ms (dev_zero cb w) = 0" "pd_sc_tstamp (dev_zero cb w) = 0" "ch_now (pd_channel (dev_zero cb w)) = 0"
  "pd_state (dev_zero cb w) = OSDP_CP_STATE_INIT" "pd_baud_rate (dev_zero cb w) = 0"
  by (simp_all add: dev_zero_def osdp_pd.defs osdp_dev.defs pd_zero_def)

lemma flag_dev [simp]:
  fixes pd :: "('w, 'z) osdp_dev_scheme"
  shows "pd_cmd_queue (SET_FLAG f pd) = pd_cmd_queue pd" "pd_file (SET_FLAG f pd) = pd_file pd"
    "pd_piv (SET_FLAG f pd) = pd_piv pd" "pd_bio (SET_FLAG f pd) = pd_bio pd" "pd_active_cmd (SET_FLAG f pd) = pd_active_cmd pd"
    "pd_cb (SET_FLAG f pd) = pd_cb pd" "pd_app (SET_FLAG f pd) = pd_app pd" "pd_engine_cmd (SET_FLAG f pd) = pd_engine_cmd pd"
  by (simp_all add: SET_FLAG_def)

lemma dev_zero_flag [simp]: "f < 32 \<Longrightarrow> \<not> ISSET_FLAG (dev_zero cb w) f"
  by (simp add: ISSET_FLAG_bit)

lemma pd_zero_now [simp]: "ch_now (ctx_channel (pd_ctx (pd_zero sh))) = 0"
  by (simp add: pd_zero_def)

text \<open>A pass over an idle device that has nothing to send.\<close>

lemma idle_pass:
  assumes "pd_phy_state pd = OSDP_CP_PHY_STATE_IDLE" "pd_state pd = OSDP_CP_STATE_ONLINE" "pd_cmd_queue pd = []"
    "pd_file pd = None" "pd_piv pd = None" "pd_bio pd = None" "osdp_millis_since pd (pd_tstamp pd) \<le> OSDP_PD_POLL_TIMEOUT_MS"
    "pd_request pd = 0" "\<not> cp_sc_should_retry pd"
  shows "state_update crc pd = Some (pd\<lparr>pd_cmd_id := -1\<rparr>)"
proof -
  have s: "cp_sc_should_retry (pd\<lparr>pd_cmd_id := -1\<rparr>) = cp_sc_should_retry pd"
    by (simp add: cp_sc_should_retry_def flag_defs osdp_millis_since_def osdp_millis_now_def)
  have g: "state_get_cmd pd = Some (-1, pd)"
    using assms by (simp add: state_get_cmd_def cp_get_online_command_def cp_get_engine_command_def
        cp_get_poll_command_def osdp_file_tx_get_command_def osdp_piv_cp_get_command_def osdp_bio_cp_get_command_def)
  have c: "check_request r (pd\<lparr>pd_cmd_id := -1\<rparr>) = (False, pd\<lparr>pd_cmd_id := -1\<rparr>)" for r
    using assms(8) by (simp add: check_request_def)
  have "cp_finish_pass 0 (pd\<lparr>pd_cmd_id := -1\<rparr>) = pd\<lparr>pd_cmd_id := -1\<rparr>"
    using assms s unfolding cp_finish_pass_def cp_pick_next_def cp_session_requests_def c
    by (simp add: Let_def c cp_transition_effects_def get_next_state_def get_next_ok_state_def)
  then show ?thesis
    using assms by (simp add: state_update_def cp_phy_running_def cp_phy_bus_is_busy_def cp_after_phy_def g)
qed

text \<open>
  C12. A PD under ENFORCE_SECURE is online only in a secure channel keyed with its own key:
  whatever the application calls, the other PDs of the bus and the received bytes do, a CP that
  starts from a sane state (a PD as set up is one) never has such a PD online in plain text or
  with the default key.
\<close>

theorem cp_enforce_secure_online:
  assumes "cp_steps crc pd pd'" "cp_secure_ok pd"
    and "is_enforce_secure pd'" "pd_state pd' = OSDP_CP_STATE_ONLINE"
  shows "sc_is_active pd' \<and> \<not> sc_use_scbkd pd'"
  using steps_secure [OF assms(1,2)] assms(3,4) by (simp add: cp_secure_ok_def in_session_def)

lemma online_example:
  "cp_secure_ok cp_online_example" "state_update crc cp_online_example = Some (cp_online_example\<lparr>pd_cmd_id := -1\<rparr>)"
proof -
  show "cp_secure_ok cp_online_example"
    by (simp add: cp_online_example_def cp_secure_ok_def sc_sane_def in_session_def flag_defs)
  show "state_update crc cp_online_example = Some (cp_online_example\<lparr>pd_cmd_id := -1\<rparr>)"
    by (rule idle_pass)
      (simp_all add: cp_online_example_def osdp_millis_since_def osdp_millis_now_def cp_sc_should_retry_def flag_defs)
qed

theorem cp_enforce_secure_online_witness:
  "sc_is_active (cp_online_example\<lparr>pd_cmd_id := -1\<rparr>) \<and> \<not> sc_use_scbkd (cp_online_example\<lparr>pd_cmd_id := -1\<rparr>)"
proof (rule cp_enforce_secure_online)
  show "cp_steps (\<lambda>_ _. 0) cp_online_example (cp_online_example\<lparr>pd_cmd_id := -1\<rparr>)"
    by (rule r_into_rtranclp) (rule cp_step.refresh, rule online_example)
qed (simp_all add: online_example, simp_all add: cp_online_example_def flag_defs)



subsection \<open>Where the promise ends\<close>

text \<open>
  ENFORCE_SECURE raised on a PD that is online in plain text is accepted, and the next pass
  leaves the PD online in plain text: nothing restarts the session or takes the PD offline.
\<close>

definition cp_plain_example :: "nat osdp_dev" where
  "cp_plain_example = (dev_zero no_callbacks 0)\<lparr>pd_state := OSDP_CP_STATE_ONLINE\<rparr>"

lemma enforce_raised_too_late:
  "\<exists>pd pd'. cp_modify_flag (BIT OSDP_FLAG_ENFORCE_SECURE) True cp_plain_example = Some pd \<and>
     is_enforce_secure pd \<and> state_update crc pd = Some pd' \<and> is_enforce_secure pd' \<and>
     pd_state pd' = OSDP_CP_STATE_ONLINE \<and> \<not> sc_is_active pd'"
proof -
  define pd where "pd = SET_FLAG PD_FLAG_ENFORCE_SECURE cp_plain_example"
  have m: "cp_modify_flag (BIT OSDP_FLAG_ENFORCE_SECURE) True cp_plain_example = Some pd"
    by (simp add: cp_modify_flag_def api_flag_def Let_def pd_def SET_FLAG_V_def cp_plain_example_def)
  have u: "state_update crc pd = Some (pd\<lparr>pd_cmd_id := -1\<rparr>)"
    by (rule idle_pass)
      (simp_all add: pd_def cp_plain_example_def osdp_millis_since_def osdp_millis_now_def cp_sc_should_retry_def flag_defs)
  show ?thesis
    by (rule exI [of _ pd], rule exI [of _ "pd\<lparr>pd_cmd_id := -1\<rparr>"])
      (intro conjI, rule m, simp add: pd_def flag_defs, rule u, simp_all add: pd_def cp_plain_example_def flag_defs)
qed

text \<open>
  In install mode a reply alone selects the default key: a security block of the type a CP
  sends, with 0 in its data byte, sets the flag on the CP too, on a PD that was secure before.
\<close>

lemma reply_selects_default_key:
  assumes "has_ctl PKT_CONTROL_SCB b" "pkt_data b 1 = SCS_11" "pkt_data b 2 = 0" "is_cp_mode pd" "is_install_mode pd"
  shows "fst (phy_decode_scb pd b len) \<noteq> None" "sc_use_scbkd (snd (phy_decode_scb pd b len))"
    "sc_was_established (snd (phy_decode_scb pd b len)) = sc_was_established pd"
  using assms by (simp_all add: phy_decode_scb_def Let_def flag_defs)

end
