(* ===== verification/Cp_Link.thy ===== *)
theory Cp_Link
  imports Cp_Security
begin

text \<open>
  The CP's link: when a pass returns, and that a command is sent a bounded number of times.  At the
  end, two places where the link does not do what its comments say.
\<close>

subsection \<open>A pass returns\<close>

definition cmd_translates :: "osdp_cmd \<Rightarrow> bool" where
  "cmd_translates cmd \<longleftrightarrow> (case cmd_u cmd of
     OSDP_CMD_FILE_TX _ \<Rightarrow> False | OSDP_CMD_COMSET_DONE _ \<Rightarrow> False | OSDP_CMD_NOTIFICATION _ \<Rightarrow> False
   | OSDP_CMD_PIVDATA _ \<Rightarrow> False | OSDP_CMD_GENAUTH _ \<Rightarrow> False | OSDP_CMD_CRAUTH _ \<Rightarrow> False | _ \<Rightarrow> True)"

lemma translate_total: "(\<exists>r. cp_translate_cmd pd (cmd_u cmd) = Some r) \<longleftrightarrow> cmd_translates cmd"
  by (cases "cmd_u cmd") (simp_all add: cmd_translates_def)

lemma baud_build: "pd_baud_rate (snd (cp_build_packet crc pd)) = pd_baud_rate pd"
proof -
  have c: "pd_baud_rate (snd (snd (cp_build_command p cmd buf n))) = pd_baud_rate p"
    for p :: "('a, 'b) osdp_dev_scheme" and cmd buf n
  proof -
    have e: "pd_baud_rate (snd (snd (put_engine_command r o' b))) = pd_baud_rate (snd (snd r))"
      for r :: "int \<times> bytes \<times> ('a, 'b) osdp_dev_scheme" and o' b
      by (simp add: put_engine_command_def Let_def case_prod_beta)
    have cc: "pd_baud_rate (osdp_compute_cp_cryptogram q) = pd_baud_rate q" for q :: "('a, 'b) osdp_dev_scheme"
      by (simp add: osdp_compute_cp_cryptogram_def Let_def)
    have "pd_baud_rate (snd (snd (cp_command_body p cmd smb off b r))) = pd_baud_rate p" for smb off b r
      by (simp add: cp_command_body_def Let_def case_prod_beta e cc outerD(4) [OF outer_file_build]
          outerD(4) [OF outer_piv_build] outerD(4) [OF outer_piv_abort] split: option.split)
    then show ?thesis by (simp add: cp_build_command_def Let_def case_prod_beta)
  qed
  have i: "pd_baud_rate (snd (snd (osdp_phy_packet_init p b n))) = pd_baud_rate p" for p :: "('a, 'b) osdp_dev_scheme" and b n
    using phy_restD(3) [OF viewD(1) [OF sec_packet_init]] by (metis prod.collapse)
  have f: "pd_baud_rate (snd (snd (osdp_phy_finalize_packet crc p b l n))) = pd_baud_rate p"
    for p :: "('a, 'b) osdp_dev_scheme" and b l n
    using phy_restD(3) [OF viewD(1) [OF view_finalize]] by (metis prod.collapse)
  have t: "pd_baud_rate (put_packet_bytes x p) = pd_baud_rate p" for x and p :: "('a, 'b) osdp_dev_scheme"
    by (simp add: put_packet_bytes_def)
  show ?thesis
    by (simp add: cp_build_packet_def Let_def case_prod_beta c i f t)
qed

lemma send_total:
  assumes "pd_baud_rate pd \<noteq> 0"
  shows "\<exists>err p. cp_phy_send pd = Some (err, p)"
proof -
  obtain rc q where s: "osdp_phy_send_packet pd (packet_bytes pd) (pd_packet_buf_len pd) = (rc, q)" by (rule prod.exhaust)
  have "pd_baud_rate q = pd_baud_rate pd"
    using s by (auto simp: osdp_phy_send_packet_def osdp_channel_send_def Let_def split: if_splits)
  then have "uint (pd_baud_rate q) \<noteq> 0" using assms by (simp add: uint_0_iff)
  then show ?thesis
    unfolding cp_phy_send_def s prod.case Let_def cp_phy_error_def
    by (simp add: cp_calculate_transmit_time_def Let_def osdp_phy_state_reset_def)
qed

lemma build_and_send_total:
  assumes "pd_baud_rate pd \<noteq> 0"
  shows "\<exists>err p. cp_phy_build_and_send crc pd = Some (err, p)"
proof -
  obtain rc q where b: "cp_build_packet crc pd = (rc, q)" by (rule prod.exhaust)
  have "pd_baud_rate q \<noteq> 0" using assms baud_build [of crc pd] b by simp
  then have "\<exists>err p. cp_phy_send (q\<lparr>pd_phy_state := OSDP_CP_PHY_STATE_SEND_CMD_WAIT\<rparr>) = Some (err, p)"
    by (intro send_total) simp
  then show ?thesis using send_total [of q] \<open>pd_baud_rate q \<noteq> 0\<close>
    by (auto simp: cp_phy_build_and_send_def cp_phy_error_def b)
qed

text \<open>What a reply cannot be decoded from is a decryption that runs away.\<close>

definition cp_reply_runs_away :: "crc16 \<Rightarrow> 'z osdp_pd_scheme \<Rightarrow> bool" where
  "cp_reply_runs_away crc pd \<longleftrightarrow> pd_phy_state pd = OSDP_CP_PHY_STATE_REPLY_WAIT \<and> osdp_rx_runs_away crc pd"

lemma process_reply_None: "cp_process_reply crc pd = None \<longleftrightarrow> osdp_rx_runs_away crc pd"
  by (simp add: cp_process_reply_def osdp_rx_runs_away_def Let_def decode_packet_None [symmetric]
      split: prod.split option.split)

lemma reply_wait_None: "cp_phy_reply_wait crc pd = None \<longleftrightarrow> osdp_rx_runs_away crc pd"
  by (simp add: cp_phy_reply_wait_def process_reply_None [symmetric] split: option.split)

lemma phy_update_None:
  assumes "pd_baud_rate pd \<noteq> 0"
  shows "cp_phy_state_update crc pd = None \<longleftrightarrow> cp_reply_runs_away crc pd"
proof -
  have "pd_baud_rate (cp_phy_rewind pd) \<noteq> 0" using assms by (simp add: cp_phy_rewind_def Let_def)
  then have "cp_phy_build_and_send crc (cp_phy_rewind pd) \<noteq> None" using build_and_send_total by fastforce
  moreover have "cp_phy_send pd \<noteq> None" "cp_phy_build_and_send crc pd \<noteq> None"
    using send_total [OF assms] build_and_send_total [OF assms] by fastforce+
  ultimately show ?thesis
    by (cases "pd_phy_state pd") (simp_all add: cp_phy_state_update_def cp_reply_runs_away_def reply_wait_None)
qed

text \<open>The states the link's step ends in.\<close>

lemma phy_update_state:
  assumes "cp_phy_state_update crc pd = Some (err, p)" "cp_phy_running pd"
    and "err \<noteq> OSDP_CP_ERR_INPROG" "err \<noteq> OSDP_CP_ERR_DEFER"
  shows "pd_phy_state p \<in> {OSDP_CP_PHY_STATE_DONE, OSDP_CP_PHY_STATE_ERR}"
  using assms
  by (cases "pd_phy_state pd")
    (auto simp: cp_phy_state_update_def cp_phy_build_and_send_def cp_phy_send_def cp_phy_error_def cp_phy_running_def
      cp_phy_bus_is_busy_def cp_phy_reply_wait_def cp_phy_state_done_def cp_phy_state_wait_def Let_def
      split: if_splits prod.splits option.splits)

lemma get_cmd_total:
  assumes "\<forall>cmd \<in> set (pd_cmd_queue pd). cmd_translates cmd"
  shows "\<exists>c p. state_get_cmd pd = Some (c, p)"
proof (cases "pd_cmd_queue pd")
  case Nil
  obtain c p where "cp_get_engine_command pd = (c, p)" by (rule prod.exhaust)
  then show ?thesis
    using Nil by (cases "pd_state pd") (simp_all add: state_get_cmd_def cp_get_online_command_def)
next
  case (Cons cmd q)
  obtain r where "cp_translate_cmd (pd\<lparr>pd_cmd_queue := q\<rparr>) (cmd_u cmd) = Some r"
    using translate_total assms Cons by (metis list.set_intros(1))
  then show ?thesis
    using Cons by (cases "pd_state pd") (simp_all add: state_get_cmd_def cp_get_online_command_def cp_setup_active_cmd_def Let_def)
qed

lemma after_phy_total:
  assumes "\<forall>cmd \<in> set (pd_cmd_queue pd). cmd_translates cmd"
    and "pd_phy_state pd \<in> {OSDP_CP_PHY_STATE_IDLE, OSDP_CP_PHY_STATE_DONE, OSDP_CP_PHY_STATE_ERR}"
  shows "\<exists>p. cp_after_phy pd = Some p"
  using assms(2) get_cmd_total [OF assms(1)] by (auto simp: cp_after_phy_def Let_def split: prod.split)

text \<open>
  C14. A pass of the CP's state machine returns, whatever is in its buffers and queues, except
  in one case.  As long as the PD's baud rate is not zero and no queued command is of a kind
  that only engines and the library use, no \<open>BUG()\<close> and no division by zero is reached; the pass
  runs away exactly when it waits for a reply and the packet at hand is a session packet of kind
  SCS_17 or SCS_18 with the right authentication code whose security block leaves a negative
  multiple of 16 bytes to decrypt.
\<close>

theorem cp_pass_returns:
  assumes "is_cp_mode pd" "pd_baud_rate pd \<noteq> 0" "\<forall>cmd \<in> set (pd_cmd_queue pd). cmd_translates cmd"
  shows "(\<exists>pd'. state_update crc pd = Some pd') \<longleftrightarrow> \<not> cp_reply_runs_away crc pd"
proof (cases "cp_phy_running pd")
  case False
  then have "pd_phy_state pd \<in> {OSDP_CP_PHY_STATE_IDLE, OSDP_CP_PHY_STATE_DONE, OSDP_CP_PHY_STATE_ERR}"
    by (cases "pd_phy_state pd") (simp_all add: cp_phy_running_def cp_phy_bus_is_busy_def)
  then show ?thesis
    using after_phy_total [OF assms(3)] False by (auto simp: state_update_def cp_reply_runs_away_def)
next
  case True
  show ?thesis
  proof (cases "cp_phy_state_update crc pd")
    case None
    then have "cp_reply_runs_away crc pd" using phy_update_None [OF assms(2)] by blast
    then show ?thesis using None True by (simp add: state_update_def)
  next
    case (Some r)
    obtain err p where u: "cp_phy_state_update crc pd = Some (err, p)" using Some by (metis prod.exhaust)
    have "pd_cmd_queue p = pd_cmd_queue pd" using phy_update_view(1) [OF assms(1) u] by (simp add: cpx_def)
    then have "\<exists>pd'. state_update crc pd = Some pd'"
      using after_phy_total [of p] phy_update_state [OF u True] assms(3) u True by (auto simp: state_update_def)
    then show ?thesis using u phy_update_None [OF assms(2), of crc] by auto
  qed
qed

definition cp_busy_example :: "nat osdp_dev" where
  "cp_busy_example = (dev_zero no_callbacks 0)\<lparr>pd_state := OSDP_CP_STATE_ONLINE, pd_baud_rate := 9600,
     pd_cmd_queue := [\<lparr>cmd_flags = 0, cmd_u = OSDP_CMD_BUZZER \<lparr>buzzer_reader = 0, buzzer_control_code = 2,
       buzzer_on_count = 1, buzzer_off_count = 1, buzzer_rep_count = 3\<rparr>\<rparr>]\<rparr>"

lemma flag_queue: "ISSET_FLAG (pd\<lparr>pd_cmd_queue := q\<rparr>) f = ISSET_FLAG pd f"
  by (rule ISSET_FLAG_cong) simp

theorem cp_pass_returns_witness: "\<exists>pd'. state_update (\<lambda>_ _. 0) cp_busy_example = Some pd'"
  by (rule cp_pass_returns [THEN iffD2]) (simp_all add: cp_reply_runs_away_def cp_busy_example_def flag_defs cmd_translates_def flag_queue)

subsection \<open>How often a command is sent\<close>

text \<open>
  One command on its way, from the kick with \<open>k\<close> retries already on the counter: \<open>n\<close> counts
  the packets handed to the channel.  Between the passes the surroundings move the clock, the
  channel and the buffers as they like.
\<close>

inductive cp_exchange :: "crc16 \<Rightarrow> int \<Rightarrow> int \<Rightarrow> ('w, 'z) osdp_dev_scheme \<Rightarrow> bool" for crc k where
  kick: "is_cp_mode pd \<Longrightarrow> pd_phy_state pd = OSDP_CP_PHY_STATE_SEND_CMD \<Longrightarrow> pd_phy_retry_count pd = k \<Longrightarrow> cp_exchange crc k 0 pd"
| pass: "cp_exchange crc k n pd \<Longrightarrow> cp_phy_running pd \<Longrightarrow> cp_phy_state_update crc pd = Some (err, pd') \<Longrightarrow>
    m = n + (if pd_phy_state pd \<noteq> OSDP_CP_PHY_STATE_REPLY_WAIT \<and> pd_phy_state pd' = OSDP_CP_PHY_STATE_REPLY_WAIT then 1 else 0) \<Longrightarrow>
    cp_exchange crc k m pd'"
| outside: "cp_exchange crc k n pd \<Longrightarrow> is_cp_mode pd' \<Longrightarrow> pd_phy_state pd' = pd_phy_state pd \<Longrightarrow>
    pd_phy_retry_count pd' = pd_phy_retry_count pd \<Longrightarrow> cp_exchange crc k n pd'"

text \<open>What a pass does to the counter.\<close>

lemma send_count:
  assumes "cp_phy_send pd = Some (err, p)" "pd_phy_state pd = OSDP_CP_PHY_STATE_SEND_CMD_WAIT"
  shows "pd_phy_retry_count p = pd_phy_retry_count pd" "is_cp_mode p = is_cp_mode pd"
    "pd_phy_state p \<in> {OSDP_CP_PHY_STATE_SEND_CMD_WAIT, OSDP_CP_PHY_STATE_REPLY_WAIT, OSDP_CP_PHY_STATE_ERR}"
proof -
  obtain rc q where s: "osdp_phy_send_packet pd (packet_bytes pd) (pd_packet_buf_len pd) = (rc, q)" by (rule prod.exhaust)
  have "view q = view pd"
    using s by (auto simp: osdp_phy_send_packet_def osdp_channel_send_def Let_def split: if_splits)
  then have q: "pd_phy_retry_count q = pd_phy_retry_count pd" "is_cp_mode q = is_cp_mode pd" "pd_phy_state q = pd_phy_state pd"
    using viewD [of q pd] phy_restD [of q pd] secD [of q pd] by auto
  have r: "pd_phy_retry_count (osdp_phy_state_reset False (osdp_metrics_report m x)) = pd_phy_retry_count x"
    "pd_flags (osdp_phy_state_reset False (osdp_metrics_report m x)) = pd_flags x" for x :: "('a, 'b) osdp_dev_scheme" and m
    by (simp_all add: osdp_phy_state_reset_def osdp_metrics_report_def)
  have c: "pd_flags x = pd_flags y \<Longrightarrow> is_cp_mode x = is_cp_mode y" for x y :: "('a, 'b) osdp_dev_scheme"
    by (simp add: flag_defs ISSET_FLAG_def)
  have cp: "pd_flags p = pd_flags q \<Longrightarrow> is_cp_mode p = is_cp_mode pd" using c [of p q] q(2) by simp
  show "pd_phy_retry_count p = pd_phy_retry_count pd" "is_cp_mode p = is_cp_mode pd"
    "pd_phy_state p \<in> {OSDP_CP_PHY_STATE_SEND_CMD_WAIT, OSDP_CP_PHY_STATE_REPLY_WAIT, OSDP_CP_PHY_STATE_ERR}"
    using assms(1) q cp r unfolding cp_phy_send_def s prod.case
    by (auto simp: cp_phy_error_def assms(2) Let_def split: if_splits option.splits)
qed

lemma build_and_send_count:
  assumes "cp_phy_build_and_send crc pd = Some (err, p)"
  shows "pd_phy_retry_count p = pd_phy_retry_count pd" "is_cp_mode p = is_cp_mode pd"
    "pd_phy_state p \<in> {OSDP_CP_PHY_STATE_SEND_CMD_WAIT, OSDP_CP_PHY_STATE_REPLY_WAIT, OSDP_CP_PHY_STATE_ERR}"
proof -
  obtain rc q where b: "cp_build_packet crc pd = (rc, q)" by (rule prod.exhaust)
  have "cpv q = cpv pd" using cpv_build_packet [of crc pd] b by simp
  then have q: "pd_phy_retry_count q = pd_phy_retry_count pd" "is_cp_mode q = is_cp_mode pd"
    using cpvD(4) [of q pd] secD(2) [OF cpvD(1), of q pd] by auto
  have m: "is_cp_mode (q\<lparr>pd_phy_state := st\<rparr>) = is_cp_mode q" for st by (simp add: flag_defs ISSET_FLAG_def)
  have "pd_phy_retry_count p = pd_phy_retry_count pd \<and> is_cp_mode p = is_cp_mode pd \<and>
      pd_phy_state p \<in> {OSDP_CP_PHY_STATE_SEND_CMD_WAIT, OSDP_CP_PHY_STATE_REPLY_WAIT, OSDP_CP_PHY_STATE_ERR}"
  proof (cases "rc = 0")
    case True
    then have "cp_phy_send (q\<lparr>pd_phy_state := OSDP_CP_PHY_STATE_SEND_CMD_WAIT\<rparr>) = Some (err, p)"
      using assms by (simp add: cp_phy_build_and_send_def b)
    from send_count [OF this] show ?thesis by (simp add: q m)
  qed (use assms q m in \<open>auto simp: cp_phy_build_and_send_def b cp_phy_error_def\<close>)
  then show "pd_phy_retry_count p = pd_phy_retry_count pd" "is_cp_mode p = is_cp_mode pd"
    "pd_phy_state p \<in> {OSDP_CP_PHY_STATE_SEND_CMD_WAIT, OSDP_CP_PHY_STATE_REPLY_WAIT, OSDP_CP_PHY_STATE_ERR}" by auto
qed

lemma reply_wait_count:
  assumes "cp_phy_reply_wait crc pd = Some (err, p)" "is_cp_mode pd" "pd_phy_state pd = OSDP_CP_PHY_STATE_REPLY_WAIT"
  shows "is_cp_mode p"
    "pd_phy_state p \<in> {OSDP_CP_PHY_STATE_DONE, OSDP_CP_PHY_STATE_ERR} \<or>
     pd_phy_state p = OSDP_CP_PHY_STATE_REPLY_WAIT \<and> pd_phy_retry_count p = pd_phy_retry_count pd \<or>
     pd_phy_state p = OSDP_CP_PHY_STATE_WAIT \<and> pd_phy_retry_count p = pd_phy_retry_count pd + 1 \<and>
       pd_phy_retry_count pd < OSDP_CMD_MAX_RETRIES"
proof -
  show "is_cp_mode p" using reply_wait_view(1) [OF assms(2,1)] assms(2) sec_coreD(2) by (auto simp: cpx_def)
  obtain rc q where e: "cp_process_reply crc pd = Some (rc, q)" using assms(1) by (auto simp: cp_phy_reply_wait_def split: option.splits)
  have q: "pd_phy_retry_count q = pd_phy_retry_count pd" "pd_phy_state q = OSDP_CP_PHY_STATE_REPLY_WAIT"
    using cpwD(3,4) [OF process_reply_view(1) [OF assms(2) e]] assms(3) by simp_all
  define q1 where "q1 = (if rc = OSDP_CP_ERR_NONE \<or> rc = OSDP_CP_ERR_APP
                then osdp_phy_progress_sequence (q\<lparr>pd_tstamp := osdp_millis_now q\<rparr>) else q)"
  have "cpv q1 = cpv q" by (simp add: q1_def)
  then have q1: "pd_phy_retry_count q1 = pd_phy_retry_count pd" "pd_phy_state q1 = OSDP_CP_PHY_STATE_REPLY_WAIT"
    using cpvD(3,4) [of q1 q] q by auto
  show "pd_phy_state p \<in> {OSDP_CP_PHY_STATE_DONE, OSDP_CP_PHY_STATE_ERR} \<or>
     pd_phy_state p = OSDP_CP_PHY_STATE_REPLY_WAIT \<and> pd_phy_retry_count p = pd_phy_retry_count pd \<or>
     pd_phy_state p = OSDP_CP_PHY_STATE_WAIT \<and> pd_phy_retry_count p = pd_phy_retry_count pd + 1 \<and>
       pd_phy_retry_count pd < OSDP_CMD_MAX_RETRIES"
    using assms(1) q1 unfolding cp_phy_reply_wait_def e option.case prod.case Let_def q1_def [symmetric]
    by (auto simp: cp_phy_state_done_def cp_phy_state_wait_def cp_phy_error_def Let_def split: if_splits)
qed

definition exchange_bound :: "int \<Rightarrow> int \<Rightarrow> ('w, 'z) osdp_dev_scheme \<Rightarrow> bool" where
  "exchange_bound k n pd \<longleftrightarrow> is_cp_mode pd \<and> n \<le> OSDP_CMD_MAX_RETRIES + 1 - k \<and>
     (cp_phy_running pd \<longrightarrow> pd_phy_retry_count pd \<le> OSDP_CMD_MAX_RETRIES \<and>
        n \<le> pd_phy_retry_count pd - k + (if pd_phy_state pd = OSDP_CP_PHY_STATE_REPLY_WAIT then 1 else 0))"

lemma exchange_pass:
  fixes pd :: "('w, 'z) osdp_dev_scheme"
  assumes b: "exchange_bound k n pd" and r: "cp_phy_running pd" and u: "cp_phy_state_update crc pd = Some (err, pd')"
    and m: "m = n + (if pd_phy_state pd \<noteq> OSDP_CP_PHY_STATE_REPLY_WAIT \<and> pd_phy_state pd' = OSDP_CP_PHY_STATE_REPLY_WAIT then 1 else 0)"
  shows "exchange_bound k m pd'"
proof -
  have rewind: "is_cp_mode (cp_phy_rewind pd) = is_cp_mode pd" "pd_phy_retry_count (cp_phy_rewind pd) = pd_phy_retry_count pd"
    "pd_phy_state (cp_phy_rewind pd) = OSDP_CP_PHY_STATE_SEND_CMD"
    by (simp_all add: cp_phy_rewind_def Let_def flag_defs ISSET_FLAG_def set_channel_def)
  note run = cp_phy_running_def cp_phy_bus_is_busy_def
  show ?thesis
  proof (cases "pd_phy_state pd")
    case OSDP_CP_PHY_STATE_SEND_CMD
    then have "cp_phy_build_and_send crc pd = Some (err, pd')" using u by (simp add: cp_phy_state_update_def)
    from build_and_send_count [OF this] show ?thesis
      using b r m OSDP_CP_PHY_STATE_SEND_CMD by (auto simp: exchange_bound_def run)
  next
    case OSDP_CP_PHY_STATE_SEND_CMD_WAIT
    then have "cp_phy_send pd = Some (err, pd')" using u by (simp add: cp_phy_state_update_def)
    from send_count [OF this] show ?thesis
      using b r m OSDP_CP_PHY_STATE_SEND_CMD_WAIT by (auto simp: exchange_bound_def run)
  next
    case OSDP_CP_PHY_STATE_RETRY_CMD
    then have "cp_phy_build_and_send crc (cp_phy_rewind pd) = Some (err, pd')" using u by (simp add: cp_phy_state_update_def)
    from build_and_send_count [OF this] show ?thesis
      using b r m rewind OSDP_CP_PHY_STATE_RETRY_CMD by (auto simp: exchange_bound_def run)
  next
    case OSDP_CP_PHY_STATE_REPLY_WAIT
    then have "cp_phy_reply_wait crc pd = Some (err, pd')" using u by (simp add: cp_phy_state_update_def)
    from reply_wait_count [OF this _ OSDP_CP_PHY_STATE_REPLY_WAIT] show ?thesis
      using b r m OSDP_CP_PHY_STATE_REPLY_WAIT by (auto simp: exchange_bound_def run)
  qed (use u b r m in \<open>auto simp: cp_phy_state_update_def exchange_bound_def run flag_defs ISSET_FLAG_def split: if_splits\<close>)
qed

text \<open>
  C15.  A command is sent a bounded number of times: whatever the PD answers or fails to answer,
  from the moment the command is kicked until its exchange is over the packet goes to the
  channel at most once and then once per retry the counter still allows, nine times in all.
\<close>

theorem cp_sends_bounded:
  assumes "cp_exchange crc k n pd" "k \<le> OSDP_CMD_MAX_RETRIES"
  shows "n \<le> OSDP_CMD_MAX_RETRIES + 1 - k"
proof -
  have "exchange_bound k n pd" using assms(1)
  proof induction
    case (kick pd)
    then show ?case using assms(2) by (simp add: exchange_bound_def)
  next
    case (pass n pd err pd' m)
    then show ?case using exchange_pass by blast
  next
    case (outside n pd pd')
    then show ?case by (simp add: exchange_bound_def cp_phy_running_def cp_phy_bus_is_busy_def)
  qed
  then show ?thesis by (simp add: exchange_bound_def)
qed

theorem cp_sends_bounded_witness:
  "\<exists>err pd. cp_phy_state_update (\<lambda>_ _. 0) (cp_busy_example\<lparr>pd_phy_state := OSDP_CP_PHY_STATE_SEND_CMD\<rparr>) = Some (err, pd) \<and>
     (if pd_phy_state pd = OSDP_CP_PHY_STATE_REPLY_WAIT then 1 else 0) \<le> (9::int)"
proof -
  define p where "p = cp_busy_example\<lparr>pd_phy_state := OSDP_CP_PHY_STATE_SEND_CMD\<rparr>"
  have p: "is_cp_mode p" "pd_phy_state p = OSDP_CP_PHY_STATE_SEND_CMD" "pd_phy_retry_count p = 0" "pd_baud_rate p \<noteq> 0"
    by (simp_all add: p_def cp_busy_example_def flag_defs flag_queue dev_zero_def osdp_pd.defs osdp_dev.defs pd_zero_def ISSET_FLAG_def)
  obtain err pd where u: "cp_phy_state_update (\<lambda>_ _. 0) p = Some (err, pd)"
    using phy_update_None [OF p(4), of "\<lambda>_ _. 0"] p(2) by (auto simp: cp_reply_runs_away_def)
  have "cp_exchange (\<lambda>_ _. 0) 0 (if pd_phy_state pd = OSDP_CP_PHY_STATE_REPLY_WAIT then 1 else 0) pd"
    by (rule cp_exchange.pass [OF cp_exchange.kick [OF p(1,2,3)] _ u]) (simp_all add: p(2) cp_phy_running_def cp_phy_bus_is_busy_def)
  then show ?thesis using u cp_sends_bounded [of "\<lambda>_ _. 0" 0] by (auto simp: p_def)
qed

subsection \<open>Where the link does not do what it says\<close>

text \<open>
  The wait for a reply allows no time for the transmission: the packet's length is gone when the
  time it takes is computed.
\<close>

lemma no_transmit_time:
  assumes "cp_phy_send pd = Some (OSDP_CP_ERR_INPROG, p)"
  shows "pd_resp_timeout_ms p = OSDP_RESP_TOUT_MS"
proof -
  have t: "cp_calculate_transmit_time x = Some t \<Longrightarrow> pd_packet_buf_len x = 0 \<Longrightarrow> t = 0" for x :: "('a, 'b) osdp_dev_scheme" and t
  proof -
    assume a: "cp_calculate_transmit_time x = Some t" "pd_packet_buf_len x = 0"
    define b where "b = uint (pd_baud_rate x)"
    have b: "0 \<le> b" "b < 2 ^ 32" using uint_lt2p [of "pd_baud_rate x"] by (auto simp: b_def)
    have n: "b \<noteq> 0" using a by (auto simp: cp_calculate_transmit_time_def Let_def b_def split: if_splits)
    have "(b - 1) mod 2 ^ 64 div b = 0" using b n by simp
    then show "t = 0" using a n by (simp add: cp_calculate_transmit_time_def Let_def b_def [symmetric])
  qed
  show ?thesis
    using assms t by (auto simp: cp_phy_send_def cp_phy_error_def osdp_phy_state_reset_def case_prod_beta Let_def split: if_splits option.splits)
qed

text \<open>An exchange that ends in an error leaves its retries on the counter for the next command.\<close>

lemma error_keeps_retries:
  assumes "cp_phy_reply_wait crc pd = Some (OSDP_CP_ERR_GENERIC, p)" "is_cp_mode pd" "pd_phy_state pd = OSDP_CP_PHY_STATE_REPLY_WAIT"
  shows "pd_phy_retry_count p = pd_phy_retry_count pd"
proof -
  obtain rc q where e: "cp_process_reply crc pd = Some (rc, q)" using assms(1) by (auto simp: cp_phy_reply_wait_def split: option.splits)
  have q: "pd_phy_retry_count q = pd_phy_retry_count pd" using cpwD(4) [OF process_reply_view(1) [OF assms(2) e]] .
  have "cpv (osdp_phy_progress_sequence (q\<lparr>pd_tstamp := t\<rparr>)) = cpv q" for t by simp
  then have s: "pd_phy_retry_count (osdp_phy_progress_sequence (q\<lparr>pd_tstamp := t\<rparr>)) = pd_phy_retry_count pd" for t
    using cpvD(4) q by metis
  show ?thesis using assms(1) unfolding cp_phy_reply_wait_def e option.case prod.case Let_def
    by (auto simp: cp_phy_error_def q s split: if_splits)
qed

end
