(* ===== verification/Pd_Decode.thy ===== *)
theory Pd_Decode
  imports Cp_Api
begin

text \<open>
  The PD's incoming side, the first part of src/src/osdp_pd.c: the event queue, the checks on a
  command before the application sees it, the application's verdict, and the decoder
  (pd_decode_command).  A build without transparent mode, the default, is modelled:
  \<open>osdp_trs_cmd_decode\<close> is the stub that returns -1.

  \<open>None\<close> is a process stopped by \<open>BUG()\<close>.  A command callback may write to the member of the
  command's union that the command is about, and the library reads it back from there.
\<close>

abbreviation (input) OSDP_PD_ERR_NONE :: int where "OSDP_PD_ERR_NONE \<equiv> 0"
abbreviation (input) OSDP_PD_ERR_WAIT :: int where "OSDP_PD_ERR_WAIT \<equiv> - 1"
abbreviation (input) OSDP_PD_ERR_GENERIC :: int where "OSDP_PD_ERR_GENERIC \<equiv> - 2"
abbreviation (input) OSDP_PD_ERR_REPLY :: int where "OSDP_PD_ERR_REPLY \<equiv> - 3"
abbreviation (input) OSDP_PD_ERR_IGNORE :: int where "OSDP_PD_ERR_IGNORE \<equiv> - 4"
abbreviation (input) OSDP_PD_ERR_NO_DATA :: int where "OSDP_PD_ERR_NO_DATA \<equiv> - 5"
abbreviation (input) OSDP_PD_ERR_RETRY_SEND :: int where "OSDP_PD_ERR_RETRY_SEND \<equiv> - 6"

abbreviation (input) OSDP_CARD_FMT_RAW_UNSPECIFIED :: int where "OSDP_CARD_FMT_RAW_UNSPECIFIED \<equiv> 0"
abbreviation (input) OSDP_CARD_FMT_RAW_WIEGAND :: int where "OSDP_CARD_FMT_RAW_WIEGAND \<equiv> 1"

subsection \<open>Events\<close>

definition pd_complete_event ::
  "osdp_event option \<Rightarrow> osdp_completion_status \<Rightarrow> ('w, 'z) osdp_dev_scheme \<Rightarrow> ('w, 'z) osdp_dev_scheme" where
  "pd_complete_event e status pd =
     (case (e, event_completion_callback (pd_cb pd)) of
        (Some ev, Some cb) \<Rightarrow>
          osdp_metrics_report OSDP_METRIC_EVENT (pd\<lparr>pd_app := cb ev status (pd_app pd)\<rparr>)
      | _ \<Rightarrow> pd)"

fun event_is_reply_to :: "int \<Rightarrow> osdp_event \<Rightarrow> bool" where
  "event_is_reply_to c (OSDP_EVENT_MFGREP _) = (c = CMD_MFG)"
| "event_is_reply_to c (OSDP_EVENT_MFGSTATR _) = (c = CMD_MFG)"
| "event_is_reply_to c (OSDP_EVENT_MFGERRR _) = (c = CMD_MFG)"
| "event_is_reply_to c (OSDP_EVENT_BIOREADR _) = (c = CMD_BIOREAD)"
| "event_is_reply_to c (OSDP_EVENT_BIOMATCHR _) = (c = CMD_BIOMATCH)"
| "event_is_reply_to c (OSDP_EVENT_PIVDATAR _) = (c = CMD_PIVDATA)"
| "event_is_reply_to c (OSDP_EVENT_GENAUTHR _) = (c = CMD_GENAUTH)"
| "event_is_reply_to c (OSDP_EVENT_CRAUTHR _) = (c = CMD_CRAUTH)"
| "event_is_reply_to c (OSDP_EVENT_STATUS s) =
     (case status_type s of
        OSDP_STATUS_REPORT_OUTPUT \<Rightarrow> c = CMD_OUT \<or> c = CMD_OSTAT
      | OSDP_STATUS_REPORT_LOCAL \<Rightarrow> c = CMD_LSTAT
      | OSDP_STATUS_REPORT_INPUT \<Rightarrow> c = CMD_ISTAT
      | OSDP_STATUS_REPORT_READER \<Rightarrow> c = CMD_RSTAT)"
| "event_is_reply_to c _ = False"

fun status_reply :: "osdp_status_report_type \<Rightarrow> int" where
  "status_reply OSDP_STATUS_REPORT_INPUT = REPLY_ISTATR"
| "status_reply OSDP_STATUS_REPORT_OUTPUT = REPLY_OSTATR"
| "status_reply OSDP_STATUS_REPORT_LOCAL = REPLY_LSTATR"
| "status_reply OSDP_STATUS_REPORT_READER = REPLY_RSTATR"

fun pd_translate_event :: "osdp_event \<Rightarrow> int option" where
  "pd_translate_event (OSDP_EVENT_CARDREAD e) =
     (if cardread_format e = OSDP_CARD_FMT_RAW_UNSPECIFIED \<or> cardread_format e = OSDP_CARD_FMT_RAW_WIEGAND
      then Some REPLY_RAW else None)"
| "pd_translate_event (OSDP_EVENT_KEYPRESS _) = Some REPLY_KEYPAD"
| "pd_translate_event (OSDP_EVENT_STATUS s) = Some (status_reply (status_type s))"
| "pd_translate_event (OSDP_EVENT_MFGREP _) = Some REPLY_MFGREP"
| "pd_translate_event (OSDP_EVENT_MFGSTATR _) = Some REPLY_MFGSTATR"
| "pd_translate_event (OSDP_EVENT_MFGERRR _) = Some REPLY_MFGERRR"
| "pd_translate_event (OSDP_EVENT_BIOREADR _) = Some REPLY_BIOREADR"
| "pd_translate_event (OSDP_EVENT_BIOMATCHR _) = Some REPLY_BIOMATCHR"
| "pd_translate_event (OSDP_EVENT_PIVDATAR _) = Some REPLY_PIVDATAR"
| "pd_translate_event (OSDP_EVENT_GENAUTHR _) = Some REPLY_GENAUTHR"
| "pd_translate_event (OSDP_EVENT_CRAUTHR _) = Some REPLY_CRAUTHR"
| "pd_translate_event (OSDP_EVENT_NOTIFICATION _) = None"

lemma reply_event_translates: "event_is_reply_to c ev \<Longrightarrow> pd_translate_event ev \<noteq> None"
  by (cases ev) simp_all

text \<open>The events an inline reply can be have a reply code, so the default is never taken.\<close>

definition pd_take_inline_reply :: "('w, 'z) osdp_dev_scheme \<Rightarrow> bool \<times> ('w, 'z) osdp_dev_scheme" where
  "pd_take_inline_reply pd =
     (case pd_event_queue pd of
        [] \<Rightarrow> (False, pd)
      | ev # q \<Rightarrow>
          if event_is_reply_to (pd_cmd_id pd) ev
          then (True, pd\<lparr>pd_event_queue := q, pd_active_event := Some ev,
                         pd_reply_id := (case pd_translate_event ev of Some r \<Rightarrow> r | None \<Rightarrow> REPLY_ACK)\<rparr>)
          else (False, pd))"

subsection \<open>The command checked and handed over\<close>

fun valid_cmd_codes :: "osdp_cmd_u \<Rightarrow> bool" where
  "valid_cmd_codes (OSDP_CMD_OUTPUT c) \<longleftrightarrow> output_control_code c < 7"
| "valid_cmd_codes (OSDP_CMD_LED c) \<longleftrightarrow>
     (let t = led_temporary c; p = led_permanent c
      in ledp_control_code t < 3 \<and> ledp_control_code p < 2 \<and>
         \<not> (ledp_control_code t = 2 \<and> ledp_on_count t = 0 \<and> ledp_off_count t = 0) \<and>
         \<not> (ledp_control_code p = 1 \<and> ledp_on_count p = 0 \<and> ledp_off_count p = 0))"
| "valid_cmd_codes (OSDP_CMD_BUZZER c) \<longleftrightarrow>
     buzzer_control_code c < 3 \<and> \<not> (buzzer_on_count c = 0 \<and> buzzer_control_code c \<noteq> 1)"
| "valid_cmd_codes (OSDP_CMD_TEXT c) \<longleftrightarrow> 1 \<le> text_control_code c \<and> text_control_code c < 5"
| "valid_cmd_codes (OSDP_CMD_TDSET c) \<longleftrightarrow>
     \<not> (tdset_month c < 1 \<or> tdset_month c > 12 \<or> tdset_day c < 1 \<or> tdset_day c > 31 \<or>
        tdset_hour c > 23 \<or> tdset_minute c > 59 \<or> tdset_second c > 59)"
| "valid_cmd_codes _ \<longleftrightarrow> True"

definition validate_command :: "'z osdp_pd_scheme \<Rightarrow> osdp_cmd_u \<Rightarrow> bool" where
  "validate_command pd u \<longleftrightarrow>
     valid_cmd_codes u \<and> \<not> osdp_cmd_reader_no u > uint (num_items (cap_at pd OSDP_PD_CAP_READERS))"

definition pd_nak_code_from_callback :: "int \<Rightarrow> u8" where
  "pd_nak_code_from_callback ret =
     (if - ret = uint OSDP_PD_NAK_BIO_TYPE then OSDP_PD_NAK_BIO_TYPE
      else if - ret = uint OSDP_PD_NAK_BIO_FMT then OSDP_PD_NAK_BIO_FMT else OSDP_PD_NAK_RECORD)"

text \<open>The command as the callback left it comes back with the verdict.\<close>

definition pd_call_app ::
  "osdp_cmd \<Rightarrow> ('w, 'z) osdp_dev_scheme \<Rightarrow> int \<times> osdp_cmd \<times> ('w, 'z) osdp_dev_scheme" where
  "pd_call_app cmd pd =
     (case command_callback (pd_cb pd) of
        None \<Rightarrow> (-1, cmd, pd)
      | Some cb \<Rightarrow> let (ret, cmd, w) = cb cmd (pd_app pd) in (ret, cmd, pd\<lparr>pd_app := w\<rparr>))"

definition do_command_callback ::
  "osdp_cmd \<Rightarrow> ('w, 'z) osdp_dev_scheme \<Rightarrow> bool \<times> osdp_cmd \<times> ('w, 'z) osdp_dev_scheme" where
  "do_command_callback cmd pd =
     (let (ret, cmd, pd) = (if validate_command pd (cmd_u cmd) then pd_call_app cmd pd else (-1, cmd, pd))
      in if ret \<noteq> 0 then (False, cmd, set_nak_code (pd_nak_code_from_callback ret) (pd\<lparr>pd_reply_id := REPLY_NAK\<rparr>))
         else (True, cmd, osdp_metrics_report OSDP_METRIC_COMMAND pd))"

definition cap_has_items :: "'z osdp_pd_scheme \<Rightarrow> nat \<Rightarrow> bool" where
  "cap_has_items pd t \<longleftrightarrow> \<not> (num_items (cap_at pd t) = 0 \<or> compliance_level (cap_at pd t) = 0)"

definition cap_covers :: "'z osdp_pd_scheme \<Rightarrow> nat \<Rightarrow> u8 option \<Rightarrow> bool" where
  "cap_covers pd t i \<longleftrightarrow> compliance_level (cap_at pd t) \<noteq> 0 \<and>
     (case i of None \<Rightarrow> False | Some n \<Rightarrow> \<not> uint n + 1 > uint (num_items (cap_at pd t)))"

definition pd_cap_allows :: "'z osdp_pd_scheme \<Rightarrow> osdp_cmd_u option \<Rightarrow> bool" where
  "pd_cap_allows pd u =
     (let c = pd_cmd_id pd
      in if c = CMD_ISTAT then cap_has_items pd OSDP_PD_CAP_CONTACT_STATUS_MONITORING
         else if c = CMD_OSTAT then cap_has_items pd OSDP_PD_CAP_OUTPUT_CONTROL
         else if c = CMD_OUT
         then cap_covers pd OSDP_PD_CAP_OUTPUT_CONTROL
                (case u of Some (OSDP_CMD_OUTPUT o') \<Rightarrow> Some (output_no o') | _ \<Rightarrow> None)
         else if c = CMD_LED
         then cap_covers pd OSDP_PD_CAP_READER_LED_CONTROL
                (case u of Some (OSDP_CMD_LED l) \<Rightarrow> Some (led_number l) | _ \<Rightarrow> None)
         else if c = CMD_BUZ then cap_has_items pd OSDP_PD_CAP_READER_AUDIBLE_OUTPUT
         else if c = CMD_TEXT then cap_has_items pd OSDP_PD_CAP_READER_TEXT_OUTPUT
         else if c = CMD_TDSET then compliance_level (cap_at pd OSDP_PD_CAP_TIME_KEEPING) \<noteq> 0
         else if c = CMD_BIOREAD \<or> c = CMD_BIOMATCH then cap_has_items pd OSDP_PD_CAP_BIOMETRICS
         else if c = CMD_PIVDATA \<or> c = CMD_GENAUTH \<or> c = CMD_CRAUTH
         then compliance_level (cap_at pd OSDP_PD_CAP_SMART_CARD_SUPPORT) \<noteq> 0
         else if c = CMD_CHLNG \<or> c = CMD_SCRYPT \<or> c = CMD_KEYSET
         then compliance_level (cap_at pd OSDP_PD_CAP_COMMUNICATION_SECURITY) \<noteq> 0
         else False)"

definition pd_nak :: "u8 \<Rightarrow> 'z osdp_pd_scheme \<Rightarrow> 'z osdp_pd_scheme" where
  "pd_nak code pd = set_nak_code code (pd\<lparr>pd_reply_id := REPLY_NAK\<rparr>)"

definition pd_cmd_cap_ok :: "osdp_cmd_u option \<Rightarrow> 'z osdp_pd_scheme \<Rightarrow> bool \<times> 'z osdp_pd_scheme" where
  "pd_cmd_cap_ok u pd =
     (if pd_cap_allows pd u then (True, pd)
      else (False, pd_nak (if pd_cmd_id pd \<in> {CMD_CHLNG, CMD_SCRYPT, CMD_KEYSET}
                           then OSDP_PD_NAK_SC_UNSUP else OSDP_PD_NAK_CMD_UNKNOWN) pd))"

subsection \<open>Status replies built during dispatch\<close>

text \<open>The entries a status reply carries; \<open>None\<close> is a report that does not fit the capabilities.\<close>

definition status_entries :: "'z osdp_pd_scheme \<Rightarrow> int \<Rightarrow> osdp_status_report \<Rightarrow> int \<Rightarrow> bytes option" where
  "status_entries pd reply_id s room =
     (let counted = (\<lambda>t. let n = uint (num_items (cap_at pd t))
                         in if status_nr_entries s \<noteq> n \<or> room < n \<or> n > OSDP_STATUS_REPORT_MAX_LEN then None
                            else Some (array_read (nat n) (status_report s)))
      in if reply_id = REPLY_OSTATR then counted OSDP_PD_CAP_OUTPUT_CONTROL
         else if reply_id = REPLY_ISTATR then counted OSDP_PD_CAP_CONTACT_STATUS_MONITORING
         else if reply_id = REPLY_LSTATR
         then if status_nr_entries s < 2 \<or> room < 2 then None else Some (array_read 2 (status_report s))
         else if reply_id = REPLY_RSTATR then counted OSDP_PD_CAP_READERS
         else None)"

text \<open>The staging buffer \<open>tx_buf\<close> is written where it stands; what is received lies elsewhere on a PD.\<close>

definition put_tx_buf :: "bytes \<Rightarrow> 'z osdp_pd_scheme \<Rightarrow> 'z osdp_pd_scheme" where
  "put_tx_buf b pd = pd\<lparr>pd_ctx := (pd_ctx pd)\<lparr>ctx_tx_buf := b\<rparr>\<rparr>"

definition pd_prebuild_status_reply ::
  "crc16 \<Rightarrow> int \<Rightarrow> osdp_status_report \<Rightarrow> ('w, 'z) osdp_dev_scheme \<Rightarrow> int \<times> ('w, 'z) osdp_dev_scheme" where
  "pd_prebuild_status_reply crc reply_id s pd =
     (let size = get_tx_buf_size pd;
          (hdr_len, pkt, pd) = osdp_phy_packet_init pd (ctx_tx_buf (pd_ctx pd)) size
      in if hdr_len < 0 then (-1, put_tx_buf pkt pd)
         else
         let data_off = osdp_phy_packet_get_data_offset pd pkt;
             room = size - int data_off
         in if room \<le> 0 then (-1, put_tx_buf pkt pd)
            else
            let pkt = pkt[data_off := int_byte reply_id]
            in case status_entries pd reply_id s (room - 1) of
                 None \<Rightarrow> (-1, put_tx_buf pkt pd)
               | Some data \<Rightarrow>
                   let pkt = write_at (data_off + 1) data pkt;
                       pd = pd\<lparr>pd_packet_buf := TX_BUF, pd_packet_buf_len := nat hdr_len + 1 + length data\<rparr>;
                       (ret, pkt, pd) = osdp_phy_finalize_packet crc pd pkt (pd_packet_buf_len pd) size;
                       pd = put_tx_buf pkt pd
                   in if ret < 0 then (-1, pd)
                      else (0, pd\<lparr>pd_packet_buf_len := nat ret, pd_reply_prebuilt := True\<rparr>))"

subsection \<open>Notifications\<close>

definition pd_deliver_notification ::
  "osdp_notification \<Rightarrow> ('w, 'z) osdp_dev_scheme \<Rightarrow> ('w, 'z) osdp_dev_scheme" where
  "pd_deliver_notification n pd =
     (case command_callback (pd_cb pd) of
        None \<Rightarrow> pd
      | Some cb \<Rightarrow>
          if \<not> is_notifications_enabled pd then pd
          else osdp_metrics_report OSDP_METRIC_EVENT
                 (pd\<lparr>pd_app := snd (snd (cb \<lparr>cmd_flags = 0, cmd_u = OSDP_CMD_NOTIFICATION n\<rparr> (pd_app pd)))\<rparr>))"

definition pd_notify_pd_status :: "bool \<Rightarrow> ('w, 'z) osdp_dev_scheme \<Rightarrow> ('w, 'z) osdp_dev_scheme" where
  "pd_notify_pd_status is_online pd = pd_deliver_notification (OSDP_NOTIFICATION_PD_STATUS is_online) pd"

definition pd_notify_sc_status :: "('w, 'z) osdp_dev_scheme \<Rightarrow> ('w, 'z) osdp_dev_scheme" where
  "pd_notify_sc_status pd =
     pd_deliver_notification (OSDP_NOTIFICATION_SC_STATUS (sc_is_active pd) (sc_use_scbkd pd)) pd"

definition pd_sc_deactivate :: "('w, 'z) osdp_dev_scheme \<Rightarrow> ('w, 'z) osdp_dev_scheme" where
  "pd_sc_deactivate pd =
     (let was_active = sc_is_active pd; pd = sc_deactivate pd
      in if was_active then pd_notify_sc_status pd else pd)"

subsection \<open>The data blocks of commands\<close>

definition parse_output :: "bytes \<Rightarrow> osdp_cmd_u" where
  "parse_output buf = OSDP_CMD_OUTPUT \<lparr>output_no = buf ! 0, output_control_code = uint (buf ! 1),
     output_timer_count = fst (bread_u16_le buf 2)\<rparr>"

definition parse_led_params :: "bytes \<Rightarrow> u16 \<Rightarrow> osdp_cmd_led_params" where
  "parse_led_params buf timer = \<lparr>ledp_control_code = buf ! 0, ledp_on_count = buf ! 1, ledp_off_count = buf ! 2,
     ledp_on_color = uint (buf ! 3), ledp_off_color = uint (buf ! 4), ledp_timer_count = timer\<rparr>"

definition parse_led :: "bytes \<Rightarrow> osdp_cmd_u" where
  "parse_led buf = OSDP_CMD_LED \<lparr>led_reader = buf ! 0, led_number = buf ! 1,
     led_temporary = parse_led_params (drop 2 buf) (fst (bread_u16_le buf 7)),
     led_permanent = parse_led_params (drop 9 buf) 0\<rparr>"

definition parse_buzzer :: "bytes \<Rightarrow> osdp_cmd_u" where
  "parse_buzzer buf = OSDP_CMD_BUZZER \<lparr>buzzer_reader = buf ! 0, buzzer_control_code = uint (buf ! 1),
     buzzer_on_count = buf ! 2, buzzer_off_count = buf ! 3, buzzer_rep_count = buf ! 4\<rparr>"

text \<open>The arrays of a command are cleared before the decoder fills them.\<close>

definition parse_text :: "bytes \<Rightarrow> osdp_cmd_u" where
  "parse_text buf = OSDP_CMD_TEXT \<lparr>text_reader = buf ! 0, text_control_code = uint (buf ! 1),
     text_temp_time = buf ! 2, text_offset_row = buf ! 3, text_offset_col = buf ! 4, text_length = buf ! 5,
     text_data = event_array OSDP_CMD_TEXT_MAX_LEN (bytes_at 6 (unat (buf ! 5)) buf)\<rparr>"

definition parse_tdset :: "bytes \<Rightarrow> osdp_cmd_u" where
  "parse_tdset buf = OSDP_CMD_TDSET \<lparr>tdset_year = fst (bread_u16_le buf 0), tdset_month = buf ! 2,
     tdset_day = buf ! 3, tdset_hour = buf ! 4, tdset_minute = buf ! 5, tdset_second = buf ! 6\<rparr>"

definition parse_comset :: "bytes \<Rightarrow> osdp_cmd_comset" where
  "parse_comset buf = \<lparr>comset_address = buf ! 0, comset_baud_rate = fst (bread_u32_le buf 1)\<rparr>"

definition parse_mfg :: "bytes \<Rightarrow> int \<Rightarrow> osdp_cmd_mfg" where
  "parse_mfg buf len = (let n = word_of_int (len - 3)
     in \<lparr>mfg_vendor_code = fst (bread_u24_le buf 0),
         mfg_data = event_array OSDP_CMD_MFG_MAX_DATALEN (bytes_at 3 (unat n) buf), mfg_length = n\<rparr>)"

definition parse_bioread :: "bytes \<Rightarrow> osdp_cmd_u" where
  "parse_bioread buf = OSDP_CMD_BIOREAD \<lparr>bioread_reader = buf ! 0, bioread_type = uint (buf ! 1),
     bioread_format = uint (buf ! 2), bioread_quality = buf ! 3\<rparr>"

definition parse_biomatch :: "bytes \<Rightarrow> osdp_cmd_biomatch" where
  "parse_biomatch buf = (let n = fst (bread_u16_le buf 4)
     in \<lparr>biomatch_reader = buf ! 0, biomatch_type = uint (buf ! 1), biomatch_format = uint (buf ! 2),
         biomatch_quality = buf ! 3, biomatch_length = n,
         biomatch_data = event_array OSDP_CMD_BIOMATCH_MAX_TEMPLATE_LEN (bytes_at 6 (unat n) buf)\<rparr>)"

definition parse_pivdata :: "bytes \<Rightarrow> osdp_cmd_pivdata" where
  "parse_pivdata buf = \<lparr>pivdata_oid = take 3 buf, pivdata_element = buf ! 3, pivdata_offset = buf ! 4\<rparr>"

definition wire_cmd :: "osdp_cmd_u \<Rightarrow> osdp_cmd" where
  "wire_cmd u = \<lparr>cmd_flags = 0, cmd_u = u\<rparr>"

subsection \<open>One case of the decoder each\<close>

text \<open>
  The return of a case, next to the device.  Leaving the switch with \<open>OSDP_PD_ERR_GENERIC\<close>,
  the initial value, becomes the NAK for a wrong length below.
\<close>

definition pd_decode_poll :: "('w, 'z) osdp_dev_scheme \<Rightarrow> int \<Rightarrow> (int \<times> ('w, 'z) osdp_dev_scheme) option" where
  "pd_decode_poll pd len =
     (if len \<noteq> 0 then Some (OSDP_PD_ERR_GENERIC, pd)
      else if osdp_piv_pd_reply_pending pd
      then Some (OSDP_PD_ERR_NONE, pd\<lparr>pd_reply_id := osdp_piv_pd_reply_id pd\<rparr>)
      else if osdp_bio_pd_reply_pending pd then Some (OSDP_PD_ERR_NONE, pd\<lparr>pd_reply_id := REPLY_BIOREADR\<rparr>)
      else case pd_event_queue pd of
             [] \<Rightarrow> Some (OSDP_PD_ERR_NONE, pd\<lparr>pd_reply_id := REPLY_ACK\<rparr>)
           | ev # q \<Rightarrow>
               (case pd_translate_event ev of
                  None \<Rightarrow> None
                | Some r \<Rightarrow> Some (OSDP_PD_ERR_NONE,
                    pd\<lparr>pd_event_queue := q, pd_reply_id := r, pd_active_event := Some ev\<rparr>)))"

definition pd_inline_or_ack :: "('w, 'z) osdp_dev_scheme \<Rightarrow> int \<times> ('w, 'z) osdp_dev_scheme" where
  "pd_inline_or_ack pd =
     (let (taken, pd) = pd_take_inline_reply pd
      in (OSDP_PD_ERR_NONE, if taken then pd else pd\<lparr>pd_reply_id := REPLY_ACK\<rparr>))"

definition pd_ack :: "('w, 'z) osdp_dev_scheme \<Rightarrow> int \<times> ('w, 'z) osdp_dev_scheme" where
  "pd_ack pd = (OSDP_PD_ERR_NONE, pd\<lparr>pd_reply_id := REPLY_ACK\<rparr>)"

definition pd_decode_status ::
  "crc16 \<Rightarrow> osdp_status_report_type \<Rightarrow> bool \<Rightarrow> ('w, 'z) osdp_dev_scheme \<Rightarrow> int
   \<Rightarrow> int \<times> ('w, 'z) osdp_dev_scheme" where
  "pd_decode_status crc t check_cap pd len =
     (if len \<noteq> 0 then (OSDP_PD_ERR_GENERIC, pd)
      else
      let (ok, pd) = (if check_cap then pd_cmd_cap_ok None pd else (True, pd))
      in if \<not> ok then (OSDP_PD_ERR_REPLY, pd)
         else
         let s = \<lparr>status_type = t, status_nr_entries = 0,
                  status_report = replicate (nat OSDP_STATUS_REPORT_MAX_LEN) 0\<rparr>;
             (ok, cmd, pd) = do_command_callback (wire_cmd (OSDP_CMD_STATUS s)) pd
         in if \<not> ok then (OSDP_PD_ERR_REPLY, pd)
            else
            let s = (case cmd_u cmd of OSDP_CMD_STATUS s \<Rightarrow> s | _ \<Rightarrow> s);
                (taken, pd) = pd_take_inline_reply pd
            in if taken then (OSDP_PD_ERR_NONE, pd)
               else
               let (rc, pd) = pd_prebuild_status_reply crc (status_reply t) s pd
               in if rc \<noteq> 0 then (OSDP_PD_ERR_GENERIC, pd)
                  else (OSDP_PD_ERR_NONE, pd\<lparr>pd_reply_id := status_reply t\<rparr>))"

text \<open>A command that carries several records of \<open>n\<close> bytes: \<open>False\<close> once one is refused.\<close>

fun pd_run_records ::
  "(bytes \<Rightarrow> osdp_cmd_u) \<Rightarrow> nat \<Rightarrow> nat \<Rightarrow> bytes \<Rightarrow> ('w, 'z) osdp_dev_scheme \<Rightarrow> bool \<times> ('w, 'z) osdp_dev_scheme" where
  "pd_run_records parse n 0 buf pd = (True, pd)"
| "pd_run_records parse n (Suc count) buf pd =
     (let u = parse (take n buf);
          (ok, pd) = pd_cmd_cap_ok (Some u) pd
      in if \<not> ok then (False, pd)
         else
         let (ok, _, pd) = do_command_callback (wire_cmd u) pd
         in if \<not> ok then (False, pd) else pd_run_records parse n count (drop n buf) pd)"

definition pd_decode_records ::
  "(bytes \<Rightarrow> osdp_cmd_u) \<Rightarrow> nat \<Rightarrow> ('w, 'z) osdp_dev_scheme \<Rightarrow> bytes \<Rightarrow> int
   \<Rightarrow> int \<times> ('w, 'z) osdp_dev_scheme" where
  "pd_decode_records parse n pd buf len =
     (if len mod int n \<noteq> 0 then (OSDP_PD_ERR_GENERIC, pd)
      else
      let (ok, pd) = pd_run_records parse n (nat (len div int n)) buf pd
      in if \<not> ok then (OSDP_PD_ERR_REPLY, pd)
         else if pd_cmd_id pd = CMD_OUT then pd_inline_or_ack pd else pd_ack pd)"

text \<open>A command that the application acknowledges, or answers with an event it already queued.\<close>

definition pd_decode_acked ::
  "osdp_cmd_u \<Rightarrow> ('w, 'z) osdp_dev_scheme \<Rightarrow> int \<times> ('w, 'z) osdp_dev_scheme" where
  "pd_decode_acked u pd =
     (let (ok, pd) = pd_cmd_cap_ok (Some u) pd
      in if \<not> ok then (OSDP_PD_ERR_REPLY, pd)
         else
         let (ok, _, pd) = do_command_callback (wire_cmd u) pd
         in if \<not> ok then (OSDP_PD_ERR_REPLY, pd) else pd_ack pd)"

definition pd_decode_answered ::
  "osdp_cmd_u \<Rightarrow> ('w, 'z) osdp_dev_scheme \<Rightarrow> int \<times> ('w, 'z) osdp_dev_scheme" where
  "pd_decode_answered u pd =
     (let (ok, _, pd) = do_command_callback (wire_cmd u) pd
      in if \<not> ok then (OSDP_PD_ERR_REPLY, pd) else pd_inline_or_ack pd)"

text \<open>The address and the baud rate parked for REPLY_COM share their storage with the NAK code.\<close>

definition comset_pending :: "'z osdp_pd_scheme \<Rightarrow> osdp_cmd_comset" where
  "comset_pending pd = \<lparr>comset_address = pd_pending pd ! 0, comset_baud_rate = fst (bread_u32_le (pd_pending pd) 4)\<rparr>"

definition set_comset_pending :: "osdp_cmd_comset \<Rightarrow> 'z osdp_pd_scheme \<Rightarrow> 'z osdp_pd_scheme" where
  "set_comset_pending c pd =
     pd\<lparr>pd_pending := write_at 4 (u32_le (comset_baud_rate c)) ((pd_pending pd)[0 := comset_address c])\<rparr>"

definition pd_decode_comset ::
  "('w, 'z) osdp_dev_scheme \<Rightarrow> bytes \<Rightarrow> int \<Rightarrow> int \<times> ('w, 'z) osdp_dev_scheme" where
  "pd_decode_comset pd buf len =
     (if len \<noteq> 5 then (OSDP_PD_ERR_GENERIC, pd)
      else
      let c = parse_comset buf
      in if comset_address c \<ge> 0x7F then (OSDP_PD_ERR_GENERIC, pd)
         else
         let (ok, cmd, pd) = do_command_callback (wire_cmd (OSDP_CMD_COMSET c)) pd
         in if \<not> ok then (OSDP_PD_ERR_REPLY, pd)
            else
            let c = (case cmd_u cmd of OSDP_CMD_COMSET c \<Rightarrow> c | _ \<Rightarrow> c)
            in (OSDP_PD_ERR_NONE, (set_comset_pending c pd)\<lparr>pd_reply_id := REPLY_COM\<rparr>))"

definition pd_decode_bioread ::
  "('w, 'z) osdp_dev_scheme \<Rightarrow> bytes \<Rightarrow> int \<Rightarrow> int \<times> ('w, 'z) osdp_dev_scheme" where
  "pd_decode_bioread pd buf len =
     (if len \<noteq> 4 then (OSDP_PD_ERR_GENERIC, pd)
      else
      let (ok, pd) = pd_cmd_cap_ok None pd
      in if \<not> ok then (OSDP_PD_ERR_REPLY, pd) else pd_decode_answered (parse_bioread buf) pd)"

definition pd_decode_file ::
  "('w, 'z) osdp_dev_scheme \<Rightarrow> bytes \<Rightarrow> int \<Rightarrow> int \<times> ('w, 'z) osdp_dev_scheme" where
  "pd_decode_file pd buf len =
     (let (rc, pd) = osdp_file_cmd_tx_decode pd buf len
      in if rc < 0 then (OSDP_PD_ERR_REPLY, pd_nak OSDP_PD_NAK_RECORD pd)
         else (OSDP_PD_ERR_NONE, pd\<lparr>pd_reply_id := REPLY_FTSTAT\<rparr>))"

definition pd_decode_biomatch ::
  "('w, 'z) osdp_dev_scheme \<Rightarrow> bytes \<Rightarrow> int \<Rightarrow> int \<times> ('w, 'z) osdp_dev_scheme" where
  "pd_decode_biomatch pd buf len =
     (if len < 6 then (OSDP_PD_ERR_GENERIC, pd)
      else
      let (ok, pd) = pd_cmd_cap_ok None pd
      in if \<not> ok then (OSDP_PD_ERR_REPLY, pd)
         else
         let c = parse_biomatch buf
         in if uint (biomatch_length c) \<noteq> len - 6 \<or> unat (biomatch_length c) > OSDP_CMD_BIOMATCH_MAX_TEMPLATE_LEN
            then (OSDP_PD_ERR_GENERIC, set_nak_code OSDP_PD_NAK_CMD_LEN pd)
            else pd_decode_answered (OSDP_CMD_BIOMATCH c) pd)"

definition pd_decode_pivdata ::
  "('w, 'z) osdp_dev_scheme \<Rightarrow> bytes \<Rightarrow> int \<Rightarrow> int \<times> ('w, 'z) osdp_dev_scheme" where
  "pd_decode_pivdata pd buf len =
     (if len \<noteq> 5 then (OSDP_PD_ERR_GENERIC, pd)
      else
      let (ok, pd) = pd_cmd_cap_ok None pd
      in if \<not> ok then (OSDP_PD_ERR_REPLY, pd)
         else
         let c = parse_pivdata buf;
             (rc, pd) = osdp_piv_pd_open pd CMD_PIVDATA (uint (pivdata_element c))
         in if rc \<noteq> 0 then (OSDP_PD_ERR_GENERIC, pd) else pd_decode_answered (OSDP_CMD_PIVDATA c) pd)"

definition pd_decode_auth ::
  "('w, 'z) osdp_dev_scheme \<Rightarrow> bytes \<Rightarrow> int \<Rightarrow> int \<times> ('w, 'z) osdp_dev_scheme" where
  "pd_decode_auth pd buf len =
     (if len < int (OSDP_MP_HDR_SIZE OSDP_MP_W16) then (OSDP_PD_ERR_GENERIC, pd)
      else
      let (ok, pd) = pd_cmd_cap_ok None pd
      in if \<not> ok then (OSDP_PD_ERR_REPLY, pd)
         else
         let (frag, cmd, pd) = osdp_piv_pd_cmd_frag pd (pd_cmd_id pd) buf len
         in if frag < 0 then (OSDP_PD_ERR_GENERIC, pd)
            else case cmd of
                   None \<Rightarrow> pd_ack pd
                 | Some cmd \<Rightarrow>
                     let (ok, _, pd) = do_command_callback cmd pd
                     in if \<not> ok then (OSDP_PD_ERR_REPLY, osdp_piv_abort pd) else pd_inline_or_ack pd)"

definition pd_decode_keyset ::
  "('w, 'z) osdp_dev_scheme \<Rightarrow> bytes \<Rightarrow> int \<Rightarrow> int \<times> ('w, 'z) osdp_dev_scheme" where
  "pd_decode_keyset pd buf len =
     (if len \<noteq> 18 then (OSDP_PD_ERR_GENERIC, pd)
      else if buf ! 0 \<noteq> 1 \<or> buf ! 1 \<noteq> 16 then (OSDP_PD_ERR_GENERIC, pd)
      else
      let (ok, pd) = pd_cmd_cap_ok None (set_nak_code OSDP_PD_NAK_SC_COND pd)
      in if \<not> ok then (OSDP_PD_ERR_REPLY, pd)
         else if \<not> sc_is_active pd then (OSDP_PD_ERR_REPLY, pd)
         else if command_callback (pd_cb pd) = None then (OSDP_PD_ERR_REPLY, pd)
         else
         let k = \<lparr>keyset_type = buf ! 0, keyset_length = buf ! 1, keyset_data = event_array 32 (bytes_at 2 16 buf)\<rparr>;
             (ok, cmd, pd) = do_command_callback (wire_cmd (OSDP_CMD_KEYSET k)) pd
         in if \<not> ok then (OSDP_PD_ERR_REPLY, set_nak_code OSDP_PD_NAK_SC_COND pd)
            else
            let k = (case cmd_u cmd of OSDP_CMD_KEYSET k \<Rightarrow> k | _ \<Rightarrow> k)
            in (OSDP_PD_ERR_NONE, pd\<lparr>pd_reply_id := REPLY_ACK, pd_pending := array_read 16 (keyset_data k)\<rparr>))"

definition pd_decode_chlng ::
  "('w, 'z) osdp_dev_scheme \<Rightarrow> bytes \<Rightarrow> int \<Rightarrow> int \<times> ('w, 'z) osdp_dev_scheme" where
  "pd_decode_chlng pd buf len =
     (if len \<noteq> 8 then (OSDP_PD_ERR_GENERIC, pd)
      else
      let (ok, pd) = pd_cmd_cap_ok None pd
      in if \<not> ok then (OSDP_PD_ERR_REPLY, pd)
         else
         let pd = osdp_sc_setup (pd_sc_deactivate pd)
         in (OSDP_PD_ERR_NONE, pd\<lparr>pd_sc := (pd_sc pd)\<lparr>cp_random := take 8 buf\<rparr>, pd_reply_id := REPLY_CCRYPT\<rparr>))"

definition pd_decode_scrypt ::
  "('w, 'z) osdp_dev_scheme \<Rightarrow> bytes \<Rightarrow> int \<Rightarrow> int \<times> ('w, 'z) osdp_dev_scheme" where
  "pd_decode_scrypt pd buf len =
     (if len \<noteq> 16 then (OSDP_PD_ERR_GENERIC, pd)
      else
      let (ok, pd) = pd_cmd_cap_ok None pd
      in if \<not> ok then (OSDP_PD_ERR_REPLY, pd)
         else if sc_is_active pd then (OSDP_PD_ERR_REPLY, set_nak_code OSDP_PD_NAK_SC_COND pd)
         else
         let pd = pd\<lparr>pd_sc := (pd_sc pd)\<lparr>cp_cryptogram := take 16 buf\<rparr>\<rparr>
         in if osdp_verify_cp_cryptogram pd \<noteq> 0
            then (OSDP_PD_ERR_REPLY, set_nak_code OSDP_PD_NAK_SC_UNSUP pd)
            else (OSDP_PD_ERR_NONE, pd\<lparr>pd_reply_id := REPLY_RMAC_I\<rparr>))"

text \<open>The switch over the command code, on the data block \<open>buf\<close> of \<open>len\<close> bytes.\<close>

definition pd_command_body ::
  "crc16 \<Rightarrow> ('w, 'z) osdp_dev_scheme \<Rightarrow> bytes \<Rightarrow> int \<Rightarrow> (int \<times> ('w, 'z) osdp_dev_scheme) option" where
  "pd_command_body crc pd buf len =
     (let c = pd_cmd_id pd
      in if c = CMD_POLL then pd_decode_poll pd len
         else if c = CMD_LSTAT then Some (pd_decode_status crc OSDP_STATUS_REPORT_LOCAL False pd len)
         else if c = CMD_ISTAT then Some (pd_decode_status crc OSDP_STATUS_REPORT_INPUT True pd len)
         else if c = CMD_OSTAT then Some (pd_decode_status crc OSDP_STATUS_REPORT_OUTPUT True pd len)
         else if c = CMD_RSTAT then Some (pd_decode_status crc OSDP_STATUS_REPORT_READER False pd len)
         else if c = CMD_ID
         then Some (if len \<noteq> 1 then (OSDP_PD_ERR_GENERIC, pd) else (OSDP_PD_ERR_NONE, pd\<lparr>pd_reply_id := REPLY_PDID\<rparr>))
         else if c = CMD_CAP
         then Some (if len \<noteq> 1 then (OSDP_PD_ERR_GENERIC, pd) else (OSDP_PD_ERR_NONE, pd\<lparr>pd_reply_id := REPLY_PDCAP\<rparr>))
         else if c = CMD_OUT then Some (pd_decode_records parse_output 4 pd buf len)
         else if c = CMD_LED then Some (pd_decode_records parse_led 14 pd buf len)
         else if c = CMD_BUZ then Some (pd_decode_records parse_buzzer 5 pd buf len)
         else if c = CMD_TEXT
         then Some (if len < 6 \<or> unat (buf ! 5) > OSDP_CMD_TEXT_MAX_LEN \<or> len - 6 < uint (buf ! 5)
                    then (OSDP_PD_ERR_GENERIC, pd) else pd_decode_acked (parse_text buf) pd)
         else if c = CMD_TDSET
         then Some (if len \<noteq> 7 then (OSDP_PD_ERR_GENERIC, pd) else pd_decode_acked (parse_tdset buf) pd)
         else if c = CMD_COMSET then Some (pd_decode_comset pd buf len)
         else if c = CMD_MFG
         then Some (if len < 3 \<or> unat (mfg_length (parse_mfg buf len)) > OSDP_CMD_MFG_MAX_DATALEN
                    then (OSDP_PD_ERR_GENERIC, pd) else pd_decode_answered (OSDP_CMD_MFG (parse_mfg buf len)) pd)
         else if c = CMD_BIOREAD then Some (pd_decode_bioread pd buf len)
         else if c = CMD_BIOMATCH then Some (pd_decode_biomatch pd buf len)
         else if c = CMD_ACURXSIZE
         then Some (if len < 2 then (OSDP_PD_ERR_GENERIC, pd)
                    else pd_ack (pd\<lparr>pd_peer_rx_size := fst (bread_u16_le buf 0)\<rparr>))
         else if c = CMD_KEEPACTIVE
         then Some (if len < 2 then (OSDP_PD_ERR_GENERIC, pd)
                    else pd_ack (pd\<lparr>pd_sc_tstamp := pd_sc_tstamp pd + uint (fst (bread_u16_le buf 0))\<rparr>))
         else if c = CMD_ABORT
         then Some (if len \<noteq> 0 then (OSDP_PD_ERR_GENERIC, pd) else pd_ack (osdp_engines_abort pd))
         else if c = CMD_FILETRANSFER then Some (pd_decode_file pd buf len)
         else if c = CMD_PIVDATA then Some (pd_decode_pivdata pd buf len)
         else if c = CMD_GENAUTH \<or> c = CMD_CRAUTH then Some (pd_decode_auth pd buf len)
         else if c = CMD_XWR then Some (OSDP_PD_ERR_GENERIC, pd)
         else if c = CMD_KEYSET then Some (pd_decode_keyset pd buf len)
         else if c = CMD_CHLNG then Some (pd_decode_chlng pd buf len)
         else if c = CMD_SCRYPT then Some (pd_decode_scrypt pd buf len)
         else Some (OSDP_PD_ERR_REPLY, pd_nak OSDP_PD_NAK_CMD_UNKNOWN pd))"

definition pd_cmd_allowed :: "'z osdp_pd_scheme \<Rightarrow> bool" where
  "pd_cmd_allowed pd \<longleftrightarrow>
     \<not> (is_enforce_secure pd \<and> \<not> sc_is_active pd \<and>
        pd_cmd_id pd \<noteq> CMD_ID \<and> pd_cmd_id pd \<noteq> CMD_CAP \<and> pd_cmd_id pd \<noteq> CMD_CHLNG \<and> pd_cmd_id pd \<noteq> CMD_SCRYPT)"

text \<open>\<open>buf\<close> starts with the command byte and \<open>len\<close> counts it.\<close>

definition pd_decode_command ::
  "crc16 \<Rightarrow> ('w, 'z) osdp_dev_scheme \<Rightarrow> bytes \<Rightarrow> int \<Rightarrow> (int \<times> ('w, 'z) osdp_dev_scheme) option" where
  "pd_decode_command crc pd buf len =
     (let pd = (pd_nak OSDP_PD_NAK_RECORD pd)\<lparr>pd_cmd_id := uint (buf ! 0)\<rparr>
      in if \<not> pd_cmd_allowed pd then Some (OSDP_PD_ERR_REPLY, set_nak_code OSDP_PD_NAK_SC_COND pd)
         else case pd_command_body crc pd (drop 1 buf) (len - 1) of
                None \<Rightarrow> None
              | Some (ret, pd) \<Rightarrow>
                  Some (if ret = OSDP_PD_ERR_GENERIC then (OSDP_PD_ERR_REPLY, pd_nak OSDP_PD_NAK_CMD_LEN pd)
                        else (ret, pd)))"

end
