(* ===== verification/Pd_Build.thy ===== *)
theory Pd_Build
  imports Pd_Decode
begin

text \<open>
  The PD's outgoing side, the second part of src/src/osdp_pd.c: the data block of each reply
  (pd_build_reply), the packet around it, and its way to the channel (pd_send_reply).
  \<open>osdp_trs_reply_build\<close> is the stub that returns -1.

  \<open>None\<close> is a stopped process: the \<open>BUG()\<close> of a reply code that nothing selects, or the copy of
  a negative number of bytes.
\<close>

subsection \<open>The event behind a reply\<close>

text \<open>The number of an event, \<open>enum osdp_event_type\<close>.\<close>

fun osdp_event_type :: "osdp_event \<Rightarrow> int" where
  "osdp_event_type (OSDP_EVENT_CARDREAD _) = 1"
| "osdp_event_type (OSDP_EVENT_KEYPRESS _) = 2"
| "osdp_event_type (OSDP_EVENT_MFGREP _) = 3"
| "osdp_event_type (OSDP_EVENT_STATUS _) = 4"
| "osdp_event_type (OSDP_EVENT_NOTIFICATION _) = 5"
| "osdp_event_type (OSDP_EVENT_MFGSTATR _) = 6"
| "osdp_event_type (OSDP_EVENT_MFGERRR _) = 7"
| "osdp_event_type (OSDP_EVENT_BIOREADR _) = 8"
| "osdp_event_type (OSDP_EVENT_BIOMATCHR _) = 9"
| "osdp_event_type (OSDP_EVENT_PIVDATAR _) = 10"
| "osdp_event_type (OSDP_EVENT_GENAUTHR _) = 11"
| "osdp_event_type (OSDP_EVENT_CRAUTHR _) = 12"

definition reply_backing_event_type :: "int \<Rightarrow> int" where
  "reply_backing_event_type r =
     (if r \<in> {REPLY_OSTATR, REPLY_ISTATR, REPLY_LSTATR, REPLY_RSTATR} then 4
      else if r = REPLY_KEYPAD then 2
      else if r = REPLY_RAW then 1
      else if r = REPLY_MFGREP then 3
      else if r = REPLY_MFGSTATR then 6
      else if r = REPLY_MFGERRR then 7
      else if r = REPLY_BIOREADR then 8
      else if r = REPLY_BIOMATCHR then 9
      else -1)"

definition pd_engine_reply_pending :: "('w, 'z) osdp_dev_scheme \<Rightarrow> int \<Rightarrow> bool" where
  "pd_engine_reply_pending pd reply_id \<longleftrightarrow>
     reply_id = REPLY_BIOREADR \<and> osdp_bio_pd_reply_pending pd \<or>
     osdp_piv_pd_reply_pending pd \<and> reply_id = osdp_piv_pd_reply_id pd"

definition pd_reply_backed :: "('w, 'z) osdp_dev_scheme \<Rightarrow> bool" where
  "pd_reply_backed pd \<longleftrightarrow>
     (let t = reply_backing_event_type (pd_reply_id pd)
      in \<not> (t \<ge> 0 \<and> (case pd_active_event pd of None \<Rightarrow> True | Some ev \<Rightarrow> osdp_event_type ev \<noteq> t) \<and>
            \<not> pd_engine_reply_pending pd (pd_reply_id pd)))"

subsection \<open>Reply data blocks\<close>

text \<open>The data block of an event; the caller checks it against the space left.\<close>

definition keypad_payload :: "osdp_event_keypress \<Rightarrow> bytes option" where
  "keypad_payload e =
     (if keypress_length e < 0 then None
      else Some ([int_byte (keypress_reader_no e), int_byte (keypress_length e)]
                 @ array_read (nat (keypress_length e)) (keypress_data e)))"

definition raw_payload :: "osdp_event_cardread \<Rightarrow> bytes" where
  "raw_payload e = [int_byte (cardread_reader_no e), int_byte (cardread_format e)]
     @ u16_le (cardread_length e) @ array_read (BITS_TO_BYTES (cardread_length e)) (cardread_data e)"

definition mfgrep_payload :: "osdp_event_mfgrep \<Rightarrow> bytes" where
  "mfgrep_payload e = u24_le (mfgrep_vendor_code e) @ array_read (unat (mfgrep_length e)) (mfgrep_data e)"

definition mfgstat_payload :: "osdp_event_mfgstat \<Rightarrow> bytes" where
  "mfgstat_payload e = array_read (unat (mfgstat_length e)) (mfgstat_data e)"

definition bioreadr_payload :: "osdp_event_bioreadr \<Rightarrow> bytes" where
  "bioreadr_payload e = [bioreadr_reader e, int_byte (bioreadr_status e), int_byte (bioreadr_type e), bioreadr_quality e]
     @ u16_le (bioreadr_length e) @ array_read (unat (bioreadr_length e)) (bioreadr_data e)"

definition biomatchr_payload :: "osdp_event_biomatchr \<Rightarrow> bytes" where
  "biomatchr_payload e = [biomatchr_reader e, int_byte (biomatchr_status e), biomatchr_score e]"

definition pdid_payload :: "osdp_pd_id \<Rightarrow> bytes" where
  "pdid_payload i = u24_le (id_vendor_code i) @ [int_byte (id_model i), int_byte (id_version i)]
     @ u32_le (id_serial_number i) @ u24_be (id_firmware_version i)"

text \<open>The capabilities on record, as many as there is space for.\<close>

definition pdcap_payload :: "osdp_pd_cap list \<Rightarrow> int \<Rightarrow> bytes" where
  "pdcap_payload cap room =
     concat (take (nat (room div 3))
       (map (\<lambda>i. [of_nat i, compliance_level (cap ! i), num_items (cap ! i)])
         (filter (\<lambda>i. unat (function_code (cap ! i)) = i) [1..<OSDP_PD_CAP_SENTINEL])))"

text \<open>
  What a case of the switch leaves: the bytes behind the reply byte, or the jump to the NAK.
\<close>

definition put_reply_data :: "bytes \<Rightarrow> nat \<Rightarrow> bytes \<Rightarrow> int \<Rightarrow> int option \<times> bytes" where
  "put_reply_data data off buf room =
     (if room < int (length data) then (None, buf)
      else (Some (1 + int (length data)), write_at (off + 1) data buf))"

fun pd_event_payload :: "('w, 'z) osdp_dev_scheme \<Rightarrow> osdp_event \<Rightarrow> int \<Rightarrow> bytes option option" where
  "pd_event_payload pd (OSDP_EVENT_STATUS s) room = Some (status_entries pd (pd_reply_id pd) s room)"
| "pd_event_payload pd (OSDP_EVENT_KEYPRESS e) room = map_option Some (keypad_payload e)"
| "pd_event_payload pd (OSDP_EVENT_CARDREAD e) room = Some (Some (raw_payload e))"
| "pd_event_payload pd (OSDP_EVENT_MFGREP e) room = Some (Some (mfgrep_payload e))"
| "pd_event_payload pd (OSDP_EVENT_MFGSTATR e) room = Some (Some (mfgstat_payload e))"
| "pd_event_payload pd (OSDP_EVENT_MFGERRR e) room = Some (Some (mfgstat_payload e))"
| "pd_event_payload pd (OSDP_EVENT_BIOREADR e) room =
     Some (if unat (bioreadr_length e) > OSDP_EVENT_BIOREADR_MAX_TEMPLATE_LEN then None else Some (bioreadr_payload e))"
| "pd_event_payload pd (OSDP_EVENT_BIOMATCHR e) room = Some (Some (biomatchr_payload e))"
| "pd_event_payload pd _ room = None"

fun piv_reply_of :: "osdp_event \<Rightarrow> osdp_event_piv_reply option" where
  "piv_reply_of (OSDP_EVENT_PIVDATAR r) = Some r"
| "piv_reply_of (OSDP_EVENT_GENAUTHR r) = Some r"
| "piv_reply_of (OSDP_EVENT_CRAUTHR r) = Some r"
| "piv_reply_of _ = None"

text \<open>
  The event that seeds the reply leg of a smart-card operation: one of the type the operation
  waits for.
\<close>

definition piv_seed :: "('w, 'z) osdp_dev_scheme \<Rightarrow> osdp_event_piv_reply option" where
  "piv_seed pd =
     (case (pd_active_event pd, pd_piv pd) of
        (Some ev, Some p) \<Rightarrow> if osdp_event_type ev = piv_event_type p then piv_reply_of ev else None
      | _ \<Rightarrow> None)"

definition bio_seed :: "('w, 'z) osdp_dev_scheme \<Rightarrow> osdp_event_bioreadr option" where
  "bio_seed pd = (case pd_active_event pd of Some (OSDP_EVENT_BIOREADR e) \<Rightarrow> Some e | _ \<Rightarrow> None)"

definition put_reply_engine ::
  "int \<times> bytes \<times> ('w, 'z) osdp_dev_scheme \<Rightarrow> nat \<Rightarrow> bytes \<Rightarrow> bool
   \<Rightarrow> int option \<times> bytes \<times> ('w, 'z) osdp_dev_scheme" where
  "put_reply_engine r off buf failed =
     (let (n, b, pd) = r; buf = take (off + 1) buf @ b
      in (if failed then None else Some (1 + n), buf, pd))"

definition pd_build_ccrypt ::
  "('w, 'z) osdp_dev_scheme \<Rightarrow> nat option \<Rightarrow> nat \<Rightarrow> bytes \<Rightarrow> int
   \<Rightarrow> int option \<times> bytes \<times> ('w, 'z) osdp_dev_scheme" where
  "pd_build_ccrypt pd smb off buf room =
     (case smb of
        None \<Rightarrow> (None, buf, pd)
      | Some s \<Rightarrow>
          if room < 32 then (None, buf, pd)
          else
          let (r, pd) = osdp_fill_random 8 pd;
              pd = pd\<lparr>pd_sc := (pd_sc pd)\<lparr>pd_random := r\<rparr>\<rparr>;
              pd = osdp_compute_pd_cryptogram (osdp_compute_session_keys pd);
              sc = pd_sc pd;
              data = take 8 (pd_client_uid sc) @ take 8 (pd_random sc) @ take 16 (pd_cryptogram sc)
          in (Some (1 + int (length data)),
              put_handshake_block SCS_12 pd s (write_at (off + 1) data buf), pd))"

definition pd_build_rmac_i ::
  "('w, 'z) osdp_dev_scheme \<Rightarrow> nat option \<Rightarrow> nat \<Rightarrow> bytes \<Rightarrow> int
   \<Rightarrow> int option \<times> bytes \<times> ('w, 'z) osdp_dev_scheme" where
  "pd_build_rmac_i pd smb off buf room =
     (case smb of
        None \<Rightarrow> (None, buf, pd)
      | Some s \<Rightarrow>
          if room < 16 then (None, buf, pd)
          else
          let pd = osdp_compute_rmac_i pd;
              data = take 16 (r_mac (pd_sc pd));
              pd = pd_notify_sc_status (sc_activate pd);
              pd = pd\<lparr>pd_sc_tstamp := osdp_millis_now pd\<rparr>
          in (Some (1 + int (length data)), write_at s [3, SCS_14, 1] (write_at (off + 1) data buf), pd))"

text \<open>
  The switch over the reply code.  FTSTAT takes a length of zero for a success without data,
  as the code does.
\<close>

definition pd_reply_body ::
  "('w, 'z) osdp_dev_scheme \<Rightarrow> nat option \<Rightarrow> nat \<Rightarrow> bytes \<Rightarrow> int
   \<Rightarrow> (int option \<times> bytes \<times> ('w, 'z) osdp_dev_scheme) option" where
  "pd_reply_body pd smb off buf room =
     (let r = pd_reply_id pd;
          fixed = (\<lambda>data pd. let (len, buf) = put_reply_data data off buf room in Some (len, buf, pd))
      in if r = REPLY_ACK \<or> r = REPLY_BUSY then Some (Some 1, buf, pd)
         else if r = REPLY_PDID then fixed (pdid_payload (pd_id pd)) pd
         else if r = REPLY_PDCAP then fixed (pdcap_payload (pd_cap pd) room) pd
         else if r = REPLY_COM
         then fixed ([comset_address (comset_pending pd)] @ u32_le (comset_baud_rate (comset_pending pd))) pd
         else if r = REPLY_NAK
         then if room < 1 then Some (None, buf, pd) else fixed [nak_code pd] (osdp_metrics_report OSDP_METRIC_NAK pd)
         else if r = REPLY_PIVDATAR \<or> r = REPLY_GENAUTHR \<or> r = REPLY_CRAUTHR
         then let (n, b, pd) = osdp_piv_pd_reply_build pd (piv_seed pd) (drop (off + 1) buf) room
              in Some (put_reply_engine (n, b, pd) off buf (n \<le> 0))
         else if r = REPLY_BIOREADR \<and> is_bioreadr_multipart pd
         then let (n, b, pd) = osdp_bio_pd_reply_build pd (bio_seed pd) (drop (off + 1) buf) room
              in Some (put_reply_engine (n, b, pd) off buf (n < 0))
         else if r = REPLY_FTSTAT
         then let (n, b, pd) = osdp_file_cmd_stat_build pd (drop (off + 1) buf) room
              in Some (put_reply_engine (n, b, pd) off buf (n < 0))
         else if r = REPLY_XRD then Some (None, buf, pd)
         else if r = REPLY_CCRYPT then Some (pd_build_ccrypt pd smb off buf room)
         else if r = REPLY_RMAC_I then Some (pd_build_rmac_i pd smb off buf room)
         else if reply_backing_event_type r \<ge> 0
         then (case pd_active_event pd of
                 None \<Rightarrow> None
               | Some ev \<Rightarrow>
                   (case pd_event_payload pd ev room of
                      None \<Rightarrow> None
                    | Some None \<Rightarrow> Some (None, buf, pd)
                    | Some (Some data) \<Rightarrow> fixed data pd))
         else None)"

text \<open>A reply that could not be built goes out as the NAK for a record; its event is handed back.\<close>

definition pd_reply_failed ::
  "('w, 'z) osdp_dev_scheme \<Rightarrow> nat \<Rightarrow> bytes \<Rightarrow> int \<Rightarrow> int \<times> bytes \<times> ('w, 'z) osdp_dev_scheme" where
  "pd_reply_failed pd off buf room =
     (if room < 1 then (OSDP_PD_ERR_GENERIC, buf, pd)
      else
      let buf = write_at off [int_byte REPLY_NAK, OSDP_PD_NAK_RECORD] buf;
          pd = osdp_metrics_report OSDP_METRIC_NAK pd;
          pd = (if pd_active_event pd = None then pd
                else (pd_complete_event (pd_active_event pd) OSDP_COMPLETION_FAILED pd)\<lparr>pd_active_event := None\<rparr>)
      in (2, buf, pd))"

definition put_reply_session_block ::
  "int \<Rightarrow> nat option \<Rightarrow> 'z osdp_pd_scheme \<Rightarrow> bytes \<Rightarrow> bytes" where
  "put_reply_session_block len smb pd buf =
     (case smb of
        None \<Rightarrow> buf
      | Some s \<Rightarrow> if buf ! (s + 1) > SCS_14 \<and> sc_is_active pd
                  then write_at s [2, if len > 1 then SCS_18 else SCS_16] buf else buf)"

definition pd_build_reply ::
  "('w, 'z) osdp_dev_scheme \<Rightarrow> bytes \<Rightarrow> int \<Rightarrow> (int \<times> bytes \<times> ('w, 'z) osdp_dev_scheme) option" where
  "pd_build_reply pd buf max_len =
     (let data_off = osdp_phy_packet_get_data_offset pd buf;
          smb = osdp_phy_packet_get_smb pd buf;
          room = max_len - int data_off
      in if room \<le> 0 then Some (OSDP_PD_ERR_GENERIC, buf, pd)
         else
         let buf = buf[data_off := int_byte (pd_reply_id pd)]; room = room - 1
         in case (if pd_reply_backed pd then pd_reply_body pd smb data_off buf room else Some (None, buf, pd)) of
              None \<Rightarrow> None
            | Some (r, buf, pd) \<Rightarrow>
                let (len, buf, pd) = (case r of Some len \<Rightarrow> (len, buf, pd) | None \<Rightarrow> pd_reply_failed pd data_off buf room)
                in Some (if len < 0 then (len, buf, pd)
                         else (len, put_reply_session_block len smb pd buf, pd)))"

subsection \<open>Packets\<close>

definition pd_build_reply_packet ::
  "crc16 \<Rightarrow> ('w, 'z) osdp_dev_scheme \<Rightarrow> (int \<times> ('w, 'z) osdp_dev_scheme) option" where
  "pd_build_reply_packet crc pd =
     (let size = get_tx_buf_size pd;
          pd = pd\<lparr>pd_packet_buf := TX_BUF\<rparr>;
          (ret, buf, pd) = osdp_phy_packet_init pd (packet_bytes pd) size
      in if ret < 0 then Some (OSDP_PD_ERR_GENERIC, put_packet_bytes buf pd)
         else
         let pd = pd\<lparr>pd_packet_buf_len := nat ret\<rparr>
         in case pd_build_reply pd buf size of
              None \<Rightarrow> None
            | Some (ret, buf, pd) \<Rightarrow>
                if ret \<le> 0 then Some (OSDP_PD_ERR_GENERIC, put_packet_bytes buf pd)
                else
                let pd = pd\<lparr>pd_packet_buf_len := pd_packet_buf_len pd + nat ret\<rparr>;
                    (ret, buf, pd) = osdp_phy_finalize_packet crc pd buf (pd_packet_buf_len pd) size
                in if ret < 0 then Some (OSDP_PD_ERR_GENERIC, put_packet_bytes buf pd)
                   else Some (OSDP_PD_ERR_NONE,
                          (put_packet_bytes buf pd)\<lparr>pd_packet_buf_len := nat ret, pd_reply_prebuilt := True\<rparr>))"

definition pd_send_reply :: "('w, 'z) osdp_dev_scheme \<Rightarrow> int \<times> ('w, 'z) osdp_dev_scheme" where
  "pd_send_reply pd =
     (let (ret, pd) = osdp_phy_send_packet pd (packet_bytes pd) (pd_packet_buf_len pd)
      in if ret = OSDP_ERR_PKT_WAIT_TX then (OSDP_PD_ERR_RETRY_SEND, pd)
         else
         let pd = pd\<lparr>pd_packet_buf_len := 0, pd_reply_prebuilt := False\<rparr>
         in if ret < 0 then (OSDP_PD_ERR_GENERIC, pd)
            else (OSDP_PD_ERR_NONE, pd\<lparr>pd_last_tx_len := word_of_int ret, pd_last_cmd_id := int_byte (pd_cmd_id pd)\<rparr>))"

end
