(* ===== verification/Pd_State.thy ===== *)
theory Pd_State
  imports Pd_Build
begin

text \<open>
  The PD's refresh pass and its exported functions, the last part of src/src/osdp_pd.c: receive
  and decode a command, build and send the reply, apply what only takes effect once the reply
  is out (KEYSET, COMSET), time out sessions and links; setup, callbacks, event submission,
  flush and teardown.  Allocation succeeds; names and packet capture are left out.  \<open>None\<close> is a process
  that stops in \<open>BUG()\<close> or in a copy or a decryption of a negative length.
\<close>

abbreviation (input) OSDP_PD_SC_TIMEOUT_MS :: int where "OSDP_PD_SC_TIMEOUT_MS \<equiv> 8000"
abbreviation (input) OSDP_PD_ONLINE_TOUT_MS :: int where "OSDP_PD_ONLINE_TOUT_MS \<equiv> 8000"
abbreviation (input) OSDP_PD_CAP_OSDP_VERSION :: nat where "OSDP_PD_CAP_OSDP_VERSION \<equiv> 16"

subsection \<open>One command\<close>

text \<open>Other errors of the packet layer go on as they are.\<close>

definition pd_receive_and_process_command ::
  "crc16 \<Rightarrow> ('w, 'z) osdp_dev_scheme \<Rightarrow> (int \<times> ('w, 'z) osdp_dev_scheme) option" where
  "pd_receive_and_process_command crc pd =
     (let pd = pd\<lparr>pd_reply_prebuilt := False\<rparr>;
          (err, pd) = osdp_phy_check_packet crc pd
      in if err = OSDP_ERR_PKT_NONE
         then case osdp_phy_decode_packet pd of
                None \<Rightarrow> None
              | Some (len, off, pd) \<Rightarrow>
                  if len \<le> 0
                  then Some (if len = OSDP_ERR_PKT_NACK then OSDP_PD_ERR_REPLY else OSDP_PD_ERR_GENERIC, pd)
                  else pd_decode_command crc pd (drop off (packet_bytes pd)) len
         else if err = OSDP_ERR_PKT_NACK then Some (OSDP_PD_ERR_REPLY, pd)
         else if err = OSDP_ERR_PKT_NO_DATA then Some (OSDP_PD_ERR_NO_DATA, pd)
         else if err = OSDP_ERR_PKT_WAIT then Some (OSDP_PD_ERR_WAIT, pd)
         else if err = OSDP_ERR_PKT_SKIP then Some (OSDP_PD_ERR_IGNORE, osdp_phy_state_reset False pd)
         else if err = OSDP_ERR_PKT_FMT then Some (OSDP_PD_ERR_GENERIC, pd)
         else Some (err, pd))"

text \<open>The event of the reply at hand, handed back.\<close>

definition pd_settle_event :: "osdp_completion_status \<Rightarrow> ('w, 'z) osdp_dev_scheme \<Rightarrow> ('w, 'z) osdp_dev_scheme" where
  "pd_settle_event status pd =
     (if pd_active_event pd = None then pd
      else (pd_complete_event (pd_active_event pd) status pd)\<lparr>pd_active_event := None\<rparr>)"

definition pd_error_reset :: "('w, 'z) osdp_dev_scheme \<Rightarrow> ('w, 'z) osdp_dev_scheme" where
  "pd_error_reset pd = osdp_phy_state_reset False (pd_sc_deactivate (pd_settle_event OSDP_COMPLETION_FAILED pd))"

text \<open>A session or a link that nothing was heard on for long.\<close>

definition pd_expire :: "('w, 'z) osdp_dev_scheme \<Rightarrow> ('w, 'z) osdp_dev_scheme" where
  "pd_expire pd =
     (let pd = (if sc_is_active pd \<and> osdp_millis_since pd (pd_sc_tstamp pd) > OSDP_PD_SC_TIMEOUT_MS
                then pd_sc_deactivate pd else pd)
      in if is_pd_online pd \<and> osdp_millis_since pd (pd_tstamp pd) > OSDP_PD_ONLINE_TOUT_MS
         then pd_notify_pd_status False (osdp_engines_abort (pd_set_offline pd)) else pd)"

text \<open>What takes effect once the reply is on the wire.\<close>

definition pd_commit_keyset :: "('w, 'z) osdp_dev_scheme \<Rightarrow> ('w, 'z) osdp_dev_scheme" where
  "pd_commit_keyset pd =
     (let pd = pd\<lparr>pd_sc := (pd_sc pd)\<lparr>scbk := pd_pending pd\<rparr>, pd_pending := replicate 16 0\<rparr>
      in pd_sc_deactivate (CLEAR_FLAG PD_FLAG_INSTALL_MODE (CLEAR_FLAG PD_FLAG_SC_USE_SCBKD pd)))"

definition pd_commit_comset :: "('w, 'z) osdp_dev_scheme \<Rightarrow> ('w, 'z) osdp_dev_scheme" where
  "pd_commit_comset pd =
     (let (_, _, pd) = do_command_callback (wire_cmd (OSDP_CMD_COMSET_DONE (comset_pending pd))) pd
      in pd\<lparr>pd_baud_rate := comset_baud_rate (comset_pending pd),
            pd_address := uint (comset_address (comset_pending pd))\<rparr>)"

definition pd_reply_sent :: "('w, 'z) osdp_dev_scheme \<Rightarrow> ('w, 'z) osdp_dev_scheme" where
  "pd_reply_sent pd =
     (let pd = pd_settle_event OSDP_COMPLETION_OK pd;
          pd = (if pd_cmd_id pd = CMD_KEYSET \<and> pd_reply_id pd = REPLY_ACK then pd_commit_keyset pd
                else if pd_cmd_id pd = CMD_COMSET \<and> pd_reply_id pd = REPLY_COM then pd_commit_comset pd
                else pd)
      in osdp_phy_progress_sequence pd)"

definition pd_send_stage :: "('w, 'z) osdp_dev_scheme \<Rightarrow> ('w, 'z) osdp_dev_scheme" where
  "pd_send_stage pd =
     (let (ret, pd) = pd_send_reply pd
      in if ret = OSDP_PD_ERR_RETRY_SEND then pd
         else osdp_phy_state_reset False
                (if ret = OSDP_PD_ERR_NONE then pd_reply_sent pd
                 else pd_settle_event OSDP_COMPLETION_FAILED pd))"

text \<open>The link is up once a packet was decoded, and a command in a session keeps the session.\<close>

definition pd_packet_heard :: "int \<Rightarrow> ('w, 'z) osdp_dev_scheme \<Rightarrow> ('w, 'z) osdp_dev_scheme" where
  "pd_packet_heard ret pd =
     (let pd = (if \<not> is_pd_online pd then pd_notify_pd_status True (pd_set_online pd) else pd)
      in if ret = OSDP_PD_ERR_NONE \<and> sc_is_active pd then pd\<lparr>pd_sc_tstamp := osdp_millis_now pd\<rparr> else pd)"

definition pd_build_stage :: "crc16 \<Rightarrow> ('w, 'z) osdp_dev_scheme \<Rightarrow> ('w, 'z) osdp_dev_scheme option" where
  "pd_build_stage crc pd =
     (if pd_reply_prebuilt pd then Some (pd_send_stage pd)
      else case pd_build_reply_packet crc pd of
             None \<Rightarrow> None
           | Some (ret, pd) \<Rightarrow> Some (if ret \<noteq> OSDP_PD_ERR_NONE then pd_error_reset pd else pd_send_stage pd))"

definition osdp_pd_update :: "crc16 \<Rightarrow> ('w, 'z) osdp_dev_scheme \<Rightarrow> ('w, 'z) osdp_dev_scheme option" where
  "osdp_pd_update crc pd =
     (let pd = pd_expire pd
      in if pd_reply_prebuilt pd then Some (pd_send_stage pd)
         else case pd_receive_and_process_command crc pd of
                None \<Rightarrow> None
              | Some (ret, pd) \<Rightarrow>
                  if ret = OSDP_PD_ERR_IGNORE \<or> ret = OSDP_PD_ERR_NO_DATA then Some pd
                  else if ret = OSDP_PD_ERR_WAIT \<and> osdp_millis_since pd (pd_tstamp pd) < uint OSDP_RESP_TOUT_MS then Some pd
                  else if ret \<noteq> OSDP_PD_ERR_NONE \<and> ret \<noteq> OSDP_PD_ERR_REPLY then Some (pd_error_reset pd)
                  else pd_build_stage crc (pd_packet_heard ret pd))"

subsection \<open>Setup\<close>

text \<open>The capabilities every PD has, in front of the terminator.\<close>

definition osdp_pd_cap_implicit :: "osdp_pd_cap list" where
  "osdp_pd_cap_implicit = map (\<lambda>(f, c, n). \<lparr>function_code = f, compliance_level = c, num_items = n\<rparr>)
     [(of_nat OSDP_PD_CAP_CHECK_CHARACTER_SUPPORT, 1, 0), (of_nat OSDP_PD_CAP_COMMUNICATION_SECURITY, 1, 0),
      (of_nat OSDP_PD_CAP_RECEIVE_BUFFERSIZE, BYTE_0 (of_nat OSDP_PACKET_BUF_SIZE), BYTE_1 (of_nat OSDP_PACKET_BUF_SIZE)),
      (of_nat OSDP_PD_CAP_OSDP_VERSION, 2, 0)]"

fun pd_put_caps :: "osdp_pd_cap list \<Rightarrow> osdp_pd_cap list \<Rightarrow> osdp_pd_cap list" where
  "pd_put_caps [] table = table"
| "pd_put_caps (c # cs) table =
     (let fc = unat (function_code c)
      in if fc = 0 \<or> fc \<ge> OSDP_PD_CAP_SENTINEL then table else pd_put_caps cs (table[fc := c]))"

definition osdp_pd_set_attributes ::
  "osdp_pd_cap list \<Rightarrow> osdp_pd_id option \<Rightarrow> 'z osdp_pd_scheme \<Rightarrow> 'z osdp_pd_scheme" where
  "osdp_pd_set_attributes cap i pd =
     (let pd = pd\<lparr>pd_cap := pd_put_caps cap (pd_cap pd)\<rparr>
      in case i of None \<Rightarrow> pd | Some i \<Rightarrow> pd\<lparr>pd_id := i\<rparr>)"

definition pd_collect_init_flags :: "u32 \<Rightarrow> 'z osdp_pd_scheme \<Rightarrow> 'z osdp_pd_scheme" where
  "pd_collect_init_flags flags pd =
     (let pd = set_if (api_flag flags OSDP_FLAG_ENFORCE_SECURE) PD_FLAG_ENFORCE_SECURE pd;
          pd = set_if (api_flag flags OSDP_FLAG_INSTALL_MODE) PD_FLAG_INSTALL_MODE pd;
          pd = set_if (api_flag flags OSDP_FLAG_ENABLE_NOTIFICATION) PD_FLAG_ENABLE_NOTIF pd;
          pd = set_if (api_flag flags OSDP_FLAG_CAPTURE_PACKETS) PD_FLAG_CAPTURE_PKT pd;
          pd = set_if (api_flag flags OSDP_FLAG_ALLOW_EMPTY_EDB) PD_FLAG_ALLOW_EMPTY_EDB pd
      in set_if (api_flag flags OSDP_FLAG_BIOREADR_MULTIPART) PD_FLAG_BIOREADR_MP pd)"

record 'w pd_context =
  pdx_pd :: "'w osdp_dev"
  pdx_running :: bool
  pdx_sealed :: bool

text \<open>A PD is a fresh, cleared context; what is received has a buffer of its own.\<close>

definition pd_fresh :: "osdp_channel \<Rightarrow> 'w \<Rightarrow> 'w osdp_dev" where
  "pd_fresh ch w =
     (let pd = dev_zero no_callbacks w
      in pd\<lparr>pd_ctx := (pd_ctx pd)\<lparr>ctx_rx_shared := False, ctx_channel := ch\<rparr>\<rparr>)"

definition pd_setup_key :: "bytes option \<Rightarrow> 'w osdp_dev \<Rightarrow> 'w osdp_dev option" where
  "pd_setup_key key pd =
     (case key of
        Some k \<Rightarrow> Some (pd\<lparr>pd_sc := (pd_sc pd)\<lparr>scbk := take 16 k\<rparr>\<rparr>)
      | None \<Rightarrow> if is_enforce_secure pd then None
                else if \<not> is_install_mode pd then Some (SET_FLAG PD_FLAG_SC_DISABLED pd) else Some pd)"

definition pd_no_sc_capability :: "'z osdp_pd_scheme \<Rightarrow> 'z osdp_pd_scheme" where
  "pd_no_sc_capability pd =
     pd\<lparr>pd_cap := (pd_cap pd)[OSDP_PD_CAP_COMMUNICATION_SECURITY :=
        (cap_at pd OSDP_PD_CAP_COMMUNICATION_SECURITY)\<lparr>compliance_level := 0\<rparr>]\<rparr>"

definition osdp_pd_setup ::
  "bool \<Rightarrow> osdp_channel \<Rightarrow> osdp_pd_info \<Rightarrow> 'w \<Rightarrow> 'w pd_context option" where
  "osdp_pd_setup skip_mark ch info w =
     (let pd = (pd_fresh ch w)\<lparr>pd_idx := 0, pd_packet_buf := TX_BUF, pd_baud_rate := info_baud_rate info,
                  pd_address := info_address info, pd_flags := 0, pd_seq_number := -1, pd_rx_rb := rb_zero\<rparr>;
          pd = pd_collect_init_flags (info_flags info) pd
      in if init_flags_conflict (info_flags info) then None
         else case pd_setup_key (info_scbk info) (pd\<lparr>pd_event_queue := []\<rparr>) of
                None \<Rightarrow> None
              | Some pd \<Rightarrow>
                  let pd = set_if skip_mark PD_FLAG_PKT_SKIP_MARK (SET_FLAG PD_FLAG_SC_CAPABLE pd);
                      pd = osdp_pd_set_attributes (info_cap info) (Some (info_id info)) pd;
                      pd = osdp_pd_set_attributes osdp_pd_cap_implicit None pd;
                      pd = (if sc_is_capable pd then pd else pd_no_sc_capability pd)
                  in Some \<lparr>pdx_pd = SET_FLAG PD_FLAG_PD_MODE pd, pdx_running = False, pdx_sealed = False\<rparr>)"

subsection \<open>The exported functions\<close>

definition osdp_pd_refresh :: "crc16 \<Rightarrow> 'w pd_context \<Rightarrow> 'w pd_context option" where
  "osdp_pd_refresh crc c =
     (if pd_tearing_down (pdx_pd c) \<or> pdx_running c then Some c
      else map_option (\<lambda>pd. c\<lparr>pdx_pd := pd, pdx_sealed := True\<rparr>) (osdp_pd_update crc (pdx_pd c)))"

definition osdp_pd_set_capabilities :: "osdp_pd_cap list \<Rightarrow> 'w pd_context \<Rightarrow> int \<times> 'w pd_context" where
  "osdp_pd_set_capabilities cap c =
     (if pdx_sealed c then (-1, c)
      else
      let pd = osdp_pd_set_attributes cap None (pdx_pd c);
          pd = (if compliance_level (cap_at pd OSDP_PD_CAP_COMMUNICATION_SECURITY) = 0
                then SET_FLAG PD_FLAG_SC_DISABLED pd else pd)
      in (0, c\<lparr>pdx_pd := pd\<rparr>))"

definition osdp_pd_set_command_callback ::
  "(osdp_cmd \<Rightarrow> 'w \<Rightarrow> int \<times> osdp_cmd \<times> 'w) option \<Rightarrow> 'w pd_context \<Rightarrow> int \<times> 'w pd_context" where
  "osdp_pd_set_command_callback cb c =
     (if pdx_sealed c then (-1, c)
      else let pd = pdx_pd c in (0, c\<lparr>pdx_pd := pd\<lparr>pd_cb := (pd_cb pd)\<lparr>command_callback := cb\<rparr>\<rparr>\<rparr>))"

definition osdp_pd_set_event_completion_callback ::
  "(osdp_event \<Rightarrow> osdp_completion_status \<Rightarrow> 'w \<Rightarrow> 'w) option \<Rightarrow> 'w pd_context \<Rightarrow> int \<times> 'w pd_context" where
  "osdp_pd_set_event_completion_callback cb c =
     (if pdx_sealed c then (-1, c)
      else let pd = pdx_pd c in (0, c\<lparr>pdx_pd := pd\<lparr>pd_cb := (pd_cb pd)\<lparr>event_completion_callback := cb\<rparr>\<rparr>\<rparr>))"

fun pd_status_report_capacity :: "'z osdp_pd_scheme \<Rightarrow> osdp_status_report_type \<Rightarrow> int" where
  "pd_status_report_capacity pd OSDP_STATUS_REPORT_INPUT =
     uint (num_items (cap_at pd OSDP_PD_CAP_CONTACT_STATUS_MONITORING))"
| "pd_status_report_capacity pd OSDP_STATUS_REPORT_OUTPUT = uint (num_items (cap_at pd OSDP_PD_CAP_OUTPUT_CONTROL))"
| "pd_status_report_capacity pd OSDP_STATUS_REPORT_LOCAL = 2"
| "pd_status_report_capacity pd OSDP_STATUS_REPORT_READER = uint (num_items (cap_at pd OSDP_PD_CAP_READERS))"

fun pd_event_fits :: "'z osdp_pd_scheme \<Rightarrow> osdp_event \<Rightarrow> bool" where
  "pd_event_fits pd (OSDP_EVENT_CARDREAD e) \<longleftrightarrow>
     cardread_format e = OSDP_CARD_FMT_RAW_UNSPECIFIED \<or> cardread_format e = OSDP_CARD_FMT_RAW_WIEGAND"
| "pd_event_fits pd (OSDP_EVENT_STATUS s) \<longleftrightarrow>
     pd_status_report_capacity pd (status_type s) \<ge> 0 \<and>
     status_nr_entries s = pd_status_report_capacity pd (status_type s)"
| "pd_event_fits pd _ \<longleftrightarrow> True"

definition pd_submit_event :: "osdp_event \<Rightarrow> ('w, 'z) osdp_dev_scheme \<Rightarrow> int \<times> ('w, 'z) osdp_dev_scheme" where
  "pd_submit_event ev pd =
     (if pd_tearing_down pd \<or> event_completion_callback (pd_cb pd) = None then (-1, pd)
      else if \<not> pd_event_fits pd ev then (-1, pd)
      else if osdp_event_reader_no ev > uint (num_items (cap_at pd OSDP_PD_CAP_READERS)) then (-1, pd)
      else (0, pd\<lparr>pd_event_queue := pd_event_queue pd @ [ev]\<rparr>))"

definition osdp_pd_submit_event :: "osdp_event \<Rightarrow> 'w pd_context \<Rightarrow> int \<times> 'w pd_context" where
  "osdp_pd_submit_event ev c = (let (ret, pd) = pd_submit_event ev (pdx_pd c) in (ret, c\<lparr>pdx_pd := pd\<rparr>))"

definition pd_drain_queue ::
  "osdp_completion_status \<Rightarrow> ('w, 'z) osdp_dev_scheme \<Rightarrow> int \<times> ('w, 'z) osdp_dev_scheme" where
  "pd_drain_queue status pd =
     (let drain = pd_event_queue pd
      in (int (length drain),
          fold (\<lambda>ev pd. pd_complete_event (Some ev) status pd) drain (pd\<lparr>pd_event_queue := []\<rparr>)))"

definition osdp_pd_flush_events :: "'w pd_context \<Rightarrow> int \<times> 'w pd_context" where
  "osdp_pd_flush_events c =
     (if pd_tearing_down (pdx_pd c) then (-1, c)
      else let (n, pd) = pd_drain_queue OSDP_COMPLETION_FLUSHED (pdx_pd c) in (n, c\<lparr>pdx_pd := pd\<rparr>))"

definition pd_teardown :: "('w, 'z) osdp_dev_scheme \<Rightarrow> ('w, 'z) osdp_dev_scheme" where
  "pd_teardown pd =
     (let (_, pd) = pd_drain_queue OSDP_COMPLETION_ABORTED (pd\<lparr>pd_tearing_down := True\<rparr>);
          pd = pd_complete_event (pd_active_event pd) OSDP_COMPLETION_ABORTED pd
      in pd\<lparr>pd_active_event := None, pd_sc := sc_zero, pd_pending := replicate 16 0,
            pd_file := None, pd_piv := None, pd_bio := None\<rparr>)"

definition osdp_pd_teardown :: "'w pd_context \<Rightarrow> 'w pd_context" where
  "osdp_pd_teardown c = (if pd_tearing_down (pdx_pd c) then c else c\<lparr>pdx_pd := pd_teardown (pdx_pd c)\<rparr>)"

end
