(* ===== verification/Pd_Frames.thy ===== *)
theory Pd_Frames
  imports Pd_State Cp_Frames
begin

text \<open>
  What the parts of a PD's pass leave alone: the engines and the application's callback keep the
  device outside their own contexts, the packet layer and the codecs keep the keys, and nothing
  but the reply RMAC_I opens a session.
\<close>

subsection \<open>The engines of a PD\<close>

lemma outer_mp_mode [simp]: "outer (pd\<lparr>pd_piv := a, pd_bio := b\<rparr>) = outer pd"
  by simp

lemma outer_file_rx_open: "outer (snd (file_rx_open pd f buf n)) = outer pd"
  by (simp add: file_rx_open_def Let_def split: prod.split option.split)

lemma outer_file_rx_consume: "outer (snd (file_rx_consume pd f buf n b)) = outer pd"
  by (simp add: file_rx_consume_def Let_def split: prod.split)

lemma outer_file_tx_decode: "outer (snd (osdp_file_cmd_tx_decode pd buf n)) = outer pd"
  by (simp add: osdp_file_cmd_tx_decode_def Let_def case_prod_beta outer_file_rx_consume outer_file_rx_open split: option.split)

lemma outer_file_eof: "outer (snd (snd (file_stat_eof pd f))) = outer pd"
  by (simp add: file_stat_eof_def Let_def case_prod_beta)

lemma outer_file_stat_build: "outer (snd (snd (osdp_file_cmd_stat_build pd buf n))) = outer pd"
  by (simp add: osdp_file_cmd_stat_build_def Let_def case_prod_beta outer_file_eof split: option.split)

lemma outer_piv_open: "outer (snd (osdp_piv_pd_open pd c i)) = outer pd"
  by (simp add: osdp_piv_pd_open_def Let_def split: option.split)

lemma outer_piv_frag: "outer (snd (snd (osdp_piv_pd_cmd_frag pd c buf n))) = outer pd"
  by (simp add: osdp_piv_pd_cmd_frag_def Let_def case_prod_beta outer_piv_open split: option.split)

lemma outer_piv_reply: "outer (snd (snd (osdp_piv_pd_reply_build pd e buf n))) = outer pd"
  by (simp add: osdp_piv_pd_reply_build_def Let_def case_prod_beta split: option.split)

lemma outer_bio_pd_build: "outer (snd (snd (bio_pd_build b buf n pd))) = outer pd"
  by (simp add: bio_pd_build_def Let_def case_prod_beta)

lemma outer_bio_reply: "outer (snd (snd (osdp_bio_pd_reply_build pd e buf n))) = outer pd"
  by (simp add: osdp_bio_pd_reply_build_def Let_def case_prod_beta outer_bio_pd_build split: option.split)

subsection \<open>Keys, session and callbacks\<close>

definition pk :: "('w, 'z) osdp_dev_scheme \<Rightarrow> _" where
  "pk pd = (sec pd, sc_keys (pd_sc pd), pd_cb pd)"

lemma pkD:
  assumes "pk x = pk y"
  shows "sec x = sec y" "sc_keys (pd_sc x) = sc_keys (pd_sc y)" "pd_cb x = pd_cb y" "sc_is_active x = sc_is_active y"
    "scbk (pd_sc x) = scbk (pd_sc y)"
  using assms secD(3) [of x y] sc_keysD(1) [of "pd_sc x" "pd_sc y"] by (simp_all add: pk_def)

lemma pk_outer:
  fixes x y :: "('w, 'z) osdp_dev_scheme"
  shows "outer x = outer y \<Longrightarrow> pk x = pk y"
  using view_outer [of x y] outerD [of x y] by (simp add: pk_def)

lemma pk_view:
  fixes x y :: "('w, 'z) osdp_dev_scheme"
  shows "view x = view y \<Longrightarrow> pk x = pk y"
  using phy_restD [of x y] more_devD [of x y] by (simp add: pk_def view_def)

lemma pk_cong:
  fixes x y :: "('w, 'z) osdp_dev_scheme"
  shows "pd_flags x = pd_flags y \<Longrightarrow> pd_sc x = pd_sc y \<Longrightarrow> pd_cb x = pd_cb y \<Longrightarrow> pk x = pk y"
  using sec_cong [of x y] by (simp add: pk_def)

lemma pk_update [simp]:
  fixes pd :: "('w, 'z) osdp_dev_scheme"
  shows "pk (pd\<lparr>pd_cmd_id := x1\<rparr>) = pk pd" "pk (pd\<lparr>pd_reply_id := x2\<rparr>) = pk pd" "pk (pd\<lparr>pd_pending := x3\<rparr>) = pk pd"
    "pk (pd\<lparr>pd_event_queue := x4\<rparr>) = pk pd" "pk (pd\<lparr>pd_active_event := x5\<rparr>) = pk pd" "pk (pd\<lparr>pd_app := x6\<rparr>) = pk pd"
    "pk (pd\<lparr>pd_ctx := x7\<rparr>) = pk pd" "pk (pd\<lparr>pd_packet_buf := x8\<rparr>) = pk pd" "pk (pd\<lparr>pd_packet_buf_len := x9\<rparr>) = pk pd"
    "pk (pd\<lparr>pd_reply_prebuilt := x10\<rparr>) = pk pd" "pk (pd\<lparr>pd_peer_rx_size := x11\<rparr>) = pk pd"
    "pk (pd\<lparr>pd_sc_tstamp := x12\<rparr>) = pk pd" "pk (pd\<lparr>pd_metrics := x13\<rparr>) = pk pd" "pk (pd\<lparr>pd_last_tx_len := x14\<rparr>) = pk pd"
    "pk (pd\<lparr>pd_last_cmd_id := x15\<rparr>) = pk pd" "pk (pd\<lparr>pd_baud_rate := x16\<rparr>) = pk pd" "pk (pd\<lparr>pd_address := x17\<rparr>) = pk pd"
    "pk (pd\<lparr>pd_seq_number := x18\<rparr>) = pk pd" "pk (pd\<lparr>pd_tstamp := x19\<rparr>) = pk pd"
  by (rule pk_cong, simp_all)+

lemma pk_ops [simp]:
  fixes pd :: "('w, 'z) osdp_dev_scheme"
  shows "pk (osdp_metrics_report e pd) = pk pd" "pk (set_nak_code n pd) = pk pd" "pk (pd_nak n pd) = pk pd"
    "pk (put_packet_bytes bs pd) = pk pd" "pk (set_channel ch pd) = pk pd" "pk (put_tx_buf bs pd) = pk pd"
    "pk (osdp_engines_abort pd) = pk pd" "pk (osdp_piv_abort pd) = pk pd"
    "pk (osdp_phy_progress_sequence pd) = pk pd" "pk (set_comset_pending c pd) = pk pd"
proof -
  show "pk (osdp_engines_abort pd) = pk pd" "pk (osdp_piv_abort pd) = pk pd" by (rule pk_outer, simp)+
qed (simp_all add: osdp_metrics_report_def set_nak_code_def pd_nak_def put_packet_bytes_def set_channel_def
      put_tx_buf_def osdp_phy_progress_sequence_def set_comset_pending_def)

lemma pk_engines [simp]:
  fixes pd :: "('w, 'z) osdp_dev_scheme"
  shows "pk (snd (osdp_file_cmd_tx_decode pd buf n)) = pk pd" "pk (snd (osdp_piv_pd_open pd c i)) = pk pd"
    "pk (snd (snd (osdp_piv_pd_cmd_frag pd c buf n))) = pk pd"
    "pk (snd (snd (osdp_piv_pd_reply_build pd e1 buf n))) = pk pd"
    "pk (snd (snd (osdp_bio_pd_reply_build pd e2 buf n))) = pk pd"
    "pk (snd (snd (osdp_file_cmd_stat_build pd buf n))) = pk pd"
  by (rule pk_outer, rule outer_file_tx_decode outer_piv_open outer_piv_frag outer_piv_reply outer_bio_reply
      outer_file_stat_build)+

lemma pk_online [simp]: "pk (pd_set_online pd) = pk pd" "pk (pd_set_offline pd) = pk pd"
  by (simp_all add: pk_def pd_set_online_def pd_set_offline_def sec_def flag_defs) (simp_all add: SET_FLAG_def CLEAR_FLAG_def)

lemma pk_deliver [simp]: "pk (pd_deliver_notification n pd) = pk pd" "pk (pd_notify_pd_status b pd) = pk pd"
  "pk (pd_notify_sc_status pd) = pk pd"
  by (simp_all add: pd_deliver_notification_def pd_notify_pd_status_def pd_notify_sc_status_def split: option.split)

lemma pk_complete [simp]: "pk (pd_complete_event e st pd) = pk pd" "pk (pd_settle_event st pd) = pk pd"
  by (auto simp: pd_complete_event_def pd_settle_event_def split: option.split)

lemma pk_callback: "pk (snd (snd (do_command_callback cmd pd))) = pk pd"
  by (simp add: do_command_callback_def pd_call_app_def Let_def case_prod_beta split: option.split)

lemma pk_cap_ok: "pk (snd (pd_cmd_cap_ok u pd)) = pk pd"
  by (simp add: pd_cmd_cap_ok_def)

lemma pk_inline: "pk (snd (pd_take_inline_reply pd)) = pk pd" "pk (snd (pd_inline_or_ack pd)) = pk pd"
  "pk (snd (pd_ack pd)) = pk pd"
proof -
  have i: "pk (snd (pd_take_inline_reply pd)) = pk pd" by (simp add: pd_take_inline_reply_def split: list.split)
  then show "pk (snd (pd_take_inline_reply pd)) = pk pd" "pk (snd (pd_inline_or_ack pd)) = pk pd" "pk (snd (pd_ack pd)) = pk pd"
    by (simp_all add: pd_inline_or_ack_def pd_ack_def Let_def case_prod_beta)
qed

lemma pk_init: "pk (snd (snd (osdp_phy_packet_init pd buf n))) = pk pd"
  by (rule pk_view) (metis sec_packet_init prod.collapse)

lemma pk_finalize: "pk (snd (snd (osdp_phy_finalize_packet crc pd buf l n))) = pk pd"
  by (rule pk_view) (metis view_finalize prod.collapse)

lemma pk_prebuild: "pk (snd (pd_prebuild_status_reply crc r s pd)) = pk pd"
  by (simp add: pd_prebuild_status_reply_def Let_def case_prod_beta pk_init pk_finalize split: option.split)

subsection \<open>The decoder\<close>

lemma pk_records: "pk (snd (pd_run_records parse n k buf pd)) = pk pd"
  by (induction k arbitrary: buf pd) (simp_all add: Let_def case_prod_beta pk_cap_ok pk_callback)

lemma pk_decode_cases:
  "pk (snd (pd_decode_status crc t c pd len)) = pk pd"
  "pk (snd (pd_decode_records parse n pd buf len)) = pk pd"
  "pk (snd (pd_decode_acked u pd)) = pk pd"
  "pk (snd (pd_decode_answered u pd)) = pk pd"
  "pk (snd (pd_decode_comset pd buf len)) = pk pd"
  by (simp_all add: pd_decode_status_def pd_decode_records_def pd_decode_acked_def pd_decode_answered_def
      pd_decode_comset_def Let_def case_prod_beta pk_cap_ok pk_callback pk_inline pk_prebuild pk_records)

lemma pk_decode_cases2:
  "pk (snd (pd_decode_biomatch pd buf len)) = pk pd"
  "pk (snd (pd_decode_pivdata pd buf len)) = pk pd"
  "pk (snd (pd_decode_auth pd buf len)) = pk pd"
  "pk (snd (pd_decode_keyset pd buf len)) = pk pd"
  by (simp_all add: pd_decode_biomatch_def pd_decode_pivdata_def pd_decode_auth_def pd_decode_keyset_def
      Let_def case_prod_beta pk_cap_ok pk_callback pk_inline pk_decode_cases split: option.split)

lemma pk_decode_poll: "pd_decode_poll pd len = Some (r, p) \<Longrightarrow> pk p = pk pd"
  by (auto simp: pd_decode_poll_def split: if_splits list.splits option.splits)

text \<open>
  An operation is still if it keeps the base key, the lasting flags and the callbacks, and opens
  no session.
\<close>

definition still :: "('w, 'z) osdp_dev_scheme \<Rightarrow> ('w, 'z) osdp_dev_scheme \<Rightarrow> bool" where
  "still x y \<longleftrightarrow> scbk (pd_sc y) = scbk (pd_sc x) \<and> sec_core y = sec_core x \<and> pd_cb y = pd_cb x \<and>
     (sc_is_active y \<longrightarrow> sc_is_active x)"

lemma still_refl [simp]: "still x x"
  by (simp add: still_def)

lemma still_trans: "still x y \<Longrightarrow> still y z \<Longrightarrow> still x z"
  by (auto simp: still_def)

lemma still_pk: "pk y = pk x \<Longrightarrow> still x y"
  using pkD [of y x] sec_core_cong [of y x] by (simp add: still_def)

lemma still_deactivate:
  fixes pd :: "('w, 'z) osdp_dev_scheme"
  shows "still pd (sc_deactivate pd)" "\<not> sc_is_active (sc_deactivate pd)"
  using more_devD(2) [OF phy_restD(1) [OF phy_rest_deactivate [of pd]]] sc_keysD(1) [OF phy_restD(17) [OF phy_rest_deactivate [of pd]]]
  by (simp_all add: still_def)

lemma still_sc_deactivate: "still pd (pd_sc_deactivate pd)" "\<not> sc_is_active (pd_sc_deactivate pd)"
proof -
  have p: "pk (pd_notify_sc_status (sc_deactivate pd)) = pk (sc_deactivate pd)" by simp
  have q: "pk (pd_sc_deactivate pd) = pk (sc_deactivate pd)" by (simp add: pd_sc_deactivate_def Let_def)
  show "still pd (pd_sc_deactivate pd)" by (rule still_trans [OF still_deactivate(1) still_pk [OF q]])
  show "\<not> sc_is_active (pd_sc_deactivate pd)" using pkD(4) [OF q] still_deactivate(2) by simp
qed

lemma sc_setup_frame:
  fixes pd :: "('w, 'z) osdp_dev_scheme"
  shows "still pd (osdp_sc_setup pd)"
proof -
  have r: "pk (snd (osdp_fill_random n q)) = pk q" for n and q :: "('w, 'z) osdp_dev_scheme"
    by (simp add: osdp_fill_random_def Let_def)
  have f: "pd_flags (osdp_sc_setup pd) = pd_flags pd" "pd_cb (osdp_sc_setup pd) = pd_cb pd"
    "scbk (pd_sc (osdp_sc_setup pd)) = scbk (pd_sc pd)"
    by (simp_all add: osdp_sc_setup_def Let_def osdp_fill_random_def set_channel_def)
  show ?thesis using f(2,3) sec_cong [OF f(1)] sec_core_cong [of "osdp_sc_setup pd" pd] secD(3) [of "osdp_sc_setup pd" pd]
    by (simp add: still_def)
qed

lemma still_chlng: "still pd (snd (pd_decode_chlng pd buf len))"
proof -
  obtain ok p where c: "pd_cmd_cap_ok None pd = (ok, p)" by (rule prod.exhaust)
  have k: "still pd p" using pk_cap_ok [of None pd] c by (intro still_pk) simp
  define q where "q = osdp_sc_setup (pd_sc_deactivate p)"
  have q: "still pd q"
    unfolding q_def by (rule still_trans [OF still_trans [OF k still_sc_deactivate(1)] sc_setup_frame])
  have u: "still q (q\<lparr>pd_sc := (pd_sc q)\<lparr>cp_random := r\<rparr>, pd_reply_id := i\<rparr>)" for r i
    using sec_core_cong [OF sec_cong, of "q\<lparr>pd_sc := (pd_sc q)\<lparr>cp_random := r\<rparr>, pd_reply_id := i\<rparr>" q]
      secD(3) [OF sec_cong, of "q\<lparr>pd_sc := (pd_sc q)\<lparr>cp_random := r\<rparr>, pd_reply_id := i\<rparr>" q] by (simp add: still_def)
  have "still pd (q\<lparr>pd_sc := (pd_sc q)\<lparr>cp_random := r\<rparr>, pd_reply_id := i\<rparr>)" for r i
    by (rule still_trans [OF q u])
  then show ?thesis using k by (simp add: pd_decode_chlng_def c Let_def q_def)
qed

lemma still_scrypt: "still pd (snd (pd_decode_scrypt pd buf len))"
proof -
  obtain ok p where c: "pd_cmd_cap_ok None pd = (ok, p)" by (rule prod.exhaust)
  have k: "still pd p" using pk_cap_ok [of None pd] c by (intro still_pk) simp
  define q where "q = p\<lparr>pd_sc := (pd_sc p)\<lparr>cp_cryptogram := take 16 buf\<rparr>\<rparr>"
  have q: "still p q"
    using sec_core_cong [OF sec_cong, of q p] secD(3) [OF sec_cong, of q p] by (simp add: still_def q_def)
  have n: "still p (set_nak_code n p)" "still q (set_nak_code n q)" "still q (q\<lparr>pd_reply_id := i\<rparr>)" for n i
    by (simp_all add: still_pk)
  have "still pd (set_nak_code n p)" "still pd (set_nak_code n q)" "still pd (q\<lparr>pd_reply_id := i\<rparr>)" for n i
    using still_trans [OF k n(1)] still_trans [OF still_trans [OF k q] n(2)] still_trans [OF still_trans [OF k q] n(3)] by auto
  then show ?thesis using k by (simp add: pd_decode_scrypt_def c Let_def q_def [symmetric])
qed

lemma pk_decode_cases3: "pk (snd (pd_decode_bioread pd buf len)) = pk pd" "pk (snd (pd_decode_file pd buf len)) = pk pd"
  by (simp_all add: pd_decode_bioread_def pd_decode_file_def Let_def case_prod_beta pk_cap_ok pk_decode_cases)

lemma still_body_pred: "pred_option (\<lambda>rp. still pd (snd rp)) (pd_command_body crc pd buf len)"
proof -
  note s = still_pk [OF pk_decode_cases(1)] still_pk [OF pk_decode_cases(2)] still_pk [OF pk_decode_cases(3)]
    still_pk [OF pk_decode_cases(4)] still_pk [OF pk_decode_cases(5)] still_pk [OF pk_decode_cases2(1)]
    still_pk [OF pk_decode_cases2(2)] still_pk [OF pk_decode_cases2(3)] still_pk [OF pk_decode_cases2(4)]
    still_pk [OF pk_decode_cases3(1)] still_pk [OF pk_decode_cases3(2)]
  have a: "still pd (snd (pd_ack q))" if "pk q = pk pd" for q using pk_inline(3) [of q] that by (intro still_pk) simp
  have poll: "pred_option (\<lambda>rp. still pd (snd rp)) (pd_decode_poll pd len)"
    using still_pk [OF pk_decode_poll] by (cases "pd_decode_poll pd len") auto
  have n: "still pd (pd\<lparr>pd_reply_id := i\<rparr>)" "still pd (pd_nak c pd)" for i c by (simp_all add: still_pk)
  show ?thesis
    unfolding pd_command_body_def Let_def [of "pd_cmd_id pd"]
    by (simp add: s still_chlng still_scrypt n a poll del: Let_def)
qed

lemma still_body: "pd_command_body crc pd buf len = Some (r, p) \<Longrightarrow> still pd p"
  using still_body_pred [of pd crc buf len] by simp

lemma still_decode:
  assumes "pd_decode_command crc pd buf len = Some (r, p)"
  shows "still pd p"
proof -
  define q where "q = (pd_nak OSDP_PD_NAK_RECORD pd)\<lparr>pd_cmd_id := uint (buf ! 0)\<rparr>"
  have k: "still pd q" by (rule still_pk) (simp add: q_def)
  have n: "still x (set_nak_code c x)" "still x (pd_nak c x)" for c and x :: "('a, 'b) osdp_dev_scheme"
    by (simp_all add: still_pk)
  show ?thesis
    using assms still_trans [OF k still_body [of crc q]] still_trans [OF k n(1)]
      still_trans [OF still_trans [OF k still_body [of crc q]] n(2)]
    unfolding pd_decode_command_def Let_def q_def [symmetric]
    by (auto split: if_splits option.splits)
qed

subsection \<open>Receiving on a PD\<close>

lemma reply_ops [simp]:
  "pd_reply_id (osdp_metrics_report e pd) = pd_reply_id pd" "pd_reply_id (set_nak_code n pd) = pd_reply_id pd"
  "pd_reply_id (put_packet_bytes bs pd) = pd_reply_id pd" "pd_reply_id (set_channel ch pd) = pd_reply_id pd"
  "pd_reply_id (SET_FLAG f pd) = pd_reply_id pd" "pd_reply_id (CLEAR_FLAG f pd) = pd_reply_id pd"
  "pd_reply_id (SET_FLAG_V f v pd) = pd_reply_id pd" "pd_reply_id (sc_deactivate pd) = pd_reply_id pd"
  "pd_reply_id (phy_top_up m pd) = pd_reply_id pd" "pd_reply_id (osdp_compute_mac b1 bs m pd) = pd_reply_id pd"
  "pd_reply_id (phy_reset_seq_number pd) = pd_reply_id pd" "pd_reply_id (phy_rollback_seq_number pd) = pd_reply_id pd"
  "pd_reply_id (snd (osdp_channel_receive pd)) = pd_reply_id pd"
  "pd_reply_id (snd (osdp_channel_send pd bs m)) = pd_reply_id pd"
  "pd_reply_id (phy_set_nak n pd) = REPLY_NAK" "pd_reply_id (pd_nak n pd) = REPLY_NAK"
  by (simp_all add: osdp_metrics_report_def set_nak_code_def put_packet_bytes_def set_channel_def SET_FLAG_def
      CLEAR_FLAG_def SET_FLAG_V_def sc_deactivate_def phy_top_up_def osdp_compute_mac_def phy_reset_seq_number_def
      phy_rollback_seq_number_def osdp_channel_receive_def osdp_channel_send_def phy_set_nak_def pd_nak_def
      Let_def case_prod_beta split: option.split)

lemma reply_find_start: "pd_reply_id (snd (phy_find_start pd)) = pd_reply_id pd"
  by (simp add: phy_find_start_def Let_def case_prod_beta split: option.split)

lemma reply_validate: "pd_reply_id (snd (phy_validate_header pd b n m)) = pd_reply_id pd"
  by (simp add: phy_validate_header_def Let_def)

lemma reply_rescan: "pd_reply_id (snd (phy_rescan_packet_buf pd)) = pd_reply_id pd"
  by (simp add: phy_rescan_packet_buf_def Let_def)

lemma reply_check_header: "pd_reply_id (snd (phy_check_header pd)) = pd_reply_id pd"
  by (simp add: phy_check_header_def Let_def case_prod_beta reply_find_start reply_validate reply_rescan)

text \<open>\<open>heard x y\<close>: what listening may do to a PD, before a command is decoded.\<close>

definition heard :: "'z osdp_pd_scheme \<Rightarrow> 'z osdp_pd_scheme \<Rightarrow> bool" where
  "heard x y \<longleftrightarrow> phy_rest y = phy_rest x \<and> sec_core y = sec_core x \<and> (sc_is_active y \<longrightarrow> sc_is_active x) \<and>
     (pd_reply_id y = pd_reply_id x \<or> pd_reply_id y = REPLY_NAK)"

lemma heard_refl: "heard x x" by (simp add: heard_def)

lemma heard_trans: "heard x y \<Longrightarrow> heard y z \<Longrightarrow> heard x z"
  by (auto simp: heard_def)

lemma heard_view: "view y = view x \<Longrightarrow> pd_reply_id y = pd_reply_id x \<or> pd_reply_id y = REPLY_NAK \<Longrightarrow> heard x y"
  using sec_core_cong [of y x] secD(3) [of y x] by (simp add: heard_def view_def)

lemma view_sequence [simp]: "view (phy_reset_seq_number pd) = view pd" "view (phy_rollback_seq_number pd) = view pd"
  "view (pd\<lparr>pd_last_tx_len := n\<rparr>) = view pd" "view (snd (osdp_channel_send pd b k)) = view pd"
  using view_ops(1) [of _ pd]
  by (simp_all add: phy_reset_seq_number_def phy_rollback_seq_number_def osdp_channel_send_def Let_def case_prod_beta
      split: option.split)

lemma heard_deactivate: "heard pd (sc_deactivate pd)"
  by (simp add: heard_def)

lemma heard_sequence: "heard pd (snd (phy_pd_sequence pd b s))"
proof -
  have d: "heard pd (sc_deactivate q)" if "view q = view pd" "pd_reply_id q = pd_reply_id pd" for q
    by (rule heard_trans [OF heard_view heard_deactivate]) (simp_all add: that)
  have v: "heard pd q" if "view q = view pd" "pd_reply_id q = pd_reply_id pd" for q
    by (rule heard_view) (simp_all add: that)
  show ?thesis
    unfolding phy_pd_sequence_def Let_def by (simp add: d v heard_refl)
qed

lemma heard_match: "heard pd (snd (phy_match_sequence pd s))"
  by (rule heard_view [OF view_match]) (simp add: phy_match_sequence_def)

lemma heard_phy_check: "heard pd (snd (phy_check_packet crc pd buf n))"
proof -
  define p where "p = osdp_metrics_report OSDP_METRIC_PACKET_RECEIVED pd"
  have p: "heard pd p" by (rule heard_view) (simp_all add: p_def)
  have e: "heard pd (osdp_metrics_report OSDP_METRIC_PACKET_CHECK_ERROR p)"
    by (rule heard_view) (simp_all add: p_def)
  obtain k good where i: "phy_check_integrity crc (drop (mark_len pd) buf) (n - mark_len pd) = (k, good)" by (rule prod.exhaust)
  define b where "b = drop (mark_len pd) buf"
  obtain skip q where q: "phy_pd_sequence p b (uint (pkt_control b AND PKT_CONTROL_SQN)) = (skip, q)" by (rule prod.exhaust)
  have s: "heard pd q" using heard_trans [OF p heard_sequence] q by (metis snd_conv)
  have f: "heard pd (SET_FLAG PD_FLAG_PKT_BROADCAST q)"
    by (rule heard_trans [OF s heard_view]) simp_all
  show ?thesis
    using p e s f heard_trans [OF p heard_match] heard_trans [OF s heard_match] heard_trans [OF f heard_match]
    unfolding phy_check_packet_def Let_def i [folded b_def] p_def [symmetric] b_def [symmetric]
    by (auto simp: q)
qed

lemma heard_osdp_check: "heard pd (snd (osdp_phy_check_packet crc pd))"
proof -
  obtain r1 p1 where e1: "osdp_channel_receive pd = (r1, p1)" by (rule prod.exhaust)
  have v1: "view p1 = view pd" "pd_reply_id p1 = pd_reply_id pd"
    using view_receive [of pd] reply_ops(13) [of pd] e1 by simp_all
  define p1' where "p1' = (if is_pd_mode p1 \<and> pd_packet_buf_len p1 = 0 \<and> r1 > 0
                           then p1\<lparr>pd_tstamp := osdp_millis_now p1\<rparr> else p1)"
  have v1': "view p1' = view pd" "pd_reply_id p1' = pd_reply_id pd" using v1 by (simp_all add: p1'_def)
  obtain r2 p2 where e2: "phy_check_header p1' = (r2, p2)" by (rule prod.exhaust)
  have v2: "view p2 = view pd" "pd_reply_id p2 = pd_reply_id pd"
    using view_check_header [of p1'] reply_check_header [of p1'] e2 v1' by simp_all
  define q where "q = (if pd_packet_len p1' = 0 then p2\<lparr>pd_packet_len := nat r2, pd_packet_scan_skip := 0\<rparr> else p1')"
  have vq: "view q = view pd" "pd_reply_id q = pd_reply_id pd" using v1' v2 by (simp_all add: q_def)
  obtain r3 p3 where e3: "phy_collect_packet q = (r3, p3)" by (rule prod.exhaust)
  have v3: "view p3 = view pd" "pd_reply_id p3 = pd_reply_id pd"
    using view_collect [of q] e3 vq by (auto simp: phy_collect_packet_def Let_def split: if_splits)
  have h: "heard pd p1'" "heard pd p2" "heard pd q" "heard pd p3"
    using v1' v2 vq v3 by (simp_all add: heard_view)
  show ?thesis
    using h heard_trans [OF h(4) heard_phy_check] e3 unfolding q_def
    by (auto simp: osdp_phy_check_packet_def e1 p1'_def [symmetric] e2 Let_def split: if_splits)
qed

lemma heard_decode_scb:
  assumes "phy_decode_scb pd b len = (r, p)"
  shows "heard pd p"
proof -
  have "pd_reply_id p = pd_reply_id pd \<or> pd_reply_id p = REPLY_NAK"
    using assms by (auto simp: phy_decode_scb_def Let_def split: if_splits)
  then show ?thesis using decode_scb_view [OF assms] by (simp add: heard_def)
qed

lemma heard_decode_secure:
  assumes "phy_decode_secure pd b data len mo = Some (ret, b', p)"
  shows "heard pd p"
proof -
  define q where "q = osdp_compute_mac (is_pd_mode pd) b mo pd"
  have q: "heard pd q" by (rule heard_view) (simp_all add: q_def)
  have n: "heard pd (phy_set_nak c (sc_deactivate q))" for c
    by (rule heard_trans [OF heard_trans [OF q heard_deactivate] heard_view]) simp_all
  show ?thesis
    using assms q n unfolding phy_decode_secure_def Let_def q_def [symmetric] by (auto split: if_splits option.splits)
qed

lemma heard_decode_packet:
  assumes "osdp_phy_decode_packet pd = Some (len, off, pd')"
  shows "heard pd pd'"
proof -
  define buf where "buf = packet_bytes pd"
  define b where "b = drop (mark_len pd) buf"
  define n where "n = int (pd_packet_buf_len pd) - int (mark_len pd) - (if has_ctl PKT_CONTROL_CRC b then 2 else 1)"
  obtain r p where s: "phy_decode_scb pd b (n - int PKT_HDR) = (r, p)" by (rule prod.exhaust)
  note hs = heard_decode_scb [OF s]
  show ?thesis
  proof (cases r)
    case None
    then show ?thesis
      using assms hs unfolding osdp_phy_decode_packet_def Let_def buf_def [symmetric] b_def [symmetric] n_def [symmetric]
      by (simp add: s)
  next
    case (Some q)
    obtain data l act where q: "q = (data, l, act)" by (metis prod_cases3)
    show ?thesis
    proof (cases "phy_decode_secure p b data l (nat (n - 4))")
      case None
      then show ?thesis
        using assms hs unfolding osdp_phy_decode_packet_def Let_def buf_def [symmetric] b_def [symmetric] n_def [symmetric]
        by (auto simp: s Some q split: if_splits)
    next
      case sd: (Some x)
      obtain ret b' p' where x: "x = (ret, b', p')" by (metis prod_cases3)
      have v: "heard pd (put_packet_bytes y p')" for y
        by (rule heard_trans [OF heard_trans [OF hs heard_decode_secure [OF sd [unfolded x]]] heard_view]) simp_all
      show ?thesis
        using assms hs v unfolding osdp_phy_decode_packet_def Let_def buf_def [symmetric] b_def [symmetric] n_def [symmetric]
        by (auto simp: s Some q sd x split: if_splits)
    qed
  qed
qed

end
