(* ===== verification/Pd_Replies.thy ===== *)
theory Pd_Replies
  imports Pd_Frames Cp_State
begin

text \<open>
  Which reply code the PD's decoder picks for which command, and that the CP accepts it.
\<close>

subsection \<open>Handling that leaves the reply open or refuses\<close>

definition open_reply :: "'z osdp_pd_scheme \<Rightarrow> 'y osdp_pd_scheme \<Rightarrow> bool" where
  "open_reply x y \<longleftrightarrow> pd_cmd_id y = pd_cmd_id x \<and> (pd_reply_id y = pd_reply_id x \<or> pd_reply_id y = REPLY_NAK)"

lemma open_refl [simp]: "open_reply x x" by (simp add: open_reply_def)

lemma open_trans: "open_reply x y \<Longrightarrow> open_reply y z \<Longrightarrow> open_reply x z"
  by (auto simp: open_reply_def)

lemma cmd_ops [simp]:
  "pd_cmd_id (osdp_metrics_report e pd) = pd_cmd_id pd" "pd_cmd_id (set_nak_code n pd) = pd_cmd_id pd"
  "pd_cmd_id (pd_nak n pd) = pd_cmd_id pd" "pd_cmd_id (put_tx_buf bs pd) = pd_cmd_id pd"
  "pd_reply_id (put_tx_buf bs pd) = pd_reply_id pd"
  by (simp_all add: osdp_metrics_report_def set_nak_code_def pd_nak_def put_tx_buf_def)

lemma open_callback: "open_reply pd (snd (snd (do_command_callback cmd pd)))"
  by (simp add: open_reply_def do_command_callback_def pd_call_app_def Let_def case_prod_beta split: option.split)

lemma open_cap_ok: "open_reply pd (snd (pd_cmd_cap_ok u pd))"
  by (simp add: open_reply_def pd_cmd_cap_ok_def)

lemma open_outer:
  fixes x y :: "('w, 'z) osdp_dev_scheme"
  shows "outer y = outer x \<Longrightarrow> open_reply x y"
  using outerD [of y x] by (simp add: open_reply_def)

lemmas open_engines = open_outer [OF outer_file_tx_decode] open_outer [OF outer_piv_open] open_outer [OF outer_piv_frag]
  open_outer [OF outer_piv_abort] open_outer [OF outer_engines_abort]

lemma reply_finalize: "pd_reply_id (snd (snd (osdp_phy_finalize_packet crc pd buf l n))) = pd_reply_id pd"
  by (simp add: osdp_phy_finalize_packet_def phy_finalize_secure_def Let_def case_prod_beta)

lemma reply_init: "pd_reply_id (snd (snd (osdp_phy_packet_init pd buf n))) = pd_reply_id pd"
  by (simp add: osdp_phy_packet_init_def Let_def case_prod_beta)

lemma cmd_finalize: "pd_cmd_id (snd (snd (osdp_phy_finalize_packet crc pd buf l n))) = pd_cmd_id pd"
  by (metis phy_restD(16) prod.collapse view_finalize viewD(1))

lemma cmd_init: "pd_cmd_id (snd (snd (osdp_phy_packet_init pd buf n))) = pd_cmd_id pd"
  by (metis phy_restD(16) prod.collapse sec_packet_init viewD(1))

lemma open_prebuild: "open_reply pd (snd (pd_prebuild_status_reply crc r s pd))"
  by (simp add: open_reply_def pd_prebuild_status_reply_def Let_def case_prod_beta reply_finalize reply_init cmd_finalize
      cmd_init split: option.split)

lemma open_records: "open_reply pd (snd (pd_run_records parse n k buf pd))"
proof (induction k arbitrary: buf pd)
  case 0
  then show ?case by simp
next
  case (Suc k)
  obtain ok p where c: "pd_cmd_cap_ok (Some (parse (take n buf))) pd = (ok, p)" by (rule prod.exhaust)
  obtain ok2 cmd q where d: "do_command_callback (wire_cmd (parse (take n buf))) p = (ok2, cmd, q)" by (metis prod_cases3)
  have "open_reply pd p" "open_reply p q"
    using open_cap_ok [of pd "Some (parse (take n buf))"] open_callback [of p "wire_cmd (parse (take n buf))"] c d by simp_all
  then show ?case using open_trans [OF open_trans Suc.IH] by (auto simp: c d Let_def intro: open_trans)
qed

subsection \<open>The replies of a command\<close>

definition answers :: "int \<Rightarrow> int set" where
  "answers c =
     (if c = CMD_POLL then {REPLY_ACK, REPLY_NAK} \<union> set poll_replies
      else if c = CMD_ID then {REPLY_NAK, REPLY_PDID}
      else if c = CMD_CAP then {REPLY_NAK, REPLY_PDCAP}
      else if c = CMD_CHLNG then {REPLY_NAK, REPLY_CCRYPT}
      else if c = CMD_SCRYPT then {REPLY_NAK, REPLY_RMAC_I}
      else if c \<in> {CMD_LSTAT, CMD_ISTAT, CMD_OSTAT, CMD_RSTAT, CMD_COMSET, CMD_FILETRANSFER}
      then {REPLY_NAK} \<union> set (expected_replies c)
      else if c = CMD_MFG then {REPLY_ACK, REPLY_NAK, REPLY_MFGREP, REPLY_MFGSTATR, REPLY_MFGERRR}
      else {REPLY_ACK, REPLY_NAK} \<union> set (expected_replies c))"

text \<open>\<open>answered x rs y\<close>: the command of \<open>x\<close>, whose reply was a NAK so far, now has a reply of \<open>rs\<close>.\<close>

definition answered :: "'z osdp_pd_scheme \<Rightarrow> int set \<Rightarrow> 'y osdp_pd_scheme \<Rightarrow> bool" where
  "answered x rs y \<longleftrightarrow> pd_cmd_id y = pd_cmd_id x \<and> (pd_reply_id y \<in> rs \<or> pd_reply_id y = pd_reply_id x \<or> pd_reply_id y = REPLY_NAK)"

lemma answered_open: "open_reply x y \<Longrightarrow> answered x rs y"
  by (auto simp: open_reply_def answered_def)

lemma open_answered: "open_reply x y \<Longrightarrow> answered y rs z \<Longrightarrow> answered x rs z"
  by (auto simp: open_reply_def answered_def)

lemma answered_mono: "answered x rs y \<Longrightarrow> rs \<subseteq> rs' \<Longrightarrow> answered x rs' y"
  by (auto simp: answered_def)

definition inline_replies :: "int \<Rightarrow> int set" where
  "inline_replies c = {r. \<exists>ev. event_is_reply_to c ev \<and> pd_translate_event ev = Some r}"

lemma inline_replies_answers:
  "inline_replies CMD_MFG \<subseteq> {REPLY_MFGREP, REPLY_MFGSTATR, REPLY_MFGERRR}"
  "c \<in> {CMD_LSTAT, CMD_ISTAT, CMD_OSTAT, CMD_RSTAT, CMD_OUT, CMD_BIOREAD, CMD_BIOMATCH, CMD_PIVDATA, CMD_GENAUTH, CMD_CRAUTH}
   \<Longrightarrow> inline_replies c \<subseteq> set (expected_replies c)"
proof -
  have i: "pd_translate_event ev = Some r \<Longrightarrow> event_is_reply_to CMD_MFG ev \<Longrightarrow> r \<in> {REPLY_MFGREP, REPLY_MFGSTATR, REPLY_MFGERRR}"
    for ev r by (cases ev) (auto split: osdp_status_report_type.splits)
  then show "inline_replies CMD_MFG \<subseteq> {REPLY_MFGREP, REPLY_MFGSTATR, REPLY_MFGERRR}" by (auto simp: inline_replies_def)
  assume c: "c \<in> {CMD_LSTAT, CMD_ISTAT, CMD_OSTAT, CMD_RSTAT, CMD_OUT, CMD_BIOREAD, CMD_BIOMATCH, CMD_PIVDATA, CMD_GENAUTH, CMD_CRAUTH}"
  have "pd_translate_event ev = Some r \<Longrightarrow> event_is_reply_to c ev \<Longrightarrow> r \<in> set (expected_replies c)" for ev r
    using c by (cases ev) (auto simp: expected_replies_def split: osdp_status_report_type.splits)
  then show "inline_replies c \<subseteq> set (expected_replies c)" by (auto simp: inline_replies_def)
qed

lemma take_inline_answered:
  "answered pd (inline_replies (pd_cmd_id pd)) (snd (pd_take_inline_reply pd))"
  "\<not> fst (pd_take_inline_reply pd) \<Longrightarrow> snd (pd_take_inline_reply pd) = pd"
proof -
  show "answered pd (inline_replies (pd_cmd_id pd)) (snd (pd_take_inline_reply pd))"
  proof (cases "pd_event_queue pd")
    case (Cons ev q)
    show ?thesis
    proof (cases "event_is_reply_to (pd_cmd_id pd) ev")
      case True
      then obtain r where r: "pd_translate_event ev = Some r" using reply_event_translates by blast
      then have "r \<in> inline_replies (pd_cmd_id pd)" using True unfolding inline_replies_def by blast
      then show ?thesis by (simp add: pd_take_inline_reply_def Cons True r answered_def)
    qed (simp add: pd_take_inline_reply_def Cons answered_def)
  qed (simp add: pd_take_inline_reply_def answered_def)
  show "\<not> fst (pd_take_inline_reply pd) \<Longrightarrow> snd (pd_take_inline_reply pd) = pd"
    by (cases "pd_event_queue pd"; cases "event_is_reply_to (pd_cmd_id pd) (hd (pd_event_queue pd))")
      (simp_all add: pd_take_inline_reply_def)
qed

lemma ack_answered: "answered pd {REPLY_ACK} (snd (pd_ack pd))"
  by (simp add: pd_ack_def answered_def)

lemma inline_or_ack_answered: "answered pd (insert REPLY_ACK (inline_replies (pd_cmd_id pd))) (snd (pd_inline_or_ack pd))"
  using take_inline_answered [of pd]
  by (auto simp: pd_inline_or_ack_def answered_def Let_def case_prod_beta)


lemma decode_records_answered:
  "answered pd (insert REPLY_ACK (if pd_cmd_id pd = CMD_OUT then inline_replies CMD_OUT else {}))
     (snd (pd_decode_records parse n pd buf len))"
proof -
  obtain ok p where r: "pd_run_records parse n (nat (len div int n)) buf pd = (ok, p)" by (rule prod.exhaust)
  have o: "open_reply pd p" using open_records [of pd parse n "nat (len div int n)" buf] r by simp
  then have c: "pd_cmd_id p = pd_cmd_id pd" by (simp add: open_reply_def)
  show ?thesis
    using open_answered [OF o inline_or_ack_answered] open_answered [OF o ack_answered] o c
    by (auto simp: pd_decode_records_def Let_def r answered_open)
qed

lemma decode_acked_answered: "answered pd {REPLY_ACK} (snd (pd_decode_acked u pd))"
proof -
  obtain ok p where c: "pd_cmd_cap_ok (Some u) pd = (ok, p)" by (rule prod.exhaust)
  obtain ok2 cmd q where d: "do_command_callback (wire_cmd u) p = (ok2, cmd, q)" by (metis prod_cases3)
  have o: "open_reply pd p" "open_reply pd q"
    using open_cap_ok [of pd "Some u"] open_callback [of p "wire_cmd u"] c d open_trans by force+
  show ?thesis using o open_answered [OF o(2) ack_answered] by (auto simp: pd_decode_acked_def c d Let_def answered_open)
qed

lemma decode_answered_answered:
  "answered pd (insert REPLY_ACK (inline_replies (pd_cmd_id pd))) (snd (pd_decode_answered u pd))"
proof -
  obtain ok cmd q where d: "do_command_callback (wire_cmd u) pd = (ok, cmd, q)" by (metis prod_cases3)
  have o: "open_reply pd q" using open_callback [of pd "wire_cmd u"] d by simp
  then have c: "pd_cmd_id q = pd_cmd_id pd" by (simp add: open_reply_def)
  show ?thesis using o open_answered [OF o inline_or_ack_answered] c by (auto simp: pd_decode_answered_def d answered_open)
qed

lemma decode_status_answered:
  "answered pd (insert (status_reply t) (inline_replies (pd_cmd_id pd))) (snd (pd_decode_status crc t chk pd len))"
proof -
  define s where "s = \<lparr>status_type = t, status_nr_entries = 0, status_report = replicate (nat OSDP_STATUS_REPORT_MAX_LEN) (0::u8)\<rparr>"
  obtain ok p where c: "(if chk then pd_cmd_cap_ok None pd else (True, pd)) = (ok, p)" by (rule prod.exhaust)
  obtain ok2 cmd q where d: "do_command_callback (wire_cmd (OSDP_CMD_STATUS s)) p = (ok2, cmd, q)" by (metis prod_cases3)
  obtain tk r where t: "pd_take_inline_reply q = (tk, r)" by (rule prod.exhaust)
  define s' where "s' = (case cmd_u cmd of OSDP_CMD_STATUS s \<Rightarrow> s | _ \<Rightarrow> s)"
  obtain rc z where b: "pd_prebuild_status_reply crc (status_reply t) s' r = (rc, z)" by (rule prod.exhaust)
  have p: "open_reply pd p" using open_cap_ok [of pd None] c by (cases chk) auto
  have q: "open_reply pd q" using open_trans [OF p] open_callback [of p "wire_cmd (OSDP_CMD_STATUS s)"] d by simp
  then have cq: "pd_cmd_id q = pd_cmd_id pd" by (simp add: open_reply_def)
  have r: "answered pd (inline_replies (pd_cmd_id pd)) r"
    using open_answered [OF q take_inline_answered(1)] t cq by simp
  have rq: "\<not> tk \<Longrightarrow> r = q" using take_inline_answered(2) [of q] t by simp
  have z: "\<not> tk \<Longrightarrow> open_reply pd z" using open_trans [OF q] open_prebuild [of r crc "status_reply t" s'] b rq by simp
  show ?thesis
    unfolding pd_decode_status_def Let_def s_def [symmetric] c prod.case d s'_def [symmetric] t b
    using p q answered_mono [OF r subset_insertI] z
    by (auto simp: answered_open) (auto simp: answered_def open_reply_def)
qed

lemma decode_comset_answered: "answered pd {REPLY_COM} (snd (pd_decode_comset pd buf len))"
proof -
  define c where "c = parse_comset buf"
  obtain ok cmd q where d: "do_command_callback (wire_cmd (OSDP_CMD_COMSET c)) pd = (ok, cmd, q)" by (metis prod_cases3)
  have o: "open_reply pd q" using open_callback [of pd "wire_cmd (OSDP_CMD_COMSET c)"] d by simp
  then show ?thesis
    by (auto simp: pd_decode_comset_def Let_def c_def [symmetric] d answered_def open_reply_def set_comset_pending_def)
qed

lemma decode_bio_answered:
  "answered pd (insert REPLY_ACK (inline_replies (pd_cmd_id pd))) (snd (pd_decode_bioread pd buf len))"
  "answered pd (insert REPLY_ACK (inline_replies (pd_cmd_id pd))) (snd (pd_decode_biomatch pd buf len))"
proof -
  obtain ok p where c: "pd_cmd_cap_ok None pd = (ok, p)" by (rule prod.exhaust)
  have o: "open_reply pd p" using open_cap_ok [of pd None] c by simp
  then have cp: "pd_cmd_id p = pd_cmd_id pd" by (simp add: open_reply_def)
  have n: "open_reply pd (set_nak_code k p)" for k using o by (simp add: open_reply_def)
  note a = open_answered [OF o decode_answered_answered, unfolded cp]
  show "answered pd (insert REPLY_ACK (inline_replies (pd_cmd_id pd))) (snd (pd_decode_bioread pd buf len))"
    "answered pd (insert REPLY_ACK (inline_replies (pd_cmd_id pd))) (snd (pd_decode_biomatch pd buf len))"
    using o n a by (auto simp: pd_decode_bioread_def pd_decode_biomatch_def c Let_def answered_open)
qed

lemma decode_piv_answered:
  "answered pd (insert REPLY_ACK (inline_replies (pd_cmd_id pd))) (snd (pd_decode_pivdata pd buf len))"
proof -
  obtain ok p where c: "pd_cmd_cap_ok None pd = (ok, p)" by (rule prod.exhaust)
  obtain rc q where p: "osdp_piv_pd_open p CMD_PIVDATA (uint (pivdata_element (parse_pivdata buf))) = (rc, q)" by (rule prod.exhaust)
  have o: "open_reply pd p" using open_cap_ok [of pd None] c by simp
  have q: "open_reply pd q" using open_trans [OF o] open_engines(2) [of p CMD_PIVDATA "uint (pivdata_element (parse_pivdata buf))"] p by simp
  then have cq: "pd_cmd_id q = pd_cmd_id pd" by (simp add: open_reply_def)
  show ?thesis using o q open_answered [OF q decode_answered_answered, unfolded cq]
    by (auto simp: pd_decode_pivdata_def c p Let_def answered_open)
qed

lemma decode_auth_answered:
  "answered pd (insert REPLY_ACK (inline_replies (pd_cmd_id pd))) (snd (pd_decode_auth pd buf len))"
proof -
  obtain ok p where c: "pd_cmd_cap_ok None pd = (ok, p)" by (rule prod.exhaust)
  obtain fr cmd q where f: "osdp_piv_pd_cmd_frag p (pd_cmd_id p) buf len = (fr, cmd, q)" by (metis prod_cases3)
  have o: "open_reply pd p" using open_cap_ok [of pd None] c by simp
  have q: "open_reply pd q" using open_trans [OF o] open_engines(3) [of p "pd_cmd_id p" buf len] f by simp
  have cb: "answered pd (insert REPLY_ACK (inline_replies (pd_cmd_id pd)))
     (snd (let (ok, _, pd) = do_command_callback k q
           in if \<not> ok then (OSDP_PD_ERR_REPLY, osdp_piv_abort pd) else pd_inline_or_ack pd))" for k
  proof -
    obtain ok2 cmd2 z where d: "do_command_callback k q = (ok2, cmd2, z)" by (metis prod_cases3)
    have z: "open_reply pd z" using open_trans [OF q] open_callback [of q k] d by simp
    then have cz: "pd_cmd_id z = pd_cmd_id pd" by (simp add: open_reply_def)
    show ?thesis using open_answered [OF z inline_or_ack_answered, unfolded cz] open_trans [OF z open_engines(4)]
      by (auto simp: d answered_open)
  qed
  have a: "answered pd (insert REPLY_ACK rs) (snd (pd_ack q))" for rs
    by (rule answered_mono [OF open_answered [OF q ack_answered]]) simp
  show ?thesis using o q cb a
    by (simp add: pd_decode_auth_def c f answered_open split: option.split)
qed

lemma decode_keys_answered:
  "answered pd {REPLY_ACK} (snd (pd_decode_keyset pd buf len))"
  "answered pd {REPLY_CCRYPT} (snd (pd_decode_chlng pd buf len))"
  "answered pd {REPLY_RMAC_I} (snd (pd_decode_scrypt pd buf len))"
  "answered pd {REPLY_FTSTAT} (snd (pd_decode_file pd buf len))"
proof -
  obtain ok p where c: "pd_cmd_cap_ok None pd = (ok, p)" by (rule prod.exhaust)
  have o: "open_reply pd p" using open_cap_ok [of pd None] c by simp
  obtain okn pn where cn: "pd_cmd_cap_ok None (set_nak_code OSDP_PD_NAK_SC_COND pd) = (okn, pn)" by (rule prod.exhaust)
  have on: "open_reply pd pn" using open_cap_ok [of "set_nak_code OSDP_PD_NAK_SC_COND pd" None] cn by (simp add: open_reply_def)
  have cb: "open_reply pd (snd (snd (do_command_callback k pn)))" for k by (rule open_trans [OF on open_callback])
  show "answered pd {REPLY_ACK} (snd (pd_decode_keyset pd buf len))"
    using on cb by (auto simp: pd_decode_keyset_def cn Let_def case_prod_beta answered_def open_reply_def)
  have d: "pd_cmd_id (osdp_sc_setup (pd_sc_deactivate p)) = pd_cmd_id pd"
  proof -
    have x: "pd_cmd_id (sc_deactivate y) = pd_cmd_id y" for y :: "('a, 'b) osdp_dev_scheme"
      using phy_restD(16) [OF phy_rest_deactivate [of y]] .
    have "pd_cmd_id (pd_sc_deactivate p) = pd_cmd_id p"
      by (simp add: pd_sc_deactivate_def Let_def x pd_notify_sc_status_def pd_deliver_notification_def split: option.split)
    then show ?thesis using o by (simp add: osdp_sc_setup_def Let_def osdp_fill_random_def set_channel_def open_reply_def)
  qed
  show "answered pd {REPLY_CCRYPT} (snd (pd_decode_chlng pd buf len))"
    using o d by (auto simp: pd_decode_chlng_def c Let_def answered_def open_reply_def)
  show "answered pd {REPLY_RMAC_I} (snd (pd_decode_scrypt pd buf len))"
    using o by (auto simp: pd_decode_scrypt_def c Let_def answered_def open_reply_def)
  obtain rc q where f: "osdp_file_cmd_tx_decode pd buf len = (rc, q)" by (rule prod.exhaust)
  show "answered pd {REPLY_FTSTAT} (snd (pd_decode_file pd buf len))"
    using open_engines(1) [of pd buf len] by (auto simp: pd_decode_file_def f answered_def open_reply_def)
qed

definition piv_answers :: "('w, 'z) osdp_dev_scheme \<Rightarrow> bool" where
  "piv_answers pd \<longleftrightarrow> (osdp_piv_pd_reply_pending pd \<longrightarrow> osdp_piv_pd_reply_id pd \<in> {REPLY_PIVDATAR, REPLY_GENAUTHR, REPLY_CRAUTHR})"

lemma decode_poll_answered:
  assumes "piv_answers pd"
  shows "pred_option (\<lambda>rp. answered pd (insert REPLY_ACK (set poll_replies)) (snd rp)) (pd_decode_poll pd len)"
proof -
  have t: "pd_translate_event ev = Some r \<Longrightarrow> r \<in> set poll_replies" for ev r
  proof -
    have st: "status_reply t \<in> set poll_replies" for t by (cases t) (simp_all add: poll_replies_def)
    show "pd_translate_event ev = Some r \<Longrightarrow> r \<in> set poll_replies"
      using st by (cases ev) (auto simp: poll_replies_def split: if_splits)
  qed
  have b: "REPLY_BIOREADR \<in> set poll_replies" "{REPLY_PIVDATAR, REPLY_GENAUTHR, REPLY_CRAUTHR} \<subseteq> set poll_replies"
    by (simp_all add: poll_replies_def)
  show ?thesis
    using assms b t unfolding pd_decode_poll_def piv_answers_def
    by (auto simp: answered_def split: list.split option.split)
qed

lemma pred_if:
  "(c \<Longrightarrow> pred_option P x) \<Longrightarrow> (\<not> c \<Longrightarrow> pred_option P y) \<Longrightarrow> pred_option P (if c then x else y)"
  by simp

lemma body_answered:
  assumes "piv_answers pd" "pd_reply_id pd = REPLY_NAK"
  shows "pred_option (\<lambda>rp. pd_cmd_id (snd rp) = pd_cmd_id pd \<and> pd_reply_id (snd rp) \<in> answers (pd_cmd_id pd))
           (pd_command_body crc pd buf len)"
proof -
  define ok :: "('a, 'b) osdp_dev_scheme \<Rightarrow> bool"
    where "ok p \<longleftrightarrow> pd_cmd_id p = pd_cmd_id pd \<and> pd_reply_id p \<in> answers (pd_cmd_id pd)" for p
  have n: "REPLY_NAK \<in> answers c" for c by (simp add: answers_def)
  have a: "ok p" if "answered pd rs p" "rs \<subseteq> answers (pd_cmd_id pd)" for rs p
    using that n assms(2) by (auto simp: ok_def answered_def)
  have e: "set (expected_replies c) \<subseteq> answers c" for c
    by (auto simp: answers_def expected_replies_def poll_replies_def)
  have k: "REPLY_ACK \<in> answers c" if "c \<in> {CMD_OUT, CMD_LED, CMD_BUZ, CMD_TEXT, CMD_TDSET, CMD_BIOREAD, CMD_BIOMATCH,
      CMD_MFG, CMD_PIVDATA, CMD_GENAUTH, CMD_CRAUTH, CMD_ACURXSIZE, CMD_KEEPACTIVE, CMD_ABORT, CMD_KEYSET}" for c
    using that by (auto simp: answers_def)
  have m: "{REPLY_MFGREP, REPLY_MFGSTATR, REPLY_MFGERRR} \<subseteq> answers CMD_MFG" by (simp add: answers_def)
  have i: "inline_replies c \<subseteq> answers c"
    if "c \<in> {CMD_LSTAT, CMD_ISTAT, CMD_OSTAT, CMD_RSTAT, CMD_OUT, CMD_BIOREAD, CMD_BIOMATCH, CMD_MFG, CMD_PIVDATA, CMD_GENAUTH, CMD_CRAUTH}" for c
  proof (cases "c = CMD_MFG")
    case True
    then show ?thesis using inline_replies_answers(1) m by blast
  next
    case False
    then show ?thesis using inline_replies_answers(2) [of c] e [of c] that by blast
  qed
  have ik: "insert REPLY_ACK (inline_replies c) \<subseteq> answers c"
    if "c \<in> {CMD_OUT, CMD_BIOREAD, CMD_BIOMATCH, CMD_MFG, CMD_PIVDATA, CMD_GENAUTH, CMD_CRAUTH}" for c
    using i [of c] k [of c] that by auto
  have st: "ok (snd (pd_decode_status crc t chk pd len))" 
    if "pd_cmd_id pd \<in> {CMD_LSTAT, CMD_ISTAT, CMD_OSTAT, CMD_RSTAT}" "status_reply t \<in> answers (pd_cmd_id pd)" for t chk
    by (rule a [OF decode_status_answered]) (use i that in auto)
  have rec: "ok (snd (pd_decode_records parse n pd buf len))" if "pd_cmd_id pd \<in> {CMD_OUT, CMD_LED, CMD_BUZ}" for parse n
    by (rule a [OF decode_records_answered]) (use i k that in auto)
  have ack: "ok (snd (pd_decode_acked u pd))" if "pd_cmd_id pd \<in> {CMD_TEXT, CMD_TDSET}" for u
    by (rule a [OF decode_acked_answered]) (use k that in auto)
  have ans: "ok (snd (pd_decode_answered u pd))" if "pd_cmd_id pd = CMD_MFG" for u
    by (rule a [OF decode_answered_answered]) (use ik that in auto)
  have eng: "pd_cmd_id pd = CMD_BIOREAD \<Longrightarrow> ok (snd (pd_decode_bioread pd buf len))"
    "pd_cmd_id pd = CMD_BIOMATCH \<Longrightarrow> ok (snd (pd_decode_biomatch pd buf len))"
    "pd_cmd_id pd = CMD_PIVDATA \<Longrightarrow> ok (snd (pd_decode_pivdata pd buf len))"
    "pd_cmd_id pd = CMD_GENAUTH \<or> pd_cmd_id pd = CMD_CRAUTH \<Longrightarrow> ok (snd (pd_decode_auth pd buf len))"
    by (rule a [OF decode_bio_answered(1)] a [OF decode_bio_answered(2)] a [OF decode_piv_answered] a [OF decode_auth_answered];
        use ik in auto)+
  have sc: "pd_cmd_id pd = CMD_KEYSET \<Longrightarrow> ok (snd (pd_decode_keyset pd buf len))"
    "pd_cmd_id pd = CMD_CHLNG \<Longrightarrow> ok (snd (pd_decode_chlng pd buf len))"
    "pd_cmd_id pd = CMD_SCRYPT \<Longrightarrow> ok (snd (pd_decode_scrypt pd buf len))"
    "pd_cmd_id pd = CMD_FILETRANSFER \<Longrightarrow> ok (snd (pd_decode_file pd buf len))"
    "pd_cmd_id pd = CMD_COMSET \<Longrightarrow> ok (snd (pd_decode_comset pd buf len))"
    by (rule a [OF decode_keys_answered(1)] a [OF decode_keys_answered(2)] a [OF decode_keys_answered(3)]
        a [OF decode_keys_answered(4)] a [OF decode_comset_answered]; simp add: answers_def expected_replies_def)+
  have ab: "ok (snd (pd_ack q))" if "pd_cmd_id q = pd_cmd_id pd"
    "pd_cmd_id pd \<in> {CMD_ACURXSIZE, CMD_KEEPACTIVE, CMD_ABORT}" for q
    using that k [of "pd_cmd_id pd"] by (auto simp: ok_def pd_ack_def)
  have ea: "pd_cmd_id (osdp_engines_abort pd) = pd_cmd_id pd" using open_engines(5) [of pd] by (simp add: open_reply_def)
  have st_code: "status_reply OSDP_STATUS_REPORT_LOCAL \<in> answers CMD_LSTAT"
    "status_reply OSDP_STATUS_REPORT_INPUT \<in> answers CMD_ISTAT"
    "status_reply OSDP_STATUS_REPORT_OUTPUT \<in> answers CMD_OSTAT"
    "status_reply OSDP_STATUS_REPORT_READER \<in> answers CMD_RSTAT"
    by (simp_all add: answers_def expected_replies_def)
  have st4: "pd_cmd_id pd = CMD_LSTAT \<Longrightarrow> ok (snd (pd_decode_status crc OSDP_STATUS_REPORT_LOCAL chk pd len))"
    "pd_cmd_id pd = CMD_ISTAT \<Longrightarrow> ok (snd (pd_decode_status crc OSDP_STATUS_REPORT_INPUT chk pd len))"
    "pd_cmd_id pd = CMD_OSTAT \<Longrightarrow> ok (snd (pd_decode_status crc OSDP_STATUS_REPORT_OUTPUT chk pd len))"
    "pd_cmd_id pd = CMD_RSTAT \<Longrightarrow> ok (snd (pd_decode_status crc OSDP_STATUS_REPORT_READER chk pd len))" for chk
    by (rule st; use st_code in simp)+
  have poll: "pred_option (\<lambda>rp. ok (snd rp)) (pd_decode_poll pd len)" if "pd_cmd_id pd = CMD_POLL"
    using decode_poll_answered [OF assms(1), of len] by (rule option.pred_mono_strong) (erule a, use that in \<open>auto simp: answers_def\<close>)
  have self: "ok pd" "ok (pd_nak c pd)" for c using n assms(2) by (simp_all add: ok_def)
  have ids: "pd_cmd_id pd = CMD_ID \<Longrightarrow> ok (pd\<lparr>pd_reply_id := REPLY_PDID\<rparr>)"
    "pd_cmd_id pd = CMD_CAP \<Longrightarrow> ok (pd\<lparr>pd_reply_id := REPLY_PDCAP\<rparr>)" by (simp_all add: ok_def answers_def)
  have "pred_option (\<lambda>rp. ok (snd rp)) (pd_command_body crc pd buf len)"
    unfolding pd_command_body_def Let_def [of "pd_cmd_id pd"]
    by (intro pred_if) (simp_all add: st4 rec ack ans eng sc ab ea poll self ids)
  then show ?thesis by (simp add: ok_def)
qed

lemma decode_answered:
  assumes "piv_answers pd" "pd_decode_command crc pd buf len = Some (ret, p)"
  shows "pd_cmd_id p = uint (buf ! 0)" "pd_reply_id p \<in> answers (uint (buf ! 0))"
proof -
  define q where "q = (pd_nak OSDP_PD_NAK_RECORD pd)\<lparr>pd_cmd_id := uint (buf ! 0)\<rparr>"
  have "piv_answers q = piv_answers pd"
    by (simp add: q_def piv_answers_def osdp_piv_pd_reply_pending_def osdp_piv_pd_reply_id_def pd_nak_def set_nak_code_def)
  then have q: "piv_answers q" "pd_reply_id q = REPLY_NAK" "pd_cmd_id q = uint (buf ! 0)"
    using assms(1) by (simp_all add: q_def)
  have n: "REPLY_NAK \<in> answers c" for c by (simp add: answers_def)
  have b: "pd_cmd_id z = pd_cmd_id q \<and> pd_reply_id z \<in> answers (pd_cmd_id q)"
    if "pd_command_body crc q (drop 1 buf) (len - 1) = Some (r, z)" for r z
    using body_answered [OF q(1,2), of crc "drop 1 buf" "len - 1"] that by simp
  have "pd_cmd_id p = uint (buf ! 0) \<and> pd_reply_id p \<in> answers (uint (buf ! 0))"
    using assms(2) q n b unfolding pd_decode_command_def Let_def q_def [symmetric]
    by (auto split: if_splits option.splits)
  then show "pd_cmd_id p = uint (buf ! 0)" "pd_reply_id p \<in> answers (uint (buf ! 0))" by simp_all
qed

subsection \<open>The CP accepts the reply\<close>

text \<open>The commands a CP sends in each of its states.\<close>

fun asks :: "osdp_cp_state_e \<Rightarrow> int \<Rightarrow> bool" where
  "asks OSDP_CP_STATE_INIT c \<longleftrightarrow> c = CMD_ID"
| "asks OSDP_CP_STATE_CAPDET c \<longleftrightarrow> c = CMD_CAP"
| "asks OSDP_CP_STATE_SC_CHLNG c \<longleftrightarrow> c = CMD_CHLNG"
| "asks OSDP_CP_STATE_SC_SCRYPT c \<longleftrightarrow> c = CMD_SCRYPT"
| "asks OSDP_CP_STATE_SET_SCBK c \<longleftrightarrow> c = CMD_KEYSET"
| "asks OSDP_CP_STATE_ONLINE c \<longleftrightarrow> c \<notin> {CMD_ID, CMD_CAP, CMD_CHLNG, CMD_SCRYPT}"
| "asks _ c \<longleftrightarrow> False"

lemma expected_accepted: "pd_reply_id cp \<in> set (expected_replies (pd_cmd_id cp)) \<Longrightarrow> fst (cp_check_online_response cp)"
  by (auto simp: cp_check_online_response_def Let_def expected_replies_def poll_replies_def split: if_splits)

lemma answers_accepted:
  assumes "asks (pd_state cp) (pd_cmd_id cp)" "pd_reply_id cp \<in> answers (pd_cmd_id cp)" "pd_reply_id cp \<noteq> REPLY_NAK"
    "pd_reply_id cp = REPLY_MFGERRR \<longrightarrow> pd_cmd_id cp \<noteq> CMD_MFG"
  shows "fst (state_check_reply cp)"
proof (cases "pd_state cp")
  case OSDP_CP_STATE_ONLINE
  consider "pd_reply_id cp = REPLY_ACK" | "pd_cmd_id cp = CMD_POLL" "pd_reply_id cp \<in> set poll_replies"
    | "pd_reply_id cp \<in> set (expected_replies (pd_cmd_id cp))"
    using assms OSDP_CP_STATE_ONLINE by (auto simp: answers_def expected_replies_def split: if_splits)
  then show ?thesis
  proof cases
    case 2
    then show ?thesis
      using OSDP_CP_STATE_ONLINE
      by (auto simp: state_check_reply_def cp_check_online_response_def Let_def poll_replies_def)
  next
    case 3
    then show ?thesis using OSDP_CP_STATE_ONLINE expected_accepted [of cp] by (simp add: state_check_reply_def)
  qed (simp add: OSDP_CP_STATE_ONLINE state_check_reply_def cp_check_online_response_def Let_def)
qed (use assms in \<open>auto simp: state_check_reply_def answers_def expected_replies_def\<close>)

text \<open>
  C4. A PD answers every command with a reply the CP takes for it: whatever command a CP sends
  in its state and however the application, the engines and the queue stand, the reply code the
  decoder selects is either a NAK, the report of a failed vendor command, or one that the CP's
  check of the reply accepts in that state.
\<close>

theorem pd_reply_accepted_by_cp:
  assumes "piv_answers pd" "pd_decode_command crc pd buf len = Some (ret, pd')"
    and "asks (pd_state cp) (uint (buf ! 0))" "pd_cmd_id cp = uint (buf ! 0)" "pd_reply_id cp = pd_reply_id pd'"
    and "pd_reply_id pd' \<noteq> REPLY_NAK" "pd_reply_id pd' = REPLY_MFGERRR \<longrightarrow> uint (buf ! 0) \<noteq> CMD_MFG"
  shows "fst (state_check_reply cp)"
  using answers_accepted [of cp] decode_answered [OF assms(1,2)] assms(3-) by simp

definition status_pd_example :: "unit osdp_dev" where
  "status_pd_example = SET_FLAG PD_FLAG_PD_MODE ((dev_zero no_callbacks ())\<lparr>pd_event_queue :=
     [OSDP_EVENT_KEYPRESS \<lparr>keypress_reader_no = 0, keypress_length = 1, keypress_data = [7]\<rparr>]\<rparr>)"

definition status_cp_example :: "unit osdp_dev" where
  "status_cp_example = (dev_zero no_callbacks ())\<lparr>pd_state := OSDP_CP_STATE_ONLINE, pd_cmd_id := CMD_POLL,
     pd_reply_id := REPLY_KEYPAD\<rparr>"

theorem pd_reply_accepted_by_cp_witness: "fst (state_check_reply status_cp_example)"
proof -
  define pd' where "pd' = snd (the (pd_decode_command (\<lambda>_ _. 0) status_pd_example [0x60] 1))"
  have d: "pd_decode_command (\<lambda>_ _. 0) status_pd_example [0x60] 1 = Some (0, pd')" "pd_reply_id pd' = REPLY_KEYPAD"
    by (simp_all add: pd'_def pd_decode_command_def status_pd_example_def pd_cmd_allowed_def flag_defs ISSET_FLAG_def
        SET_FLAG_def pd_nak_def set_nak_code_def pd_command_body_def pd_decode_poll_def osdp_piv_pd_reply_pending_def
        osdp_bio_pd_reply_pending_def)
  have p: "piv_answers status_pd_example"
    by (simp add: piv_answers_def osdp_piv_pd_reply_pending_def status_pd_example_def SET_FLAG_def)
  show ?thesis
    by (rule pd_reply_accepted_by_cp [OF p d(1)]) (simp_all add: d(2) status_cp_example_def)
qed

end
