(* ===== verification/Pd_Security.thy ===== *)
theory Pd_Security
  imports Pd_Replies
begin

text \<open>
  What a PD's pass may do to its session and its base key, what an unauthenticated link can
  reach when the PD enforces security, and the packets whose forged length reads as a NAK.
\<close>

subsection \<open>Building and sending a reply\<close>

definition pkr :: "('w, 'z) osdp_dev_scheme \<Rightarrow> _" where
  "pkr pd = (pk pd, pd_cmd_id pd, pd_reply_id pd)"

lemma pkrD: "pkr x = pkr y \<Longrightarrow> pk x = pk y" "pkr x = pkr y \<Longrightarrow> pd_cmd_id x = pd_cmd_id y"
  "pkr x = pkr y \<Longrightarrow> pd_reply_id x = pd_reply_id y"
  by (simp_all add: pkr_def)

lemma pkr_outer:
  fixes x y :: "('w, 'z) osdp_dev_scheme"
  shows "outer x = outer y \<Longrightarrow> pkr x = pkr y"
  using pk_outer [of x y] outerD [of x y] by (simp add: pkr_def)

lemma pkr_view:
  fixes x y :: "('w, 'z) osdp_dev_scheme"
  shows "view x = view y \<Longrightarrow> pd_reply_id x = pd_reply_id y \<Longrightarrow> pkr x = pkr y"
  using pk_view [of x y] phy_restD(16) [of x y] by (simp add: pkr_def view_def)

lemma pk_update2:
  fixes pd :: "('w, 'z) osdp_dev_scheme"
  shows "pk (pd\<lparr>pd_packet_len := x1\<rparr>) = pk pd" "pk (pd\<lparr>pd_phy_state := x2\<rparr>) = pk pd"
  by (rule pk_cong, simp_all)+

lemma cmd_put_packet: "pd_cmd_id (put_packet_bytes bs pd) = pd_cmd_id pd"
  by (simp add: put_packet_bytes_def)

lemma pkr_update [simp]:
  fixes pd :: "('w, 'z) osdp_dev_scheme"
  shows "pkr (pd\<lparr>pd_active_event := x5\<rparr>) = pkr pd" "pkr (pd\<lparr>pd_app := x6\<rparr>) = pkr pd"
    "pkr (pd\<lparr>pd_packet_buf := x8\<rparr>) = pkr pd" "pkr (pd\<lparr>pd_packet_buf_len := x9\<rparr>) = pkr pd"
    "pkr (pd\<lparr>pd_reply_prebuilt := x10\<rparr>) = pkr pd" "pkr (pd\<lparr>pd_sc_tstamp := x12\<rparr>) = pkr pd"
    "pkr (pd\<lparr>pd_last_tx_len := x14\<rparr>) = pkr pd" "pkr (pd\<lparr>pd_last_cmd_id := x15\<rparr>) = pkr pd"
    "pkr (pd\<lparr>pd_baud_rate := x16\<rparr>) = pkr pd" "pkr (pd\<lparr>pd_address := x17\<rparr>) = pkr pd"
    "pkr (pd\<lparr>pd_packet_len := x18\<rparr>) = pkr pd" "pkr (pd\<lparr>pd_phy_state := x19\<rparr>) = pkr pd"
    "pkr (osdp_metrics_report e pd) = pkr pd" "pkr (put_packet_bytes bs pd) = pkr pd" "pkr (set_nak_code n pd) = pkr pd"
  by (simp_all add: pkr_def pk_update2 cmd_put_packet)

lemma pkr_ops [simp]:
  fixes pd :: "('w, 'z) osdp_dev_scheme"
  shows "pkr (pd_complete_event e st pd) = pkr pd" "pkr (pd_settle_event st pd) = pkr pd"
    "pkr (pd_deliver_notification nt pd) = pkr pd" "pkr (pd_notify_pd_status b pd) = pkr pd"
    "pkr (pd_notify_sc_status pd) = pkr pd" "pkr (osdp_engines_abort pd) = pkr pd"
  using pkr_outer [OF outer_engines_abort, of pd]
  by (simp_all add: pd_complete_event_def pd_settle_event_def pd_deliver_notification_def pd_notify_pd_status_def
      pd_notify_sc_status_def split: option.split)

lemma pkr_online [simp]: "pkr (pd_set_online pd) = pkr pd" "pkr (pd_set_offline pd) = pkr pd"
  by (simp_all add: pkr_def) (simp_all add: pd_set_online_def pd_set_offline_def SET_FLAG_def CLEAR_FLAG_def)

lemma pkr_engines [simp]:
  fixes pd :: "('w, 'z) osdp_dev_scheme"
  shows "pkr (snd (snd (osdp_piv_pd_reply_build pd e1 buf n))) = pkr pd"
    "pkr (snd (snd (osdp_bio_pd_reply_build pd e2 buf n))) = pkr pd"
    "pkr (snd (snd (osdp_file_cmd_stat_build pd buf n))) = pkr pd"
  by (rule pkr_outer, rule outer_piv_reply outer_bio_reply outer_file_stat_build)+

lemma pkr_init [simp]: "pkr (snd (snd (osdp_phy_packet_init pd buf n))) = pkr pd"
  by (rule pkr_view [OF _ reply_init]) (metis sec_packet_init prod.collapse)

lemma pkr_finalize [simp]: "pkr (snd (snd (osdp_phy_finalize_packet crc pd buf l n))) = pkr pd"
  by (rule pkr_view [OF _ reply_finalize]) (metis view_finalize prod.collapse)

text \<open>
  \<open>built x y\<close>: what building a reply may do: only the reply RMAC_I opens a session, and it
  leaves the keys and the cryptogram that were checked.
\<close>

definition built :: "('w, 'z) osdp_dev_scheme \<Rightarrow> ('w, 'z) osdp_dev_scheme \<Rightarrow> bool" where
  "built x y \<longleftrightarrow> pd_cmd_id y = pd_cmd_id x \<and> pd_reply_id y = pd_reply_id x \<and> pd_cb y = pd_cb x \<and>
     scbk (pd_sc y) = scbk (pd_sc x) \<and> sec_core y = sec_core x \<and>
     (pd_reply_id x \<noteq> REPLY_RMAC_I \<longrightarrow> sc_is_active y = sc_is_active x) \<and>
     (pd_reply_id x \<noteq> REPLY_CCRYPT \<longrightarrow> sc_keys (pd_sc y) = sc_keys (pd_sc x))"

lemma built_pkr: "pkr y = pkr x \<Longrightarrow> built x y"
  using pkD [of y x] pkrD [of y x] sec_core_cong [of y x] by (simp add: built_def)

lemma built_trans: "built x y \<Longrightarrow> built y z \<Longrightarrow> built x z"
  by (simp add: built_def)

lemma built_ccrypt:
  assumes "pd_reply_id pd = REPLY_CCRYPT"
  shows "built pd (snd (snd (pd_build_ccrypt pd smb off buf room)))"
proof -
  define q where "q = osdp_compute_pd_cryptogram (osdp_compute_session_keys
    (let (r, pd) = osdp_fill_random 8 pd in pd\<lparr>pd_sc := (pd_sc pd)\<lparr>pd_random := r\<rparr>\<rparr>))"
  have f: "pd_flags q = pd_flags pd" "pd_cb q = pd_cb pd" "scbk (pd_sc q) = scbk (pd_sc pd)"
    "pd_cmd_id q = pd_cmd_id pd" "pd_reply_id q = pd_reply_id pd"
    by (simp_all add: q_def osdp_compute_pd_cryptogram_def osdp_compute_session_keys_def osdp_fill_random_def
        set_channel_def Let_def)
  have b: "built pd q"
    using f assms sec_core_cong [OF sec_cong [OF f(1)]] secD(3) [OF sec_cong [OF f(1)]] by (simp add: built_def)
  show ?thesis using b built_pkr [of pd pd]
    by (auto simp: pd_build_ccrypt_def q_def Let_def case_prod_beta split: option.split)
qed

lemma built_rmac_i:
  assumes "pd_reply_id pd = REPLY_RMAC_I"
  shows "built pd (snd (snd (pd_build_rmac_i pd smb off buf room)))"
proof -
  define q where "q = sc_activate (osdp_compute_rmac_i pd)"
  have f: "pd_cb q = pd_cb pd" "sc_keys (pd_sc q) = sc_keys (pd_sc pd)" "pd_cmd_id q = pd_cmd_id pd" "pd_reply_id q = pd_reply_id pd"
    "scbk (pd_sc q) = scbk (pd_sc pd)"
    by (simp_all add: q_def sc_activate_def osdp_compute_rmac_i_def osdp_metrics_report_def SET_FLAG_def Let_def)
  have m: "sec_core q = sec_core (SET_FLAG PD_FLAG_SC_ACTIVE pd)"
    by (rule sec_core_cong, rule sec_cong)
      (simp add: q_def sc_activate_def osdp_compute_rmac_i_def osdp_metrics_report_def SET_FLAG_def Let_def)
  have b: "built pd q" using f m assms by (simp add: built_def)
  have "built pd ((pd_notify_sc_status q)\<lparr>pd_sc_tstamp := t\<rparr>)" for t
    by (rule built_trans [OF b built_pkr]) simp
  then show ?thesis using built_pkr [of pd pd]
    by (auto simp: pd_build_rmac_i_def q_def [symmetric] Let_def split: option.split)
qed

lemma pred_let: "pred_option P (f x) \<Longrightarrow> pred_option P (Let x f)"
  by simp

lemma built_body: "pred_option (\<lambda>r. built pd (snd (snd r))) (pd_reply_body pd smb off buf room)"
proof -
  have s: "built pd p" if "pkr p = pkr pd" for p by (rule built_pkr [OF that])
  show ?thesis
    unfolding pd_reply_body_def Let_def [of "pd_reply_id pd"]
    by (rule pred_let, intro pred_if)
      (simp_all add: s built_ccrypt built_rmac_i put_reply_engine_def case_prod_beta Let_def split: option.split)
qed

lemma built_reply: "pd_build_reply pd buf n = Some (len, b, p) \<Longrightarrow> built pd p"
proof -
  assume a: "pd_build_reply pd buf n = Some (len, b, p)"
  define off where "off = osdp_phy_packet_get_data_offset pd buf"
  define smb where "smb = osdp_phy_packet_get_smb pd buf"
  define room where "room = n - int off"
  define buf1 where "buf1 = buf[off := int_byte (pd_reply_id pd)]"
  have f: "pkr (snd (snd (pd_reply_failed q off' b' r))) = pkr q" for q :: "('a, 'b) osdp_dev_scheme" and off' b' r
    by (simp add: pd_reply_failed_def Let_def)
  have "pred_option (\<lambda>r. built pd (snd (snd r)))
     (if pd_reply_backed pd then pd_reply_body pd smb off buf1 (room - 1) else Some (None, buf1, pd))"
    using built_body [of pd smb off buf1 "room - 1"] built_pkr [of pd pd] by simp
  then have r: "built pd q" if "(if pd_reply_backed pd then pd_reply_body pd smb off buf1 (room - 1) else Some (None, buf1, pd)) = Some (r, b', q)" for r b' q
    using that by simp
  have fb: "built pd p'" if "built pd q" "pd_reply_failed q off' b' r = (l, b'', p')" for q off' b' r l b'' p'
    by (rule built_trans [OF that(1) built_pkr]) (metis f snd_conv that(2))
  have fb': "built pd (snd (snd (pd_reply_failed q off' b' r)))" if "built pd q" for q off' b' r
    by (rule built_trans [OF that built_pkr [OF f]])
  show ?thesis
    using a r fb fb' built_pkr [of pd pd]
    unfolding pd_build_reply_def Let_def off_def [symmetric] smb_def [symmetric] room_def [symmetric] buf1_def [symmetric]
    by (auto split: if_splits option.splits simp: case_prod_beta)
qed

lemma built_packet:
  assumes "pd_build_reply_packet crc pd = Some (ret, p)"
  shows "built pd p"
proof -
  define q0 where "q0 = pd\<lparr>pd_packet_buf := TX_BUF\<rparr>"
  obtain r1 b1 p1 where i: "osdp_phy_packet_init q0 (packet_bytes q0) (get_tx_buf_size pd) = (r1, b1, p1)"
    by (metis prod_cases3)
  have "pkr p1 = pkr q0" by (metis i pkr_init snd_conv)
  then have k1: "pkr p1 = pkr pd" by (simp add: q0_def)
  define q1 where "q1 = p1\<lparr>pd_packet_buf_len := nat r1\<rparr>"
  have k2: "pkr q1 = pkr pd" using k1 by (simp add: q1_def)
  note a = assms [unfolded pd_build_reply_packet_def Let_def, folded q0_def, unfolded i prod.case, folded q1_def]
  show ?thesis
  proof (cases "r1 < 0")
    case True
    then show ?thesis using a k1 by (auto intro: built_pkr)
  next
    case False
    obtain r2 b2 p2 where b: "pd_build_reply q1 b1 (get_tx_buf_size pd) = Some (r2, b2, p2)"
      using a False by (auto split: option.splits prod.splits)
    have b2: "built pd p2" by (rule built_trans [OF built_pkr [OF k2] built_reply [OF b]])
    have f: "built pd (put_packet_bytes x (snd (snd (osdp_phy_finalize_packet crc (p2\<lparr>pd_packet_buf_len := l\<rparr>) b2 l' n))))"
      "built pd ((put_packet_bytes x (snd (snd (osdp_phy_finalize_packet crc (p2\<lparr>pd_packet_buf_len := l\<rparr>) b2 l' n))))
                    \<lparr>pd_packet_buf_len := l2, pd_reply_prebuilt := True\<rparr>)"
      "built pd (put_packet_bytes x p2)" for x l l' n l2
      by (rule built_trans [OF b2 built_pkr], simp)+
    show ?thesis using a False f
      by (auto simp: b case_prod_beta Let_def split: if_splits)
  qed
qed

lemma pkr_send: "pkr (snd (pd_send_reply pd)) = pkr pd"
proof -
  have c: "pkr (snd (osdp_channel_send pd b n)) = pkr pd" for b n by (rule pkr_view) simp_all
  have "pkr (snd (osdp_phy_send_packet pd b n)) = pkr pd" for b n
    by (simp add: osdp_phy_send_packet_def Let_def case_prod_beta c)
  then show ?thesis by (simp add: pd_send_reply_def Let_def case_prod_beta)
qed

lemma pkr_reset: "pkr (osdp_phy_state_reset False pd) = pkr pd"
  by (simp add: osdp_phy_state_reset_def Let_def)

lemma pkr_progress: "pkr (osdp_phy_progress_sequence pd) = pkr pd"
  by (simp add: pkr_def) (simp add: osdp_phy_progress_sequence_def)

text \<open>What a reply that is out makes effective.\<close>

lemma send_stage_frame:
  assumes "\<not> (pd_cmd_id pd = CMD_KEYSET \<and> pd_reply_id pd = REPLY_ACK)"
  shows "pk (pd_send_stage pd) = pk pd" "pd_cmd_id (pd_send_stage pd) = pd_cmd_id pd"
proof -
  obtain ret q where s: "pd_send_reply pd = (ret, q)" by (rule prod.exhaust)
  have q: "pkr q = pkr pd" using pkr_send [of pd] s by simp
  define z where "z = pd_settle_event OSDP_COMPLETION_OK q"
  have z: "pkr z = pkr pd" using q by (simp add: z_def)
  have c: "pk (pd_commit_comset z) = pk z \<and> pd_cmd_id (pd_commit_comset z) = pd_cmd_id z"
    using pk_callback [of "wire_cmd (OSDP_CMD_COMSET_DONE (comset_pending z))" z]
      open_callback [of z "wire_cmd (OSDP_CMD_COMSET_DONE (comset_pending z))"]
    by (simp add: pd_commit_comset_def Let_def case_prod_beta open_reply_def)
  have "pk (pd_reply_sent q) = pk pd \<and> pd_cmd_id (pd_reply_sent q) = pd_cmd_id pd"
    using assms pkrD(2,3) [OF z] pkrD(1) [OF z] c
    by (auto simp: pd_reply_sent_def Let_def z_def [symmetric] pkrD(1,2) [OF pkr_progress])
  moreover have "pkr (pd_settle_event OSDP_COMPLETION_FAILED q) = pkr pd" using q by simp
  ultimately show "pk (pd_send_stage pd) = pk pd" "pd_cmd_id (pd_send_stage pd) = pd_cmd_id pd"
    using pkrD [OF q] pkrD(1,2) [of "pd_settle_event OSDP_COMPLETION_FAILED q" pd]
    by (auto simp: pd_send_stage_def s pkrD(1,2) [OF pkr_reset])
qed

text \<open>Sending leaves the reply code, or what COMSET's callback refused makes it a NAK.\<close>

lemma send_stage_reply:
  assumes "\<not> (pd_cmd_id pd = CMD_KEYSET \<and> pd_reply_id pd = REPLY_ACK)"
  shows "pd_reply_id (pd_send_stage pd) = pd_reply_id pd \<or> pd_reply_id (pd_send_stage pd) = REPLY_NAK"
proof -
  obtain ret q where s: "pd_send_reply pd = (ret, q)" by (rule prod.exhaust)
  have q: "pkr q = pkr pd" using pkr_send [of pd] s by simp
  define z where "z = pd_settle_event OSDP_COMPLETION_OK q"
  have z: "pkr z = pkr pd" using q by (simp add: z_def)
  have c: "pd_reply_id (pd_commit_comset z) = pd_reply_id z \<or> pd_reply_id (pd_commit_comset z) = REPLY_NAK"
    using open_callback [of z "wire_cmd (OSDP_CMD_COMSET_DONE (comset_pending z))"]
    by (simp add: pd_commit_comset_def Let_def case_prod_beta open_reply_def)
  have "pd_reply_id (pd_reply_sent q) = pd_reply_id pd \<or> pd_reply_id (pd_reply_sent q) = REPLY_NAK"
    using assms pkrD(2,3) [OF z] c by (auto simp: pd_reply_sent_def Let_def z_def [symmetric] pkrD(3) [OF pkr_progress])
  moreover have "pkr (pd_settle_event OSDP_COMPLETION_FAILED q) = pkr pd" using q by simp
  ultimately show ?thesis
    using pkrD(3) [OF q] pkrD(3) [of "pd_settle_event OSDP_COMPLETION_FAILED q" pd]
    by (auto simp: pd_send_stage_def s pkrD(3) [OF pkr_reset])
qed

lemma send_stage_keyset:
  assumes "pd_cmd_id pd = CMD_KEYSET" "pd_reply_id pd = REPLY_ACK"
  shows "pk (pd_send_stage pd) = pk pd \<or>
     \<not> sc_is_active (pd_send_stage pd) \<and> \<not> is_install_mode (pd_send_stage pd) \<and> \<not> sc_use_scbkd (pd_send_stage pd)"
    "pd_cmd_id (pd_send_stage pd) = CMD_KEYSET" "pd_reply_id (pd_send_stage pd) = REPLY_ACK"
    "scbk (pd_sc (pd_send_stage pd)) \<noteq> scbk (pd_sc pd) \<Longrightarrow> scbk (pd_sc (pd_send_stage pd)) = pd_pending pd"
proof -
  obtain ret q where s: "pd_send_reply pd = (ret, q)" by (rule prod.exhaust)
  have q: "pkr q = pkr pd" using pkr_send [of pd] s by simp
  have "pd_pending (snd (pd_send_reply pd)) = pd_pending pd"
    by (simp add: pd_send_reply_def osdp_phy_send_packet_def osdp_channel_send_def set_channel_def
        osdp_metrics_report_def Let_def case_prod_beta split: option.split)
  then have qp: "pd_pending q = pd_pending pd" by (simp add: s)
  define z where "z = pd_settle_event OSDP_COMPLETION_OK q"
  have z: "pkr z = pkr pd" "pd_pending z = pd_pending pd" using q qp
    by (simp_all add: z_def) (simp add: pd_settle_event_def pd_complete_event_def osdp_metrics_report_def split: option.split)
  define k where "k = CLEAR_FLAG PD_FLAG_INSTALL_MODE (CLEAR_FLAG PD_FLAG_SC_USE_SCBKD
    (z\<lparr>pd_sc := (pd_sc z)\<lparr>scbk := pd_pending z\<rparr>, pd_pending := replicate 16 0\<rparr>))"
  have k: "\<not> is_install_mode k" "\<not> sc_use_scbkd k" "scbk (pd_sc k) = pd_pending pd" "pd_cmd_id k = CMD_KEYSET" "pd_reply_id k = REPLY_ACK"
    using pkrD(2,3) [OF z(1)] assms by (simp_all add: k_def z(2) flag_defs)
  have d: "\<not> is_install_mode (pd_sc_deactivate k)" "\<not> sc_use_scbkd (pd_sc_deactivate k)" "\<not> sc_is_active (pd_sc_deactivate k)"
    "scbk (pd_sc (pd_sc_deactivate k)) = pd_pending pd" "pd_cmd_id (pd_sc_deactivate k) = CMD_KEYSET" "pd_reply_id (pd_sc_deactivate k) = REPLY_ACK"
  proof -
    have y: "pk (pd_sc_deactivate k) = pk (sc_deactivate k)" by (simp add: pd_sc_deactivate_def Let_def)
    have w: "pkr (pd_sc_deactivate k) = pkr (sc_deactivate k)" by (simp add: pd_sc_deactivate_def Let_def)
    have x: "pd_cmd_id (sc_deactivate k) = pd_cmd_id k" using phy_restD(16) [OF phy_rest_deactivate [of k]] .
    show "\<not> is_install_mode (pd_sc_deactivate k)" "scbk (pd_sc (pd_sc_deactivate k)) = pd_pending pd"
      "\<not> sc_is_active (pd_sc_deactivate k)"
      using still_sc_deactivate [of k] k sec_coreD(5) [of "pd_sc_deactivate k" k] by (simp_all add: still_def)
    show "\<not> sc_use_scbkd (pd_sc_deactivate k)"
      using secD(6) [OF pkD(1) [OF y]] sc_deactivate_scbkd [of k] k by simp
    show "pd_cmd_id (pd_sc_deactivate k) = CMD_KEYSET" "pd_reply_id (pd_sc_deactivate k) = REPLY_ACK"
      using pkrD(2,3) [OF w] x k by simp_all
  qed
  have r: "pd_reply_sent q = osdp_phy_progress_sequence (pd_sc_deactivate k)"
    using pkrD(2,3) [OF z(1)] assms
    by (simp add: pd_reply_sent_def Let_def z_def [symmetric] pd_commit_keyset_def k_def)
  define w where "w = osdp_phy_state_reset False (pd_reply_sent q)"
  have w: "pkr w = pkr (pd_sc_deactivate k)" by (simp add: w_def r pkr_reset pkr_progress)
  have wi: "\<not> is_install_mode w" "\<not> sc_use_scbkd w" "\<not> sc_is_active w" "scbk (pd_sc w) = pd_pending pd"
    "pd_cmd_id w = CMD_KEYSET" "pd_reply_id w = REPLY_ACK"
    using d secD(3,6,7) [OF pkD(1) [OF pkrD(1) [OF w]]] pkD(5) [OF pkrD(1) [OF w]] pkrD(2,3) [OF w] by simp_all
  define f where "f = osdp_phy_state_reset False (pd_settle_event OSDP_COMPLETION_FAILED q)"
  have f: "pkr f = pkr pd" using q by (simp add: f_def pkr_reset)
  have e: "pd_send_stage pd \<in> {q, f, w}" by (auto simp: pd_send_stage_def s f_def w_def)
  show "pk (pd_send_stage pd) = pk pd \<or>
     \<not> sc_is_active (pd_send_stage pd) \<and> \<not> is_install_mode (pd_send_stage pd) \<and> \<not> sc_use_scbkd (pd_send_stage pd)"
    "pd_cmd_id (pd_send_stage pd) = CMD_KEYSET" "pd_reply_id (pd_send_stage pd) = REPLY_ACK"
    "scbk (pd_sc (pd_send_stage pd)) \<noteq> scbk (pd_sc pd) \<Longrightarrow> scbk (pd_sc (pd_send_stage pd)) = pd_pending pd"
    using e wi pkrD [OF q] pkrD [OF f] pkD(5) [of q pd] pkD(5) [of f pd] assms by auto
qed

subsection \<open>Receiving a command\<close>

lemma decode_is_body:
  assumes "pd_decode_command crc pd buf len = Some (ret, p)" "pd_reply_id p \<noteq> REPLY_NAK"
  obtains q where "q = (pd_nak OSDP_PD_NAK_RECORD pd)\<lparr>pd_cmd_id := uint (buf ! 0)\<rparr>"
    "pd_cmd_allowed q" "pd_command_body crc q (drop 1 buf) (len - 1) = Some (ret, p)"
proof -
  define q where "q = (pd_nak OSDP_PD_NAK_RECORD pd)\<lparr>pd_cmd_id := uint (buf ! 0)\<rparr>"
  have n: "pd_reply_id (set_nak_code c q) = REPLY_NAK" for c by (simp add: q_def)
  have "pd_cmd_allowed q \<and> pd_command_body crc q (drop 1 buf) (len - 1) = Some (ret, p)"
    using assms n unfolding pd_decode_command_def Let_def q_def [symmetric]
    by (auto split: if_splits option.splits)
  then show thesis using that q_def by blast
qed

lemma active_pk:
  fixes x y :: "('w, 'z) osdp_dev_scheme"
  shows "pk x = pk y \<Longrightarrow> sc_is_active x = sc_is_active y"
  by (rule pkD(4))

lemma decode_rmac:
  assumes "piv_answers pd" "pd_decode_command crc pd buf len = Some (ret, p)" "pd_reply_id p = REPLY_RMAC_I"
  shows "pd_cmd_id p = CMD_SCRYPT" "osdp_verify_cp_cryptogram p = 0"
proof -
  have "REPLY_RMAC_I \<in> answers (uint (buf ! 0))" using decode_answered [OF assms(1,2)] assms(3) by simp
  then have c: "uint (buf ! 0) = CMD_SCRYPT"
    by (auto simp: answers_def poll_replies_def expected_replies_def split: if_splits)
  then show "pd_cmd_id p = CMD_SCRYPT" using decode_answered(1) [OF assms(1,2)] by simp
  obtain q where q: "q = (pd_nak OSDP_PD_NAK_RECORD pd)\<lparr>pd_cmd_id := uint (buf ! 0)\<rparr>"
    "pd_command_body crc q (drop 1 buf) (len - 1) = Some (ret, p)"
    using decode_is_body [OF assms(2)] assms(3) by auto
  have "pd_decode_scrypt q (drop 1 buf) (len - 1) = (ret, p)" using q c by (simp add: pd_command_body_def)
  moreover have "pd_reply_id q = REPLY_NAK" using q by simp
  ultimately show "osdp_verify_cp_cryptogram p = 0"
    using assms(3) open_cap_ok [of q None]
    by (auto simp: pd_decode_scrypt_def Let_def case_prod_beta open_reply_def osdp_verify_cp_cryptogram_def split: if_splits)
qed

lemma decode_keyset_ack:
  assumes "piv_answers pd" "pd_decode_command crc pd buf len = Some (ret, p)" "pd_cmd_id p = CMD_KEYSET" "pd_reply_id p = REPLY_ACK"
  shows "sc_is_active pd"
proof -
  have c: "uint (buf ! 0) = CMD_KEYSET" using decode_answered(1) [OF assms(1,2)] assms(3) by simp
  obtain q where q: "q = (pd_nak OSDP_PD_NAK_RECORD pd)\<lparr>pd_cmd_id := uint (buf ! 0)\<rparr>"
    "pd_command_body crc q (drop 1 buf) (len - 1) = Some (ret, p)"
    using decode_is_body [OF assms(2)] assms(4) by auto
  have d: "pd_decode_keyset q (drop 1 buf) (len - 1) = (ret, p)" using q c by (simp add: pd_command_body_def)
  have n: "pd_reply_id q = REPLY_NAK" using q by simp
  have k: "pk q = pk pd" using q by simp
  obtain ok z where z: "pd_cmd_cap_ok None (set_nak_code OSDP_PD_NAK_SC_COND q) = (ok, z)" by (rule prod.exhaust)
  have "pk z = pk q" using pk_cap_ok [of None "set_nak_code OSDP_PD_NAK_SC_COND q"] z by simp
  then have a: "sc_is_active z = sc_is_active pd" using active_pk k by metis
  have r: "pd_reply_id z = REPLY_NAK"
    using open_cap_ok [of "set_nak_code OSDP_PD_NAK_SC_COND q" None] z n by (simp add: open_reply_def)
  show ?thesis
    using d assms(4) n a r by (auto simp: pd_decode_keyset_def z split: if_splits)
qed

text \<open>The packet layer answers with the code of a NAK only when it has set one, its decoder excepted.\<close>

lemma check_nack:
  assumes "osdp_phy_check_packet crc pd = (OSDP_ERR_PKT_NACK, x)"
  shows "pd_reply_id x = REPLY_NAK"
proof -
  have m: "phy_match_sequence q s = (OSDP_ERR_PKT_NACK, y) \<Longrightarrow> pd_reply_id y = REPLY_NAK" for q s and y :: "'a osdp_pd_scheme"
    by (auto simp: phy_match_sequence_def split: if_splits)
  have c: "phy_check_packet crc q b n = (OSDP_ERR_PKT_NACK, y) \<Longrightarrow> pd_reply_id y = REPLY_NAK" for q b n and y :: "'a osdp_pd_scheme"
    by (auto simp: phy_check_packet_def Let_def case_prod_beta split: if_splits dest: m)
  obtain r1 p1 where e1: "osdp_channel_receive pd = (r1, p1)" by (rule prod.exhaust)
  define p1' where "p1' = (if is_pd_mode p1 \<and> pd_packet_buf_len p1 = 0 \<and> r1 > 0
                           then p1\<lparr>pd_tstamp := osdp_millis_now p1\<rparr> else p1)"
  obtain r2 p2 where e2: "phy_check_header p1' = (r2, p2)" by (rule prod.exhaust)
  have i: "int k \<noteq> - 6" for k by linarith
  have v: "fst (phy_validate_header z b n k) \<noteq> - 6" for z :: "'a osdp_pd_scheme" and b n k
    unfolding phy_validate_header_def Let_def by (simp add: i del: of_nat_add)
  have "fst (phy_check_header p1') \<noteq> - 6"
    unfolding phy_check_header_def Let_def case_prod_beta by (simp add: v)
  then have h: "r2 \<noteq> OSDP_ERR_PKT_NACK" by (simp add: e2)
  define q where "q = (if pd_packet_len p1' = 0 then p2\<lparr>pd_packet_len := nat r2, pd_packet_scan_skip := 0\<rparr> else p1')"
  obtain r3 p3 where e3: "phy_collect_packet q = (r3, p3)" by (rule prod.exhaust)
  have l: "r3 \<noteq> OSDP_ERR_PKT_NACK" using e3 by (auto simp: phy_collect_packet_def Let_def split: if_splits)
  have k: "phy_check_packet crc p3 (packet_bytes p3) (pd_packet_len p3) = (OSDP_ERR_PKT_NACK, x)"
    using assms h l e3 unfolding q_def
    by (auto simp: osdp_phy_check_packet_def e1 p1'_def [symmetric] e2 Let_def split: if_splits)
  show ?thesis by (rule c [OF k])
qed

text \<open>
  A packet whose security block claims a length that leaves \<open>- 6\<close> bytes: the decoder returns
  that length, which reads as the code of a NAK it has not set.
\<close>

definition forged_length :: "crc16 \<Rightarrow> 'z osdp_pd_scheme \<Rightarrow> bool" where
  "forged_length crc pd =
     (let (err, pd) = osdp_phy_check_packet crc (pd\<lparr>pd_reply_prebuilt := False\<rparr>)
      in err = OSDP_ERR_PKT_NONE \<and>
         (case osdp_phy_decode_packet pd of
            None \<Rightarrow> False
          | Some (len, _, pd) \<Rightarrow> len = OSDP_ERR_PKT_NACK \<and> pd_reply_id pd \<noteq> REPLY_NAK))"

lemma receive_facts:
  assumes "piv_answers pd" "pd_receive_and_process_command crc pd = Some (ret, p)"
  shows "still pd p"
    and "pd_reply_id p = REPLY_RMAC_I \<Longrightarrow> pd_reply_id pd = REPLY_RMAC_I \<or> pd_cmd_id p = CMD_SCRYPT \<and> osdp_verify_cp_cryptogram p = 0"
    and "pd_cmd_id p = CMD_KEYSET \<Longrightarrow> pd_reply_id p = REPLY_ACK \<Longrightarrow>
         pd_cmd_id pd = CMD_KEYSET \<and> pd_reply_id pd = REPLY_ACK \<or> sc_is_active pd"
    and "pd_cmd_id p = CMD_KEYSET \<Longrightarrow> pd_reply_id p = REPLY_ACK \<Longrightarrow> ret \<in> {OSDP_PD_ERR_NONE, OSDP_PD_ERR_REPLY} \<Longrightarrow>
         forged_length crc pd \<or> sc_is_active pd"
proof -
  define q where "q = pd\<lparr>pd_reply_prebuilt := False\<rparr>"
  obtain err x where c: "osdp_phy_check_packet crc q = (err, x)" by (rule prod.exhaust)
  have "view q = view pd" by (rule viewI) (simp add: q_def phy_rest_def, rule sec_cong, simp add: q_def)
  then have hq: "heard pd q" by (rule heard_view) (simp add: q_def)
  have hx: "heard pd x" using heard_trans [OF hq heard_osdp_check [of q crc]] c by simp
  have hr: "pkr (osdp_phy_state_reset False x) = pkr x" by (rule pkr_reset)
  have n: "err = OSDP_ERR_PKT_NACK \<Longrightarrow> pd_reply_id x = REPLY_NAK" using check_nack c by blast
  have st: "still pd z" "pd_cmd_id z = pd_cmd_id pd" "pd_reply_id z = pd_reply_id pd \<or> pd_reply_id z = REPLY_NAK"
    "piv_answers z = piv_answers pd" if "heard pd z" for z
    using that phy_restD [of z pd] more_devD [of z pd] sc_keysD(1) [of "pd_sc z" "pd_sc pd"]
    by (simp_all add: heard_def still_def piv_answers_def osdp_piv_pd_reply_pending_def osdp_piv_pd_reply_id_def)
  have f: "forged_length crc pd \<longleftrightarrow> err = OSDP_ERR_PKT_NONE \<and>
      (case osdp_phy_decode_packet x of None \<Rightarrow> False
       | Some (len, _, y) \<Rightarrow> len = OSDP_ERR_PKT_NACK \<and> pd_reply_id y \<noteq> REPLY_NAK)"
    by (simp add: forged_length_def q_def [symmetric] c)
  note r = assms(2) [unfolded pd_receive_and_process_command_def Let_def, folded q_def, unfolded c prod.case]
  consider (heard) "heard pd p" "ret \<in> {OSDP_PD_ERR_NONE, OSDP_PD_ERR_REPLY} \<longrightarrow> forged_length crc pd \<or> pd_reply_id p = REPLY_NAK"
    | (skip) "pkr p = pkr x" "ret = OSDP_PD_ERR_IGNORE"
    | (command) l off y where "heard pd y" "pd_decode_command crc y (drop off (packet_bytes y)) l = Some (ret, p)"
  proof (cases "err = OSDP_ERR_PKT_NONE")
    case True
    then obtain l off y where d: "osdp_phy_decode_packet x = Some (l, off, y)" using r by (auto split: option.splits)
    have hy: "heard pd y" by (rule heard_trans [OF hx heard_decode_packet [OF d]])
    show thesis
    proof (cases "l \<le> 0")
      case le: True
      then have "p = y" "ret = (if l = OSDP_ERR_PKT_NACK then OSDP_PD_ERR_REPLY else OSDP_PD_ERR_GENERIC)"
        using r True by (simp_all add: d)
      then show thesis using heard hy f True by (simp add: d split: if_splits)
    next
      case False
      then show thesis using command [OF hy, of off l] r True by (simp add: d)
    qed
  next
    case False
    then show thesis using heard skip r hx hr n by (auto split: if_splits)
  qed
  then have "still pd p \<and> (pd_reply_id p = REPLY_RMAC_I \<longrightarrow> pd_reply_id pd = REPLY_RMAC_I \<or> pd_cmd_id p = CMD_SCRYPT \<and> osdp_verify_cp_cryptogram p = 0)
     \<and> (pd_cmd_id p = CMD_KEYSET \<and> pd_reply_id p = REPLY_ACK \<longrightarrow>
         (pd_cmd_id pd = CMD_KEYSET \<and> pd_reply_id pd = REPLY_ACK \<or> sc_is_active pd) \<and>
         (ret \<in> {OSDP_PD_ERR_NONE, OSDP_PD_ERR_REPLY} \<longrightarrow> forged_length crc pd \<or> sc_is_active pd))"
  proof cases
    case heard
    then show ?thesis using st [OF heard(1)] by auto
  next
    case skip
    show ?thesis using still_trans [OF st(1) [OF hx] still_pk [OF pkrD(1) [OF skip(1)]]] st [OF hx] pkrD(2,3) [OF skip(1)] skip(2) by auto
  next
    case (command l off y)
    have py: "piv_answers y" using st(4) [OF command(1)] assms(1) by simp
    show ?thesis
      using still_trans [OF st(1) [OF command(1)] still_decode [OF command(2)]] decode_rmac [OF py command(2)]
        decode_keyset_ack [OF py command(2)] command(1)
      by (auto simp: heard_def)
  qed
  then show "still pd p"
    and "pd_reply_id p = REPLY_RMAC_I \<Longrightarrow> pd_reply_id pd = REPLY_RMAC_I \<or> pd_cmd_id p = CMD_SCRYPT \<and> osdp_verify_cp_cryptogram p = 0"
    and "pd_cmd_id p = CMD_KEYSET \<Longrightarrow> pd_reply_id p = REPLY_ACK \<Longrightarrow>
         pd_cmd_id pd = CMD_KEYSET \<and> pd_reply_id pd = REPLY_ACK \<or> sc_is_active pd"
    and "pd_cmd_id p = CMD_KEYSET \<Longrightarrow> pd_reply_id p = REPLY_ACK \<Longrightarrow> ret \<in> {OSDP_PD_ERR_NONE, OSDP_PD_ERR_REPLY} \<Longrightarrow>
         forged_length crc pd \<or> sc_is_active pd" by simp_all
qed

subsection \<open>A pass\<close>

lemma verify_keys: "sc_keys (pd_sc x) = sc_keys (pd_sc y) \<Longrightarrow> osdp_verify_cp_cryptogram x = osdp_verify_cp_cryptogram y"
  using sc_keysD [of "pd_sc x" "pd_sc y"] by (simp add: osdp_verify_cp_cryptogram_def Let_def)

lemma piv_file_abort: "pd_piv (osdp_file_tx_abort pd) = pd_piv pd"
  by (simp add: osdp_file_tx_abort_def file_transition_done_def Let_def case_prod_beta make_request_def
      split: option.split)

lemma piv_bio_abort: "pd_piv (osdp_bio_abort pd) = pd_piv pd"
  by (simp add: osdp_bio_abort_def bio_put_def Let_def case_prod_beta split: option.split)

lemma piv_answers_cong: "pd_piv x = pd_piv y \<Longrightarrow> piv_answers x \<longleftrightarrow> piv_answers y"
  by (simp add: piv_answers_def osdp_piv_pd_reply_pending_def osdp_piv_pd_reply_id_def)

lemma piv_answers_abort:
  assumes "piv_answers pd"
  shows "piv_answers (osdp_engines_abort pd)"
proof -
  have p: "piv_answers (osdp_piv_abort q)" if "piv_answers q" for q :: "('a, 'b) osdp_dev_scheme"
    using that by (auto simp: osdp_piv_abort_def piv_answers_def osdp_piv_pd_reply_pending_def osdp_piv_pd_reply_id_def
        piv_put_def piv_op_reset_def Let_def case_prod_beta split: option.splits)
  show ?thesis
    using p [of "osdp_file_tx_abort pd"] assms
    by (simp add: osdp_engines_abort_def piv_answers_cong [OF piv_file_abort] piv_answers_cong [OF piv_bio_abort])
qed

lemma expire_frame:
  shows "still pd (pd_expire pd)" "pd_cmd_id (pd_expire pd) = pd_cmd_id pd" "pd_reply_id (pd_expire pd) = pd_reply_id pd"
    "pd_reply_prebuilt (pd_expire pd) = pd_reply_prebuilt pd" "piv_answers pd \<Longrightarrow> piv_answers (pd_expire pd)"
proof -
  define q where "q = (if sc_is_active pd \<and> osdp_millis_since pd (pd_sc_tstamp pd) > OSDP_PD_SC_TIMEOUT_MS
                then pd_sc_deactivate pd else pd)"
  have dk: "pkr (pd_sc_deactivate pd) = pkr (sc_deactivate pd)" by (simp add: pd_sc_deactivate_def Let_def)
  have dc: "pd_cmd_id (sc_deactivate pd) = pd_cmd_id pd" using phy_restD(16) [OF phy_rest_deactivate [of pd]] .
  have dn: "pd_reply_prebuilt (pd_notify_sc_status x) = pd_reply_prebuilt x" "pd_piv (pd_notify_sc_status x) = pd_piv x"
    "pd_reply_prebuilt (pd_notify_pd_status b x) = pd_reply_prebuilt x" "pd_piv (pd_notify_pd_status b x) = pd_piv x"
    for x :: "('a, 'b) osdp_dev_scheme" and b
    by (simp_all add: pd_notify_sc_status_def pd_notify_pd_status_def pd_deliver_notification_def
        osdp_metrics_report_def split: option.split)
  have da: "pd_reply_prebuilt (sc_deactivate pd) = pd_reply_prebuilt pd" "pd_piv (sc_deactivate pd) = pd_piv pd"
    by (simp_all add: sc_deactivate_def osdp_metrics_report_def CLEAR_FLAG_def Let_def)
  have dp: "pd_reply_prebuilt (pd_sc_deactivate pd) = pd_reply_prebuilt pd" "pd_piv (pd_sc_deactivate pd) = pd_piv pd"
    by (simp_all add: pd_sc_deactivate_def Let_def dn da)
  have q: "still pd q" "pd_cmd_id q = pd_cmd_id pd" "pd_reply_id q = pd_reply_id pd" "pd_reply_prebuilt q = pd_reply_prebuilt pd"
    "piv_answers q = piv_answers pd"
    using still_sc_deactivate(1) [of pd] pkrD(2,3) [OF dk] dc dp piv_answers_cong [OF dp(2)] by (simp_all add: q_def)
  define z where "z = pd_notify_pd_status False (osdp_engines_abort (pd_set_offline q))"
  have z: "pkr z = pkr q" by (simp add: z_def)
  have o: "pd_piv (pd_set_offline q) = pd_piv q" "pd_reply_prebuilt (pd_set_offline q) = pd_reply_prebuilt q"
    by (simp_all add: pd_set_offline_def CLEAR_FLAG_def)
  have zp: "pd_reply_prebuilt z = pd_reply_prebuilt q"
    using outerD [OF outer_engines_abort [of "pd_set_offline q"]] by (simp add: z_def dn o)
  have za: "piv_answers q \<Longrightarrow> piv_answers z"
    using piv_answers_abort [of "pd_set_offline q"] piv_answers_cong [OF o(1)]
      piv_answers_cong [OF dn(4) [of False "osdp_engines_abort (pd_set_offline q)"]] by (simp add: z_def)
  have e: "pd_expire pd = (if is_pd_online q \<and> osdp_millis_since q (pd_tstamp q) > OSDP_PD_ONLINE_TOUT_MS then z else q)"
    by (simp add: pd_expire_def q_def z_def Let_def)
  show "still pd (pd_expire pd)" "pd_cmd_id (pd_expire pd) = pd_cmd_id pd" "pd_reply_id (pd_expire pd) = pd_reply_id pd"
    "pd_reply_prebuilt (pd_expire pd) = pd_reply_prebuilt pd" "piv_answers pd \<Longrightarrow> piv_answers (pd_expire pd)"
    using q zp za pkrD(2,3) [OF z] still_trans [OF q(1) still_pk [OF pkrD(1) [OF z]]] by (simp_all add: e)
qed

lemma heard_packet_frame: "pkr (pd_packet_heard ret pd) = pkr pd"
  by (simp add: pd_packet_heard_def Let_def)

lemma error_reset_frame: "still pd (pd_error_reset pd)" "\<not> sc_is_active (pd_error_reset pd)"
  "pd_cmd_id (pd_error_reset pd) = pd_cmd_id pd" "pd_reply_id (pd_error_reset pd) = pd_reply_id pd"
proof -
  define q where "q = pd_sc_deactivate (pd_settle_event OSDP_COMPLETION_FAILED pd)"
  have s: "pkr (pd_settle_event OSDP_COMPLETION_FAILED pd) = pkr pd" by simp
  have q: "still pd q" "\<not> sc_is_active q"
    using still_trans [OF still_pk [OF pkrD(1) [OF s]] still_sc_deactivate(1)] still_sc_deactivate(2) by (simp_all add: q_def)
  have r: "pk (pd_error_reset pd) = pk q" using pkrD(1) [OF pkr_reset [of q]] by (simp add: pd_error_reset_def q_def)
  show "still pd (pd_error_reset pd)" by (rule still_trans [OF q(1) still_pk [OF r]])
  show "\<not> sc_is_active (pd_error_reset pd)" using q(2) pkD(4) [OF r] by simp
  define z where "z = pd_settle_event OSDP_COMPLETION_FAILED pd"
  have z: "pkr z = pkr pd" by (simp add: z_def)
  have d: "pkr (pd_sc_deactivate z) = pkr (sc_deactivate z)" by (simp add: pd_sc_deactivate_def Let_def)
  have "pd_cmd_id (sc_deactivate z) = pd_cmd_id z" using phy_restD(16) [OF phy_rest_deactivate [of z]] .
  then show "pd_cmd_id (pd_error_reset pd) = pd_cmd_id pd" "pd_reply_id (pd_error_reset pd) = pd_reply_id pd"
    using pkrD(2,3) [OF d] pkrD(2,3) [OF z] pkrD(2,3) [OF pkr_reset [of "pd_sc_deactivate z"]]
    by (simp_all add: pd_error_reset_def z_def)
qed

text \<open>A pass either ends without a reply, or goes on to send the one that was built.\<close>

lemma update_cases:
  assumes "osdp_pd_update crc pd = Some pd'"
  obtains "pd_reply_prebuilt pd" "pd' = pd_send_stage (pd_expire pd)"
  | ret p where "pd_receive_and_process_command crc (pd_expire pd) = Some (ret, p)" "still p pd'"
      "pd_cmd_id pd' = pd_cmd_id p" "pd_reply_id pd' = pd_reply_id p"
  | ret p q where "pd_receive_and_process_command crc (pd_expire pd) = Some (ret, p)" "built p q" "pd' = pd_send_stage q"
      "ret \<in> {OSDP_PD_ERR_NONE, OSDP_PD_ERR_REPLY}"
proof (cases "pd_reply_prebuilt pd")
  case True
  then show ?thesis using assms that(1) expire_frame(4) [of pd] by (simp add: osdp_pd_update_def)
next
  case False
  note u = assms [unfolded osdp_pd_update_def Let_def expire_frame(4), simplified False if_False]
  obtain ret p where r: "pd_receive_and_process_command crc (pd_expire pd) = Some (ret, p)"
    using u by (auto split: option.splits)
  show ?thesis
  proof (cases "pd' = p \<or> pd' = pd_error_reset p")
    case True
    then show ?thesis using that(2) [OF r] error_reset_frame by auto
  next
    case f: False
    define h where "h = pd_packet_heard ret p"
    have b: "pd_build_stage crc h = Some pd'" and ret: "ret \<in> {OSDP_PD_ERR_NONE, OSDP_PD_ERR_REPLY}"
      using u f by (auto simp: r h_def split: if_splits)
    have h: "built p h" using built_pkr [OF heard_packet_frame] by (simp add: h_def)
    show ?thesis
    proof (cases "pd_reply_prebuilt h")
      case True
      then show ?thesis using b that(3) [OF r h] ret by (simp add: pd_build_stage_def)
    next
      case np: False
      obtain rc q where q: "pd_build_reply_packet crc h = Some (rc, q)" using b np by (auto simp: pd_build_stage_def split: option.splits)
      have bq: "built p q" by (rule built_trans [OF h built_packet [OF q]])
      show ?thesis
      proof (cases "rc = 0")
        case True
        then show ?thesis using b np that(3) [OF r bq] ret by (simp add: pd_build_stage_def q)
      next
        case False
        then have e: "pd' = pd_error_reset q" using b np by (simp add: pd_build_stage_def q)
        have "still p pd'" using bq error_reset_frame [of q] by (auto simp: e still_def built_def)
        then show ?thesis using that(2) [OF r] bq error_reset_frame(3,4) [of q] by (simp add: e built_def)
      qed
    qed
  qed
qed

text \<open>
  C1. A session on a PD begins only with a cryptogram that proves the CP's key: after a pass
  that started without a session and without a handshake reply left over from the last one, a
  session is up only if the command of the pass was CMD_SCRYPT and its cryptogram is the one
  the PD's keys and the two random numbers give.
\<close>

theorem pd_session_only_by_cryptogram:
  assumes "piv_answers pd" "\<not> sc_is_active pd" "pd_reply_id pd \<noteq> REPLY_RMAC_I" "osdp_pd_update crc pd = Some pd'"
  shows "sc_is_active pd' \<longrightarrow> pd_cmd_id pd' = CMD_SCRYPT \<and> osdp_verify_cp_cryptogram pd' = 0"
proof
  assume a: "sc_is_active pd'"
  have e: "\<not> sc_is_active (pd_expire pd)" "piv_answers (pd_expire pd)" "pd_reply_id (pd_expire pd) \<noteq> REPLY_RMAC_I"
    using expire_frame(1,3,5) [of pd] assms(1-3) by (simp_all add: still_def)
  from assms(4) show "pd_cmd_id pd' = CMD_SCRYPT \<and> osdp_verify_cp_cryptogram pd' = 0"
  proof (cases rule: update_cases)
    case 1
    then show ?thesis
      using a e(1) send_stage_frame(1) [of "pd_expire pd"] send_stage_keyset(1) [of "pd_expire pd"]
        pkD(4) [of "pd_send_stage (pd_expire pd)" "pd_expire pd"] by auto
  next
    case (2 ret p)
    then show ?thesis using a e receive_facts(1) [OF e(2) 2(1)] by (auto simp: still_def)
  next
    case (3 ret p q)
    have p: "\<not> sc_is_active p" using receive_facts(1) [OF e(2) 3(1)] e(1) by (auto simp: still_def)
    have "\<not> (pd_cmd_id q = CMD_KEYSET \<and> pd_reply_id q = REPLY_ACK) \<or> pk pd' = pk q"
      using a send_stage_keyset(1) [of q] 3(3) by auto
    then have k: "pk pd' = pk q" using send_stage_frame(1) [of q] 3(3) by auto
    then have "pd_reply_id p = REPLY_RMAC_I" using a 3(2) p pkD(4) [OF k] by (auto simp: built_def)
    then have r: "pd_cmd_id p = CMD_SCRYPT" "osdp_verify_cp_cryptogram p = 0" "pd_reply_id p = REPLY_RMAC_I"
      using receive_facts(2) [OF e(2) 3(1)] e(3) by auto
    then have "sc_keys (pd_sc pd') = sc_keys (pd_sc p)" "pd_cmd_id q = CMD_SCRYPT"
      using pkD(2) [OF k] 3(2) by (simp_all add: built_def)
    then show ?thesis using verify_keys [of pd' p] r send_stage_frame(2) [of q] 3(3) by simp
  qed
qed

text \<open>
  C3. When a PD's base key can be replaced.  A pass replaces it only if a session was up when the
  pass began, or if the acknowledgement of a CMD_KEYSET was left over from an earlier pass: as a
  reply that was built and not yet sent, or, after it was sent, together with a packet whose
  security block leaves a length of \<open>- 6\<close>, which makes the PD answer, and commit, once more.
  The pass then ends without a session, with install mode and the default key off.  And such a
  left-over acknowledgement comes about only in a pass that began with a session up.
\<close>

theorem pd_key_change_needs_session:
  assumes "piv_answers pd" "osdp_pd_update crc pd = Some pd'"
  shows "(scbk (pd_sc pd') \<noteq> scbk (pd_sc pd) \<longrightarrow>
      (sc_is_active pd \<or> pd_cmd_id pd = CMD_KEYSET \<and> pd_reply_id pd = REPLY_ACK \<and>
         (pd_reply_prebuilt pd \<or> forged_length crc (pd_expire pd))) \<and>
      pd_cmd_id pd' = CMD_KEYSET \<and> pd_reply_id pd' = REPLY_ACK \<and>
      \<not> sc_is_active pd' \<and> \<not> is_install_mode pd' \<and> \<not> sc_use_scbkd pd') \<and>
    (pd_cmd_id pd' = CMD_KEYSET \<and> pd_reply_id pd' = REPLY_ACK \<longrightarrow>
      sc_is_active pd \<or> pd_cmd_id pd = CMD_KEYSET \<and> pd_reply_id pd = REPLY_ACK)"
proof -
  let ?ack = "\<lambda>x. pd_cmd_id x = CMD_KEYSET \<and> pd_reply_id x = REPLY_ACK"
  have e: "piv_answers (pd_expire pd)" "still pd (pd_expire pd)" "pd_cmd_id (pd_expire pd) = pd_cmd_id pd"
    "pd_reply_id (pd_expire pd) = pd_reply_id pd" using expire_frame [of pd] assms(1) by simp_all
  have send: "?ack x \<and> \<not> sc_is_active (pd_send_stage x) \<and> \<not> is_install_mode (pd_send_stage x) \<and>
      \<not> sc_use_scbkd (pd_send_stage x) \<and> ?ack (pd_send_stage x)"
    if "scbk (pd_sc (pd_send_stage x)) \<noteq> scbk (pd_sc x)" for x :: "('a, 'b) osdp_dev_scheme"
    using that send_stage_frame(1) [of x] send_stage_keyset [of x] pkD(5) [of "pd_send_stage x" x] by metis
  have left: "?ack x" if "?ack (pd_send_stage x)" for x :: "('a, 'b) osdp_dev_scheme"
    using that send_stage_frame(2) [of x] send_stage_reply [of x] by (cases "?ack x") auto
  from assms(2) show ?thesis
  proof (cases rule: update_cases)
    case 1
    then show ?thesis using send [of "pd_expire pd"] left [of "pd_expire pd"] e(2-4) by (auto simp: still_def)
  next
    case (2 ret p)
    then show ?thesis using receive_facts(1,3) [OF e(1) 2(1)] e(2-4) by (auto simp: still_def)
  next
    case (3 ret p q)
    note r = receive_facts [OF e(1) 3(1)]
    have k: "scbk (pd_sc q) = scbk (pd_sc pd)" "?ack q \<longleftrightarrow> ?ack p" "sc_is_active (pd_expire pd) \<longrightarrow> sc_is_active pd"
      using r(1) e(2) 3(2) by (simp_all add: still_def built_def)
    have a: "?ack p \<longrightarrow> (sc_is_active pd \<or> ?ack pd \<and> forged_length crc (pd_expire pd))"
      using r(3,4) 3(4) k(3) e(3,4) by auto
    then show ?thesis using send [of q] left [of q] k 3(3) by metis
  qed
qed

lemma body_of_handshake:
  assumes "pd_command_body crc q buf len = Some (ret, p)" "pd_cmd_id q \<in> {CMD_ID, CMD_CAP, CMD_CHLNG, CMD_SCRYPT}"
    "\<not> sc_is_active q" "pd_reply_id q = REPLY_NAK"
  shows "pd_app p = pd_app q \<and> pd_event_queue p = pd_event_queue q \<and>
     pd_active_event p = pd_active_event q \<and> pd_file p = pd_file q \<and> pd_piv p = pd_piv q \<and> pd_bio p = pd_bio q \<and>
     pd_peer_rx_size p = pd_peer_rx_size q \<and> pd_baud_rate p = pd_baud_rate q \<and> pd_address p = pd_address q \<and>
     scbk (pd_sc p) = scbk (pd_sc q) \<and> pd_reply_id p \<in> {REPLY_NAK, REPLY_PDID, REPLY_PDCAP, REPLY_CCRYPT, REPLY_RMAC_I}"
proof -
  have d: "pd_sc_deactivate x = sc_deactivate x" if "\<not> sc_is_active x" for x :: "('a, 'b) osdp_dev_scheme"
    using that by (simp add: pd_sc_deactivate_def Let_def)
  consider "pd_cmd_id q = CMD_ID" | "pd_cmd_id q = CMD_CAP" | "pd_cmd_id q = CMD_CHLNG" | "pd_cmd_id q = CMD_SCRYPT"
    using assms(2) by auto
  then show ?thesis
  proof cases
    case 3
    then have "pd_decode_chlng q buf len = (ret, p)" using assms(1) by (simp add: pd_command_body_def)
    then show ?thesis
      using assms(3,4) by (auto simp: pd_decode_chlng_def pd_cmd_cap_ok_def Let_def d osdp_sc_setup_def sc_deactivate_def
          CLEAR_FLAG_def osdp_metrics_report_def pd_nak_def set_nak_code_def osdp_fill_random_def set_channel_def
          split: if_splits)
  next
    case 4
    then have "pd_decode_scrypt q buf len = (ret, p)" using assms(1) by (simp add: pd_command_body_def)
    then show ?thesis
      using assms(3,4) by (auto simp: pd_decode_scrypt_def pd_cmd_cap_ok_def Let_def pd_nak_def set_nak_code_def split: if_splits)
  qed (use assms in \<open>auto simp: pd_command_body_def split: if_splits\<close>)
qed


text \<open>
  C2. With ENFORCE_SECURE set and no session up, a command from the wire reaches nothing but the
  identification and the handshake: whatever the command, the decoder leaves the application's
  state, the engines, the event queue and the event being reported, the address, baud rate and
  peer buffer size, and the base key as they were, and the reply is PDID, PDCAP, CCRYPT, RMAC_I
  or a NAK.
\<close>

theorem pd_enforce_secure_shields_app:
  assumes "is_enforce_secure pd" "\<not> sc_is_active pd" "pd_decode_command crc pd buf len = Some (ret, pd')"
  shows "pd_app pd' = pd_app pd \<and> pd_event_queue pd' = pd_event_queue pd \<and> pd_active_event pd' = pd_active_event pd \<and>
     pd_file pd' = pd_file pd \<and> pd_piv pd' = pd_piv pd \<and> pd_bio pd' = pd_bio pd \<and>
     pd_peer_rx_size pd' = pd_peer_rx_size pd \<and> pd_baud_rate pd' = pd_baud_rate pd \<and> pd_address pd' = pd_address pd \<and>
     scbk (pd_sc pd') = scbk (pd_sc pd) \<and> pd_reply_id pd' \<in> {REPLY_NAK, REPLY_PDID, REPLY_PDCAP, REPLY_CCRYPT, REPLY_RMAC_I}"
proof -
  define q where "q = (pd_nak OSDP_PD_NAK_RECORD pd)\<lparr>pd_cmd_id := uint (buf ! 0)\<rparr>"
  have f: "pd_app q = pd_app pd" "pd_event_queue q = pd_event_queue pd" "pd_active_event q = pd_active_event pd"
    "pd_file q = pd_file pd" "pd_piv q = pd_piv pd" "pd_bio q = pd_bio pd" "pd_peer_rx_size q = pd_peer_rx_size pd"
    "pd_baud_rate q = pd_baud_rate pd" "pd_address q = pd_address pd" "pd_sc q = pd_sc pd" "pd_reply_id q = REPLY_NAK"
    by (simp_all add: q_def pd_nak_def set_nak_code_def)
  have s: "pk q = pk pd" by (simp add: q_def)
  have q: "is_enforce_secure q" "\<not> sc_is_active q" using secD(3,4) [OF pkD(1) [OF s]] assms(1,2) by simp_all
  show ?thesis
  proof (cases "pd_cmd_id q \<in> {CMD_ID, CMD_CAP, CMD_CHLNG, CMD_SCRYPT}")
    case False
    then have "\<not> pd_cmd_allowed q" using q by (simp add: pd_cmd_allowed_def)
    then have "pd' = set_nak_code OSDP_PD_NAK_SC_COND q"
      using assms(3) unfolding pd_decode_command_def Let_def q_def [symmetric] by simp
    then show ?thesis using f by (simp add: set_nak_code_def)
  next
    case True
    then have "pd_cmd_allowed q" by (auto simp: pd_cmd_allowed_def)
    then obtain r p where b: "pd_command_body crc q (drop 1 buf) (len - 1) = Some (r, p)" "pd' = p \<or> pd' = pd_nak OSDP_PD_NAK_CMD_LEN p"
      using assms(3) unfolding pd_decode_command_def Let_def q_def [symmetric] by (auto split: option.splits if_splits)
    show ?thesis
      using body_of_handshake [OF b(1) True q(2) f(11)] b(2) f by (auto simp: pd_nak_def set_nak_code_def)
  qed
qed


subsection \<open>Examples\<close>

definition pd_idle_example :: "nat osdp_dev" where
  "pd_idle_example = SET_FLAG PD_FLAG_ENFORCE_SECURE (SET_FLAG PD_FLAG_PD_MODE (dev_zero no_callbacks 7))"

lemma pd_idle_flags: "is_pd_mode pd_idle_example" "is_enforce_secure pd_idle_example" "\<not> sc_is_active pd_idle_example"
  "\<not> is_pd_online pd_idle_example" "\<not> pd_reply_prebuilt pd_idle_example" "pd_reply_id pd_idle_example = 0"
  "pd_cmd_id pd_idle_example = 0" "piv_answers pd_idle_example"
proof -
  have "pd_reply_prebuilt (dev_zero no_callbacks (7::nat)) = False" "pd_reply_id (dev_zero no_callbacks (7::nat)) = 0"
    "pd_cmd_id (dev_zero no_callbacks (7::nat)) = 0"
    by (simp_all add: dev_zero_def osdp_pd.defs osdp_dev.defs pd_zero_def)
  then show "is_pd_mode pd_idle_example" "is_enforce_secure pd_idle_example" "\<not> sc_is_active pd_idle_example"
    "\<not> is_pd_online pd_idle_example" "\<not> pd_reply_prebuilt pd_idle_example" "pd_reply_id pd_idle_example = 0"
    "pd_cmd_id pd_idle_example = 0" "piv_answers pd_idle_example"
    by (simp_all add: pd_idle_example_def flag_defs ISSET_FLAG_def SET_FLAG_def piv_answers_def osdp_piv_pd_reply_pending_def)
qed

lemma pd_idle_rb: "pd_rx_rb (dev_zero cb w) = rb_zero" "pd_packet_buf_len (dev_zero cb w) = 0" "pd_packet_len (dev_zero cb w) = 0"
  by (simp_all add: dev_zero_def osdp_pd.defs osdp_dev.defs pd_zero_def)

lemma idle_update:
  assumes "\<not> sc_is_active pd" "\<not> is_pd_online pd" "\<not> pd_reply_prebuilt pd" "ch_recv (pd_channel pd) = []"
    "osdp_rb_pop (pd_rx_rb pd) = None" "pd_packet_buf_len pd = 0" "pd_packet_len pd = 0"
  shows "\<exists>pd'. osdp_pd_update crc pd = Some pd'"
proof -
  define q where "q = pd\<lparr>pd_reply_prebuilt := False\<rparr>"
  have e: "pd_expire pd = pd" using assms(1,2) by (simp add: pd_expire_def Let_def)
  define z where "z = snd (osdp_channel_receive q)"
  have r: "osdp_channel_receive q = (0, z)" "pd_rx_rb z = pd_rx_rb pd" "pd_packet_buf_len z = 0" "pd_packet_len z = 0"
    using assms(4,6,7) by (simp_all add: osdp_channel_receive_def q_def z_def set_channel_def)
  obtain n where n: "OSDP_RX_RB_SIZE = Suc n" by (metis OSDP_RX_RB_SIZE_def old.nat.exhaust zero_neq_numeral)
  have s: "phy_scan_start OSDP_RX_RB_SIZE rb 0 skip = (None, rb, skip)" if "osdp_rb_pop rb = None" for rb skip
    using that unfolding n by simp
  have f: "fst (phy_find_start z) = False"
    using assms(5) r s [of "pd_rx_rb pd"] by (simp add: phy_find_start_def)
  obtain y where c: "osdp_phy_check_packet crc q = (OSDP_ERR_PKT_NO_DATA, y)"
    using f r by (simp add: osdp_phy_check_packet_def Let_def phy_check_header_def case_prod_beta)
  show ?thesis using assms(3) by (simp add: osdp_pd_update_def e pd_receive_and_process_command_def Let_def q_def [symmetric] c)
qed

lemma pd_idle_update: "\<exists>pd'. osdp_pd_update crc pd_idle_example = Some pd'"
  by (rule idle_update) (simp_all add: pd_idle_flags, simp_all add: pd_idle_example_def SET_FLAG_def pd_idle_rb rb_zero_def osdp_rb_pop_def pd_zero_def)

theorem pd_session_only_by_cryptogram_witness:
  "\<exists>pd'. osdp_pd_update (\<lambda>_ _. 0) pd_idle_example = Some pd' \<and>
     (sc_is_active pd' \<longrightarrow> pd_cmd_id pd' = CMD_SCRYPT \<and> osdp_verify_cp_cryptogram pd' = 0)"
  using pd_idle_update [of "\<lambda>_ _. 0"] pd_session_only_by_cryptogram [of pd_idle_example "\<lambda>_ _. 0"]
  by (auto simp: pd_idle_flags)

theorem pd_key_change_needs_session_witness:
  "\<exists>pd'. osdp_pd_update (\<lambda>_ _. 1) pd_idle_example = Some pd' \<and>
     scbk (pd_sc pd') = scbk (pd_sc pd_idle_example) \<and> \<not> (pd_cmd_id pd' = CMD_KEYSET \<and> pd_reply_id pd' = REPLY_ACK)"
  using pd_idle_update [of "\<lambda>_ _. 1"] pd_key_change_needs_session [of pd_idle_example "\<lambda>_ _. 1"]
  by (auto simp: pd_idle_flags)

theorem pd_enforce_secure_shields_app_witness:
  "\<exists>pd'. pd_decode_command (\<lambda>_ _. 0) pd_idle_example [0x6A, 0, 2, 5, 5, 1] 6 = Some (OSDP_PD_ERR_REPLY, pd') \<and>
     pd_app pd' = 7 \<and> pd_reply_id pd' \<in> {REPLY_NAK, REPLY_PDID, REPLY_PDCAP, REPLY_CCRYPT, REPLY_RMAC_I}"
proof -
  have a: "pd_app pd_idle_example = 7" by (simp add: pd_idle_example_def SET_FLAG_def)
  define q where "q = (pd_nak OSDP_PD_NAK_RECORD pd_idle_example)\<lparr>pd_cmd_id := CMD_BUZ\<rparr>"
  have "pk q = pk pd_idle_example" by (simp add: q_def)
  then have "is_enforce_secure q" "\<not> sc_is_active q"
    using secD(3,4) [OF pkD(1)] pd_idle_flags(2,3) by metis+
  then have "\<not> pd_cmd_allowed q" by (simp add: pd_cmd_allowed_def q_def)
  then have "pd_decode_command (\<lambda>_ _. 0) pd_idle_example [0x6A, 0, 2, 5, 5, 1] 6 =
      Some (OSDP_PD_ERR_REPLY, set_nak_code OSDP_PD_NAK_SC_COND q)"
    by (simp add: pd_decode_command_def Let_def q_def)
  then show ?thesis
    using pd_enforce_secure_shields_app [OF pd_idle_flags(2,3)] a by (metis)
qed

subsection \<open>What the decoder does not ask for\<close>

text \<open>
  CMD_SCRYPT needs no CMD_CHLNG before it.  On a PD that was only set up, the session key and
  both random numbers are zero whatever the base key is, so a cryptogram known to everyone is
  accepted, with ENFORCE_SECURE as without it.
\<close>

lemma setup_sc:
  assumes "osdp_pd_setup skip ch info w = Some c"
  shows "\<exists>k. pd_sc (pdx_pd c) = sc_zero\<lparr>scbk := k\<rparr>"
proof -
  have s: "pd_sc (set_if b f pd) = pd_sc pd" "pd_sc (SET_FLAG f pd) = pd_sc pd" for b f and pd :: "'b osdp_dev"
    by (simp_all add: set_if_def SET_FLAG_def)
  have f: "pd_sc (pd_fresh ch w) = sc_zero" by (simp add: pd_fresh_def dev_zero_def osdp_pd.defs osdp_dev.defs pd_zero_def)
  have k: "\<exists>k. pd_sc pd' = (pd_sc pd)\<lparr>scbk := k\<rparr>" if "pd_setup_key key pd = Some pd'" for key and pd pd' :: "'b osdp_dev"
    using that by (auto simp: pd_setup_key_def s split: option.splits if_splits intro: exI [of _ "scbk (pd_sc pd)"])
  obtain pd1 where p: "pd_setup_key (info_scbk info)
      ((pd_collect_init_flags (info_flags info) ((pd_fresh ch w)\<lparr>pd_idx := 0, pd_packet_buf := TX_BUF,
         pd_baud_rate := info_baud_rate info, pd_address := info_address info, pd_flags := 0, pd_seq_number := -1,
         pd_rx_rb := rb_zero\<rparr>))\<lparr>pd_event_queue := []\<rparr>) = Some pd1" and c: "pd_sc (pdx_pd c) = pd_sc pd1"
    using assms by (auto simp: osdp_pd_setup_def Let_def osdp_pd_set_attributes_def pd_no_sc_capability_def s
        split: if_splits option.splits)
  show ?thesis
    using k [OF p] c by (simp add: pd_collect_init_flags_def Let_def s f)
qed

text \<open>
  C11. A session can be opened without a challenge and without the key: on a PD that was just
  set up, with whatever base key and flags, and that offers a secure channel, CMD_SCRYPT with
  the zero block encrypted under the zero key is accepted and answered with RMAC_I.
\<close>

theorem pd_scrypt_without_challenge:
  assumes "osdp_pd_setup skip ch info w = Some c" "compliance_level (cap_at (pdx_pd c) OSDP_PD_CAP_COMMUNICATION_SECURITY) \<noteq> 0"
    "\<not> sc_is_active (pdx_pd c)"
  defines "known \<equiv> osdp_encrypt (replicate 16 0) None (replicate 16 0) 16"
  shows "\<exists>pd'. pd_decode_command crc (pdx_pd c) (0x77 # known) 17 = Some (OSDP_PD_ERR_NONE, pd') \<and> pd_reply_id pd' = REPLY_RMAC_I"
proof -
  define pd where "pd = pdx_pd c"
  obtain k where k: "pd_sc pd = sc_zero\<lparr>scbk := k\<rparr>" using setup_sc [OF assms(1)] by (auto simp: pd_def)
  define q where "q = (pd_nak OSDP_PD_NAK_RECORD pd)\<lparr>pd_cmd_id := CMD_SCRYPT\<rparr>"
  have p: "pk q = pk pd" by (simp add: q_def)
  have q: "\<not> sc_is_active q" "pd_cmd_id q = CMD_SCRYPT" "pd_sc q = sc_zero\<lparr>scbk := k\<rparr>" "cap_at q = cap_at pd"
    using pkD(4) [OF p] assms(3) k by (auto simp: q_def pd_def pd_nak_def set_nak_code_def cap_at_def fun_eq_iff)
  have len: "length known = 16" by (simp add: known_def aes.enc_block_length)
  define z where "z = q\<lparr>pd_sc := (pd_sc q)\<lparr>cp_cryptogram := known\<rparr>\<rparr>"
  have v: "osdp_verify_cp_cryptogram z = 0"
    by (simp add: osdp_verify_cp_cryptogram_def Let_def z_def q(3) sc_zero_def replicate_add [symmetric] known_def
        osdp_ct_compare_eq_0 aes.enc_block_length)
  have c: "pd_cmd_cap_ok None q = (True, q)"
    using assms(2) q(2,4) by (simp add: pd_cmd_cap_ok_def pd_cap_allows_def pd_def)
  have d: "pd_decode_scrypt q known 16 = (OSDP_PD_ERR_NONE, z\<lparr>pd_reply_id := REPLY_RMAC_I\<rparr>)"
    using v q(1) by (simp add: pd_decode_scrypt_def c Let_def len z_def)
  have "pd_decode_command crc pd (0x77 # known) 17 = Some (OSDP_PD_ERR_NONE, z\<lparr>pd_reply_id := REPLY_RMAC_I\<rparr>)"
    using q(2) d by (simp add: pd_decode_command_def Let_def q_def [symmetric] pd_cmd_allowed_def pd_command_body_def)
  then show ?thesis by (simp add: pd_def)
qed

definition setup_info :: osdp_pd_info where
  "setup_info = \<lparr>info_baud_rate = 9600, info_address = 0, info_flags = 0, info_id = pd_id (pd_zero True), info_cap = [],
     info_scbk = Some (replicate 16 7)\<rparr>"

definition channel_with :: "bytes list \<Rightarrow> osdp_channel" where
  "channel_with bs = (ctx_channel (pd_ctx (pd_zero True)))\<lparr>ch_recv := bs\<rparr>"

theorem pd_scrypt_without_challenge_witness:
  "\<exists>c pd'. osdp_pd_setup False (channel_with []) setup_info (0 :: nat) = Some c \<and>
     pd_decode_command (\<lambda>_ _. 0) (pdx_pd c) (0x77 # osdp_encrypt (replicate 16 0) None (replicate 16 0) 16) 17 =
       Some (OSDP_PD_ERR_NONE, pd') \<and> pd_reply_id pd' = REPLY_RMAC_I"
proof -
  have "(case osdp_pd_setup False (channel_with []) setup_info (0 :: nat) of None \<Rightarrow> False
     | Some c \<Rightarrow> compliance_level (cap_at (pdx_pd c) OSDP_PD_CAP_COMMUNICATION_SECURITY) \<noteq> 0 \<and> \<not> sc_is_active (pdx_pd c))"
    by code_simp
  then obtain c where c: "osdp_pd_setup False (channel_with []) setup_info (0 :: nat) = Some c"
    "compliance_level (cap_at (pdx_pd c) OSDP_PD_CAP_COMMUNICATION_SECURITY) \<noteq> 0" "\<not> sc_is_active (pdx_pd c)"
    by (auto split: option.splits)
  show ?thesis using pd_scrypt_without_challenge [OF c, of "\<lambda>_ _. 0"] c(1) by blast
qed

text \<open>
  A callback that refuses OSDP_CMD_COMSET_DONE writes its NAK code over the address that the PD
  then takes: both share the storage of the pending link settings.
\<close>

lemma pd_comset_done_refused:
  assumes "do_command_callback (wire_cmd (OSDP_CMD_COMSET_DONE (comset_pending pd))) pd = (False, cmd, q)" "pd_pending pd \<noteq> []"
  shows "pd_address (pd_commit_comset pd) \<in> {7, 8, 9}"
proof -
  have "pd_pending q = (pd_pending pd)[0 := pd_nak_code_from_callback r]" if "q = set_nak_code (pd_nak_code_from_callback r) x"
    "pd_pending x = pd_pending pd" for r and x :: "('a, 'b) osdp_dev_scheme"
    using that by (simp add: set_nak_code_def)
  then obtain r where "pd_pending q = (pd_pending pd)[0 := pd_nak_code_from_callback r]"
    using assms(1) by (auto simp: do_command_callback_def pd_call_app_def Let_def case_prod_beta split: if_splits option.splits)
  then have "uint (comset_address (comset_pending q)) = uint (pd_nak_code_from_callback r)"
    using assms(2) by (cases "pd_pending pd") (simp_all add: comset_pending_def)
  then show ?thesis
    by (simp add: pd_commit_comset_def assms(1) Let_def pd_nak_code_from_callback_def)
qed

end
