(* ===== verification/Pd_Ready.thy ===== *)
theory Pd_Ready
  imports Pd_Security
begin

text \<open>
  When a PD's pass returns.  The invariant behind it says that every event it holds has a reply
  code or is a notification, and that its engines stand where a reply of theirs can be built; a
  pass then returns if the events it holds are fit to be reported, the packet at hand does not run
  the decryption over the memory, and the reply code it will use is one the switch of
  pd_build_reply knows.  The last two parts show that the exceptions are real.
\<close>

subsection \<open>What a command handler may do\<close>

text \<open>
  The decoder's handlers are built from a few operations.  A relation that holds of each of them,
  and of their composition, holds of every command.
\<close>

locale handler_relation =
  fixes R :: "('w, 'z) osdp_dev_scheme \<Rightarrow> ('w, 'z) osdp_dev_scheme \<Rightarrow> bool"
  assumes trans: "R x y \<Longrightarrow> R y z \<Longrightarrow> R x z"
    and fields: "R x x" "R x (x\<lparr>pd_reply_id := r\<rparr>)" "R x (x\<lparr>pd_cmd_id := c\<rparr>)" "R x (x\<lparr>pd_peer_rx_size := sz\<rparr>)"
      "R x (x\<lparr>pd_sc_tstamp := t\<rparr>)" "R x (x\<lparr>pd_reply_id := r, pd_pending := q\<rparr>)" "R x (set_comset_pending cs x)"
      "R x (x\<lparr>pd_sc := (pd_sc x)\<lparr>cp_random := b\<rparr>, pd_reply_id := r\<rparr>)" "R x (x\<lparr>pd_sc := (pd_sc x)\<lparr>cp_cryptogram := b\<rparr>\<rparr>)"
      "R x (set_nak_code n x)" "R x (pd_nak n x)"
    and queue: "pd_event_queue x = ev # es \<Longrightarrow> R x (x\<lparr>pd_event_queue := es, pd_reply_id := r, pd_active_event := Some ev\<rparr>)"
    and callback: "R x (snd (snd (do_command_callback cmd x)))"
    and prebuild: "R x (snd (pd_prebuild_status_reply crc r s x))"
    and engines: "R x (snd (osdp_file_cmd_tx_decode x buf len))" "R x (snd (osdp_piv_pd_open x c i))"
      "R x (snd (snd (osdp_piv_pd_cmd_frag x c buf len)))" "R x (osdp_piv_abort x)" "R x (osdp_engines_abort x)"
    and session: "R x (pd_sc_deactivate x)" "R x (osdp_sc_setup x)"
begin

lemma cap_ok: "R x (snd (pd_cmd_cap_ok u x))"
  by (simp add: pd_cmd_cap_ok_def fields)

lemma inline: "R x (snd (pd_take_inline_reply x))"
proof (cases "pd_event_queue x")
  case (Cons ev q)
  have "x\<lparr>pd_event_queue := q, pd_active_event := Some ev, pd_reply_id := r\<rparr> =
      x\<lparr>pd_event_queue := q, pd_reply_id := r, pd_active_event := Some ev\<rparr>" for r by simp
  then have "R x (x\<lparr>pd_event_queue := q, pd_active_event := Some ev, pd_reply_id := r\<rparr>)" for r using queue [OF Cons, of r] by metis
  then show ?thesis by (simp add: pd_take_inline_reply_def Cons fields)
qed (simp add: pd_take_inline_reply_def fields)

lemma ack: "R x (snd (pd_ack x))" "R x (snd (pd_inline_or_ack x))"
  using inline [of x] trans [OF inline fields(2)]
  by (auto simp: pd_ack_def pd_inline_or_ack_def fields Let_def case_prod_beta)

lemma via: "R x y \<Longrightarrow> R x (snd (pd_ack y))" "R x y \<Longrightarrow> R x (snd (pd_inline_or_ack y))"
  "R x y \<Longrightarrow> R x (snd (snd (do_command_callback cmd y)))" "R x y \<Longrightarrow> R x (snd (pd_cmd_cap_ok u y))"
  "R x y \<Longrightarrow> R x (set_nak_code n y)" "R x y \<Longrightarrow> R x (y\<lparr>pd_reply_id := r\<rparr>)" "R x y \<Longrightarrow> R x (snd (pd_take_inline_reply y))"
  "R x y \<Longrightarrow> R x (snd (pd_prebuild_status_reply crc c s y))" "R x y \<Longrightarrow> R x (osdp_piv_abort y)"
  "R x y \<Longrightarrow> R x (snd (osdp_piv_pd_open y cc i))" "R x y \<Longrightarrow> R x (snd (snd (osdp_piv_pd_cmd_frag y cc buf len)))"
  "R x y \<Longrightarrow> R x (y\<lparr>pd_reply_id := r, pd_pending := p\<rparr>)" "R x y \<Longrightarrow> R x (set_comset_pending cs y)"
  by (erule trans, (rule ack callback cap_ok fields inline prebuild engines))+

lemma records: "R x (snd (pd_run_records parse n k buf x))"
proof (induction k arbitrary: buf x)
  case (Suc k)
  define y where "y = snd (pd_cmd_cap_ok (Some (parse (take n buf))) x)"
  define z where "z = snd (snd (do_command_callback (wire_cmd (parse (take n buf))) y))"
  have y: "R x y" by (simp add: y_def cap_ok)
  have z: "R x z" unfolding z_def by (rule trans [OF y callback])
  show ?case using y z trans [OF z Suc.IH] by (simp add: Let_def case_prod_beta y_def [symmetric] z_def [symmetric])
qed (simp add: fields)

lemma cases1:
  "R x (snd (pd_decode_status crc t c x len))" "R x (snd (pd_decode_records parse n x buf len))"
  "R x (snd (pd_decode_acked u x))" "R x (snd (pd_decode_answered u x))" "R x (snd (pd_decode_comset x buf len))"
  by (simp_all add: pd_decode_status_def pd_decode_records_def pd_decode_acked_def pd_decode_answered_def
      pd_decode_comset_def Let_def case_prod_beta via fields records)

lemma cases2:
  "R x (snd (pd_decode_bioread x buf len))" "R x (snd (pd_decode_biomatch x buf len))"
  "R x (snd (pd_decode_pivdata x buf len))" "R x (snd (pd_decode_auth x buf len))"
  "R x (snd (pd_decode_keyset x buf len))" "R x (snd (pd_decode_file x buf len))"
proof -
  have a: "R x y \<Longrightarrow> R x (snd (pd_decode_answered u y))" for u y by (erule trans, rule cases1)
  have f: "R x y \<Longrightarrow> R x (pd_nak n y)" for n y by (erule trans, rule fields)
  have p: "R x (snd (snd (osdp_piv_pd_cmd_frag (snd (pd_cmd_cap_ok None x)) cc buf len)))" for cc by (intro via fields)
  show "R x (snd (pd_decode_bioread x buf len))" "R x (snd (pd_decode_biomatch x buf len))"
    "R x (snd (pd_decode_pivdata x buf len))" "R x (snd (pd_decode_keyset x buf len))"
    by (simp_all add: pd_decode_bioread_def pd_decode_biomatch_def pd_decode_pivdata_def pd_decode_keyset_def
        Let_def case_prod_beta via fields a)
  show "R x (snd (pd_decode_auth x buf len))" using p
    by (simp add: pd_decode_auth_def Let_def case_prod_beta via fields split: option.split)
  show "R x (snd (pd_decode_file x buf len))"
    using f via(6) by (simp add: pd_decode_file_def Let_def case_prod_beta fields engines)
qed

lemma cases3: "R x (snd (pd_decode_chlng x buf len))" "R x (snd (pd_decode_scrypt x buf len))"
proof -
  have s: "R x (osdp_sc_setup (pd_sc_deactivate (snd (pd_cmd_cap_ok None x))))" by (intro trans [OF trans [OF cap_ok session(1)] session(2)])
  show "R x (snd (pd_decode_chlng x buf len))" using trans [OF s fields(8)] cap_ok
    by (simp add: pd_decode_chlng_def Let_def case_prod_beta fields)
  have c: "R x ((snd (pd_cmd_cap_ok None x))\<lparr>pd_sc := (pd_sc (snd (pd_cmd_cap_ok None x)))\<lparr>cp_cryptogram := b\<rparr>\<rparr>)" for b
    by (rule trans [OF cap_ok fields(9)])
  show "R x (snd (pd_decode_scrypt x buf len))" using trans [OF c fields(2)] trans [OF c fields(10)] trans [OF cap_ok fields(10)] cap_ok
    by (simp add: pd_decode_scrypt_def Let_def case_prod_beta fields)
qed

lemma poll: "pred_option (\<lambda>rp. R x (snd rp)) (pd_decode_poll x len)"
  unfolding pd_decode_poll_def by (auto intro: fields queue split: list.split option.split)

lemma body: "pred_option (\<lambda>rp. R x (snd rp)) (pd_command_body crc x buf len)"
proof -
  have e: "R x (snd (pd_ack (osdp_engines_abort x)))" "R x (snd (pd_ack (x\<lparr>pd_peer_rx_size := s\<rparr>)))"
    "R x (snd (pd_ack (x\<lparr>pd_sc_tstamp := t\<rparr>)))" for s t by (intro via engines fields)+
  show ?thesis
    unfolding pd_command_body_def Let_def [of "pd_cmd_id x"]
    by (simp add: cases1 cases2 cases3 poll e ack fields del: Let_def)
qed

lemma decode:
  assumes "pd_decode_command crc x buf len = Some (r, p)"
  shows "R x p"
proof -
  define q where "q = (pd_nak OSDP_PD_NAK_RECORD x)\<lparr>pd_cmd_id := uint (buf ! 0)\<rparr>"
  have k: "R x q" unfolding q_def by (rule trans [OF fields(11) fields(3)])
  have b: "pd_command_body crc q (drop 1 buf) (len - 1) = Some (r', p') \<Longrightarrow> R x p'" for r' p'
    using trans [OF k] body [of q crc "drop 1 buf" "len - 1"] by simp
  show ?thesis
    using assms trans [OF k fields(10)] trans [OF b fields(11)] b
    unfolding pd_decode_command_def Let_def q_def [symmetric] by (auto split: if_splits option.splits)
qed

end

subsection \<open>What a PD holds\<close>

text \<open>
  What a submission makes sure of: the event has a reply code, or it is a notification, which has
  none.  An event that is fit to be reported has a code and, if it is a key press, a length that is
  not negative.
\<close>

definition event_accepted :: "osdp_event \<Rightarrow> bool" where
  "event_accepted ev \<longleftrightarrow> (case ev of OSDP_EVENT_NOTIFICATION n \<Rightarrow> True | _ \<Rightarrow> pd_translate_event ev \<noteq> None)"

definition event_ok :: "osdp_event \<Rightarrow> bool" where
  "event_ok ev \<longleftrightarrow> pd_translate_event ev \<noteq> None \<and> (case ev of OSDP_EVENT_KEYPRESS e \<Rightarrow> 0 \<le> keypress_length e | _ \<Rightarrow> True)"

definition events_held :: "('w, 'z) osdp_dev_scheme \<Rightarrow> osdp_event set" where
  "events_held pd = set (pd_event_queue pd) \<union> set_option (pd_active_event pd)"

definition events_ok :: "('w, 'z) osdp_dev_scheme \<Rightarrow> bool" where
  "events_ok pd \<longleftrightarrow> (\<forall>ev \<in> events_held pd. event_ok ev)"

definition piv_fine :: "osdp_piv option \<Rightarrow> bool" where
  "piv_fine o' \<longleftrightarrow> (\<forall>p. o' = Some p \<longrightarrow> piv_phase p \<noteq> OSDP_PIV_IDLE \<longrightarrow>
     piv_wire_reply p \<in> {REPLY_PIVDATAR, REPLY_GENAUTHR, REPLY_CRAUTHR})"

definition bio_fine :: "bool \<Rightarrow> osdp_bio option \<Rightarrow> bool" where
  "bio_fine mp o' \<longleftrightarrow> (\<forall>b. o' = Some b \<longrightarrow> bio_phase b \<noteq> OSDP_BIO_IDLE \<longrightarrow> mp)"

definition engines_ok :: "('w, 'z) osdp_dev_scheme \<Rightarrow> bool" where
  "engines_ok pd \<longleftrightarrow> piv_fine (pd_piv pd) \<and> bio_fine (is_bioreadr_multipart pd) (pd_bio pd)"

text \<open>The reply codes the switch of pd_build_reply has a case for.\<close>

definition reply_known :: "int \<Rightarrow> bool" where
  "reply_known r \<longleftrightarrow> r \<in> {REPLY_ACK, REPLY_BUSY, REPLY_PDID, REPLY_PDCAP, REPLY_COM, REPLY_NAK, REPLY_PIVDATAR, REPLY_GENAUTHR,
     REPLY_CRAUTHR, REPLY_FTSTAT, REPLY_XRD, REPLY_CCRYPT, REPLY_RMAC_I} \<or> 0 \<le> reply_backing_event_type r"

definition pd_sound :: "('w, 'z) osdp_dev_scheme \<Rightarrow> bool" where
  "pd_sound pd \<longleftrightarrow> (\<forall>ev \<in> events_held pd. event_accepted ev) \<and> engines_ok pd"

definition pd_ready :: "('w, 'z) osdp_dev_scheme \<Rightarrow> bool" where
  "pd_ready pd \<longleftrightarrow> pd_sound pd \<and> events_ok pd \<and> reply_known (pd_reply_id pd)"

text \<open>\<open>kept x y\<close>: no new event, and the engines no worse than before.\<close>

definition kept :: "('w, 'z) osdp_dev_scheme \<Rightarrow> ('w, 'z) osdp_dev_scheme \<Rightarrow> bool" where
  "kept x y \<longleftrightarrow> events_held y \<subseteq> events_held x \<and> (engines_ok x \<longrightarrow> engines_ok y)"

lemma kept_refl [simp]: "kept x x" by (simp add: kept_def)

lemma kept_trans: "kept x y \<Longrightarrow> kept y z \<Longrightarrow> kept x z"
  by (auto simp: kept_def)

definition held where
  "held pd = (pd_event_queue pd, pd_active_event pd, pd_piv pd, pd_bio pd, is_bioreadr_multipart pd)"

lemma kept_held:
  fixes x y :: "('w, 'z) osdp_dev_scheme"
  shows "held y = held x \<Longrightarrow> kept x y"
  by (simp add: held_def kept_def events_held_def engines_ok_def)

lemma held_cong:
  fixes x y :: "('w, 'z) osdp_dev_scheme"
  assumes "osdp_pd.more y = osdp_pd.more x" "is_bioreadr_multipart y = is_bioreadr_multipart x"
  shows "held y = held x"
  unfolding held_def by (simp only: more_devD [OF assms(1)] assms(2))

lemma held_view:
  fixes x y :: "('w, 'z) osdp_dev_scheme"
  assumes "view y = view x"
  shows "held y = held x"
  by (rule held_cong [OF phy_restD(1) [OF viewD(1) [OF assms]] secD(9) [OF viewD(2) [OF assms]]])

lemma held_heard:
  fixes x y :: "('w, 'z) osdp_dev_scheme"
  assumes "heard x y"
  shows "held y = held x"
proof -
  have h: "phy_rest y = phy_rest x" "sec_core y = sec_core x" using assms by (simp_all add: heard_def)
  show ?thesis by (rule held_cong [OF phy_restD(1) [OF h(1)] sec_coreD(7) [OF h(2)]])
qed

lemma held_update [simp]:
  fixes pd :: "('w, 'z) osdp_dev_scheme"
  shows "held (pd\<lparr>pd_app := x1\<rparr>) = held pd" "held (pd\<lparr>pd_reply_id := x2\<rparr>) = held pd" "held (pd\<lparr>pd_cmd_id := x3\<rparr>) = held pd"
    "held (pd\<lparr>pd_peer_rx_size := x4\<rparr>) = held pd" "held (pd\<lparr>pd_sc_tstamp := x5\<rparr>) = held pd" "held (pd\<lparr>pd_pending := x6\<rparr>) = held pd"
    "held (pd\<lparr>pd_sc := x7\<rparr>) = held pd" "held (pd\<lparr>pd_metrics := x8\<rparr>) = held pd" "held (pd\<lparr>pd_ctx := x9\<rparr>) = held pd"
    "held (pd\<lparr>pd_packet_buf := x10\<rparr>) = held pd" "held (pd\<lparr>pd_packet_buf_len := x11\<rparr>) = held pd"
    "held (pd\<lparr>pd_reply_prebuilt := x12\<rparr>) = held pd" "held (pd\<lparr>pd_last_tx_len := x13\<rparr>) = held pd"
    "held (pd\<lparr>pd_last_cmd_id := x14\<rparr>) = held pd" "held (pd\<lparr>pd_baud_rate := x15\<rparr>) = held pd" "held (pd\<lparr>pd_address := x16\<rparr>) = held pd"
    "held (pd\<lparr>pd_seq_number := x17\<rparr>) = held pd" "held (pd\<lparr>pd_packet_len := x18\<rparr>) = held pd" "held (pd\<lparr>pd_phy_state := x19\<rparr>) = held pd"
    "held (pd\<lparr>pd_cmd_queue := x20\<rparr>) = held pd" "held (pd\<lparr>pd_file := x21\<rparr>) = held pd"
  by (simp_all add: held_def flag_defs ISSET_FLAG_def)

lemma held_ops [simp]:
  fixes pd :: "('w, 'z) osdp_dev_scheme"
  shows "held (osdp_metrics_report e pd) = held pd" "held (set_nak_code n pd) = held pd" "held (pd_nak n pd) = held pd"
    "held (set_channel ch pd) = held pd" "held (put_tx_buf bs pd) = held pd" "held (put_packet_bytes bs pd) = held pd"
    "held (set_comset_pending c pd) = held pd" "held (osdp_phy_progress_sequence pd) = held pd"
  by (simp_all add: osdp_metrics_report_def set_nak_code_def pd_nak_def set_channel_def put_tx_buf_def put_packet_bytes_def
      set_comset_pending_def osdp_phy_progress_sequence_def)

lemma held_flags [simp]:
  fixes pd :: "('w, 'z) osdp_dev_scheme"
  shows "held (pd_set_online pd) = held pd" "held (pd_set_offline pd) = held pd" "held (sc_deactivate pd) = held pd"
    "held (sc_activate pd) = held pd" "held (CLEAR_FLAG PD_FLAG_INSTALL_MODE pd) = held pd" "held (CLEAR_FLAG PD_FLAG_SC_USE_SCBKD pd) = held pd"
proof -
  show "held (sc_deactivate pd) = held pd" by (rule held_heard [OF heard_deactivate])
qed (simp_all add: pd_set_online_def pd_set_offline_def sc_activate_def, simp_all add: held_def flag_defs,
      simp_all add: SET_FLAG_def CLEAR_FLAG_def)

lemma held_notify [simp]:
  fixes pd :: "('w, 'z) osdp_dev_scheme"
  shows "held (pd_deliver_notification n pd) = held pd" "held (pd_notify_pd_status b pd) = held pd" "held (pd_notify_sc_status pd) = held pd"
    "held (pd_sc_deactivate pd) = held pd" "held (osdp_sc_setup pd) = held pd" "held (pd_complete_event e st pd) = held pd"
  by (simp_all add: pd_deliver_notification_def pd_notify_pd_status_def pd_notify_sc_status_def pd_sc_deactivate_def
      osdp_sc_setup_def osdp_fill_random_def pd_complete_event_def Let_def split: option.split)

lemma held_callback: "held (snd (snd (do_command_callback cmd pd))) = held pd"
  by (simp add: do_command_callback_def pd_call_app_def Let_def case_prod_beta split: option.split)

lemma held_init: "held (snd (snd (osdp_phy_packet_init pd buf n))) = held pd"
  by (rule held_view) (metis sec_packet_init prod.collapse)

lemma held_finalize: "held (snd (snd (osdp_phy_finalize_packet crc pd buf l n))) = held pd"
  by (rule held_view) (metis view_finalize prod.collapse)

lemma held_prebuild: "held (snd (pd_prebuild_status_reply crc r s pd)) = held pd"
  by (simp add: pd_prebuild_status_reply_def Let_def case_prod_beta held_init held_finalize split: option.split)

subsection \<open>The engines\<close>

lemma kept_outer:
  fixes x y :: "('w, 'z) osdp_dev_scheme"
  assumes "outer y = outer x" "piv_fine (pd_piv x) \<longrightarrow> piv_fine (pd_piv y)"
    "bio_fine (is_bioreadr_multipart x) (pd_bio x) \<longrightarrow> bio_fine (is_bioreadr_multipart x) (pd_bio y)"
  shows "kept x y"
proof -
  have "is_bioreadr_multipart y = is_bioreadr_multipart x" using outerD(3) [OF assms(1)] by (simp add: flag_defs ISSET_FLAG_def)
  then show ?thesis using outerD(34,35) [OF assms(1)] assms(2,3) by (simp add: kept_def events_held_def engines_ok_def)
qed

text \<open>What one engine does, the others do not see.\<close>

lemma file_leaves [simp]:
  "pd_piv (file_transition_done oc pd) = pd_piv pd" "pd_bio (file_transition_done oc pd) = pd_bio pd"
  "pd_piv (osdp_file_tx_abort pd) = pd_piv pd" "pd_bio (osdp_file_tx_abort pd) = pd_bio pd"
  "pd_piv (snd (file_rx_open pd f buf n)) = pd_piv pd" "pd_bio (snd (file_rx_open pd f buf n)) = pd_bio pd"
  "pd_piv (snd (file_rx_consume pd f buf n b)) = pd_piv pd" "pd_bio (snd (file_rx_consume pd f buf n b)) = pd_bio pd"
  "pd_piv (snd (snd (file_stat_eof pd f))) = pd_piv pd" "pd_bio (snd (snd (file_stat_eof pd f))) = pd_bio pd"
proof -
  have m: "pd_piv (make_request r q) = pd_piv q" "pd_bio (make_request r q) = pd_bio q" for r and q :: "('a, 'b) osdp_dev_scheme"
    by (simp_all add: make_request_def)
  have d: "pd_piv (file_transition_done oc q) = pd_piv q" "pd_bio (file_transition_done oc q) = pd_bio q" for oc and q :: "('a, 'b) osdp_dev_scheme"
    by (simp_all add: file_transition_done_def m Let_def case_prod_beta split: option.split)
  show "pd_piv (file_transition_done oc pd) = pd_piv pd" "pd_bio (file_transition_done oc pd) = pd_bio pd"
    "pd_piv (osdp_file_tx_abort pd) = pd_piv pd" "pd_bio (osdp_file_tx_abort pd) = pd_bio pd"
    by (simp_all add: d osdp_file_tx_abort_def Let_def split: option.split)
  show "pd_piv (snd (file_rx_open pd f buf n)) = pd_piv pd" "pd_bio (snd (file_rx_open pd f buf n)) = pd_bio pd"
    by (simp_all add: file_rx_open_def Let_def case_prod_beta split: option.split)
  show "pd_piv (snd (file_rx_consume pd f buf n b)) = pd_piv pd" "pd_bio (snd (file_rx_consume pd f buf n b)) = pd_bio pd"
    by (simp_all add: file_rx_consume_def d Let_def case_prod_beta)
  show "pd_piv (snd (snd (file_stat_eof pd f))) = pd_piv pd" "pd_bio (snd (snd (file_stat_eof pd f))) = pd_bio pd"
    by (simp_all add: file_stat_eof_def d Let_def case_prod_beta)
qed

lemma file_ops_leave:
  "pd_piv (snd (osdp_file_cmd_tx_decode pd buf n)) = pd_piv pd" "pd_bio (snd (osdp_file_cmd_tx_decode pd buf n)) = pd_bio pd"
  "pd_piv (snd (snd (osdp_file_cmd_stat_build pd buf n))) = pd_piv pd" "pd_bio (snd (snd (osdp_file_cmd_stat_build pd buf n))) = pd_bio pd"
  by (simp_all add: osdp_file_cmd_tx_decode_def osdp_file_cmd_stat_build_def Let_def case_prod_beta split: option.split)

lemma piv_phases [simp]:
  "piv_phase (piv_op_reset p) = OSDP_PIV_IDLE" "piv_phase (fst (piv_emit_start p)) = piv_phase p"
  "piv_wire_reply (fst (piv_emit_start p)) = piv_wire_reply p" "piv_phase (piv_rx mp p) = piv_phase p"
  "piv_wire_reply (piv_rx mp p) = piv_wire_reply p" "pd_bio (piv_put p ev pd) = pd_bio pd"
  by (simp_all add: piv_op_reset_def piv_emit_start_def piv_rx_def piv_put_def Let_def case_prod_beta)

lemma piv_abort_fine [simp]: "piv_fine (pd_piv pd) \<Longrightarrow> piv_fine (pd_piv (osdp_piv_abort pd))" "pd_bio (osdp_piv_abort pd) = pd_bio pd"
  by (simp_all add: osdp_piv_abort_def piv_fine_def Let_def case_prod_beta split: option.split)

lemma family_reply: "family_by_wire_cmd c = Some f \<Longrightarrow> fam_wire_reply f \<in> {REPLY_PIVDATAR, REPLY_GENAUTHR, REPLY_CRAUTHR}"
  by (auto simp: family_by_wire_cmd_def piv_families_def split: if_splits)

lemma piv_fine_None [simp]: "piv_fine None" by (simp add: piv_fine_def)

lemma piv_get_fine: "piv_fine (pd_piv pd) \<Longrightarrow> piv_fine (Some (piv_get pd))"
  by (auto simp: piv_fine_def piv_get_def piv_zero_def split: option.splits)

lemma piv_leaves [simp]:
  "pd_bio (snd (osdp_piv_pd_open pd c i)) = pd_bio pd" "pd_bio (snd (snd (osdp_piv_pd_cmd_frag pd c buf n))) = pd_bio pd"
  "pd_bio (snd (snd (osdp_piv_pd_reply_build pd e buf n))) = pd_bio pd"
proof -
  have o: "pd_bio (snd (osdp_piv_pd_open pd d i)) = pd_bio pd" for d i
    by (simp add: osdp_piv_pd_open_def Let_def split: option.split)
  then show "pd_bio (snd (osdp_piv_pd_open pd c i)) = pd_bio pd" "pd_bio (snd (snd (osdp_piv_pd_cmd_frag pd c buf n))) = pd_bio pd"
    "pd_bio (snd (snd (osdp_piv_pd_reply_build pd e buf n))) = pd_bio pd"
    by (simp_all add: osdp_piv_pd_cmd_frag_def osdp_piv_pd_reply_build_def Let_def case_prod_beta split: option.split)
qed

lemma piv_open_fine:
  assumes "piv_fine (pd_piv pd)"
  shows "piv_fine (pd_piv (snd (osdp_piv_pd_open pd c i)))"
  using piv_get_fine [OF assms] family_reply [of c]
  by (auto simp: osdp_piv_pd_open_def Let_def split: option.split) (simp_all add: piv_fine_def piv_op_setup_def)

lemma piv_frag_fine:
  assumes "piv_fine (pd_piv pd)"
  shows "piv_fine (pd_piv (snd (snd (osdp_piv_pd_cmd_frag pd c buf n))))"
proof -
  have g: "piv_fine (Some (piv_get q))" if "piv_fine (pd_piv q)" for q :: "('a, 'b) osdp_dev_scheme" by (rule piv_get_fine [OF that])
  have u: "piv_fine (Some (p\<lparr>piv_mp := m\<rparr>)) = piv_fine (Some p)" "piv_fine (Some (p\<lparr>piv_tstamp := t\<rparr>)) = piv_fine (Some p)"
    "piv_fine (Some (piv_rx m p)) = piv_fine (Some p)" "piv_fine (Some (fst (piv_emit_start p))) = piv_fine (Some p)"
    "piv_fine (Some (p\<lparr>piv_algorithm := a\<rparr>)) = piv_fine (Some p)" "piv_fine (Some (p\<lparr>piv_key := k\<rparr>)) = piv_fine (Some p)" for p m t a k
    by (simp_all add: piv_fine_def)
  have ab: "piv_fine (pd_piv (osdp_piv_abort (q\<lparr>pd_piv := Some p\<rparr>)))" if "piv_fine (Some p)" for q :: "('a, 'b) osdp_dev_scheme" and p
    by (rule piv_abort_fine) (simp add: that)
  show ?thesis
  proof (cases "osdp_mp_hdr_read OSDP_MP_W16 buf n")
    case (Some h)
    obtain tot off dlen r where h: "h = (tot, off, dlen, r)" by (metis prod_cases4)
    define opened where "opened =
      (if off = 0
        then if tot = 0 \<or> unat tot > OSDP_PIV_DATA_MAX_LEN then (False, pd)
             else
             let (r, pd) = osdp_piv_pd_open pd c 0
             in if r \<noteq> 0 then (False, pd)
                else
                let p = piv_get pd;
                    mp = osdp_mp_rx_init
                           (osdp_mp_bind_buffer (piv_mp p) (piv_data p) (of_nat (length (piv_data p))))
                           OSDP_MP_W16 tot;
                    (p, ev) = piv_emit_start (p\<lparr>piv_mp := mp\<rparr>)
                in (True, piv_put p ev pd)
        else (case pd_piv pd of
                None \<Rightarrow> (False, pd)
              | Some p \<Rightarrow> (\<not> (piv_phase p \<noteq> OSDP_PIV_CMD \<or> piv_wire_cmd p \<noteq> c \<or>
                             \<not> osdp_mp_is_active (piv_mp p)), pd)))"
    have "pd_piv pd = Some p \<Longrightarrow> piv_fine (Some p)" for p using assms by simp
    then have o: "piv_fine (pd_piv (snd opened))"
      using assms g [OF piv_open_fine [OF assms]] piv_open_fine [OF assms]
      by (simp add: opened_def Let_def case_prod_beta u split: option.split)
    obtain ok q where q: "opened = (ok, q)" by (rule prod.exhaust)
    have fq: "piv_fine (pd_piv q)" "piv_fine (Some (piv_get q))" using o g [of q] by (simp_all add: q)
    show ?thesis using fq
      by (simp add: osdp_piv_pd_cmd_frag_def Some h opened_def [symmetric] q, simp add: Let_def case_prod_beta u ab)
  qed (simp add: osdp_piv_pd_cmd_frag_def assms)
qed

lemma piv_reply_fine:
  assumes "piv_fine (pd_piv pd)"
  shows "piv_fine (pd_piv (snd (snd (osdp_piv_pd_reply_build pd e buf n))))"
proof (cases "pd_piv pd")
  case (Some p)
  define start where "start =
      (case e of
          Some r \<Rightarrow>
            if piv_phase p \<noteq> OSDP_PIV_CMD then None
            else if piv_reply_length r = 0 \<or> unat (piv_reply_length r) > length (piv_data p) then None
            else
            let data = write_at 0 (take (unat (piv_reply_length r)) (piv_reply_data r)) (piv_data p);
                mp = osdp_mp_bind_buffer (piv_mp p) data (ucast (piv_reply_length r));
                mp = (case osdp_mp_tx_init mp (ucast (piv_reply_length r)) OSDP_MP_W16 of
                        Some mp \<Rightarrow> mp | None \<Rightarrow> mp);
                (mp, ev) = osdp_mp_emit_start mp
            in Some (p\<lparr>piv_data := data, piv_mp := mp, piv_phase := OSDP_PIV_REPLY\<rparr>, ev)
        | None \<Rightarrow> if \<not> osdp_piv_pd_reply_pending pd then None else Some (p, []))"
  have f: "piv_fine (Some q)" if "start = Some (q, ev)" for q ev
    using that assms Some by (auto simp: start_def piv_fine_def Let_def case_prod_beta split: option.splits if_splits)
  have ab: "piv_fine (pd_piv (osdp_piv_abort (q\<lparr>pd_piv := Some p\<rparr>)))" if "piv_fine (Some p)" for q :: "('a, 'b) osdp_dev_scheme" and p
    by (rule piv_abort_fine) (simp add: that)
  have u: "piv_fine (Some (q\<lparr>piv_mp := m\<rparr>)) = piv_fine (Some q)" "piv_fine (Some (q\<lparr>piv_tstamp := t\<rparr>)) = piv_fine (Some q)"
    "piv_fine (Some (piv_op_reset q))" for q m t by (simp_all add: piv_fine_def)
  show ?thesis
  proof (cases start)
    case None
    then show ?thesis using assms Some by (simp add: osdp_piv_pd_reply_build_def start_def [symmetric])
  next
    case s: (Some qe)
    obtain q ev where qe: "qe = (q, ev)" by (rule prod.exhaust)
    then show ?thesis using f [of q ev] s
      by (simp add: osdp_piv_pd_reply_build_def Some start_def [symmetric] Let_def case_prod_beta ab u)
  qed
qed (use assms in \<open>simp add: osdp_piv_pd_reply_build_def\<close>)

lemma bio_phases [simp]:
  "bio_phase (bio_op_reset b) = OSDP_BIO_IDLE" "bio_phase (fst (bio_emit_start b)) = bio_phase b"
  "pd_bio (bio_put b ev pd) = Some b" "pd_piv (bio_put b ev pd) = pd_piv pd"
  by (simp_all add: bio_op_reset_def bio_emit_start_def bio_put_def Let_def case_prod_beta)

lemma bio_abort_fine [simp]: "bio_fine mp (pd_bio pd) \<Longrightarrow> bio_fine mp (pd_bio (osdp_bio_abort pd))" "pd_piv (osdp_bio_abort pd) = pd_piv pd"
  by (simp_all add: osdp_bio_abort_def bio_fine_def Let_def case_prod_beta split: option.split)

lemma bio_fine_True [simp]: "bio_fine True o'" by (simp add: bio_fine_def)

lemma bio_reply_piv: "pd_piv (snd (snd (osdp_bio_pd_reply_build pd e buf n))) = pd_piv pd"
  by (simp add: osdp_bio_pd_reply_build_def bio_pd_build_def bio_op_open_def Let_def case_prod_beta split: option.split)

lemma kept_engines:
  "kept pd (snd (osdp_file_cmd_tx_decode pd buf n))" "kept pd (snd (osdp_piv_pd_open pd c i))"
  "kept pd (snd (snd (osdp_piv_pd_cmd_frag pd c buf n)))" "kept pd (osdp_piv_abort pd)" "kept pd (osdp_engines_abort pd)"
  by (rule kept_outer; auto simp: outer_file_tx_decode outer_piv_open outer_piv_frag file_ops_leave osdp_engines_abort_def
      piv_open_fine piv_frag_fine)+

lemma kept_replies:
  "kept pd (snd (snd (osdp_piv_pd_reply_build pd e1 buf n)))" "kept pd (snd (snd (osdp_file_cmd_stat_build pd buf n)))"
  "is_bioreadr_multipart pd \<Longrightarrow> kept pd (snd (snd (osdp_bio_pd_reply_build pd e2 buf n)))"
  by (rule kept_outer; auto simp: outer_piv_reply outer_file_stat_build outer_bio_reply file_ops_leave piv_reply_fine bio_reply_piv)+

interpretation keep: handler_relation "kept :: ('w, 'z) osdp_dev_scheme \<Rightarrow> ('w, 'z) osdp_dev_scheme \<Rightarrow> bool"
proof
  fix x y z :: "('w, 'z) osdp_dev_scheme" and ev es r
  show "kept x y \<Longrightarrow> kept y z \<Longrightarrow> kept x z" by (rule kept_trans)
  assume "pd_event_queue x = ev # es"
  then show "kept x (x\<lparr>pd_event_queue := es, pd_reply_id := r, pd_active_event := Some ev\<rparr>)"
    by (auto simp: kept_def events_held_def engines_ok_def flag_defs ISSET_FLAG_def)
qed (simp_all add: kept_engines kept_held held_callback held_prebuild)

subsection \<open>A command is decoded\<close>

lemma sound_keeps: "pd_sound x \<Longrightarrow> kept x y \<Longrightarrow> pd_sound y"
  by (auto simp: pd_sound_def kept_def)

lemma events_keep: "events_ok x \<Longrightarrow> kept x y \<Longrightarrow> events_ok y"
  by (auto simp: events_ok_def kept_def)

lemma ready_keeps:
  assumes "pd_ready x" "kept x y" "reply_known (pd_reply_id y)"
  shows "pd_ready y"
  using assms sound_keeps [of x y] events_keep [of x y] by (simp add: pd_ready_def)

lemma engines_answer: "engines_ok pd \<Longrightarrow> piv_answers pd"
  by (auto simp: engines_ok_def piv_fine_def piv_answers_def osdp_piv_pd_reply_pending_def osdp_piv_pd_reply_id_def split: option.splits)

lemma known_reply: "reply_known REPLY_NAK" "r \<in> answers c \<Longrightarrow> reply_known r"
proof -
  show "reply_known REPLY_NAK" by (simp add: reply_known_def)
  have "\<forall>r \<in> set poll_replies \<union> set (expected_replies c) \<union> {REPLY_ACK, REPLY_NAK, REPLY_PDID, REPLY_PDCAP, REPLY_CCRYPT, REPLY_RMAC_I,
      REPLY_MFGREP, REPLY_MFGSTATR, REPLY_MFGERRR}. reply_known r" for c
    by (auto simp: poll_replies_def expected_replies_def reply_known_def reply_backing_event_type_def)
  then show "r \<in> answers c \<Longrightarrow> reply_known r" by (auto simp: answers_def split: if_splits)
qed

lemma decode_returns:
  assumes "events_ok pd"
  shows "\<exists>r p. pd_decode_command crc pd buf len = Some (r, p)"
proof -
  define q where "q = (pd_nak OSDP_PD_NAK_RECORD pd)\<lparr>pd_cmd_id := uint (buf ! 0)\<rparr>"
  have e: "pd_event_queue q = pd_event_queue pd" by (simp add: q_def pd_nak_def set_nak_code_def)
  have "pd_decode_poll q n \<noteq> None" for n
    using assms by (auto simp: pd_decode_poll_def e events_ok_def events_held_def event_ok_def split: list.split option.split)
  then have "pd_command_body crc q b n \<noteq> None" for b n
    unfolding pd_command_body_def Let_def [of "pd_cmd_id q"] by simp
  then obtain r p where "pd_command_body crc q (drop 1 buf) (len - 1) = Some (r, p)" by fast
  then show ?thesis
    unfolding pd_decode_command_def Let_def q_def [symmetric] by simp
qed

lemma decode_known:
  assumes "pd_sound pd" "pd_decode_command crc pd buf len = Some (r, p)"
  shows "pd_sound p" "reply_known (pd_reply_id p)"
proof -
  have "piv_answers pd" using assms(1) by (simp add: pd_sound_def engines_answer)
  then show "reply_known (pd_reply_id p)" using decode_answered(2) [OF _ assms(2)] known_reply(2) by blast
  show "pd_sound p" by (rule sound_keeps [OF assms(1) keep.decode [OF assms(2)]])
qed

lemma kept_heard: "heard x y \<Longrightarrow> kept x y"
  by (rule kept_held [OF held_heard])

text \<open>
  Receiving a command keeps what the PD holds and, once a reply code is known, keeps one that is;
  it gives one to a pass that will answer, unless the packet is one with a forged length.
\<close>

lemma receive_kept:
  assumes "pd_sound pd" "pd_receive_and_process_command crc pd = Some (r, p)"
  shows "kept pd p" "reply_known (pd_reply_id pd) \<Longrightarrow> reply_known (pd_reply_id p)"
    "r \<in> {OSDP_PD_ERR_NONE, OSDP_PD_ERR_REPLY} \<Longrightarrow> \<not> forged_length crc pd \<Longrightarrow> reply_known (pd_reply_id p)"
proof -
  define q where "q = pd\<lparr>pd_reply_prebuilt := False\<rparr>"
  have q: "kept pd q" "pd_reply_id q = pd_reply_id pd" by (rule kept_held) (simp_all add: q_def)
  obtain err x where c: "osdp_phy_check_packet crc q = (err, x)" by (rule prod.exhaust)
  have hx: "heard q x" using heard_osdp_check [of q crc] c by simp
  have x: "kept pd x" by (rule kept_trans [OF q(1) kept_heard [OF hx]])
  have rx: "pd_reply_id x = pd_reply_id pd \<or> pd_reply_id x = REPLY_NAK" using hx q(2) by (simp add: heard_def)
  have z: "kept pd (osdp_phy_state_reset False x)" "pd_reply_id (osdp_phy_state_reset False x) = pd_reply_id x"
    by (rule kept_trans [OF x kept_held], simp_all add: osdp_phy_state_reset_def Let_def)
  have n: "err = OSDP_ERR_PKT_NACK \<Longrightarrow> pd_reply_id x = REPLY_NAK" using check_nack c by blast
  note r = assms(2) [unfolded pd_receive_and_process_command_def Let_def, folded q_def, unfolded c prod.case]
  have "kept pd p \<and> (reply_known (pd_reply_id pd) \<longrightarrow> reply_known (pd_reply_id p)) \<and>
    (r \<in> {OSDP_PD_ERR_NONE, OSDP_PD_ERR_REPLY} \<longrightarrow> \<not> forged_length crc pd \<longrightarrow> reply_known (pd_reply_id p))"
  proof (cases "err = OSDP_ERR_PKT_NONE")
    case True
    then obtain l off y where d: "osdp_phy_decode_packet x = Some (l, off, y)" using r by (auto split: option.splits)
    have y: "kept pd y" by (rule kept_trans [OF x kept_heard [OF heard_decode_packet [OF d]]])
    have ry: "pd_reply_id y = pd_reply_id pd \<or> pd_reply_id y = REPLY_NAK"
      using heard_decode_packet [OF d] rx by (auto simp: heard_def)
    have f: "forged_length crc pd \<longleftrightarrow> l = OSDP_ERR_PKT_NACK \<and> pd_reply_id y \<noteq> REPLY_NAK"
      by (simp add: forged_length_def q_def [symmetric] c d True)
    show ?thesis
    proof (cases "l \<le> 0")
      case le: True
      then have "p = y" "r = (if l = OSDP_ERR_PKT_NACK then OSDP_PD_ERR_REPLY else OSDP_PD_ERR_GENERIC)"
        using r True by (simp_all add: d)
      then show ?thesis using y ry f known_reply(1) by (auto split: if_splits)
    next
      case False
      then have k: "pd_decode_command crc y (drop off (packet_bytes y)) l = Some (r, p)" using r True by (simp add: d)
      show ?thesis
        using decode_known [OF sound_keeps [OF assms(1) y] k] kept_trans [OF y keep.decode [OF k]] by simp
    qed
  next
    case False
    then show ?thesis using r x z n rx known_reply(1) by (auto split: if_splits)
  qed
  then show "kept pd p" "reply_known (pd_reply_id pd) \<Longrightarrow> reply_known (pd_reply_id p)"
    "r \<in> {OSDP_PD_ERR_NONE, OSDP_PD_ERR_REPLY} \<Longrightarrow> \<not> forged_length crc pd \<Longrightarrow> reply_known (pd_reply_id p)" by auto
qed

text \<open>The next packet runs the decryption over the end of the memory.\<close>

definition pd_runs_away :: "crc16 \<Rightarrow> 'z osdp_pd_scheme \<Rightarrow> bool" where
  "pd_runs_away crc pd \<longleftrightarrow> osdp_rx_runs_away crc (pd\<lparr>pd_reply_prebuilt := False\<rparr>)"

lemma receive_returns:
  assumes "events_ok pd" "\<not> pd_runs_away crc pd"
  shows "\<exists>r p. pd_receive_and_process_command crc pd = Some (r, p)"
proof -
  define q where "q = pd\<lparr>pd_reply_prebuilt := False\<rparr>"
  have q: "kept pd q" by (rule kept_held) (simp add: q_def)
  obtain err x where c: "osdp_phy_check_packet crc q = (err, x)" by (rule prod.exhaust)
  have x: "kept pd x" using kept_trans [OF q kept_heard] heard_osdp_check [of q crc] c by (metis snd_conv)
  show ?thesis
  proof (cases "err = OSDP_ERR_PKT_NONE")
    case True
    then have "osdp_phy_decode_packet x \<noteq> None"
      using assms(2) by (simp add: decode_packet_None pd_runs_away_def osdp_rx_runs_away_def q_def [symmetric] c)
    then obtain l off y where d: "osdp_phy_decode_packet x = Some (l, off, y)" by (metis option.exhaust prod_cases3)
    have "events_ok y" by (rule events_keep [OF assms(1) kept_trans [OF x kept_heard [OF heard_decode_packet [OF d]]]])
    then obtain r p where "pd_decode_command crc y (drop off (packet_bytes y)) l = Some (r, p)" using decode_returns by blast
    then show ?thesis using True by (simp add: pd_receive_and_process_command_def Let_def q_def [symmetric] c d)
  next
    case False
    then show ?thesis by (simp add: pd_receive_and_process_command_def Let_def q_def [symmetric] c)
  qed
qed

subsection \<open>A reply is built and sent\<close>

lemma event_payload_returns:
  assumes "event_ok ev" "osdp_event_type ev \<in> {1, 2, 3, 4, 6, 7, 8, 9}"
  shows "pd_event_payload pd ev room \<noteq> None"
  using assms by (cases ev) (auto simp: keypad_payload_def event_ok_def)

lemma reply_body_returns:
  fixes pd :: "('b, 'a) osdp_dev_scheme"
  assumes "pd_ready pd" "pd_reply_backed pd"
  shows "pd_reply_body pd smb off buf room \<noteq> None"
proof -
  define r where "r = pd_reply_id pd"
  have ex: "\<exists>a b c. t = (a, b, c)" for t :: "int option \<times> bytes \<times> ('b, 'a) osdp_dev_scheme" by (metis prod_cases3)
  have known: "reply_known r" using assms(1) by (simp add: pd_ready_def r_def)
  consider "0 > reply_backing_event_type r" | "r = REPLY_BIOREADR" "is_bioreadr_multipart pd"
    | ev where "0 \<le> reply_backing_event_type r" "pd_active_event pd = Some ev" "osdp_event_type ev = reply_backing_event_type r"
  proof -
    have "is_bioreadr_multipart pd" if "osdp_bio_pd_reply_pending pd"
      using assms(1) that by (auto simp: pd_ready_def pd_sound_def engines_ok_def bio_fine_def osdp_bio_pd_reply_pending_def split: option.splits)
    moreover have "osdp_piv_pd_reply_id pd \<in> {REPLY_PIVDATAR, REPLY_GENAUTHR, REPLY_CRAUTHR}" if "osdp_piv_pd_reply_pending pd"
      using assms(1) that engines_answer by (auto simp: pd_ready_def pd_sound_def piv_answers_def)
    ultimately show thesis
      using assms(2) that by (auto simp: pd_reply_backed_def Let_def r_def [symmetric] pd_engine_reply_pending_def
          reply_backing_event_type_def split: option.splits if_splits)
  qed
  then show ?thesis
  proof cases
    case 1
    then show ?thesis using known unfolding pd_reply_body_def Let_def [of "pd_reply_id pd"] r_def [symmetric] reply_known_def
      by (auto simp: Let_def case_prod_beta ex)
  next
    case 2
    then show ?thesis unfolding pd_reply_body_def Let_def [of "pd_reply_id pd"] r_def [symmetric]
      by (auto simp: Let_def case_prod_beta ex)
  next
    case (3 ev)
    have ok: "event_ok ev" using assms(1) 3(2) by (auto simp: pd_ready_def events_ok_def events_held_def)
    have "osdp_event_type ev \<in> {1, 2, 3, 4, 6, 7, 8, 9}"
      using 3(1,3) by (auto simp: reply_backing_event_type_def split: if_splits)
    then have "pd_event_payload pd ev room \<noteq> None" by (rule event_payload_returns [OF ok])
    then show ?thesis using 3(1,2) unfolding pd_reply_body_def Let_def [of "pd_reply_id pd"] r_def [symmetric]
      by (auto simp: Let_def case_prod_beta ex split: option.split)
  qed
qed

text \<open>\<open>lasts x y\<close>: what the rest of a pass does to a PD that is ready.\<close>

definition lasts :: "('w, 'z) osdp_dev_scheme \<Rightarrow> ('w, 'z) osdp_dev_scheme \<Rightarrow> bool" where
  "lasts x y \<longleftrightarrow> kept x y \<and> (pd_reply_id y = pd_reply_id x \<or> pd_reply_id y = REPLY_NAK)"

lemma lasts_trans: "lasts x y \<Longrightarrow> lasts y z \<Longrightarrow> lasts x z"
  using kept_trans [of x y z] by (auto simp: lasts_def)

lemma lasts_ready: "pd_ready x \<Longrightarrow> lasts x y \<Longrightarrow> pd_ready y"
  using ready_keeps [of x y] known_reply(1) by (auto simp: lasts_def pd_ready_def)

lemma lasts_held:
  fixes x y :: "('w, 'z) osdp_dev_scheme"
  shows "held y = held x \<Longrightarrow> pd_reply_id y = pd_reply_id x \<Longrightarrow> lasts x y"
  by (simp add: lasts_def kept_held)

lemma kept_settle: "kept pd (pd_settle_event st pd)" "kept pd ((pd_complete_event e st pd)\<lparr>pd_active_event := None\<rparr>)"
proof -
  have k: "kept q (q\<lparr>pd_active_event := None\<rparr>)" for q :: "('a, 'b) osdp_dev_scheme"
    by (simp add: kept_def events_held_def engines_ok_def flag_defs ISSET_FLAG_def)
  have c: "kept pd (pd_complete_event e' st pd)" for e' by (rule kept_held) simp
  show "kept pd ((pd_complete_event e st pd)\<lparr>pd_active_event := None\<rparr>)" by (rule kept_trans [OF c k])
  show "kept pd (pd_settle_event st pd)" using kept_trans [OF c k] by (simp add: pd_settle_event_def)
qed

lemma kept_failed: "kept pd (snd (snd (pd_reply_failed pd off buf room)))"
proof -
  have m: "kept pd (osdp_metrics_report e pd)" for e by (rule kept_held) simp
  show ?thesis using m kept_trans [OF m kept_settle(2)] by (simp add: pd_reply_failed_def Let_def)
qed

lemma kept_handshake: "kept pd (snd (snd (pd_build_ccrypt pd smb off buf room)))" "kept pd (snd (snd (pd_build_rmac_i pd smb off buf room)))"
  by (rule kept_held, simp add: pd_build_ccrypt_def pd_build_rmac_i_def osdp_compute_pd_cryptogram_def osdp_compute_session_keys_def
      osdp_compute_rmac_i_def osdp_fill_random_def Let_def case_prod_beta split: option.split)+

lemma kept_body: "pred_option (\<lambda>r. kept pd (snd (snd r))) (pd_reply_body pd smb off buf room)"
proof -
  have s: "kept pd p" if "held p = held pd" for p by (rule kept_held [OF that])
  show ?thesis
    unfolding pd_reply_body_def Let_def [of "pd_reply_id pd"]
    by (rule pred_let, intro pred_if)
      (simp_all add: s kept_handshake kept_replies put_reply_engine_def case_prod_beta Let_def split: option.split)
qed

lemma build_reply_kept:
  shows "pd_build_reply pd buf n = Some (len, b, p) \<Longrightarrow> kept pd p"
    and "pd_ready pd \<Longrightarrow> pd_build_reply pd buf n \<noteq> None"
proof -
  define off where "off = osdp_phy_packet_get_data_offset pd buf"
  define smb where "smb = osdp_phy_packet_get_smb pd buf"
  define room where "room = n - int off"
  define buf1 where "buf1 = buf[off := int_byte (pd_reply_id pd)]"
  define body where "body = (if pd_reply_backed pd then pd_reply_body pd smb off buf1 (room - 1) else Some (None, buf1, pd))"
  have body: "pred_option (\<lambda>r. kept pd (snd (snd r))) body" by (simp add: body_def kept_body)
  have e: "pd_build_reply pd buf n = (if room \<le> 0 then Some (OSDP_PD_ERR_GENERIC, buf, pd)
      else case body of
              None \<Rightarrow> None
            | Some (r, buf, pd) \<Rightarrow>
                let (len, buf, pd) = (case r of Some len \<Rightarrow> (len, buf, pd) | None \<Rightarrow> pd_reply_failed pd off buf (room - 1))
                in Some (if len < 0 then (len, buf, pd)
                         else (len, put_reply_session_block len smb pd buf, pd)))"
    unfolding pd_build_reply_def Let_def off_def [symmetric] smb_def [symmetric] room_def [symmetric] buf1_def [symmetric] body_def ..
  show "kept pd p" if a: "pd_build_reply pd buf n = Some (len, b, p)"
  proof (cases "room \<le> 0")
    case True
    then show ?thesis using a e by simp
  next
    case False
    then obtain r b1 q where q: "body = Some (r, b1, q)" using a False unfolding e by (cases body) auto
    have k: "kept pd q" using body by (simp add: q)
    have f: "kept pd (snd (snd (pd_reply_failed q o' b' r')))" for o' b' r' by (rule kept_trans [OF k kept_failed])
    show ?thesis using a False k f [of off b1 "room - 1"] unfolding e by (auto simp: q case_prod_beta Let_def split: option.splits if_splits)
  qed
  show "pd_build_reply pd buf n \<noteq> None" if "pd_ready pd"
  proof -
    have "body \<noteq> None" using reply_body_returns [OF that] by (auto simp: body_def)
    moreover have "\<exists>a b c. t = (a, b, c)" for t :: "int \<times> bytes \<times> ('a, 'b) osdp_dev_scheme" by (metis prod_cases3)
    ultimately show ?thesis unfolding e Let_def by (auto simp: case_prod_beta split: option.split)
  qed
qed

lemma build_packet_kept:
  shows "pd_build_reply_packet crc pd = Some (ret, p) \<Longrightarrow> lasts pd p"
    and "pd_ready pd \<Longrightarrow> pd_build_reply_packet crc pd \<noteq> None"
proof -
  define q0 where "q0 = pd\<lparr>pd_packet_buf := TX_BUF\<rparr>"
  obtain r1 b1 p1 where i: "osdp_phy_packet_init q0 (packet_bytes q0) (get_tx_buf_size pd) = (r1, b1, p1)"
    by (metis prod_cases3)
  have h: "held p1 = held pd" "pd_reply_id p1 = pd_reply_id pd"
    using held_init [of q0] reply_init [of q0] i by (simp_all add: q0_def) (metis held_update(10) i held_init snd_conv q0_def, metis i reply_init snd_conv)
  define q1 where "q1 = p1\<lparr>pd_packet_buf_len := nat r1\<rparr>"
  have k: "kept pd q1" by (rule kept_held) (simp add: q1_def h)
  have e: "pd_build_reply_packet crc pd =
    (if r1 < 0 then Some (OSDP_PD_ERR_GENERIC, put_packet_bytes b1 p1)
     else case pd_build_reply q1 b1 (get_tx_buf_size pd) of
              None \<Rightarrow> None
            | Some (ret, buf, pd') \<Rightarrow>
                if ret \<le> 0 then Some (OSDP_PD_ERR_GENERIC, put_packet_bytes buf pd')
                else
                let pd' = pd'\<lparr>pd_packet_buf_len := pd_packet_buf_len pd' + nat ret\<rparr>;
                    (ret, buf, pd') = osdp_phy_finalize_packet crc pd' buf (pd_packet_buf_len pd') (get_tx_buf_size pd)
                in if ret < 0 then Some (OSDP_PD_ERR_GENERIC, put_packet_bytes buf pd')
                   else Some (OSDP_PD_ERR_NONE,
                          (put_packet_bytes buf pd')\<lparr>pd_packet_buf_len := nat ret, pd_reply_prebuilt := True\<rparr>))"
    unfolding pd_build_reply_packet_def Let_def q0_def [symmetric] i prod.case q1_def [symmetric] ..
  show "lasts pd p" if a: "pd_build_reply_packet crc pd = Some (ret, p)"
  proof -
    have "kept pd p"
    proof (cases "r1 < 0")
      case True
      then show ?thesis using a h by (auto simp: e intro!: kept_held)
    next
      case False
      then obtain r2 b2 p2 where b: "pd_build_reply q1 b1 (get_tx_buf_size pd) = Some (r2, b2, p2)"
        using a unfolding e by (cases "pd_build_reply q1 b1 (get_tx_buf_size pd)") auto
      note k2 = kept_trans [OF k build_reply_kept(1) [OF b]]
      have f: "kept pd (put_packet_bytes x (snd (snd (osdp_phy_finalize_packet crc (p2\<lparr>pd_packet_buf_len := l\<rparr>) b2 l' n))))"
        "kept pd ((put_packet_bytes x (snd (snd (osdp_phy_finalize_packet crc (p2\<lparr>pd_packet_buf_len := l\<rparr>) b2 l' n))))
                      \<lparr>pd_packet_buf_len := l2, pd_reply_prebuilt := True\<rparr>)"
        "kept pd (put_packet_bytes x p2)" for x l l' n l2
        by (rule kept_trans [OF k2 kept_held], simp add: held_finalize)+
      show ?thesis using a False f unfolding e b option.case by (auto simp: case_prod_beta Let_def split: if_splits)
    qed
    then show ?thesis using built_packet [OF a] by (simp add: lasts_def built_def)
  qed
  show "pd_build_reply_packet crc pd \<noteq> None" if "pd_ready pd"
  proof -
    have "pd_ready q1" by (rule ready_keeps [OF that k]) (use that in \<open>simp add: q1_def h pd_ready_def\<close>)
    then have "pd_build_reply q1 b1 (get_tx_buf_size pd) \<noteq> None" by (rule build_reply_kept(2))
    then show ?thesis unfolding e by (auto simp: case_prod_beta Let_def)
  qed
qed

lemma send_lasts: "lasts pd (snd (pd_send_reply pd))"
proof -
  have v: "held (snd (osdp_channel_send q b n)) = held q" for q :: "('a, 'b) osdp_dev_scheme" and b n by (rule held_view) simp
  have "held (snd (osdp_phy_send_packet pd b n)) = held pd" for b n
    by (simp add: osdp_phy_send_packet_def Let_def case_prod_beta v)
  then have "held (snd (pd_send_reply pd)) = held pd" by (simp add: pd_send_reply_def Let_def case_prod_beta)
  then show ?thesis using pkrD(3) [OF pkr_send [of pd]] by (rule lasts_held)
qed

lemma lasts_ops: "lasts pd (pd_settle_event st pd)" "lasts pd (pd_sc_deactivate pd)" "lasts pd (osdp_phy_state_reset False pd)"
  "lasts pd (osdp_phy_progress_sequence pd)" "lasts pd (osdp_engines_abort pd)"
proof -
  show "lasts pd (pd_settle_event st pd)" using pkrD(3) [of "pd_settle_event st pd" pd] by (simp add: lasts_def kept_settle)
  have "pkr (pd_sc_deactivate pd) = pkr (sc_deactivate pd)" by (simp add: pd_sc_deactivate_def Let_def)
  then have "pd_reply_id (pd_sc_deactivate pd) = pd_reply_id pd" by (simp add: pkr_def)
  then show "lasts pd (pd_sc_deactivate pd)" by (simp add: lasts_held)
  show "lasts pd (osdp_phy_state_reset False pd)"
    by (rule lasts_held) (simp_all add: pkrD(3) [OF pkr_reset], simp add: osdp_phy_state_reset_def Let_def)
  show "lasts pd (osdp_phy_progress_sequence pd)"
    by (rule lasts_held) (simp_all add: pkrD(3) [OF pkr_progress])
  show "lasts pd (osdp_engines_abort pd)"
    using pkrD(3) [of "osdp_engines_abort pd" pd] by (simp add: lasts_def kept_engines)
qed

lemma error_reset_lasts: "lasts pd (pd_error_reset pd)"
  unfolding pd_error_reset_def by (intro lasts_trans [OF lasts_trans [OF lasts_ops(1) lasts_ops(2)] lasts_ops(3)])

lemma sent_lasts: "lasts pd (pd_reply_sent pd)"
proof -
  define q where "q = pd_settle_event OSDP_COMPLETION_OK pd"
  define z where "z = q\<lparr>pd_sc := (pd_sc q)\<lparr>scbk := pd_pending q\<rparr>, pd_pending := replicate 16 0\<rparr>"
  have q: "lasts pd q" by (simp add: q_def lasts_ops)
  have "lasts q (CLEAR_FLAG PD_FLAG_INSTALL_MODE (CLEAR_FLAG PD_FLAG_SC_USE_SCBKD z))"
    by (rule lasts_held) (simp_all add: z_def)
  then have k: "lasts pd (pd_commit_keyset q)"
    unfolding pd_commit_keyset_def Let_def z_def [symmetric] by (intro lasts_trans [OF lasts_trans [OF q] lasts_ops(2)])
  define w where "w = snd (snd (do_command_callback (wire_cmd (OSDP_CMD_COMSET_DONE (comset_pending q))) q))"
  have w: "lasts q w"
    using open_callback [of q "wire_cmd (OSDP_CMD_COMSET_DONE (comset_pending q))"]
    by (simp add: lasts_def w_def kept_held held_callback open_reply_def)
  have "lasts w (w\<lparr>pd_baud_rate := r, pd_address := a\<rparr>)" for r a by (rule lasts_held) simp_all
  then have "lasts pd (w\<lparr>pd_baud_rate := r, pd_address := a\<rparr>)" for r a by (intro lasts_trans [OF lasts_trans [OF q w]])
  then have c: "lasts pd (pd_commit_comset q)"
    by (simp add: pd_commit_comset_def Let_def case_prod_beta w_def [symmetric])
  have p: "lasts pd x \<Longrightarrow> lasts pd (osdp_phy_progress_sequence x)" for x by (erule lasts_trans) (rule lasts_ops)
  show ?thesis unfolding pd_reply_sent_def Let_def q_def [symmetric] using q k c by (auto intro: p)
qed

lemma send_stage_lasts: "lasts pd (pd_send_stage pd)"
proof -
  obtain ret q where s: "pd_send_reply pd = (ret, q)" by (rule prod.exhaust)
  have q: "lasts pd q" using send_lasts [of pd] by (simp add: s)
  show ?thesis
    using q lasts_trans [OF lasts_trans [OF q sent_lasts] lasts_ops(3)] lasts_trans [OF lasts_trans [OF q lasts_ops(1)] lasts_ops(3)]
    by (simp add: pd_send_stage_def s)
qed

lemma expire_lasts: "lasts pd (pd_expire pd)"
proof -
  define q where "q = (if sc_is_active pd \<and> osdp_millis_since pd (pd_sc_tstamp pd) > OSDP_PD_SC_TIMEOUT_MS
                then pd_sc_deactivate pd else pd)"
  have q: "lasts pd q" using lasts_ops(2) [of pd] lasts_held [of pd pd] by (simp add: q_def)
  have o: "lasts q (pd_set_offline q)" by (rule lasts_held) (use pkrD(3) [OF pkr_online(2) [of q]] in simp_all)
  have n: "lasts x (pd_notify_pd_status b x)" for b and x :: "('a, 'b) osdp_dev_scheme"
    by (rule lasts_held) (use pkrD(3) [of "pd_notify_pd_status b x" x] in simp_all)
  show ?thesis
    unfolding pd_expire_def Let_def q_def [symmetric] using q lasts_trans [OF lasts_trans [OF lasts_trans [OF q o] lasts_ops(5)] n] by simp
qed

lemma packet_heard_lasts: "lasts pd (pd_packet_heard ret pd)"
  by (rule lasts_held) (simp_all add: pkrD(3) [OF heard_packet_frame], simp add: pd_packet_heard_def Let_def)

lemma lasts_sound: "pd_sound x \<Longrightarrow> lasts x y \<Longrightarrow> pd_sound y"
  using sound_keeps [of x y] by (simp add: lasts_def)

lemma build_stage_lasts:
  shows "pd_build_stage crc pd = Some pd' \<Longrightarrow> lasts pd pd'" and "pd_ready pd \<Longrightarrow> pd_build_stage crc pd \<noteq> None"
proof -
  show "lasts pd pd'" if a: "pd_build_stage crc pd = Some pd'"
  proof (cases "pd_reply_prebuilt pd")
    case True
    then show ?thesis using a send_stage_lasts by (auto simp: pd_build_stage_def)
  next
    case False
    then obtain ret p where p: "pd_build_reply_packet crc pd = Some (ret, p)" using a by (auto simp: pd_build_stage_def split: option.splits)
    show ?thesis
      using a False p lasts_trans [OF build_packet_kept(1) [OF p] send_stage_lasts] lasts_trans [OF build_packet_kept(1) [OF p] error_reset_lasts]
      by (auto simp: pd_build_stage_def split: if_splits)
  qed
  show "pd_build_stage crc pd \<noteq> None" if "pd_ready pd"
    using build_packet_kept(2) [OF that, of crc] by (cases "pd_build_reply_packet crc pd") (auto simp: pd_build_stage_def)
qed

lemma update_sound:
  assumes "pd_sound pd" "osdp_pd_update crc pd = Some pd'"
  shows "pd_sound pd'" and "reply_known (pd_reply_id pd) \<Longrightarrow> reply_known (pd_reply_id pd')"
proof -
  have ee: "lasts pd (pd_expire pd)" by (rule expire_lasts)
  have e: "pd_sound (pd_expire pd)" by (rule lasts_sound [OF assms(1) ee])
  have ek: "reply_known (pd_reply_id pd) \<Longrightarrow> reply_known (pd_reply_id (pd_expire pd))"
    using ee known_reply(1) by (auto simp: lasts_def)
  have "pd_sound pd' \<and> (reply_known (pd_reply_id pd) \<longrightarrow> reply_known (pd_reply_id pd'))"
  proof (cases "pd_reply_prebuilt (pd_expire pd)")
    case True
    then have "lasts (pd_expire pd) pd'" using assms(2) send_stage_lasts by (auto simp: osdp_pd_update_def Let_def)
    then show ?thesis using lasts_sound [OF e] ek known_reply(1) by (auto simp: lasts_def)
  next
    case False
    then obtain r p where p: "pd_receive_and_process_command crc (pd_expire pd) = Some (r, p)"
      using assms(2) by (auto simp: osdp_pd_update_def Let_def split: option.splits)
    note k = receive_kept [OF e p]
    have "pd' = p \<or> pd' = pd_error_reset p \<or> pd_build_stage crc (pd_packet_heard r p) = Some pd'"
      using assms(2) False unfolding osdp_pd_update_def Let_def by (auto simp: p split: if_splits)
    then have "lasts p pd'"
      using error_reset_lasts lasts_held [of p p] lasts_trans [OF packet_heard_lasts build_stage_lasts(1)] by blast
    then show ?thesis
      using lasts_sound [OF sound_keeps [OF e k(1)]] k(2) ek known_reply(1) by (auto simp: lasts_def)
  qed
  then show "pd_sound pd'" and "reply_known (pd_reply_id pd) \<Longrightarrow> reply_known (pd_reply_id pd')" by simp_all
qed

lemma update_returns:
  assumes "pd_sound pd" "events_ok pd" "\<not> pd_runs_away crc (pd_expire pd)"
    and "reply_known (pd_reply_id pd) \<or> \<not> forged_length crc (pd_expire pd)"
  shows "osdp_pd_update crc pd \<noteq> None"
proof -
  have ee: "lasts pd (pd_expire pd)" by (rule expire_lasts)
  have e: "pd_sound (pd_expire pd)" "events_ok (pd_expire pd)"
    using lasts_sound [OF assms(1) ee] events_keep [OF assms(2)] ee by (simp_all add: lasts_def)
  have k: "reply_known (pd_reply_id pd) \<Longrightarrow> reply_known (pd_reply_id (pd_expire pd))"
    using ee known_reply(1) by (auto simp: lasts_def)
  obtain r p where p: "pd_receive_and_process_command crc (pd_expire pd) = Some (r, p)"
    using receive_returns [OF e(2) assms(3)] by blast
  note rk = receive_kept [OF e(1) p]
  have "r \<in> {OSDP_PD_ERR_NONE, OSDP_PD_ERR_REPLY} \<Longrightarrow> pd_ready p"
    using sound_keeps [OF e(1) rk(1)] events_keep [OF e(2) rk(1)] rk(2,3) k assms(4) by (auto simp: pd_ready_def)
  then have "r \<in> {OSDP_PD_ERR_NONE, OSDP_PD_ERR_REPLY} \<Longrightarrow> pd_build_stage crc (pd_packet_heard r p) \<noteq> None"
    using build_stage_lasts(2) lasts_ready [OF _ packet_heard_lasts] by blast
  then show ?thesis unfolding osdp_pd_update_def Let_def by (auto simp: p)
qed

subsection \<open>The life of a PD\<close>

text \<open>The calls an application makes on a PD between its setup and its teardown.\<close>

inductive pd_call :: "crc16 \<Rightarrow> 'w pd_context \<Rightarrow> 'w pd_context \<Rightarrow> bool" for crc where
  refresh: "osdp_pd_refresh crc c = Some c' \<Longrightarrow> pd_call crc c c'"
| submit: "pd_call crc c (snd (osdp_pd_submit_event ev c))"
| flush: "pd_call crc c (snd (osdp_pd_flush_events c))"
| capabilities: "pd_call crc c (snd (osdp_pd_set_capabilities caps c))"
| file_ops: "pd_call crc c (c\<lparr>pdx_pd := snd (osdp_file_register_ops (pdx_sealed c) ops (pdx_pd c))\<rparr>)"
| command_callback: "pd_call crc c (snd (osdp_pd_set_command_callback cb c))"
| completion_callback: "pd_call crc c (snd (osdp_pd_set_event_completion_callback ccb c))"

lemma sound_held:
  fixes x y :: "('w, 'z) osdp_dev_scheme"
  shows "pd_sound x \<Longrightarrow> held y = held x \<Longrightarrow> pd_sound y"
  by (rule sound_keeps, assumption, rule kept_held)

lemma submit_sound:
  assumes "pd_sound pd"
  shows "pd_sound (snd (pd_submit_event ev pd))"
proof -
  have "pd_event_fits pd ev \<Longrightarrow> event_accepted ev" by (cases ev) (auto simp: event_accepted_def)
  then show ?thesis
    using assms by (auto simp: pd_submit_event_def pd_sound_def events_held_def engines_ok_def flag_defs ISSET_FLAG_def)
qed

lemma drain_kept: "kept pd (snd (pd_drain_queue st pd))" "pd_reply_id (snd (pd_drain_queue st pd)) = pd_reply_id pd"
proof -
  have f: "held (fold (\<lambda>ev pd. pd_complete_event (Some ev) st pd) es q) = held q \<and>
      pd_reply_id (fold (\<lambda>ev pd. pd_complete_event (Some ev) st pd) es q) = pd_reply_id q" for es and q :: "('a, 'b) osdp_dev_scheme"
    by (induction es arbitrary: q) (simp_all add: pkrD(3) [OF pkr_ops(1)])
  have k: "kept pd (pd\<lparr>pd_event_queue := []\<rparr>)"
    by (simp add: kept_def events_held_def engines_ok_def flag_defs ISSET_FLAG_def)
  show "kept pd (snd (pd_drain_queue st pd))" "pd_reply_id (snd (pd_drain_queue st pd)) = pd_reply_id pd"
    using f kept_trans [OF k kept_held] by (simp_all add: pd_drain_queue_def Let_def)
qed

lemma held_configure:
  "held (pd\<lparr>pd_cap := cs\<rparr>) = held pd" "held (pd\<lparr>pd_id := i\<rparr>) = held pd" "held (pd\<lparr>pd_cb := cb\<rparr>) = held pd"
  "held (osdp_pd_set_attributes caps i' pd) = held pd" "held (SET_FLAG PD_FLAG_SC_DISABLED pd) = held pd"
proof -
  show "held (SET_FLAG PD_FLAG_SC_DISABLED pd) = held pd"
    by (simp add: held_def flag_defs) (simp add: SET_FLAG_def)
qed (simp_all add: held_def osdp_pd_set_attributes_def Let_def flag_defs ISSET_FLAG_def split: option.split)

lemma reply_configure:
  "pd_reply_id (osdp_pd_set_attributes caps i' pd) = pd_reply_id pd"
  by (simp add: osdp_pd_set_attributes_def Let_def split: option.split)

lemma call_keeps:
  assumes "pd_call crc c c'" "pd_sound (pdx_pd c)"
  shows "pd_sound (pdx_pd c') \<and> (reply_known (pd_reply_id (pdx_pd c)) \<longrightarrow> reply_known (pd_reply_id (pdx_pd c')))"
  using assms
proof (cases rule: pd_call.cases)
  case refresh
  then show ?thesis using assms(2) update_sound [OF assms(2)] by (auto simp: osdp_pd_refresh_def split: if_splits)
next
  case (submit ev)
  have "pd_reply_id (snd (pd_submit_event ev (pdx_pd c))) = pd_reply_id (pdx_pd c)"
    by (simp add: pd_submit_event_def)
  then show ?thesis using submit submit_sound [OF assms(2), of ev] by (simp add: osdp_pd_submit_event_def case_prod_beta)
next
  case flush
  then show ?thesis using assms(2) sound_keeps [OF assms(2) drain_kept(1)]
    by (simp add: osdp_pd_flush_events_def drain_kept(2) case_prod_beta Let_def)
next
  case (capabilities cs)
  then show ?thesis using assms(2) by (auto simp: osdp_pd_set_capabilities_def Let_def held_configure reply_configure intro: sound_held)
next
  case (file_ops ops)
  then show ?thesis using assms(2) by (auto simp: osdp_file_register_ops_def Let_def intro: sound_held)
next
  case (command_callback cb)
  then show ?thesis using assms(2) by (auto simp: osdp_pd_set_command_callback_def Let_def held_configure intro: sound_held)
next
  case (completion_callback cb)
  then show ?thesis using assms(2) by (auto simp: osdp_pd_set_event_completion_callback_def Let_def held_configure intro: sound_held)
qed

lemma calls_keep:
  assumes "(pd_call crc)\<^sup>*\<^sup>* c c'" "pd_sound (pdx_pd c)"
  shows "pd_sound (pdx_pd c') \<and> (reply_known (pd_reply_id (pdx_pd c)) \<longrightarrow> reply_known (pd_reply_id (pdx_pd c')))"
  using assms by induction (use call_keeps in blast)+

text \<open>A PD that was set up holds nothing.\<close>

lemma empty_sound: "pd_event_queue pd = [] \<Longrightarrow> pd_active_event pd = None \<Longrightarrow> pd_piv pd = None \<Longrightarrow> pd_bio pd = None \<Longrightarrow> pd_sound pd"
  by (simp add: pd_sound_def events_held_def engines_ok_def piv_fine_def bio_fine_def)

definition idle_slots :: "('w, 'z) osdp_dev_scheme \<Rightarrow> _" where
  "idle_slots pd = (pd_event_queue pd, pd_active_event pd, pd_piv pd, pd_bio pd)"

lemma idle_slots_config:
  "idle_slots (SET_FLAG f pd) = idle_slots pd" "idle_slots (set_if b f pd) = idle_slots pd"
  "idle_slots (osdp_pd_set_attributes caps i pd) = idle_slots pd" "idle_slots (pd_no_sc_capability pd) = idle_slots pd"
  "idle_slots (pd_collect_init_flags fl pd) = idle_slots pd"
proof -
  show s: "idle_slots (set_if b f pd) = idle_slots pd" for b f and pd :: "('a, 'b) osdp_dev_scheme"
    by (simp add: idle_slots_def set_if_def SET_FLAG_def)
  show "idle_slots (SET_FLAG f pd) = idle_slots pd" by (simp add: idle_slots_def SET_FLAG_def)
  show "idle_slots (osdp_pd_set_attributes caps i pd) = idle_slots pd" "idle_slots (pd_no_sc_capability pd) = idle_slots pd"
    by (simp_all add: idle_slots_def osdp_pd_set_attributes_def pd_no_sc_capability_def Let_def split: option.split)
  show "idle_slots (pd_collect_init_flags fl pd) = idle_slots pd"
    unfolding pd_collect_init_flags_def Let_def by (simp only: s)
qed

lemma setup_sound:
  assumes "osdp_pd_setup sm ch info w = Some c"
  shows "pd_sound (pdx_pd c)"
proof -
  have k: "idle_slots p = idle_slots q" if "pd_setup_key key q = Some p" for key p and q :: "'a osdp_dev"
    using that idle_slots_config(1) [of _ q] by (auto simp: pd_setup_key_def idle_slots_def split: option.splits if_splits)
  have e: "idle_slots (pd\<lparr>pd_event_queue := []\<rparr>) = ([], pd_active_event pd, pd_piv pd, pd_bio pd)" for pd :: "'a osdp_dev"
    by (simp add: idle_slots_def)
  have g: "pd_active_event (pd_collect_init_flags fl pd) = pd_active_event pd" "pd_piv (pd_collect_init_flags fl pd) = pd_piv pd"
    "pd_bio (pd_collect_init_flags fl pd) = pd_bio pd" for fl and pd :: "'a osdp_dev"
    using idle_slots_config(5) [of fl pd] by (simp_all add: idle_slots_def)
  have "idle_slots (pdx_pd c) = ([], None, None, None)"
    using assms
    by (auto simp: e g osdp_pd_setup_def Let_def pd_fresh_def idle_slots_config dest!: k split: if_splits option.splits)
  then show ?thesis by (intro empty_sound) (simp_all add: idle_slots_def)
qed


text \<open>
  C8. The decoder of a well-formed PD returns for every command and every length, with one
  exception: a CMD_POLL without data that is let through while the first event queued is a
  notification and no engine has a reply to give.  Submitting such an event is not refused, and its
  translation is a \<open>BUG\<close>.
\<close>

theorem pd_decode_stops:
  assumes "pd_sound pd"
  shows "pd_decode_command crc pd buf len = None \<longleftrightarrow>
    uint (buf ! 0) = CMD_POLL \<and> len = 1 \<and> (is_enforce_secure pd \<longrightarrow> sc_is_active pd) \<and>
    \<not> osdp_piv_pd_reply_pending pd \<and> \<not> osdp_bio_pd_reply_pending pd \<and>
    (\<exists>n q. pd_event_queue pd = OSDP_EVENT_NOTIFICATION n # q)"
proof -
  define q where "q = (pd_nak OSDP_PD_NAK_RECORD pd)\<lparr>pd_cmd_id := uint (buf ! 0)\<rparr>"
  have q: "pd_event_queue q = pd_event_queue pd" "pd_piv q = pd_piv pd" "pd_bio q = pd_bio pd" "pd_cmd_id q = uint (buf ! 0)" "pd_flags q = pd_flags pd"
    by (simp_all add: q_def pd_nak_def set_nak_code_def)
  have a: "pd_cmd_allowed q \<longleftrightarrow> (is_enforce_secure pd \<longrightarrow> sc_is_active pd)" if "uint (buf ! 0) = CMD_POLL"
    using q(4,5) that by (simp add: pd_cmd_allowed_def flag_defs ISSET_FLAG_def)
  have "event_accepted ev \<Longrightarrow> pd_translate_event ev = None \<longleftrightarrow> (\<exists>n. ev = OSDP_EVENT_NOTIFICATION n)" for ev
    by (cases ev) (simp_all add: event_accepted_def split: if_splits)
  then have "pd_event_queue pd = ev # es \<Longrightarrow> pd_translate_event ev = None \<longleftrightarrow> (\<exists>n. ev = OSDP_EVENT_NOTIFICATION n)" for ev es
    using assms by (simp add: pd_sound_def events_held_def)
  moreover have "osdp_piv_pd_reply_pending q = osdp_piv_pd_reply_pending pd" "osdp_bio_pd_reply_pending q = osdp_bio_pd_reply_pending pd"
    using q(2,3) by (simp_all add: osdp_piv_pd_reply_pending_def osdp_bio_pd_reply_pending_def)
  ultimately have p: "pd_decode_poll q n = None \<longleftrightarrow> n = 0 \<and> \<not> osdp_piv_pd_reply_pending pd \<and> \<not> osdp_bio_pd_reply_pending pd \<and>
      (\<exists>n q. pd_event_queue pd = OSDP_EVENT_NOTIFICATION n # q)" for n
    by (cases "pd_event_queue pd") (auto simp: pd_decode_poll_def q(1) split: option.split)
  have b: "pd_command_body crc q b n = None \<longleftrightarrow> pd_cmd_id q = CMD_POLL \<and> pd_decode_poll q n = None" for b n
    unfolding pd_command_body_def Let_def [of "pd_cmd_id q"] by simp
  have "pd_decode_command crc pd buf len = None \<longleftrightarrow> pd_cmd_allowed q \<and> pd_command_body crc q (drop 1 buf) (len - 1) = None"
    unfolding pd_decode_command_def Let_def q_def [symmetric] by (simp split: option.split)
  then show ?thesis using a by (auto simp: b p q(4))
qed


subsection \<open>A packet that stops a PD\<close>

text \<open>What the packet layer leaves alone while it receives.\<close>

definition reply_frame :: "'z osdp_pd_scheme \<Rightarrow> bool \<times> int" where
  "reply_frame pd = (pd_reply_prebuilt pd, pd_seq_number pd)"

lemma reply_frame_ops [simp]:
  "reply_frame (put_packet_bytes b pd) = reply_frame pd" "reply_frame (set_channel ch pd) = reply_frame pd"
  "reply_frame (osdp_metrics_report e pd) = reply_frame pd" "reply_frame (SET_FLAG f pd) = reply_frame pd"
  "reply_frame (CLEAR_FLAG f pd) = reply_frame pd" "reply_frame (SET_FLAG_V f v pd) = reply_frame pd"
  "reply_frame (phy_set_nak c pd) = reply_frame pd" "reply_frame (sc_deactivate pd) = reply_frame pd"
  "reply_frame (snd (osdp_channel_send pd b n)) = reply_frame pd" "reply_frame (snd (osdp_channel_receive pd)) = reply_frame pd"
  "reply_frame (phy_top_up n pd) = reply_frame pd"
  by (simp_all add: reply_frame_def put_packet_bytes_def set_channel_def SET_FLAG_V_def phy_set_nak_def set_nak_code_def
      osdp_metrics_report_def SET_FLAG_def CLEAR_FLAG_def sc_deactivate_def
      osdp_channel_send_def osdp_channel_receive_def phy_top_up_def Let_def case_prod_beta)

lemma reply_frame_update [simp]:
  "reply_frame (pd\<lparr>pd_rx_rb := a1\<rparr>) = reply_frame pd" "reply_frame (pd\<lparr>pd_packet_buf_len := a2\<rparr>) = reply_frame pd"
  "reply_frame (pd\<lparr>pd_packet_len := a3\<rparr>) = reply_frame pd" "reply_frame (pd\<lparr>pd_packet_scan_skip := a4\<rparr>) = reply_frame pd"
  "reply_frame (pd\<lparr>pd_tstamp := a5\<rparr>) = reply_frame pd" "reply_frame (pd\<lparr>pd_last_tx_len := a6\<rparr>) = reply_frame pd"
  by (simp_all add: reply_frame_def)

lemma frame_check_header: "reply_frame (snd (phy_check_header pd)) = reply_frame pd"
proof -
  have f: "reply_frame (snd (phy_find_start pd)) = reply_frame pd" for pd :: "'a osdp_pd_scheme"
    by (simp add: phy_find_start_def Let_def split: prod.split option.split)
  have v: "reply_frame (snd (phy_validate_header pd b n m)) = reply_frame pd" for pd :: "'a osdp_pd_scheme" and b n m
    by (simp add: phy_validate_header_def Let_def)
  have r: "reply_frame (snd (phy_rescan_packet_buf pd)) = reply_frame pd" for pd :: "'a osdp_pd_scheme"
    by (simp add: phy_rescan_packet_buf_def Let_def)
  show ?thesis by (simp add: phy_check_header_def Let_def case_prod_beta f v r)
qed

text \<open>\<open>calm x y\<close>: nothing was prebuilt, and the sequence number stays one.\<close>

definition calm :: "'z osdp_pd_scheme \<Rightarrow> 'z osdp_pd_scheme \<Rightarrow> bool" where
  "calm x y \<longleftrightarrow> pd_reply_prebuilt y = pd_reply_prebuilt x \<and> (-1 \<le> pd_seq_number x \<longrightarrow> -1 \<le> pd_seq_number y)"

lemma calm_frame: "reply_frame y = reply_frame x \<Longrightarrow> calm x y"
  by (simp add: calm_def reply_frame_def)

lemma calm_trans: "calm x y \<Longrightarrow> calm y z \<Longrightarrow> calm x z" by (simp add: calm_def)

lemma calm_phy_check: "calm pd (snd (phy_check_packet crc pd buf n))"
proof -
  have m: "reply_frame (snd (phy_match_sequence q s)) = reply_frame q" for q :: "'a osdp_pd_scheme" and s
    by (simp add: phy_match_sequence_def)
  have s: "calm q (snd (phy_pd_sequence q b s))" for q :: "'a osdp_pd_scheme" and b s
    by (simp add: phy_pd_sequence_def calm_def phy_reset_seq_number_def phy_rollback_seq_number_def Let_def
        osdp_channel_send_def set_channel_def sc_deactivate_def)
  have c: "calm pd q" if "reply_frame q = reply_frame pd" for q by (rule calm_frame [OF that])
  have d: "calm pd (snd (phy_pd_sequence (osdp_metrics_report e pd) b' s'))" for e b' s'
    by (rule calm_trans [OF calm_frame s]) simp
  have f: "calm pd (snd (phy_match_sequence (SET_FLAG g q) s'))" "calm pd (snd (phy_match_sequence q s'))" if "calm pd q" for q g s'
    by (rule calm_trans [OF that calm_frame], simp add: m)+
  show ?thesis
    unfolding phy_check_packet_def Let_def
    by (simp add: case_prod_beta c d f m)
qed

lemma calm_osdp_check: "calm pd (snd (osdp_phy_check_packet crc pd))"
proof -
  obtain r1 p1 where e1: "osdp_channel_receive pd = (r1, p1)" by (rule prod.exhaust)
  define p1' where "p1' = (if is_pd_mode p1 \<and> pd_packet_buf_len p1 = 0 \<and> r1 > 0
                           then p1\<lparr>pd_tstamp := osdp_millis_now p1\<rparr> else p1)"
  have v1: "reply_frame p1' = reply_frame pd" using reply_frame_ops(10) [of pd] e1 by (simp add: p1'_def)
  obtain r2 p2 where e2: "phy_check_header p1' = (r2, p2)" by (rule prod.exhaust)
  have v2: "reply_frame p2 = reply_frame pd" using frame_check_header [of p1'] e2 v1 by simp
  define q where "q = (if pd_packet_len p1' = 0 then p2\<lparr>pd_packet_len := nat r2, pd_packet_scan_skip := 0\<rparr> else p1')"
  have vq: "reply_frame q = reply_frame pd" using v1 v2 by (simp add: q_def)
  obtain r3 p3 where e3: "phy_collect_packet q = (r3, p3)" by (rule prod.exhaust)
  have v3: "reply_frame p3 = reply_frame pd"
    using e3 vq by (auto simp: phy_collect_packet_def Let_def split: if_splits)
  have h: "calm pd p1'" "calm pd p2" "calm pd q" "calm pd p3" using v1 v2 vq v3 by (simp_all add: calm_frame)
  show ?thesis
    using h calm_trans [OF h(4) calm_phy_check] e3 unfolding q_def
    by (auto simp: osdp_phy_check_packet_def e1 p1'_def [symmetric] e2 Let_def split: if_splits)
qed

lemma decode_inactive:
  assumes "\<not> sc_is_active pd" "osdp_phy_decode_packet pd = Some (len, off, p)"
  shows "calm pd p" "pd_ctx p = pd_ctx pd"
proof -
  let ?b = "rx_packet pd"
  let ?l = "int (pd_packet_buf_len pd) - int (mark_len pd) - rx_check_len ?b - int PKT_HDR"
  obtain r q where r: "phy_decode_scb pd ?b ?l = (r, q)" by (rule prod.exhaust)
  have q: "reply_frame q = reply_frame pd" "pd_ctx q = pd_ctx pd"
    using r by (auto simp: phy_decode_scb_def Let_def split: if_splits)
  have a: "r = Some (d, l, act) \<Longrightarrow> \<not> act" for d l act
    using r assms(1) by (auto simp: phy_decode_scb_def Let_def split: if_splits)
  have "p = q"
    using assms(2) a unfolding osdp_phy_decode_packet_def rx_packet_def [symmetric] rx_check_len_def [symmetric] Let_def r prod.case
    by (auto split: option.splits)
  then show "calm pd p" "pd_ctx p = pd_ctx pd" using q by (simp_all add: calm_frame)
qed

lemma build_unanswered:
  assumes "length (ctx_tx_buf (pd_ctx pd)) = OSDP_PACKET_BUF_SIZE" "\<not> sc_is_active pd" "pd_reply_id pd = 0"
    "is_pd_mode pd" "pd_peer_rx_size pd = 0" "-1 \<le> pd_seq_number pd"
  shows "pd_build_reply_packet crc pd = None"
proof -
  define q where "q = pd\<lparr>pd_packet_buf := TX_BUF\<rparr>"
  have q: "length (packet_bytes q) = OSDP_PACKET_BUF_SIZE" "\<not> sc_is_active q" "pd_reply_id q = 0" "is_pd_mode q" "-1 \<le> pd_seq_number q"
    using assms by (simp_all add: q_def packet_bytes_def flag_defs ISSET_FLAG_def)
  have n: "phy_get_next_seq_number q \<in> {0, 1, 2, 3}"
    using q(5) by (auto simp: phy_get_next_seq_number_def Let_def)
  have size: "get_tx_buf_size pd = 256" using assms(5) by (simp add: get_tx_buf_size_def)
  obtain r b p where i: "osdp_phy_packet_init q (packet_bytes q) 256 = (r, b, p)" by (metis prod_cases3)
  have m: "mark_len p = mark_len q" "r = int (mark_len q + PKT_HDR)" "pd_reply_id p = 0"
    using i q(2-4) by (auto simp: osdp_phy_packet_init_def Let_def osdp_phy_in_sc_handshake_def flag_defs split: if_splits)
  have c: "\<not> has_ctl PKT_CONTROL_SCB (drop (mark_len q) b)"
  proof -
    have "b ! (mark_len q + 4) = word_of_int (phy_get_next_seq_number q) OR PKT_CONTROL_CRC"
      using i q by (auto simp: osdp_phy_packet_init_def Let_def osdp_phy_in_sc_handshake_def flag_defs phy_get_next_seq_number_def
          split: if_splits)
    moreover have "length b = OSDP_PACKET_BUF_SIZE"
      using i q by (auto simp: osdp_phy_packet_init_def Let_def osdp_phy_in_sc_handshake_def flag_defs split: if_splits)
    ultimately show ?thesis using n by (auto simp: has_ctl_def pkt_control_def)
  qed
  have o: "osdp_phy_packet_get_data_offset (p\<lparr>pd_packet_buf_len := k\<rparr>) b = mark_len q + PKT_HDR" for k
    using c m(1) by (simp add: osdp_phy_packet_get_data_offset_def Let_def flag_defs ISSET_FLAG_def)
  have "pd_build_reply (p\<lparr>pd_packet_buf_len := nat r\<rparr>) b 256 = None"
    unfolding pd_build_reply_def Let_def o
    by (simp add: m(3) pd_reply_backed_def reply_backing_event_type_def pd_reply_body_def Let_def PKT_HDR_def)
  then show ?thesis unfolding pd_build_reply_packet_def Let_def q_def [symmetric] size i prod.case by (simp add: m(2))
qed

text \<open>How such a packet looks: a handshake block in front of a plain packet, without a session.\<close>

lemma forged_block:
  assumes "osdp_phy_check_packet crc (pd\<lparr>pd_reply_prebuilt := False\<rparr>) = (OSDP_ERR_PKT_NONE, x)" "\<not> sc_is_active x" "sc_is_capable x"
    and "rx_handshake_block x" "rx_data_len x + 5 = OSDP_ERR_PKT_NACK" "pd_reply_id x \<noteq> REPLY_NAK"
  shows "forged_length crc pd"
proof -
  define p where "p = (if pkt_data (rx_packet x) 1 \<in> {SCS_11, SCS_13} \<and> is_install_mode x \<and> pkt_data (rx_packet x) 2 = 0
     then SET_FLAG PD_FLAG_SC_USE_SCBKD x else x)"
  have s: "phy_decode_scb x (rx_packet x) len =
      (Some (PKT_HDR + unat (pkt_data (rx_packet x) 0), len - uint (pkt_data (rx_packet x) 0), False), p)" for len
    using decode_scb_handshake [of x len] assms(2-4) by (simp add: p_def)
  have "osdp_phy_decode_packet x = Some (OSDP_ERR_PKT_NACK, mark_len x + (PKT_HDR + unat (pkt_data (rx_packet x) 0)), p)"
    using assms(5) unfolding osdp_phy_decode_packet_def rx_packet_def [symmetric] rx_check_len_def [symmetric] rx_data_len_def Let_def s
    by simp
  moreover have "pd_reply_id p = pd_reply_id x" by (simp add: p_def)
  ultimately show ?thesis using assms(6) by (simp add: forged_length_def assms(1))
qed

text \<open>A PD that has not answered anything yet stops at a packet with a forged length.\<close>

lemma forged_stops:
  assumes "framer_ok pd" "is_pd_mode pd" "\<not> sc_is_active pd" "\<not> is_pd_online pd" "\<not> pd_reply_prebuilt pd" "pd_reply_id pd = 0"
    "pd_peer_rx_size pd = 0" "-1 \<le> pd_seq_number pd" "forged_length crc pd"
  shows "osdp_pd_update crc pd = None"
proof -
  have e: "pd_expire pd = pd" using assms(3,4) by (simp add: pd_expire_def Let_def)
  define q where "q = pd\<lparr>pd_reply_prebuilt := False\<rparr>"
  have q: "q = pd" using assms(5) by (simp add: q_def)
  obtain err x where c: "osdp_phy_check_packet crc pd = (err, x)" by (rule prod.exhaust)
  obtain l off y where d: "osdp_phy_decode_packet x = Some (l, off, y)" "err = OSDP_ERR_PKT_NONE" "l = OSDP_ERR_PKT_NACK" "pd_reply_id y \<noteq> REPLY_NAK"
    using assms(9) by (auto simp: forged_length_def q_def [symmetric] q c split: option.splits)
  have x: "framer_ok x" "heard pd x" "calm pd x"
    using framer_step [OF assms(1), of crc] heard_osdp_check [of pd crc] calm_osdp_check [of pd crc] by (simp_all add: c)
  have "\<not> sc_is_active x" using x(2) assms(3) by (auto simp: heard_def)
  note y = decode_inactive [OF this d(1)]
  have hy: "heard pd y" by (rule heard_trans [OF x(2) heard_decode_packet [OF d(1)]])
  define h where "h = pd_packet_heard OSDP_PD_ERR_REPLY y"
  have hx: "pd_ctx h = pd_ctx y" "pd_reply_prebuilt h = pd_reply_prebuilt y" "pd_seq_number h = pd_seq_number y"
    "pd_peer_rx_size h = pd_peer_rx_size y" "pd_reply_id h = pd_reply_id y"
    by (simp_all add: h_def pd_packet_heard_def pd_notify_pd_status_def pd_deliver_notification_def Let_def flag_defs osdp_metrics_report_def
        SET_FLAG_def split: option.split)
  have k: "pk h = pk y" unfolding h_def by (rule pkrD(1) [OF heard_packet_frame])
  have "length (ctx_tx_buf (pd_ctx h)) = OSDP_PACKET_BUF_SIZE" using x(1) by (simp add: hx y(2) framer_ok_def)
  moreover have "\<not> sc_is_active h" "pd_reply_id h = 0" "is_pd_mode h" "pd_peer_rx_size h = 0"
    using hy assms d(4) phy_restD [of y pd] sec_coreD [of y pd] pkD(4) [OF k] secD(1) [OF pkD(1) [OF k]]
    by (auto simp: hx heard_def)
  moreover have "-1 \<le> pd_seq_number h" "\<not> pd_reply_prebuilt h" using calm_trans [OF x(3) y(1)] assms(5,8) by (simp_all add: hx calm_def)
  ultimately have "pd_build_stage crc h = None" using build_unanswered [of h crc] by (simp add: pd_build_stage_def)
  moreover have "pd_receive_and_process_command crc pd = Some (OSDP_PD_ERR_REPLY, y)"
    using d by (simp add: pd_receive_and_process_command_def Let_def q_def [symmetric] q c)
  ultimately show ?thesis using assms(5) by (simp add: osdp_pd_update_def e h_def [symmetric])
qed

text \<open>A PD that was set up is as \<open>forged_stops\<close> asks.\<close>

definition fresh_slots :: "('w, 'z) osdp_dev_scheme \<Rightarrow> _" where
  "fresh_slots pd = (pd_reply_prebuilt pd, pd_reply_id pd, pd_peer_rx_size pd, pd_seq_number pd, ctx_tx_buf (pd_ctx pd), ctx_rx_store (pd_ctx pd),
     pd_rx_rb pd, pd_packet_buf_len pd, pd_packet_len pd, pd_tearing_down pd)"

definition fresh_flags :: "'z osdp_pd_scheme \<Rightarrow> bool" where
  "fresh_flags pd \<longleftrightarrow> \<not> ISSET_FLAG pd PD_FLAG_SC_ACTIVE \<and> \<not> ISSET_FLAG pd PD_FLAG_ONLINE"

lemma fresh_config:
  fixes pd :: "('w, 'z) osdp_dev_scheme"
  shows "fresh_slots (SET_FLAG f pd) = fresh_slots pd" "fresh_slots (set_if b f pd) = fresh_slots pd"
    "fresh_slots (osdp_pd_set_attributes caps i pd) = fresh_slots pd" "fresh_slots (pd_no_sc_capability pd) = fresh_slots pd"
    "fresh_slots (pd_collect_init_flags fl pd) = fresh_slots pd" "fresh_slots (pd\<lparr>pd_sc := sc\<rparr>) = fresh_slots pd"
    "fresh_slots (pd\<lparr>pd_event_queue := es\<rparr>) = fresh_slots pd"
proof -
  show s: "fresh_slots (set_if b f pd) = fresh_slots pd" for b f and pd :: "('w, 'z) osdp_dev_scheme"
    by (simp add: fresh_slots_def set_if_def SET_FLAG_def)
  show "fresh_slots (SET_FLAG f pd) = fresh_slots pd" by (simp add: fresh_slots_def SET_FLAG_def)
  show "fresh_slots (osdp_pd_set_attributes caps i pd) = fresh_slots pd" "fresh_slots (pd_no_sc_capability pd) = fresh_slots pd"
    "fresh_slots (pd\<lparr>pd_sc := sc\<rparr>) = fresh_slots pd" "fresh_slots (pd\<lparr>pd_event_queue := es\<rparr>) = fresh_slots pd"
    by (simp_all add: fresh_slots_def osdp_pd_set_attributes_def pd_no_sc_capability_def Let_def split: option.split)
  show "fresh_slots (pd_collect_init_flags fl pd) = fresh_slots pd"
    unfolding pd_collect_init_flags_def Let_def by (simp only: s)
qed

lemma fresh_flags_config:
  fixes pd :: "('w, 'z) osdp_dev_scheme"
  shows "fresh_flags (pd_collect_init_flags fl pd) = fresh_flags pd" "fresh_flags (set_if b PD_FLAG_PKT_SKIP_MARK pd) = fresh_flags pd"
    "fresh_flags (SET_FLAG PD_FLAG_SC_CAPABLE pd) = fresh_flags pd" "fresh_flags (SET_FLAG PD_FLAG_SC_DISABLED pd) = fresh_flags pd"
    "fresh_flags (SET_FLAG PD_FLAG_PD_MODE pd) = fresh_flags pd"
    "fresh_flags (osdp_pd_set_attributes caps i pd) = fresh_flags pd" "fresh_flags (pd_no_sc_capability pd) = fresh_flags pd"
    "fresh_flags (pd\<lparr>pd_sc := sc\<rparr>) = fresh_flags pd" "fresh_flags (pd\<lparr>pd_event_queue := es\<rparr>) = fresh_flags pd"
proof -
  show "fresh_flags (osdp_pd_set_attributes caps i pd) = fresh_flags pd" "fresh_flags (pd_no_sc_capability pd) = fresh_flags pd"
    "fresh_flags (pd\<lparr>pd_sc := sc\<rparr>) = fresh_flags pd" "fresh_flags (pd\<lparr>pd_event_queue := es\<rparr>) = fresh_flags pd"
    by (simp_all add: fresh_flags_def ISSET_FLAG_def osdp_pd_set_attributes_def pd_no_sc_capability_def Let_def split: option.split)
  show "fresh_flags (pd_collect_init_flags fl pd) = fresh_flags pd" "fresh_flags (set_if b PD_FLAG_PKT_SKIP_MARK pd) = fresh_flags pd"
    "fresh_flags (SET_FLAG PD_FLAG_SC_CAPABLE pd) = fresh_flags pd" "fresh_flags (SET_FLAG PD_FLAG_SC_DISABLED pd) = fresh_flags pd"
    "fresh_flags (SET_FLAG PD_FLAG_PD_MODE pd) = fresh_flags pd"
    by (simp_all add: fresh_flags_def pd_collect_init_flags_def set_if_def Let_def)
qed

lemma setup_fresh:
  assumes "osdp_pd_setup sm ch info w = Some c"
  shows "fresh_slots (pdx_pd c) = fresh_slots ((pd_fresh ch w)\<lparr>pd_seq_number := -1, pd_rx_rb := rb_zero\<rparr>)" "fresh_flags (pdx_pd c)"
    "is_pd_mode (pdx_pd c)" "\<not> pdx_running c"
proof -
  define p0 where "p0 = (pd_fresh ch w)\<lparr>pd_idx := 0, pd_packet_buf := TX_BUF, pd_baud_rate := info_baud_rate info,
                  pd_address := info_address info, pd_flags := 0, pd_seq_number := -1, pd_rx_rb := rb_zero\<rparr>"
  have p0: "fresh_slots p0 = fresh_slots ((pd_fresh ch w)\<lparr>pd_seq_number := -1, pd_rx_rb := rb_zero\<rparr>)" "fresh_flags p0"
    by (simp_all add: p0_def fresh_slots_def fresh_flags_def ISSET_FLAG_bit)
  have k: "fresh_slots p = fresh_slots q \<and> fresh_flags p = fresh_flags q" if "pd_setup_key key q = Some p" for key p and q :: "'a osdp_dev"
    using that by (auto simp: pd_setup_key_def fresh_config fresh_flags_config split: option.splits if_splits)
  obtain p where p: "pd_setup_key (info_scbk info) ((pd_collect_init_flags (info_flags info) p0)\<lparr>pd_event_queue := []\<rparr>) = Some p"
    "c = \<lparr>pdx_pd = SET_FLAG PD_FLAG_PD_MODE (let pd = osdp_pd_set_attributes osdp_pd_cap_implicit None
            (osdp_pd_set_attributes (info_cap info) (Some (info_id info)) (set_if sm PD_FLAG_PKT_SKIP_MARK (SET_FLAG PD_FLAG_SC_CAPABLE p)))
          in if sc_is_capable pd then pd else pd_no_sc_capability pd), pdx_running = False, pdx_sealed = False\<rparr>"
    using assms by (auto simp: osdp_pd_setup_def Let_def p0_def [symmetric] split: if_splits option.splits)
  show "fresh_slots (pdx_pd c) = fresh_slots ((pd_fresh ch w)\<lparr>pd_seq_number := -1, pd_rx_rb := rb_zero\<rparr>)" "fresh_flags (pdx_pd c)"
    "is_pd_mode (pdx_pd c)" "\<not> pdx_running c"
    using k [OF p(1)] p0 by (simp_all add: p(2) fresh_config fresh_flags_config Let_def) (simp add: flag_defs)
qed


subsection \<open>Examples\<close>

text \<open>
  A nine byte packet for address 0 with a security block SCS_11 that claims nine bytes of its own:
  the decoder subtracts them and returns \<open>- 6\<close>.
\<close>

definition forged_frame :: bytes where
  "forged_frame = [0x53, 0, 9, 0, 8, 9, 0x11, 0, 0x82]"

lemma ready_setup: "\<exists>c. osdp_pd_setup False (channel_with []) setup_info (0 :: nat) = Some c \<and>
    \<not> forged_length crc (pd_expire (pdx_pd c)) \<and> \<not> pd_runs_away crc (pd_expire (pdx_pd c)) \<and> events_ok (pdx_pd c)"
proof -
  have "(case osdp_pd_setup False (channel_with []) setup_info (0 :: nat) of None \<Rightarrow> False
     | Some c \<Rightarrow> \<not> forged_length crc (pd_expire (pdx_pd c)) \<and> \<not> pd_runs_away crc (pd_expire (pdx_pd c)) \<and> events_ok (pdx_pd c))" by code_simp
  then show ?thesis by (auto split: option.splits)
qed

definition ready_event :: osdp_event where
  "ready_event = OSDP_EVENT_NOTIFICATION (OSDP_NOTIFICATION_PD_STATUS True)"

lemma submit_reached: "(pd_call crc)\<^sup>*\<^sup>* c (snd (osdp_pd_submit_event ready_event c))"
  by (rule r_into_rtranclp) (rule submit)


theorem pd_decode_stops_witness:
  "pd_decode_command (\<lambda>_ _. 0) ((dev_zero no_callbacks (7 :: nat))\<lparr>pd_event_queue := [ready_event]\<rparr>) [0x60] 1 = None"
proof -
  let ?pd = "(dev_zero no_callbacks (7 :: nat))\<lparr>pd_event_queue := [ready_event]\<rparr>"
  have "pd_sound ?pd" "\<not> osdp_piv_pd_reply_pending ?pd" "\<not> osdp_bio_pd_reply_pending ?pd" "\<not> is_enforce_secure ?pd"
    by (simp_all add: pd_sound_def events_held_def event_accepted_def ready_event_def engines_ok_def osdp_piv_pd_reply_pending_def
        osdp_bio_pd_reply_pending_def flag_defs ISSET_FLAG_def dev_zero_def osdp_pd.defs osdp_dev.defs pd_zero_def bio_fine_def)
  then show ?thesis using pd_decode_stops [of ?pd "\<lambda>_ _. 0" "[0x60]" 1] by (simp add: ready_event_def)
qed



end
