(* ===== verification/App_Exchange.thy ===== *)
theory App_Exchange
  imports Pd_Security Cp_Link
begin

text \<open>
  Application to application: what one side's codec writes for a command or an event, the other
  side's decoder hands to its application as it was.  The two theorems join the CP's command
  builder with the PD's decoder, and the PD's reply builder with the CP's.
\<close>

subsection \<open>Fields\<close>

definition padded :: "nat \<Rightarrow> nat \<Rightarrow> bytes \<Rightarrow> bool" where
  "padded n k bs \<longleftrightarrow> k \<le> n \<and> (\<exists>ds. length ds = k \<and> bs = ds @ replicate (n - k) 0)"

lemma padded_array:
  assumes "padded n k bs"
  shows "event_array n (array_read k bs) = bs" "event_array n (take k (array_read k bs @ rest)) = bs"
    "p = length pre \<Longrightarrow> event_array n (bytes_at p k (pre @ array_read k bs @ rest)) = bs"
proof -
  obtain ds where ds: "length ds = k" "bs = ds @ replicate (n - k) 0" "k \<le> n" using assms by (auto simp: padded_def)
  have r: "array_read k bs = ds" using ds by (simp add: array_read_def)
  have e: "event_array n ds = bs" using ds by (simp add: event_array_def write_at_def)
  show "event_array n (array_read k bs) = bs" "event_array n (take k (array_read k bs @ rest)) = bs"
    "p = length pre \<Longrightarrow> event_array n (bytes_at p k (pre @ array_read k bs @ rest)) = bs"
    using e r ds by (simp_all add: bytes_at_def)
qed

definition is_byte :: "int \<Rightarrow> bool" where "is_byte x \<longleftrightarrow> 0 \<le> x \<and> x < 256"

lemma is_byte_uint [simp]: "is_byte x \<Longrightarrow> uint (word_of_int x :: u8) = x"
  by (simp add: is_byte_def unsigned_of_int take_bit_int_eq_self)

lemma read_u16 [simp]: "length as = p \<Longrightarrow> bread_u16_le (as @ u16_le v @ cs) p = (v, p + 2)"
  using le16.rd_prefix [where v = v and as = as and cs = cs] by simp

lemma read_u32 [simp]: "length as = p \<Longrightarrow> bread_u32_le (as @ u32_le v @ cs) p = (v, p + 4)"
  using le32.rd_prefix [where v = v and as = as and cs = cs] by simp

lemma read_u24 [simp]: "length as = p \<Longrightarrow> unat v < 2 ^ 24 \<Longrightarrow> bread_u24_le (as @ u24_le v @ cs) p = (v, p + 3)"
  using le24.rd_prefix [of v as cs] by simp

subsection \<open>Commands\<close>

text \<open>A command the wire carries in full.\<close>

fun wire_form :: "osdp_cmd_u \<Rightarrow> bool" where
  "wire_form (OSDP_CMD_OUTPUT c) \<longleftrightarrow> is_byte (output_control_code c)"
| "wire_form (OSDP_CMD_LED c) \<longleftrightarrow>
     is_byte (ledp_on_color (led_temporary c)) \<and> is_byte (ledp_off_color (led_temporary c)) \<and>
     is_byte (ledp_on_color (led_permanent c)) \<and> is_byte (ledp_off_color (led_permanent c)) \<and>
     ledp_timer_count (led_permanent c) = 0"
| "wire_form (OSDP_CMD_BUZZER c) \<longleftrightarrow> is_byte (buzzer_control_code c)"
| "wire_form (OSDP_CMD_TEXT c) \<longleftrightarrow> is_byte (text_control_code c) \<and> padded 32 (unat (text_length c)) (text_data c)"
| "wire_form (OSDP_CMD_TDSET c) \<longleftrightarrow> True"
| "wire_form (OSDP_CMD_COMSET c) \<longleftrightarrow> comset_address c < 0x7F"
| "wire_form (OSDP_CMD_MFG c) \<longleftrightarrow> unat (mfg_vendor_code c) < 2 ^ 24 \<and> padded 64 (unat (mfg_length c)) (mfg_data c)"
| "wire_form (OSDP_CMD_BIOREAD c) \<longleftrightarrow> is_byte (bioread_type c) \<and> is_byte (bioread_format c)"
| "wire_form (OSDP_CMD_BIOMATCH c) \<longleftrightarrow> is_byte (biomatch_type c) \<and> is_byte (biomatch_format c) \<and>
     padded 128 (unat (biomatch_length c)) (biomatch_data c)"
| "wire_form (OSDP_CMD_KEYSET k) \<longleftrightarrow> keyset_type k = 1 \<and> padded 32 16 (keyset_data k)"
| "wire_form _ \<longleftrightarrow> False"

text \<open>What the PD's decoder makes of the data block of a command code.\<close>

definition parse_command :: "int \<Rightarrow> bytes \<Rightarrow> int \<Rightarrow> osdp_cmd_u" where
  "parse_command c buf len =
     (if c = CMD_OUT then parse_output buf else if c = CMD_LED then parse_led buf
      else if c = CMD_BUZ then parse_buzzer buf else if c = CMD_TEXT then parse_text buf
      else if c = CMD_TDSET then parse_tdset buf else if c = CMD_COMSET then OSDP_CMD_COMSET (parse_comset buf)
      else if c = CMD_MFG then OSDP_CMD_MFG (parse_mfg buf len) else if c = CMD_BIOREAD then parse_bioread buf
      else if c = CMD_BIOMATCH then OSDP_CMD_BIOMATCH (parse_biomatch buf)
      else OSDP_CMD_KEYSET \<lparr>keyset_type = buf ! 0, keyset_length = buf ! 1, keyset_data = event_array 32 (bytes_at 2 16 buf)\<rparr>)"

lemma parse_payload:
  assumes "cp_payload cp u = (c, Some data)" "wire_form u"
  shows "parse_command c (data @ rest) (int (length data)) = u"
proof (cases u)
  case (OSDP_CMD_OUTPUT x)
  then show ?thesis using assms read_u16 [of "[output_no x, int_byte (output_control_code x)]" 2 "output_timer_count x" rest]
    by (auto simp: parse_command_def parse_output_def)
next
  case (OSDP_CMD_LED x)
  then show ?thesis
    using assms read_u16 [of "[led_reader x, led_number x] @ led_params (led_temporary x)" 7
      "ledp_timer_count (led_temporary x)" "led_params (led_permanent x) @ rest"]
    by (auto simp: parse_command_def parse_led_def parse_led_params_def led_params_def u16_le_def)
next
  case (OSDP_CMD_BUZZER x)
  then show ?thesis using assms by (auto simp: parse_command_def parse_buzzer_def)
next
  case (OSDP_CMD_TEXT x)
  then show ?thesis using assms padded_array(3) [of 32 "unat (text_length x)" "text_data x" 6
     "[text_reader x, int_byte (text_control_code x), text_temp_time x, text_offset_row x, text_offset_col x, text_length x]" rest]
    by (auto simp: parse_command_def parse_text_def)
next
  case (OSDP_CMD_TDSET x)
  then show ?thesis using assms read_u16 [of "[]" 0 "tdset_year x" "[tdset_month x, tdset_day x, tdset_hour x, tdset_minute x, tdset_second x] @ rest"]
    by (auto simp: parse_command_def parse_tdset_def u16_le_def)
next
  case (OSDP_CMD_COMSET x)
  then show ?thesis using assms read_u32 [of "[comset_address x]" 1 "comset_baud_rate x" rest]
    by (auto simp: parse_command_def parse_comset_def)
next
  case (OSDP_CMD_MFG x)
  then have l: "unat (mfg_length x) \<le> 64" using assms by (auto simp: padded_def)
  have "(word_of_int (int (length data) - 3) :: u8) = mfg_length x"
    using assms OSDP_CMD_MFG l by (auto simp: le24.enc_length)
  then show ?thesis
    using assms OSDP_CMD_MFG l read_u24 [of "[]" 0 "mfg_vendor_code x" "array_read (unat (mfg_length x)) (mfg_data x) @ rest"]
      padded_array(3) [of 64 "unat (mfg_length x)" "mfg_data x" 3 "u24_le (mfg_vendor_code x)" rest]
    by (auto simp: parse_command_def parse_mfg_def Let_def le24.enc_length)
next
  case (OSDP_CMD_BIOREAD x)
  then show ?thesis using assms by (auto simp: parse_command_def parse_bioread_def)
next
  case (OSDP_CMD_BIOMATCH x)
  then show ?thesis
    using assms read_u16 [of "[biomatch_reader x, int_byte (biomatch_type x), int_byte (biomatch_format x), biomatch_quality x]" 4
      "biomatch_length x" "array_read (unat (biomatch_length x)) (biomatch_data x) @ rest"]
      padded_array(3) [of 128 "unat (biomatch_length x)" "biomatch_data x" 6 "[biomatch_reader x, int_byte (biomatch_type x),
        int_byte (biomatch_format x), biomatch_quality x] @ u16_le (biomatch_length x)" rest]
    by (auto simp: parse_command_def parse_biomatch_def Let_def le16.enc_length split: if_splits)
next
  case (OSDP_CMD_KEYSET x)
  then have "data = [1, 16] @ array_read 16 (keyset_data x)" "keyset_length x = 16" "keyset_type x = 1" "c = CMD_KEYSET"
    using assms by (auto simp: keyset_payload_def split: if_splits)
  then show ?thesis
    using assms OSDP_CMD_KEYSET padded_array(3) [of 32 16 "keyset_data x" 2 "[1, 16]" rest]
    by (auto simp: parse_command_def)
qed (use assms in auto)

text \<open>
  \<open>handed pd u r\<close>: the application was called with \<open>u\<close>, once and with nothing else, and its
  verdict decides between a NAK and another reply.
\<close>

definition handed :: "('w, 'z) osdp_dev_scheme \<Rightarrow> (osdp_cmd \<Rightarrow> 'w \<Rightarrow> int \<times> osdp_cmd \<times> 'w) \<Rightarrow> osdp_cmd_u
    \<Rightarrow> ('w, 'z) osdp_dev_scheme \<Rightarrow> bool" where
  "handed pd cb u pd' \<longleftrightarrow> pd_app pd' = snd (snd (cb (wire_cmd u) (pd_app pd))) \<and>
     (pd_reply_id pd' = REPLY_NAK \<longleftrightarrow> fst (cb (wire_cmd u) (pd_app pd)) \<noteq> 0)"

lemma callback_handed:
  assumes "command_callback (pd_cb q) = Some cb" "validate_command q u"
  obtains cmd q' where "do_command_callback (wire_cmd u) q = (fst (cb (wire_cmd u) (pd_app q)) = 0, cmd, q')"
    "pd_app q' = snd (snd (cb (wire_cmd u) (pd_app q)))" "pd_cmd_id q' = pd_cmd_id q"
    "fst (cb (wire_cmd u) (pd_app q)) \<noteq> 0 \<Longrightarrow> pd_reply_id q' = REPLY_NAK"
proof -
  obtain r cmd w where r: "cb (wire_cmd u) (pd_app q) = (r, cmd, w)" by (metis prod_cases3)
  have v: "validate_command q (cmd_u (wire_cmd u))" using assms(2) by (simp add: wire_cmd_def)
  show thesis
    by (rule that [of cmd "if r = 0 then osdp_metrics_report OSDP_METRIC_COMMAND (q\<lparr>pd_app := w\<rparr>)
           else set_nak_code (pd_nak_code_from_callback r) (q\<lparr>pd_app := w, pd_reply_id := REPLY_NAK\<rparr>)"])
      (simp_all add: do_command_callback_def v pd_call_app_def assms(1) r set_nak_code_def osdp_metrics_report_def)
qed

lemma translate_not_nak: "pd_translate_event ev = Some r \<Longrightarrow> r \<noteq> REPLY_NAK"
proof -
  have "status_reply t \<noteq> REPLY_NAK" for t by (cases t) simp_all
  then show "pd_translate_event ev = Some r \<Longrightarrow> r \<noteq> REPLY_NAK" by (cases ev) (auto split: if_splits)
qed

lemma inline_or_ack_kept: "pd_app (snd (pd_inline_or_ack q)) = pd_app q" "pd_reply_id (snd (pd_inline_or_ack q)) \<noteq> REPLY_NAK"
  "fst (pd_inline_or_ack q) = OSDP_PD_ERR_NONE"
proof -
  show "fst (pd_inline_or_ack q) = OSDP_PD_ERR_NONE" by (simp add: pd_inline_or_ack_def Let_def case_prod_beta)
  show "pd_app (snd (pd_inline_or_ack q)) = pd_app q"
    by (simp add: pd_inline_or_ack_def pd_take_inline_reply_def Let_def case_prod_beta split: list.split)
  show "pd_reply_id (snd (pd_inline_or_ack q)) \<noteq> REPLY_NAK"
    using translate_not_nak
    by (auto simp: pd_inline_or_ack_def pd_take_inline_reply_def Let_def case_prod_beta split: list.split option.split)
qed

lemma ack_kept: "pd_app (snd (pd_ack q)) = pd_app q" "pd_reply_id (snd (pd_ack q)) \<noteq> REPLY_NAK" "fst (pd_ack q) = OSDP_PD_ERR_NONE"
  by (simp_all add: pd_ack_def)

text \<open>The application called, and what the decoder does with its verdict.\<close>

lemma verdict_handed:
  assumes "command_callback (pd_cb q) = Some cb" "validate_command q u"
    and "\<And>cmd p. pd_app (snd (ok cmd p)) = pd_app p \<and> pd_reply_id (snd (ok cmd p)) \<noteq> REPLY_NAK \<and> fst (ok cmd p) \<noteq> OSDP_PD_ERR_GENERIC"
    and "\<And>p. pd_app (bad p) = pd_app p \<and> pd_reply_id (bad p) = pd_reply_id p"
    and "(let (t, cmd, p) = do_command_callback (wire_cmd u) q
          in if \<not> t then (OSDP_PD_ERR_REPLY, bad p) else ok cmd p) = (r, p')"
  shows "handed q cb u p' \<and> r \<noteq> OSDP_PD_ERR_GENERIC"
proof -
  obtain cmd q' where d: "do_command_callback (wire_cmd u) q = (fst (cb (wire_cmd u) (pd_app q)) = 0, cmd, q')"
    "pd_app q' = snd (snd (cb (wire_cmd u) (pd_app q)))"
    "fst (cb (wire_cmd u) (pd_app q)) \<noteq> 0 \<Longrightarrow> pd_reply_id q' = REPLY_NAK"
    using callback_handed [OF assms(1,2)] by metis
  show ?thesis
  proof (cases "fst (cb (wire_cmd u) (pd_app q)) = 0")
    case True
    then have "(r, p') = ok cmd q'" using assms(5) by (simp add: d(1))
    then show ?thesis using assms(3) [of cmd q'] d(2) True by (metis fst_conv snd_conv handed_def)
  next
    case False
    then show ?thesis using assms(4) [of q'] assms(5) d by (auto simp: handed_def)
  qed
qed

lemma decode_handed:
  fixes q :: "('w, 'z) osdp_dev_scheme"
  assumes u: "cp_payload cp u = (c, Some data)" "wire_form u"
    and q: "pd_cmd_id q = c" "command_callback (pd_cb q) = Some cb" "validate_command q u"
    and cap: "c \<in> {CMD_MFG, CMD_COMSET} \<or> pd_cap_allows q (Some u)" "c = CMD_KEYSET \<longrightarrow> sc_is_active q"
  obtains r p where "pd_command_body crc q (data @ rest) (int (length data)) = Some (r, p)" "handed q cb u p"
    "r \<noteq> OSDP_PD_ERR_GENERIC"
proof -
  have parse: "parse_command c (data @ rest) (int (length data)) = u" by (rule parse_payload [OF u])
  have n: "pd_cap_allows q None = pd_cap_allows q (Some u)" if "c \<in> {CMD_BIOREAD, CMD_BIOMATCH, CMD_KEYSET}"
    using that q(1) by (auto simp: pd_cap_allows_def Let_def)
  have capok: "pd_cmd_cap_ok (Some u) q = (True, q)" if "c \<notin> {CMD_MFG, CMD_COMSET}" using cap that by (simp add: pd_cmd_cap_ok_def)
  have capok': "pd_cmd_cap_ok None q = (True, q)" if "c \<in> {CMD_BIOREAD, CMD_BIOMATCH, CMD_KEYSET}"
    using cap(1) n [OF that] that by (auto simp: pd_cmd_cap_ok_def)
  have ans: "handed q cb u p \<and> r \<noteq> OSDP_PD_ERR_GENERIC" if "pd_decode_answered u q = (r, p)" for r p
    by (rule verdict_handed [OF q(2,3), of "\<lambda>_. pd_inline_or_ack" id])
      (use that in \<open>auto simp: inline_or_ack_kept pd_decode_answered_def case_prod_beta split: if_splits\<close>)
  have ack: "handed q cb u p \<and> r \<noteq> OSDP_PD_ERR_GENERIC" if "pd_decode_acked u q = (r, p)" "c \<notin> {CMD_MFG, CMD_COMSET}" for r p
    by (rule verdict_handed [OF q(2,3), of "\<lambda>_. pd_ack" id])
      (use that capok in \<open>auto simp: ack_kept pd_decode_acked_def case_prod_beta split: if_splits\<close>)
  have rec: "handed q cb u p \<and> r \<noteq> OSDP_PD_ERR_GENERIC"
    if "pd_decode_records pr n q (data @ rest) (int n) = (r, p)" "c \<notin> {CMD_MFG, CMD_COMSET}" "length data = n" "0 < n" "pr data = u"
    for pr n r p
    by (rule verdict_handed [OF q(2,3), of "\<lambda>_ p. if pd_cmd_id p = CMD_OUT then pd_inline_or_ack p else pd_ack p" id])
      (use that capok in \<open>auto simp: ack_kept inline_or_ack_kept pd_decode_records_def case_prod_beta Let_def split: if_splits\<close>)
  have bio: "handed q cb u p \<and> r \<noteq> OSDP_PD_ERR_GENERIC"
    if "pd_decode_bioread q (data @ rest) 4 = (r, p)" "c = CMD_BIOREAD" "parse_bioread (data @ rest) = u" for r p
    using that ans [of r p] capok' by (simp add: pd_decode_bioread_def)
  have match: "handed q cb u p \<and> r \<noteq> OSDP_PD_ERR_GENERIC"
    if "pd_decode_biomatch q (data @ rest) (6 + int (unat (biomatch_length m))) = (r, p)" "c = CMD_BIOMATCH" "u = OSDP_CMD_BIOMATCH m"
      "parse_biomatch (data @ rest) = m" "unat (biomatch_length m) \<le> 128" for r p m
    using that ans [of r p] capok' by (simp add: pd_decode_biomatch_def Let_def)
  have com: "handed q cb u p \<and> r \<noteq> OSDP_PD_ERR_GENERIC"
    if "pd_decode_comset q (data @ rest) 5 = (r, p)" "u = OSDP_CMD_COMSET m" "parse_comset (data @ rest) = m" "comset_address m < 0x7F" for r p m
    by (rule verdict_handed [OF q(2,3), of "\<lambda>cmd p. (OSDP_PD_ERR_NONE,
          (set_comset_pending (case cmd_u cmd of OSDP_CMD_COMSET c \<Rightarrow> c | _ \<Rightarrow> m) p)\<lparr>pd_reply_id := REPLY_COM\<rparr>)" id])
      (use that in \<open>auto simp: pd_decode_comset_def Let_def set_comset_pending_def case_prod_beta split: if_splits\<close>)
  have key: "handed q cb u p \<and> r \<noteq> OSDP_PD_ERR_GENERIC"
    if "pd_decode_keyset q (data @ rest) 18 = (r, p)" "c = CMD_KEYSET" "data = [1, 16] @ bs"
      "u = OSDP_CMD_KEYSET \<lparr>keyset_type = 1, keyset_length = 16, keyset_data = event_array 32 (bytes_at 2 16 (data @ rest))\<rparr>" for r p bs
  proof -
    define z where "z = set_nak_code OSDP_PD_NAK_SC_COND q"
    have z: "command_callback (pd_cb z) = Some cb" "pd_app z = pd_app q" "pd_cmd_id z = pd_cmd_id q"
      using q(2) by (simp_all add: z_def set_nak_code_def)
    have "cap_at z = cap_at q" by (rule ext) (simp add: z_def set_nak_code_def cap_at_def)
    then have v: "validate_command z u" "pd_cap_allows z None"
      using q(1,3) cap(1) that(2) z(3) by (simp_all add: validate_command_def pd_cap_allows_def Let_def)
    have ck: "pd_cmd_cap_ok None z = (True, z)" using v(2) by (simp add: pd_cmd_cap_ok_def)
    have a: "sc_is_active z" using cap(2) that(2) active_pk [of z q] by (simp add: z_def)
    have n6: "pd_app (set_nak_code k y) = pd_app y" for k and y :: "('w, 'z) osdp_dev_scheme" by (simp add: set_nak_code_def)
    have "handed z cb u p \<and> r \<noteq> OSDP_PD_ERR_GENERIC"
      by (rule verdict_handed [OF z(1) v(1), of "\<lambda>cmd p. (OSDP_PD_ERR_NONE, p\<lparr>pd_reply_id := REPLY_ACK, pd_pending :=
            array_read 16 (keyset_data (case cmd_u cmd of OSDP_CMD_KEYSET k \<Rightarrow> k | _ \<Rightarrow> \<lparr>keyset_type = 1, keyset_length = 16,
              keyset_data = event_array 32 (bytes_at 2 16 (1 # 16 # bs @ rest))\<rparr>))\<rparr>)" "set_nak_code OSDP_PD_NAK_SC_COND"])
        (use that(1,3,4) z(1) a in \<open>auto simp: pd_decode_keyset_def z_def [symmetric] ck Let_def case_prod_beta n6 split: if_splits\<close>)
    then show ?thesis using z(2) by (simp add: handed_def)
  qed
  have "\<exists>r p. pd_command_body crc q (data @ rest) (int (length data)) = Some (r, p) \<and> handed q cb u p \<and> r \<noteq> OSDP_PD_ERR_GENERIC"
  proof (cases u)
    case (OSDP_CMD_OUTPUT x)
    then have d: "c = CMD_OUT" "length data = 4" "parse_output data = u"
      using u parse_payload [OF u, of "[]"] by (auto simp: le16.enc_length parse_command_def)
    obtain r p where "pd_decode_records parse_output 4 q (data @ rest) 4 = (r, p)" by (rule prod.exhaust)
    then show ?thesis using rec [of parse_output 4 r p] d q(1) by (auto simp: pd_command_body_def)
  next
    case (OSDP_CMD_LED x)
    then have d: "c = CMD_LED" "length data = 14" "parse_led data = u"
      using u parse_payload [OF u, of "[]"] by (auto simp: le16.enc_length parse_command_def led_params_def)
    obtain r p where "pd_decode_records parse_led 14 q (data @ rest) 14 = (r, p)" by (rule prod.exhaust)
    then show ?thesis using rec [of parse_led 14 r p] d q(1) by (auto simp: pd_command_body_def)
  next
    case (OSDP_CMD_BUZZER x)
    then have d: "c = CMD_BUZ" "length data = 5" "parse_buzzer data = u"
      using u parse_payload [OF u, of "[]"] by (auto simp: parse_command_def)
    obtain r p where "pd_decode_records parse_buzzer 5 q (data @ rest) 5 = (r, p)" by (rule prod.exhaust)
    then show ?thesis using rec [of parse_buzzer 5 r p] d q(1) by (auto simp: pd_command_body_def)
  next
    case (OSDP_CMD_TEXT x)
    then have d: "c = CMD_TEXT" "length data = 6 + unat (text_length x)" "data ! 5 = text_length x" "unat (text_length x) \<le> 32"
      "parse_text (data @ rest) = u"
      using u parse by (auto simp: parse_command_def padded_def)
    have g: "(data @ rest) ! 5 = text_length x" using d(2,3) by (simp add: nth_append)
    obtain r p where "pd_decode_acked u q = (r, p)" by (rule prod.exhaust)
    then show ?thesis using ack [of r p] d g q(1) by (auto simp: pd_command_body_def)
  next
    case (OSDP_CMD_TDSET x)
    then have d: "c = CMD_TDSET" "length data = 7" "parse_tdset (data @ rest) = u"
      using u parse by (auto simp: parse_command_def le16.enc_length)
    obtain r p where "pd_decode_acked u q = (r, p)" by (rule prod.exhaust)
    then show ?thesis using ack [of r p] d q(1) by (auto simp: pd_command_body_def)
  next
    case (OSDP_CMD_COMSET x)
    then have d: "c = CMD_COMSET" "length data = 5" using u by (auto simp: le32.enc_length)
    have d3: "parse_comset (data @ rest) = x" using OSDP_CMD_COMSET d(1) parse by (simp add: parse_command_def)
    obtain r p where "pd_decode_comset q (data @ rest) 5 = (r, p)" by (rule prod.exhaust)
    then show ?thesis using com [of r p x] d d3 q(1) u OSDP_CMD_COMSET by (auto simp: pd_command_body_def)
  next
    case (OSDP_CMD_MFG x)
    then have d0: "c = CMD_MFG" "length data = 3 + unat (mfg_length x)" "unat (mfg_length x) \<le> 64"
      using u by (auto simp: padded_def le24.enc_length)
    have "parse_mfg (data @ rest) (int (length data)) = x" using OSDP_CMD_MFG d0(1) parse by (simp add: parse_command_def)
    note d = d0 this
    obtain r p where "pd_decode_answered u q = (r, p)" by (rule prod.exhaust)
    then show ?thesis using ans [of r p] d q(1) OSDP_CMD_MFG by (auto simp: pd_command_body_def)
  next
    case (OSDP_CMD_BIOREAD x)
    then have d: "c = CMD_BIOREAD" "length data = 4" "parse_bioread (data @ rest) = u"
      using u parse by (auto simp: parse_command_def)
    obtain r p where "pd_decode_bioread q (data @ rest) 4 = (r, p)" by (rule prod.exhaust)
    then show ?thesis using bio [of r p] d q(1) by (auto simp: pd_command_body_def)
  next
    case (OSDP_CMD_BIOMATCH x)
    then have d0: "c = CMD_BIOMATCH" "length data = 6 + unat (biomatch_length x)" "unat (biomatch_length x) \<le> 128"
      using u by (auto simp: padded_def le16.enc_length split: if_splits)
    have "parse_biomatch (data @ rest) = x" using OSDP_CMD_BIOMATCH d0(1) parse by (simp add: parse_command_def)
    note d = d0 this
    obtain r p where "pd_decode_biomatch q (data @ rest) (6 + int (unat (biomatch_length x))) = (r, p)" by (rule prod.exhaust)
    then show ?thesis using match [of x r p] d q(1) OSDP_CMD_BIOMATCH by (auto simp: pd_command_body_def)
  next
    case (OSDP_CMD_KEYSET x)
    then have d: "c = CMD_KEYSET" "data = [1, 16] @ array_read 16 (keyset_data x)"
      using u by (auto simp: keyset_payload_def split: if_splits)
    then have k: "u = OSDP_CMD_KEYSET \<lparr>keyset_type = 1, keyset_length = 16, keyset_data = event_array 32 (bytes_at 2 16 (data @ rest))\<rparr>"
      using parse by (simp add: parse_command_def)
    obtain r p where "pd_decode_keyset q (data @ rest) 18 = (r, p)" by (rule prod.exhaust)
    then show ?thesis using key [of r p] d k q(1) by (auto simp: pd_command_body_def)
  qed (use u in auto)
  then show thesis using that by blast
qed

lemma cp_command_laid_out:
  fixes cp :: "('w, 'z) osdp_dev_scheme"
  assumes b: "cp_build_command cp (Some (wire_cmd u)) buf room = (len, out, cp')" "0 < len"
    and id: "cmd_needs_payload (pd_cmd_id cp)"
    and room: "room \<le> int (length buf)"
    and smb: "\<And>s. osdp_phy_packet_get_smb cp buf = Some s \<Longrightarrow> s + 2 \<le> off" and off: "off = osdp_phy_packet_get_data_offset cp buf"
  obtains data rest where "cp_payload cp u = (pd_cmd_id cp, Some data)" "len = 1 + int (length data)"
    "drop off out = int_byte (pd_cmd_id cp) # data @ rest"
proof -
  define smb where "smb = osdp_phy_packet_get_smb cp buf"
  define buf' where "buf' = buf[off := int_byte (pd_cmd_id cp)]"
  have rp: "\<not> room - int off \<le> 0" using b by (auto simp: cp_build_command_def Let_def off split: if_splits)
  obtain code bs where pl: "cp_payload cp u = (code, bs)" by (rule prod.exhaust)
  obtain len1 b1 pd1 where body: "cp_command_body cp (Some (wire_cmd u)) smb off buf' (room - int off - 1) = (len1, b1, pd1)"
    by (metis prod_cases3)
  have fin: "len1 = len" "out = put_session_block len1 smb pd1 b1"
    using b rp body by (auto simp: cp_build_command_def Let_def off [symmetric] smb_def [symmetric] buf'_def [symmetric] split: if_splits)
  have nc: "pd_cmd_id cp \<notin> {CMD_POLL, CMD_LSTAT, CMD_ISTAT, CMD_OSTAT, CMD_RSTAT, CMD_ABORT}" "pd_cmd_id cp \<notin> {CMD_PIVDATA, CMD_GENAUTH, CMD_CRAUTH}"
    "pd_cmd_id cp \<noteq> CMD_ID" "pd_cmd_id cp \<noteq> CMD_CAP" "pd_cmd_id cp \<noteq> CMD_ACURXSIZE" "pd_cmd_id cp \<noteq> CMD_KEEPACTIVE"
    "pd_cmd_id cp \<noteq> CMD_FILETRANSFER" "pd_cmd_id cp \<noteq> CMD_XWR" "pd_cmd_id cp \<noteq> CMD_CHLNG" "pd_cmd_id cp \<noteq> CMD_SCRYPT"
    using id by (auto simp: cmd_needs_payload_def)
  have body2: "cp_command_body cp (Some (wire_cmd u)) smb off buf' (room - int off - 1) =
      (case (code, bs) of (_, None) \<Rightarrow> (OSDP_CP_ERR_GENERIC, buf', cp)
       | (code, Some data) \<Rightarrow> if code \<noteq> pd_cmd_id cp then (OSDP_CP_ERR_GENERIC, buf', cp)
           else let (ret, b) = put_command_data data off buf' (room - int off - 1) in (ret, b, cp))"
    unfolding cp_command_body_def Let_def by (simp only: nc simp_thms if_False option.case wire_cmd_def osdp_cmd.select_convs pl)
  obtain data where d0: "bs = Some data" using body b(2) fin(1) by (cases bs) (simp_all add: body2)
  have d1: "code = pd_cmd_id cp" using body b(2) fin(1) by (simp add: body2 d0 split: if_splits)
  have "\<not> room - int off - 1 < int (length data)" using body b(2) fin(1)
    by (auto simp: body2 d0 d1 put_command_data_def)
  then have d: "bs = Some data" "code = pd_cmd_id cp" "length data \<le> nat (room - int off - 1)"
      "len1 = 1 + int (length data)" "b1 = write_at (off + 1) data buf'" "pd1 = cp"
    using body by (simp_all add: body2 d0 d1 put_command_data_def)
  have fits: "off + 1 + length data \<le> length buf" using d(3) room rp by linarith
  have "drop off b1 = int_byte (pd_cmd_id cp) # data @ drop (off + 1 + length data) buf"
    using fits by (simp add: d(5) buf'_def write_at_def take_Suc_conv_app_nth drop_update_cancel)
  moreover have "drop off out = drop off b1"
    using smb fits by (auto simp: fin(2) put_session_block_def smb_def d(5) buf'_def split: option.split)
  ultimately show thesis using that [of data "drop (off + 1 + length data) buf"] pl d fin(1) by auto
qed

lemma cap_allows_cong:
  assumes "cap_at x = cap_at y" "pd_cmd_id x = pd_cmd_id y"
  shows "pd_cap_allows x u = pd_cap_allows y u"
proof -
  have "cap_has_items x = cap_has_items y" "cap_covers x = cap_covers y"
    by (simp_all add: fun_eq_iff cap_has_items_def cap_covers_def assms(1) split: option.split)
  then show ?thesis by (simp add: pd_cap_allows_def assms)
qed

text \<open>
  C5.  A command that the PD does not refuse by itself crosses the line unchanged.  Let the CP's
  codec write an application command in wire form, and let the PD have a command callback, let the
  command in plain text or in its session, find the command's fields valid, have the capability
  the command asks for (MFG and COMSET ask for none), and be in a session if it is a CMD_KEYSET.
  Then the PD's decoder hands the application callback that very command, once and alone, wherever
  the packet and security headers leave the data and whatever follows it; and the reply becomes a
  NAK exactly when the callback refuses.
\<close>

theorem command_reaches_app:
  fixes cp :: "('c, 'y) osdp_dev_scheme" and pd :: "('w, 'z) osdp_dev_scheme"
  assumes b: "cp_build_command cp (Some (wire_cmd u)) buf room = (len, out, cp')" "0 < len"
    and cp: "cmd_needs_payload (pd_cmd_id cp)" "room \<le> int (length buf)"
      "case osdp_phy_packet_get_smb cp buf of None \<Rightarrow> True | Some s \<Rightarrow> s + 2 \<le> osdp_phy_packet_get_data_offset cp buf"
    and u: "wire_form u"
    and pd: "command_callback (pd_cb pd) = Some cb" "validate_command pd u"
      "pd_cmd_allowed (pd\<lparr>pd_cmd_id := pd_cmd_id cp\<rparr>)"
      "pd_cmd_id cp \<in> {CMD_MFG, CMD_COMSET} \<or> pd_cap_allows (pd\<lparr>pd_cmd_id := pd_cmd_id cp\<rparr>) (Some u)"
      "pd_cmd_id cp = CMD_KEYSET \<longrightarrow> sc_is_active pd"
  shows "\<exists>r pd'. pd_decode_command crc pd (drop (osdp_phy_packet_get_data_offset cp buf) out) len = Some (r, pd') \<and> handed pd cb u pd'"
proof -
  have "\<And>s. osdp_phy_packet_get_smb cp buf = Some s \<Longrightarrow> s + 2 \<le> osdp_phy_packet_get_data_offset cp buf" using cp(3) by auto
  then obtain data rest where d: "cp_payload cp u = (pd_cmd_id cp, Some data)" "len = 1 + int (length data)"
      "drop (osdp_phy_packet_get_data_offset cp buf) out = int_byte (pd_cmd_id cp) # data @ rest"
    using cp_command_laid_out [OF b cp(1,2) _ refl] by metis
  define q where "q = (pd_nak OSDP_PD_NAK_RECORD pd)\<lparr>pd_cmd_id := pd_cmd_id cp\<rparr>"
  have byte: "uint (int_byte (pd_cmd_id cp) :: u8) = pd_cmd_id cp" using cp(1) by (auto simp: cmd_needs_payload_def)
  have q: "pd_cmd_id q = pd_cmd_id cp" "command_callback (pd_cb q) = Some cb" "pd_app q = pd_app pd" "pd_flags q = pd_flags pd"
    using pd(1) by (simp_all add: q_def pd_nak_def set_nak_code_def)
  have act: "sc_is_active q = sc_is_active pd" using q(4) by (simp add: flag_defs ISSET_FLAG_def)
  have caps: "cap_at q = cap_at pd" "cap_at (pd\<lparr>pd_cmd_id := pd_cmd_id cp\<rparr>) = cap_at pd"
    by (simp_all add: q_def pd_nak_def set_nak_code_def cap_at_def fun_eq_iff)
  have same: "pd_cap_allows q w = pd_cap_allows (pd\<lparr>pd_cmd_id := pd_cmd_id cp\<rparr>) w" for w
    by (rule cap_allows_cong) (simp_all add: caps q(1))
  have v: "validate_command q u" "pd_cmd_id q \<in> {CMD_MFG, CMD_COMSET} \<or> pd_cap_allows q (Some u)"
    using pd(2,4) caps q(1) by (simp_all only: same) (simp_all add: validate_command_def)
  have v34: "pd_cmd_allowed q" "pd_cmd_id cp = CMD_KEYSET \<longrightarrow> sc_is_active q"
    using pd(3,5) q(1,4) act by (simp_all add: pd_cmd_allowed_def flag_defs ISSET_FLAG_def)
  obtain r p where r: "pd_command_body crc q (data @ rest) (int (length data)) = Some (r, p)" "handed q cb u p"
      "r \<noteq> OSDP_PD_ERR_GENERIC"
    using decode_handed [OF d(1) u q(1,2) v(1) _ v34(2), where rest = rest and crc = crc] v(2) q(1) by metis
  have "pd_decode_command crc pd (int_byte (pd_cmd_id cp) # data @ rest) (1 + int (length data)) = Some (r, p)"
    using r(1,3) v34(1) by (simp add: pd_decode_command_def byte q_def [symmetric] Let_def)
  moreover have "handed pd cb u p" using r(2) q(3) by (simp add: handed_def)
  ultimately show ?thesis by (auto simp: d(2,3))
qed

subsection \<open>Events\<close>

text \<open>An event the wire carries in full, and the bytes it takes behind the reply byte.\<close>

fun status_cap :: "osdp_status_report_type \<Rightarrow> nat option" where
  "status_cap OSDP_STATUS_REPORT_INPUT = Some OSDP_PD_CAP_CONTACT_STATUS_MONITORING"
| "status_cap OSDP_STATUS_REPORT_OUTPUT = Some OSDP_PD_CAP_OUTPUT_CONTROL"
| "status_cap OSDP_STATUS_REPORT_LOCAL = None"
| "status_cap OSDP_STATUS_REPORT_READER = Some OSDP_PD_CAP_READERS"

definition status_count :: "'z osdp_pd_scheme \<Rightarrow> osdp_status_report_type \<Rightarrow> int" where
  "status_count pd t = (case status_cap t of None \<Rightarrow> 2 | Some c \<Rightarrow> uint (num_items (cap_at pd c)))"

fun event_form :: "'z osdp_pd_scheme \<Rightarrow> osdp_event \<Rightarrow> bool" where
  "event_form pd (OSDP_EVENT_CARDREAD e) \<longleftrightarrow> is_byte (cardread_reader_no e) \<and> is_byte (cardread_format e) \<and>
     cardread_direction e = 0 \<and> padded 64 (BITS_TO_BYTES (cardread_length e)) (cardread_data e)"
| "event_form pd (OSDP_EVENT_KEYPRESS e) \<longleftrightarrow> is_byte (keypress_reader_no e) \<and> 0 \<le> keypress_length e \<and>
     padded 64 (nat (keypress_length e)) (keypress_data e)"
| "event_form pd (OSDP_EVENT_MFGREP e) \<longleftrightarrow> unat (mfgrep_vendor_code e) < 2 ^ 24 \<and>
     padded 128 (unat (mfgrep_length e)) (mfgrep_data e)"
| "event_form pd (OSDP_EVENT_STATUS s) \<longleftrightarrow> status_nr_entries s = status_count pd (status_type s) \<and>
     padded 64 (nat (status_nr_entries s)) (status_report s)"
| "event_form pd (OSDP_EVENT_MFGSTATR e) \<longleftrightarrow> padded 128 (unat (mfgstat_length e)) (mfgstat_data e)"
| "event_form pd (OSDP_EVENT_MFGERRR e) \<longleftrightarrow> padded 128 (unat (mfgstat_length e)) (mfgstat_data e)"
| "event_form pd (OSDP_EVENT_BIOREADR e) \<longleftrightarrow> is_byte (bioreadr_status e) \<and> is_byte (bioreadr_type e) \<and>
     \<not> is_bioreadr_multipart pd \<and> padded 256 (unat (bioreadr_length e)) (bioreadr_data e)"
| "event_form pd (OSDP_EVENT_BIOMATCHR e) \<longleftrightarrow> is_byte (biomatchr_status e)"
| "event_form pd _ \<longleftrightarrow> False"

fun event_size :: "osdp_event \<Rightarrow> int" where
  "event_size (OSDP_EVENT_CARDREAD e) = 4 + int (BITS_TO_BYTES (cardread_length e))"
| "event_size (OSDP_EVENT_KEYPRESS e) = 2 + keypress_length e"
| "event_size (OSDP_EVENT_MFGREP e) = 3 + uint (mfgrep_length e)"
| "event_size (OSDP_EVENT_STATUS s) = status_nr_entries s"
| "event_size (OSDP_EVENT_MFGSTATR e) = uint (mfgstat_length e)"
| "event_size (OSDP_EVENT_MFGERRR e) = uint (mfgstat_length e)"
| "event_size (OSDP_EVENT_BIOREADR e) = 6 + uint (bioreadr_length e)"
| "event_size (OSDP_EVENT_BIOMATCHR e) = 3"
| "event_size _ = 0"

lemma status_back: "pd_translate_event (OSDP_EVENT_STATUS s) = Some r \<Longrightarrow> reply_backing_event_type r = 4"
  by (cases "status_type s") (auto simp: reply_backing_event_type_def)

lemma event_payload_size:
  assumes "event_form pd ev" "pd_translate_event ev = Some (pd_reply_id pd)" "event_size ev \<le> room"
  obtains data where "pd_event_payload pd ev room = Some (Some data)" "int (length data) = event_size ev"
proof (cases ev)
  case (OSDP_EVENT_STATUS s)
  have n: "status_nr_entries s = status_count pd (status_type s)" "status_nr_entries s \<le> 64" "status_nr_entries s \<le> room"
      "status_reply (status_type s) = pd_reply_id pd"
    using assms OSDP_EVENT_STATUS by (auto simp: padded_def)
  have p: "0 \<le> status_nr_entries s" by (simp add: n(1) status_count_def split: option.split)
  have "status_entries pd (pd_reply_id pd) s room = Some (array_read (nat (status_nr_entries s)) (status_report s))"
    using n by (cases "status_type s") (auto simp: status_entries_def status_count_def Let_def)
  then show thesis using that p OSDP_EVENT_STATUS by simp
qed (use assms that in \<open>auto simp: keypad_payload_def raw_payload_def mfgrep_payload_def mfgstat_payload_def
    bioreadr_payload_def biomatchr_payload_def le16.enc_length le24.enc_length padded_def\<close>)

lemma event_backed:
  assumes "event_form pd ev" "pd_translate_event ev = Some r"
  shows "reply_backing_event_type r = osdp_event_type ev" "0 \<le> reply_backing_event_type r"
    "uint (int_byte r :: u8) = r"
proof -
  have "uint (int_byte (status_reply t) :: u8) = status_reply t" for t by (cases t) simp_all
  then show "reply_backing_event_type r = osdp_event_type ev" "0 \<le> reply_backing_event_type r" "uint (int_byte r :: u8) = r"
    using assms status_back [of _ r] by (cases ev; auto simp: reply_backing_event_type_def split: if_splits)+
qed

text \<open>An event rebuilt from its fields.\<close>

lemma rebuilt:
  "d = cardread_direction e1 \<Longrightarrow> \<lparr>cardread_reader_no = cardread_reader_no e1, cardread_format = cardread_format e1, cardread_direction = d, cardread_length = cardread_length e1, cardread_data = cardread_data e1\<rparr> = e1"
  "\<lparr>keypress_reader_no = keypress_reader_no e2, keypress_length = keypress_length e2, keypress_data = keypress_data e2\<rparr> = e2"
  "\<lparr>mfgrep_vendor_code = mfgrep_vendor_code e3, mfgrep_length = mfgrep_length e3, mfgrep_data = mfgrep_data e3\<rparr> = e3"
  "\<lparr>mfgstat_length = mfgstat_length e4, mfgstat_data = mfgstat_data e4\<rparr> = e4"
  "\<lparr>bioreadr_reader = bioreadr_reader e5, bioreadr_status = bioreadr_status e5, bioreadr_type = bioreadr_type e5, bioreadr_quality = bioreadr_quality e5, bioreadr_length = bioreadr_length e5, bioreadr_data = bioreadr_data e5\<rparr> = e5"
  "\<lparr>biomatchr_reader = biomatchr_reader e6, biomatchr_status = biomatchr_status e6, biomatchr_score = biomatchr_score e6\<rparr> = e6"
  "\<lparr>status_type = status_type e7, status_nr_entries = status_nr_entries e7, status_report = status_report e7\<rparr> = e7"
  by simp_all

lemma parse_event:
  assumes "event_form pd ev" "pd_event_payload pd ev room = Some (Some data)" "pd_translate_event ev = Some r"
    and "pd_reply_id pd = r" "pd_reply_id cp = r" "\<not> is_bioreadr_multipart cp"
    and "\<And>t. status_count cp t = status_count pd t"
  shows "reply_data r cp (data @ rest) (int (length data)) = (OSDP_CP_ERR_NONE, cp_dispatch_event ev cp)"
proof (cases ev)
  case (OSDP_EVENT_CARDREAD e)
  let ?n = "BITS_TO_BYTES (cardread_length e)"
  have d: "data = [int_byte (cardread_reader_no e), int_byte (cardread_format e)] @ u16_le (cardread_length e) @ array_read ?n (cardread_data e)"
    "r = REPLY_RAW" "?n \<le> 64" using assms OSDP_EVENT_CARDREAD by (auto simp: raw_payload_def padded_def split: if_splits)
  have b: "bread_u16_le (data @ rest) 2 = (cardread_length e, 4)"
    using read_u16 [of "[int_byte (cardread_reader_no e), int_byte (cardread_format e)]" 2 "cardread_length e"
      "array_read ?n (cardread_data e) @ rest"] by (simp add: d(1))
  have a: "event_array 64 (bytes_at 4 ?n (data @ rest)) = cardread_data e"
    using assms(1) OSDP_EVENT_CARDREAD padded_array(3) [of 64 ?n "cardread_data e" 4
      "[int_byte (cardread_reader_no e), int_byte (cardread_format e)] @ u16_le (cardread_length e)" rest]
    by (simp add: d(1) le16.enc_length)
  have l: "length data = 4 + ?n" by (simp add: d(1) le16.enc_length)
  have f: "(data @ rest) ! 0 = int_byte (cardread_reader_no e)" "(data @ rest) ! 1 = int_byte (cardread_format e)" by (simp_all add: d(1))
  show ?thesis using assms(1) OSDP_EVENT_CARDREAD d(2,3) by (simp add: rebuilt reply_data_def decode_raw_def b a l f f [unfolded One_nat_def])
next
  case (OSDP_EVENT_KEYPRESS e)
  let ?n = "nat (keypress_length e)"
  have d: "data = [int_byte (keypress_reader_no e), int_byte (keypress_length e)] @ array_read ?n (keypress_data e)"
    "r = REPLY_KEYPAD" "0 \<le> keypress_length e" "keypress_length e \<le> 64"
    using assms OSDP_EVENT_KEYPRESS by (auto simp: keypad_payload_def padded_def split: if_splits)
  have a: "event_array 64 (bytes_at 2 ?n (data @ rest)) = keypress_data e"
    using assms(1) OSDP_EVENT_KEYPRESS padded_array(3) [of 64 ?n "keypress_data e" 2
      "[int_byte (keypress_reader_no e), int_byte (keypress_length e)]" rest] by (simp add: d(1))
  have l: "length data = 2 + ?n" by (simp add: d(1))
  have "is_byte (keypress_length e)" using d(3,4) by (simp add: is_byte_def)
  then have f: "(data @ rest) ! 0 = int_byte (keypress_reader_no e)" "uint ((data @ rest) ! 1) = keypress_length e" by (simp_all add: d(1))
  show ?thesis using assms(1) OSDP_EVENT_KEYPRESS d(2,3,4) by (simp add: rebuilt reply_data_def decode_keypad_def a l f f [unfolded One_nat_def])
next
  case (OSDP_EVENT_MFGREP e)
  let ?n = "unat (mfgrep_length e)"
  have d: "data = u24_le (mfgrep_vendor_code e) @ array_read ?n (mfgrep_data e)" "r = REPLY_MFGREP" "?n \<le> 128"
    using assms OSDP_EVENT_MFGREP by (auto simp: mfgrep_payload_def padded_def)
  have b: "bread_u24_le (data @ rest) 0 = (mfgrep_vendor_code e, 3)"
    using assms(1) OSDP_EVENT_MFGREP read_u24 [of "[]" 0 "mfgrep_vendor_code e" "array_read ?n (mfgrep_data e) @ rest"] by (simp add: d(1))
  have a: "event_array 128 (bytes_at 3 ?n (data @ rest)) = mfgrep_data e"
    using assms(1) OSDP_EVENT_MFGREP padded_array(3) [of 128 ?n "mfgrep_data e" 3 "u24_le (mfgrep_vendor_code e)" rest]
    by (simp add: d(1) le24.enc_length)
  have l: "length data = 3 + ?n" by (simp add: d(1) le24.enc_length)
  have "uint (mfgrep_length e) \<le> 128" using d(3) by (simp flip: nat_uint_eq)
  then show ?thesis using OSDP_EVENT_MFGREP d(2,3) by (simp add: rebuilt reply_data_def decode_mfgrep_def b a l)
next
  case (OSDP_EVENT_STATUS s)
  let ?n = "nat (status_nr_entries s)"
  have n: "status_nr_entries s = status_count pd (status_type s)" "status_nr_entries s \<le> 64" "status_reply (status_type s) = r"
      "padded 64 ?n (status_report s)"
    using assms OSDP_EVENT_STATUS by (auto simp: padded_def)
  have p: "0 \<le> status_nr_entries s" by (simp add: n(1) status_count_def split: option.split)
  have d: "data = array_read ?n (status_report s)"
    using assms(2,4) OSDP_EVENT_STATUS n(1,3)
    by (cases "status_type s") (auto simp: status_entries_def status_count_def Let_def split: if_splits)
  have l: "int (length data) = status_nr_entries s" using p by (simp add: d)
  have a: "event_array 64 (take ?n (data @ rest)) = status_report s" using padded_array(2) [OF n(4)] by (simp add: d)
  have "reply_data r cp (data @ rest) (int (length data)) = dispatch_status (status_type s) (status_nr_entries s) (data @ rest) cp"
    using n(1,2,3) assms(7) [of "status_type s"]
    by (cases "status_type s") (auto simp: reply_data_def decode_status_def l status_count_def)
  then show ?thesis using OSDP_EVENT_STATUS a by (simp add: dispatch_status_def rebuilt)
next
  case (OSDP_EVENT_MFGSTATR e)
  then have d: "data = array_read (unat (mfgstat_length e)) (mfgstat_data e)" "r = REPLY_MFGSTATR" "unat (mfgstat_length e) \<le> 128"
    using assms by (auto simp: mfgstat_payload_def padded_def)
  have "uint (mfgstat_length e) \<le> 128" using d(3) by (simp flip: nat_uint_eq)
  then show ?thesis using assms(1,5) OSDP_EVENT_MFGSTATR d(2) padded_array(2) [of 128 "unat (mfgstat_length e)" "mfgstat_data e" rest]
    by (simp add: rebuilt reply_data_def decode_mfgstat_def d(1))
next
  case (OSDP_EVENT_MFGERRR e)
  then have d: "data = array_read (unat (mfgstat_length e)) (mfgstat_data e)" "r = REPLY_MFGERRR" "unat (mfgstat_length e) \<le> 128"
    using assms by (auto simp: mfgstat_payload_def padded_def)
  have "uint (mfgstat_length e) \<le> 128" using d(3) by (simp flip: nat_uint_eq)
  then show ?thesis using assms(1,5) OSDP_EVENT_MFGERRR d(2) padded_array(2) [of 128 "unat (mfgstat_length e)" "mfgstat_data e" rest]
    by (simp add: rebuilt reply_data_def decode_mfgstat_def d(1))
next
  case (OSDP_EVENT_BIOREADR e)
  let ?n = "unat (bioreadr_length e)"
  have d: "data = [bioreadr_reader e, int_byte (bioreadr_status e), int_byte (bioreadr_type e), bioreadr_quality e]
      @ u16_le (bioreadr_length e) @ array_read ?n (bioreadr_data e)" "r = REPLY_BIOREADR" "?n \<le> 256"
    using assms OSDP_EVENT_BIOREADR by (auto simp: bioreadr_payload_def padded_def split: if_splits)
  have b: "bread_u16_le (data @ rest) 4 = (bioreadr_length e, 6)"
    using read_u16 [of "[bioreadr_reader e, int_byte (bioreadr_status e), int_byte (bioreadr_type e), bioreadr_quality e]" 4
      "bioreadr_length e" "array_read ?n (bioreadr_data e) @ rest"] by (simp add: d(1))
  have a: "event_array 256 (bytes_at 6 ?n (data @ rest)) = bioreadr_data e"
    using assms(1) OSDP_EVENT_BIOREADR padded_array(3) [of 256 ?n "bioreadr_data e" 6 "[bioreadr_reader e, int_byte (bioreadr_status e),
      int_byte (bioreadr_type e), bioreadr_quality e] @ u16_le (bioreadr_length e)" rest] by (simp add: d(1) le16.enc_length)
  have l: "length data = 6 + ?n" by (simp add: d(1) le16.enc_length)
  have f: "(data @ rest) ! 0 = bioreadr_reader e" "(data @ rest) ! 1 = int_byte (bioreadr_status e)"
    "(data @ rest) ! 2 = int_byte (bioreadr_type e)" "(data @ rest) ! 3 = bioreadr_quality e" by (simp_all add: d(1))
  show ?thesis using assms(1,6) OSDP_EVENT_BIOREADR d(2,3) by (simp add: rebuilt reply_data_def decode_bioreadr_def b a l f f [unfolded One_nat_def])
next
  case (OSDP_EVENT_BIOMATCHR e)
  then show ?thesis using assms by (auto simp: rebuilt reply_data_def biomatchr_payload_def)
qed (use assms in auto)

lemma bioreadr_event:
  assumes "pd_translate_event ev = Some REPLY_BIOREADR"
  obtains e where "ev = OSDP_EVENT_BIOREADR e"
proof -
  have "status_reply t \<noteq> REPLY_BIOREADR" for t by (cases t) simp_all
  then show thesis using assms that by (cases ev) (auto split: if_splits)
qed

lemma pd_reply_laid_out:
  fixes pd :: "('w, 'z) osdp_dev_scheme"
  assumes ev: "pd_active_event pd = Some ev" "pd_translate_event ev = Some (pd_reply_id pd)" "event_form pd ev"
    and b: "pd_build_reply pd buf room = Some (len, out, pd')"
    and room: "event_size ev < room - int off" "room \<le> int (length buf)"
    and smb: "\<And>s. osdp_phy_packet_get_smb pd buf = Some s \<Longrightarrow> s + 2 \<le> off" and off: "off = osdp_phy_packet_get_data_offset pd buf"
  obtains data rest where "pd_event_payload pd ev (room - int off - 1) = Some (Some data)" "len = 1 + int (length data)"
    "drop off out = int_byte (pd_reply_id pd) # data @ rest" "pd' = pd"
proof -
  define smb where "smb = osdp_phy_packet_get_smb pd buf"
  define buf' where "buf' = buf[off := int_byte (pd_reply_id pd)]"
  obtain data where d: "pd_event_payload pd ev (room - int off - 1) = Some (Some data)" "int (length data) = event_size ev"
    using event_payload_size [OF ev(3,2), of "room - int off - 1"] room(1) by auto
  have rp: "\<not> room - int off \<le> 0" using room(1) d(2) by linarith
  note t = event_backed [OF ev(3,2)]
  have backed: "pd_reply_backed pd" using t(1) ev(1) by (simp add: pd_reply_backed_def Let_def)
  have nr: "pd_reply_id pd \<noteq> REPLY_ACK" "pd_reply_id pd \<noteq> REPLY_BUSY" "pd_reply_id pd \<noteq> REPLY_PDID"
    "pd_reply_id pd \<noteq> REPLY_PDCAP" "pd_reply_id pd \<noteq> REPLY_COM" "pd_reply_id pd \<noteq> REPLY_NAK"
    "pd_reply_id pd \<noteq> REPLY_PIVDATAR" "pd_reply_id pd \<noteq> REPLY_GENAUTHR" "pd_reply_id pd \<noteq> REPLY_CRAUTHR"
    "pd_reply_id pd \<noteq> REPLY_FTSTAT" "pd_reply_id pd \<noteq> REPLY_XRD" "pd_reply_id pd \<noteq> REPLY_CCRYPT"
    "pd_reply_id pd \<noteq> REPLY_RMAC_I"
    using t(2) by (auto simp: reply_backing_event_type_def)
  have mp: "\<not> (pd_reply_id pd = REPLY_BIOREADR \<and> is_bioreadr_multipart pd)"
    by (metis bioreadr_event ev(2,3) event_form.simps(7))
  have fits: "\<not> room - int off - 1 < int (length data)" "off + 1 + length data \<le> length buf" using d(2) room by linarith+
  define b1 where "b1 = write_at (off + 1) data buf'"
  have body: "pd_reply_body pd smb off buf' (room - int off - 1) = Some (Some (1 + int (length data)), b1, pd)"
    unfolding pd_reply_body_def Let_def
    by (simp only: nr mp t(2) fits(1) if_False simp_thms if_True ev(1) option.case d(1) put_reply_data_def prod.case b1_def)
  have out: "len = 1 + int (length data)" "out = put_reply_session_block len smb pd b1" "pd' = pd"
    using b rp body backed by (auto simp: pd_build_reply_def Let_def off [symmetric] smb_def [symmetric] buf'_def [symmetric])
  have "drop off b1 = int_byte (pd_reply_id pd) # data @ drop (off + 1 + length data) buf"
    using fits(2) by (simp add: b1_def buf'_def write_at_def take_Suc_conv_app_nth drop_update_cancel)
  moreover have "drop off out = drop off b1"
    using smb fits(2) by (auto simp: out(2) put_reply_session_block_def smb_def b1_def buf'_def split: option.split)
  ultimately show thesis using that [of data "drop (off + 1 + length data) buf"] d out by simp
qed

text \<open>
  C6.  An event crosses the line unchanged.  When the PD replies with a pending event in wire form
  and there is room for it, what its codec writes is taken by the CP's decoder as success and
  handed to the event callback as that very event, wherever the headers leave the data and
  whatever follows it, as long as the two sides agree on the capabilities status reports count.
\<close>

theorem event_reaches_cp:
  fixes pd :: "('w, 'z) osdp_dev_scheme" and cp :: "('c, 'y) osdp_dev_scheme"
  assumes ev: "pd_active_event pd = Some ev" "pd_translate_event ev = Some (pd_reply_id pd)" "event_form pd ev"
    and b: "pd_build_reply pd buf room = Some (len, out, pd')"
    and room: "event_size ev < room - int (osdp_phy_packet_get_data_offset pd buf)" "room \<le> int (length buf)"
      "case osdp_phy_packet_get_smb pd buf of None \<Rightarrow> True | Some s \<Rightarrow> s + 2 \<le> osdp_phy_packet_get_data_offset pd buf"
    and cp: "\<not> is_bioreadr_multipart cp" "status_count cp = status_count pd"
  shows "cp_decode_response cp (drop (osdp_phy_packet_get_data_offset pd buf) out) len =
    (OSDP_CP_ERR_NONE, cp_dispatch_event ev (cp\<lparr>pd_reply_id := pd_reply_id pd\<rparr>))"
proof -
  have "\<And>s. osdp_phy_packet_get_smb pd buf = Some s \<Longrightarrow> s + 2 \<le> osdp_phy_packet_get_data_offset pd buf" using room(3) by auto
  then obtain data rest where d: "pd_event_payload pd ev (room - int (osdp_phy_packet_get_data_offset pd buf) - 1) = Some (Some data)"
      "len = 1 + int (length data)" "drop (osdp_phy_packet_get_data_offset pd buf) out = int_byte (pd_reply_id pd) # data @ rest"
    using pd_reply_laid_out [OF ev b room(1,2) _ refl] by metis
  have r: "reply_data (pd_reply_id pd) (cp\<lparr>pd_reply_id := pd_reply_id pd\<rparr>) (data @ rest) (int (length data)) =
      (OSDP_CP_ERR_NONE, cp_dispatch_event ev (cp\<lparr>pd_reply_id := pd_reply_id pd\<rparr>))"
  proof (rule parse_event [OF ev(3) d(1) ev(2) refl])
    show "\<not> is_bioreadr_multipart (cp\<lparr>pd_reply_id := pd_reply_id pd\<rparr>)" using cp(1) by (simp add: flag_defs ISSET_FLAG_def)
    show "status_count (cp\<lparr>pd_reply_id := pd_reply_id pd\<rparr>) t = status_count pd t" for t
      using fun_cong [OF cp(2), of t] by (simp add: status_count_def cap_at_def split: option.splits)
  qed simp
  show ?thesis using r event_backed(3) [OF ev(3,2)] by (simp add: cp_decode_response_def Let_def d(2,3))
qed

subsection \<open>Both ways on concrete devices\<close>

definition beep_example :: osdp_cmd_u where
  "beep_example = OSDP_CMD_BUZZER \<lparr>buzzer_reader = 0, buzzer_control_code = 2, buzzer_on_count = 1,
     buzzer_off_count = 1, buzzer_rep_count = 3\<rparr>"

definition beep_cp_example :: "unit osdp_dev" where
  "beep_cp_example = (dev_zero no_callbacks ())\<lparr>pd_cmd_id := CMD_BUZ\<rparr>"

text \<open>A PD whose application keeps the commands it is given, and whose capabilities are all one.\<close>

definition keep_command :: "osdp_cmd \<Rightarrow> osdp_cmd list \<Rightarrow> int \<times> osdp_cmd \<times> osdp_cmd list" where
  "keep_command cmd w = (0, cmd, w @ [cmd])"

definition beep_pd_example :: "osdp_cmd list osdp_dev" where
  "beep_pd_example = (dev_zero (no_callbacks\<lparr>command_callback := Some keep_command\<rparr>) [])\<lparr>
     pd_cap := replicate 17 \<lparr>function_code = 0, compliance_level = 1, num_items = 1\<rparr>\<rparr>"

theorem command_reaches_app_witness:
  "\<exists>r pd'. pd_decode_command (\<lambda>_ _. 0) beep_pd_example (drop 5 (fst (snd (cp_build_command beep_cp_example
      (Some (wire_cmd beep_example)) (replicate 16 0) 16)))) 6 = Some (r, pd') \<and> pd_app pd' = [wire_cmd beep_example]"
proof -
  obtain len out cp' where b: "cp_build_command beep_cp_example (Some (wire_cmd beep_example)) (replicate 16 0) 16 = (len, out, cp')"
    by (metis prod_cases3)
  have h: "osdp_phy_packet_get_data_offset beep_cp_example (replicate 16 0) = 5" "osdp_phy_packet_get_smb beep_cp_example (replicate 16 0) = None"
    "pd_cmd_id beep_cp_example = CMD_BUZ"
    by (simp_all add: osdp_phy_packet_get_data_offset_def osdp_phy_packet_get_smb_def has_ctl_def pkt_control_def PKT_HDR_def
        beep_cp_example_def flag_defs ISSET_FLAG_def)
  have l: "len = 6" using b
    by (simp add: cp_build_command_def h cp_command_body_def beep_example_def wire_cmd_def put_command_data_def Let_def)
  have "\<exists>r pd'. pd_decode_command (\<lambda>_ _. 0) beep_pd_example (drop 5 out) len = Some (r, pd') \<and>
      handed beep_pd_example keep_command beep_example pd'"
    using command_reaches_app [OF b, where pd = beep_pd_example and cb = keep_command and crc = "\<lambda>_ _. 0"]
    by (simp add: h l cmd_needs_payload_def beep_example_def is_byte_def beep_pd_example_def validate_command_def cap_at_def
        pd_cmd_allowed_def flag_defs ISSET_FLAG_def pd_cap_allows_def cap_has_items_def)
  then show ?thesis using l by (auto simp: b handed_def keep_command_def beep_pd_example_def)
qed

definition key_event_example :: osdp_event where
  "key_event_example = OSDP_EVENT_KEYPRESS \<lparr>keypress_reader_no = 0, keypress_length = 1, keypress_data = 7 # replicate 63 0\<rparr>"

definition key_pd_example :: "unit osdp_dev" where
  "key_pd_example = (dev_zero no_callbacks ())\<lparr>pd_active_event := Some key_event_example, pd_reply_id := REPLY_KEYPAD\<rparr>"

text \<open>A CP whose application keeps the events it is given.\<close>

definition key_cp_example :: "osdp_event list osdp_dev" where
  "key_cp_example = dev_zero (no_callbacks\<lparr>event_callback := Some (\<lambda>_ ev w. (0, w @ [ev]))\<rparr>) []"

theorem event_reaches_cp_witness:
  "\<exists>len out pd'. pd_build_reply key_pd_example (replicate 16 0) 16 = Some (len, out, pd') \<and>
     pd_app (snd (cp_decode_response key_cp_example (drop 5 out) len)) = [key_event_example]"
proof -
  have h: "osdp_phy_packet_get_data_offset key_pd_example (replicate 16 0) = 5" "osdp_phy_packet_get_smb key_pd_example (replicate 16 0) = None"
    "pd_reply_id key_pd_example = REPLY_KEYPAD" "pd_active_event key_pd_example = Some key_event_example"
    by (simp_all add: osdp_phy_packet_get_data_offset_def osdp_phy_packet_get_smb_def has_ctl_def pkt_control_def PKT_HDR_def
        key_pd_example_def flag_defs ISSET_FLAG_def)
  have "pd_build_reply key_pd_example (replicate 16 0) 16 \<noteq> None"
    by (simp add: pd_build_reply_def h pd_reply_backed_def pd_reply_body_def reply_backing_event_type_def key_event_example_def
        keypad_payload_def put_reply_data_def Let_def split: prod.split option.split)
  then obtain len out pd' where b: "pd_build_reply key_pd_example (replicate 16 0) 16 = Some (len, out, pd')" by auto
  have "padded 64 (Suc 0) (7 # replicate 63 0)" by (simp add: padded_def exI [of _ "[7]"])
  then have e: "event_form key_pd_example key_event_example" "pd_translate_event key_event_example = Some (pd_reply_id key_pd_example)"
    by (simp_all add: h key_event_example_def is_byte_def)
  have k: "pd_cap key_cp_example = pd_cap key_pd_example"
    by (simp add: key_cp_example_def key_pd_example_def dev_zero_def osdp_pd.defs osdp_dev.defs)
  have "status_count key_cp_example = status_count key_pd_example" 
    by (rule ext) (simp add: status_count_def cap_at_def k split: option.split)
  moreover have "\<not> is_bioreadr_multipart key_cp_example" by (simp add: key_cp_example_def flag_defs ISSET_FLAG_def)
  ultimately have c: "\<not> is_bioreadr_multipart key_cp_example" "status_count key_cp_example = status_count key_pd_example" by auto
  have "cp_decode_response key_cp_example (drop 5 out) len =
      (OSDP_CP_ERR_NONE, cp_dispatch_event key_event_example (key_cp_example\<lparr>pd_reply_id := REPLY_KEYPAD\<rparr>))"
    using event_reaches_cp [OF h(4) e(2,1) b _ _ _ c] by (simp add: h key_event_example_def)
  then show ?thesis using b by (simp add: cp_dispatch_event_def key_cp_example_def osdp_metrics_report_def)
qed

end
