(* ===== verification/Spec2Isabelle.thy ===== *)
theory Spec2Isabelle
  imports Multipart_Transfer Phy_Session File_Exchange Cp_Link Pd_Security Pd_Ready App_Exchange
begin

text \<open>
  LibOSDP: the Open Supervised Device Protocol between a control panel (CP) and peripheral
  devices (PD) on a serial bus.  This library models the protocol engine under src/src/ and
  proves what makes its parts, and their composition, correct.

  \<^bold>\<open>How the program works.\<close>  One \<open>struct osdp_pd\<close> per link holds everything; a CP has one for each
  PD on its bus and all of them share the packet buffers and the channel of \<open>struct osdp\<close>.  An
  application drives either side by calling its refresh function.  On a CP, osdp_cp_refresh runs
  the protocol state machine of each PD (state_update): it picks a command, hands it to the link
  state machine (cp_phy_state_update), which builds it, sends it, waits for the reply and retries,
  and judges the result.  On a PD, osdp_pd_update reads one command, lets the application decide
  over it in a callback, and answers.  Below both lies the packet layer (osdp_phy.c): framing,
  check bytes, sequence numbers and, in a session, the secure channel (osdp_sc.c) over AES.
  Beside them stand three engines for payloads longer than a packet: file transfer, smart-card
  operations and biometric templates, all on the multi-part engine.

  \<^bold>\<open>Theories, from the bottom.\<close>
  \<^item> Prelude: bytes, buffers (\<open>write_at\<close>, \<open>bytes_at\<close>), lemma collections.
  \<^item> Wire: the byte codecs of osdp_common.h.  Ring_Buffer: the receive ring buffer of osdp_common.c.
  \<^item> Aes: crypto/tinyaes_src.c and the adapter crypto/tinyaes.c.
  \<^item> Multipart, Multipart_Transfer: osdp_multipart.c, and whole transfers between two of its ends.
  \<^item> Device: \<open>struct osdp_pd\<close>, flags, requests, link counters (osdp_metrics.c), channel and buffers.
    Commands: the structures of include/osdp.h.  App: the device together with its application.
  \<^item> Secure_Channel: osdp_sc.c.  Phy: osdp_phy.c; Phy_Framer, Phy_Packet and Phy_Session hold what is
    proved of its framer, of single packets and of packets in a session.
  \<^item> File_Transfer, File_Exchange: osdp_file.c.  Smartcard: osdp_piv.c.  Biometric: osdp_bio.c.
  \<^item> Cp_Build, Cp_Decode: commands out and replies in.  Cp_Phy: the link state machine.  Cp_State: the
    protocol state machine.  Cp_Api: the context and the exported functions.  All of osdp_cp.c.
    Cp_Frames, Cp_Security, Cp_Link: what these leave alone, their security, their progress.
  \<^item> Pd_Decode, Pd_Build, Pd_State: commands in, replies out, the refresh pass and the exported
    functions of osdp_pd.c.  Pd_Frames, Pd_Replies, Pd_Security, Pd_Ready: what these leave alone,
    which reply answers which command, security, and when a pass returns.
  \<^item> App_Exchange: a command and an event from one application to the other.

  \<^bold>\<open>Conventions.\<close>  A definition has the name of the C function it models.  A C function that changes
  the device behind its pointer takes the device and returns it; one that writes to a buffer takes
  the bytes and returns them.  A field of \<open>struct osdp_pd\<close> has the prefix \<open>pd_\<close>, of \<open>struct osdp\<close> \<open>ctx_\<close>.
  Fixed-width fields are words, \<open>int\<close> is \<open>int\<close>; a reply or command code is an \<open>int\<close>.  \<open>None\<close> as the result of a
  decoder or a state machine is a process that stops or runs off: \<open>BUG()\<close>, a division by zero, a
  copy of a negative length, or the decryption of a negative length, which \<open>size_t\<close> makes almost
  2^64 bytes.  The long C functions are split into one definition per case or stage, each mapped to
  its lines.  What the outside world does is data: the channel record holds the bytes the next
  receive calls return, the results of the next send calls, random numbers and the clock; a
  callback is a function on the application's state \<open>'w\<close>, whose type every theorem leaves open.
  Shared storage that the code relies on is kept shared: the union of the NAK code, the pending key
  and the pending link settings is one list of bytes (\<open>pd_pending\<close>), and the packet buffer pointer is a
  tag that selects the buffer a CP uses for both directions.

  \<^bold>\<open>Interfaces.\<close>  \<open>codec\<close> (Wire): a read after a write gives the value back; six instances.  \<open>byte_fifo\<close>
  (Ring_Buffer): a bounded first-in first-out queue of bytes, which the framer relies on.
  \<open>block_cipher\<close> (Aes): what the secure channel asks of a backend, discharged by the tinyaes adapter.
  \<open>handler_relation\<close> (Pd_Ready): a relation that every building block of the PD's command handlers
  respects holds of the whole decoder; its instance is \<open>kept\<close>, that a handler adds no event and leaves
  the engines well-formed.

  \<^bold>\<open>What is proved.\<close>
  \<^item> Security of a PD: a session opens only with a cryptogram that proves the key
    (\<open>pd_session_only_by_cryptogram\<close>), with ENFORCE_SECURE nothing else reaches the application
    (\<open>pd_enforce_secure_shields_app\<close>), the key changes only by a CMD_KEYSET that was
    acknowledged in a session, in the same pass or left over from an earlier one, which a forged
    packet can make the PD commit once more (\<open>pd_key_change_needs_session\<close>).  Of a CP: the same for going online and for the default key, as
    invariants of every step (Cp_Security).
  \<^item> Progress: a pass of the CP returns except for one kind of authenticated packet, and a command is
    sent a bounded number of times (Cp_Link).  A PD's refresh returns, after any calls of the
    application and any input, with three exceptions: it holds a notification or a key press of
    negative length, which a submission does not refuse; the packet at hand is of that kind; or it
    has not answered anything yet and the packet's security block leaves a length of \<open>- 6\<close>.  That the
    first and the last do stop it is proved as well (Pd_Ready).
  \<^item> Agreement of the two sides: the CP accepts every reply a PD picks (Pd_Replies), commands and
    events cross the link unchanged (App_Exchange), packets of a session round-trip with equal
    authentication codes (Phy_Session), the handshake agrees on keys, and whole files and
    templates arrive (File_Exchange, Biometric, Multipart_Transfer).
  \<^item> Memory: the framer, the multi-part receiver and the ring buffer never store outside their
    buffers, whatever arrives.  A store past the end of a buffer makes its list longer in this
    model, so that an unchanged length says that none happened.
  \<^item> Cryptography as functions: AES decryption undoes encryption, the message authentication code
    equals its definition, a cryptogram is accepted only if it deciphers to the random numbers.
    That keys cannot be guessed is not stated.

  \<^bold>\<open>Bounds and fuel.\<close>  The framer's scan for a start byte (\<open>phy_scan_start\<close>) has fuel 512, one more than the
  ring buffer can hold, and each round pops a byte.  The transfers \<open>mp_transfer\<close>, \<open>file_exchange\<close> and \<open>bio_deliver\<close>, which
  exist for the theorems only, are shown to end within as many exchanges as the payload has bytes.
  Every other loop is structural or has a termination proof.

  \<^bold>\<open>Not modelled.\<close>
  \<^item> Transparent reader mode (osdp_trs.c) is compiled out by default; its stubs are modelled.
  \<^item> Options off by default: zero-copy receive, packet and data tracing, static allocation.
  \<^item> Logging, packet capture and the names of PDs: pure output (osdp_diag.c).
  \<^item> The OpenSSL and mbedTLS backends: calls into libraries that are not part of the repository.
  \<^item> The submodule utils has no files here: its queues are lists, its crc16_itu_t is a parameter.
  \<^item> Allocation failures, and an application that calls back into the library from a callback.
  \<^item> The bindings for other languages, platform glue, examples and tests.
\<close>

end
